(* ===== verification/Smb2_Prelude.thy ===== *)
theory Smb2_Prelude
  imports Main "HOL-Library.Word"
begin

text \<open>
  What every component of the development shares: the machine integer types of the C code, the
  little-endian byte order of the SMB2 wire format, reading and writing a field of a byte buffer,
  and the collections of rewrite rules that carry the codec proofs.

  A C integer type \<open>uintN_t\<close> is the type of words of that width. A byte buffer is a list of
  \<open>u8\<close>; its length is the length the C code keeps beside the pointer.
\<close>

unbundle bit_operations_syntax

type_synonym u8 = "8 word"
type_synonym u16 = "16 word"
type_synonym u32 = "32 word"
type_synonym u64 = "64 word"
type_synonym bytes = "u8 list"

named_theorems field_io \<open>reading a field back from a buffer that was written field by field\<close>
named_theorems length_io \<open>buffer lengths\<close>

subsection \<open>Words and bits\<close>

lemma bit_word_high [simp]: "LENGTH('a) \<le> n \<Longrightarrow> \<not> bit x n" for x :: "'a::len word"
  using bit_imp_le_length [of x n] by auto

lemma word_less_take_bit: "x < 2 ^ k \<Longrightarrow> take_bit k x = x" for x :: "'a::len word"
  by (metis less_mask_eq take_bit_eq_mask)

lemma word_less_not_bit: "x < 2 ^ k \<Longrightarrow> k \<le> n \<Longrightarrow> \<not> bit x n" for x :: "'a::len word"
  by (metis word_less_take_bit bit_take_bit_iff not_le)

lemma word_less_iff_bits:
  "x < 2 ^ k \<longleftrightarrow> (\<forall>n. k \<le> n \<longrightarrow> \<not> bit x n)" if "k < LENGTH('a)" for x :: "'a::len word"
proof
  assume "\<forall>n. k \<le> n \<longrightarrow> \<not> bit x n"
  then have "x = take_bit k x"
    by (intro bit_word_eqI) (metis bit_take_bit_iff not_le)
  then show "x < 2 ^ k"
    using that by (metis and_mask_less' take_bit_eq_mask)
qed (use word_less_not_bit in blast)

lemma u8_bits_eqI:
  assumes "bit x 0 = bit y 0" "bit x 1 = bit y 1" "bit x 2 = bit y 2" "bit x 3 = bit y 3"
    "bit x 4 = bit y 4" "bit x 5 = bit y 5" "bit x 6 = bit y 6" "bit x 7 = bit y 7"
  shows "x = (y :: u8)"
proof (rule bit_word_eqI)
  fix n :: nat assume "n < LENGTH(8)"
  then have "n = 0 \<or> n = 1 \<or> n = 2 \<or> n = 3 \<or> n = 4 \<or> n = 5 \<or> n = 6 \<or> n = 7" by (simp; arith)
  then show "bit x n = bit y n" using assms by (elim disjE) simp_all
qed

subsection \<open>Little-endian fields\<close>

fun le_bytes :: "nat \<Rightarrow> 'a::len word \<Rightarrow> bytes" where
  "le_bytes 0 x = []"
| "le_bytes (Suc n) x = ucast x # le_bytes n (drop_bit 8 x)"

fun rd_le :: "bytes \<Rightarrow> 'a::len word" where
  "rd_le [] = 0"
| "rd_le (b # bs) = ucast b OR push_bit 8 (rd_le bs)"

definition le16 :: "u16 \<Rightarrow> bytes" where "le16 x = le_bytes 2 x"
definition le32 :: "u32 \<Rightarrow> bytes" where "le32 x = le_bytes 4 x"
definition le64 :: "u64 \<Rightarrow> bytes" where "le64 x = le_bytes 8 x"

lemma length_le_bytes [simp, length_io]: "length (le_bytes n x) = n"
  by (induction n arbitrary: x) auto

lemma length_le [simp, length_io]:
  "length (le16 x) = 2" "length (le32 y) = 4" "length (le64 z) = 8"
  by (simp_all add: le16_def le32_def le64_def)

lemma rd_le_bytes: "rd_le (le_bytes n x) = take_bit (8 * n) x"
  for x :: "'a::len word"
proof (induction n arbitrary: x)
  case (Suc n)
  show ?case
  proof (rule bit_word_eqI)
    fix i assume "i < LENGTH('a)"
    then show "bit (rd_le (le_bytes (Suc n) x) :: 'a word) i \<longleftrightarrow> bit (take_bit (8 * Suc n) x) i"
      by (cases "i < 8") (auto simp: Suc bit_simps not_less)
  qed
qed simp

lemma take_bit_word_len [simp]: "LENGTH('a) \<le> n \<Longrightarrow> take_bit n x = x" for x :: "'a::len word"
  by (rule bit_word_eqI) (simp add: bit_take_bit_iff)

lemma rd_le_word [simp]: "rd_le (le16 x) = x" "rd_le (le32 y) = y" "rd_le (le64 z) = z"
  by (simp_all add: le16_def le32_def le64_def rd_le_bytes)

lemma le_bytes_rd: "8 * length bs \<le> LENGTH('a) \<Longrightarrow> le_bytes (length bs) (rd_le bs :: 'a::len word) = bs"
proof (induction bs)
  case (Cons b bs)
  have "ucast (ucast b OR push_bit 8 (rd_le bs) :: 'a word) = b"
    using Cons.prems by (intro bit_word_eqI) (auto simp: bit_simps)
  moreover have "le_bytes (length bs) (drop_bit 8 (ucast b OR push_bit 8 (rd_le bs) :: 'a word))
      = le_bytes (length bs) (take_bit (LENGTH('a) - 8) (rd_le bs) :: 'a word)"
    by (rule arg_cong [where f = "le_bytes (length bs)"], rule bit_word_eqI) (auto simp: bit_simps)
  moreover have "le_bytes k (take_bit m y) = le_bytes k y" if "8 * k \<le> m" for k m and y :: "'a word"
    using that
  proof (induction k arbitrary: m y)
    case (Suc k)
    have "drop_bit 8 (take_bit m y) = take_bit (m - 8) (drop_bit 8 y)"
      using Suc.prems by (intro bit_word_eqI) (auto simp: bit_simps)
    with Suc.IH [of "m - 8" "drop_bit 8 y"] Suc.prems show ?case
      by (auto intro!: bit_word_eqI simp: bit_simps)
  qed simp
  ultimately show ?case using Cons by simp
qed simp

lemma le_rd [simp]:
  "length bs = 2 \<Longrightarrow> le16 (rd_le bs) = bs"
  "length bs = 4 \<Longrightarrow> le32 (rd_le bs) = bs"
  "length bs = 8 \<Longrightarrow> le64 (rd_le bs) = bs"
  using le_bytes_rd [of bs, where 'a = 16] le_bytes_rd [of bs, where 'a = 32]
    le_bytes_rd [of bs, where 'a = 64]
  by (auto simp: le16_def le32_def le64_def)

subsection \<open>A field of a buffer\<close>

definition put_at :: "nat \<Rightarrow> bytes \<Rightarrow> bytes \<Rightarrow> bytes" where
  "put_at off bs buf = take off buf @ bs @ drop (off + length bs) buf"

definition get_at :: "nat \<Rightarrow> nat \<Rightarrow> bytes \<Rightarrow> bytes" where
  "get_at off n buf = take n (drop off buf)"

lemma length_put_at [simp, length_io]:
  "off + length bs \<le> length buf \<Longrightarrow> length (put_at off bs buf) = length buf"
  by (simp add: put_at_def)

lemma length_get_at [simp, length_io]:
  "off + n \<le> length buf \<Longrightarrow> length (get_at off n buf) = n"
  by (simp add: get_at_def)

lemma get_put_same:
  "off + length bs \<le> length buf \<Longrightarrow> n = length bs \<Longrightarrow> get_at off n (put_at off bs buf) = bs"
  by (simp add: put_at_def get_at_def)

lemma get_put_before:
  "off' + n \<le> off \<Longrightarrow> off + length bs \<le> length buf \<Longrightarrow>
   get_at off' n (put_at off bs buf) = get_at off' n buf"
  by (simp add: put_at_def get_at_def take_drop min_absorb2)

lemma get_put_after:
  "off + length bs \<le> off' \<Longrightarrow> off + length bs \<le> length buf \<Longrightarrow>
   get_at off' n (put_at off bs buf) = get_at off' n buf"
  by (simp add: put_at_def get_at_def)

text \<open>Comparisons and sums of words as facts of natural numbers.\<close>

lemmas word_nat = word_less_nat_alt word_le_nat_alt unat_word_ariths unat_sub_if'

lemma unat_bound [simp]:
  "unat (a :: u8) < 256" "unat (b :: u16) < 65536" "unat (c :: u32) < 4294967296"
  "unat (d :: u64) < 18446744073709551616"
  using unsigned_less [of a] unsigned_less [of b] unsigned_less [of c] unsigned_less [of d] by simp_all

lemma unat_ucast_up [simp]:
  "LENGTH('a::len) \<le> LENGTH('b::len) \<Longrightarrow> unat (ucast (x :: 'a word) :: 'b word) = unat x"
  by (simp add: unsigned_ucast_eq take_bit_nat_eq_self less_le_trans [OF unsigned_less])

subsection \<open>Invariants of transition systems\<close>

locale preserved =
  fixes step :: "'s \<Rightarrow> 's \<Rightarrow> bool" and inv :: "'s \<Rightarrow> bool"
  assumes step_inv: "step s t \<Longrightarrow> inv s \<Longrightarrow> inv t"
begin

lemma reachable_inv: "step\<^sup>*\<^sup>* s t \<Longrightarrow> inv s \<Longrightarrow> inv t"
  by (induction rule: rtranclp_induct) (auto intro: step_inv)

end

end
