(* ===== verification/Smb2_Unicode.thy ===== *)
theory Smb2_Unicode
  imports Smb2_Prelude
begin

text \<open>
  \<^verbatim>\<open>lib/unicode.c\<close>: UTF-8 validation and the conversions between the application's UTF-8 names and the
  UTF-16LE names of the wire. A C string is the list of its bytes before the terminating NUL, so
  reading at \<open>[]\<close> reads the terminator. A UTF-16 buffer is its bytes in memory (little-endian units,
  as \<open>htole16\<close> leaves them). \<open>mem n\<close> says whether \<open>malloc\<close> of \<open>n\<close> bytes succeeds.
\<close>

subsection \<open>UTF-8 validation\<close>

text \<open>The number of leading one bits of a byte.\<close>

function l1 :: "u8 \<Rightarrow> nat" where
  "l1 c = (if bit c 7 then Suc (l1 (push_bit 1 c)) else 0)"
  by pat_completeness auto
termination
proof (relation "measure (\<lambda>c. card {n. bit c n})")
  fix c :: u8 assume c: "bit c 7"
  have "{n. bit (push_bit 1 c) n} \<subseteq> Suc ` ({n. bit c n} - {7})"
  proof
    fix n assume "n \<in> {n. bit (push_bit 1 c) n}"
    then have "n < LENGTH(8)" "1 \<le> n" "bit c (n - 1)"
      by (auto simp only: mem_Collect_eq bit_push_bit_iff possible_bit_word)
    then show "n \<in> Suc ` ({n. bit c n} - {7})" by (intro image_eqI [of _ _ "n - 1"]) auto
  qed
  then have "card {n. bit (push_bit 1 c) n} \<le> card (Suc ` ({n. bit c n} - {7}))"
    by (intro card_mono) auto
  also have "\<dots> = card ({n. bit c n} - {7})" by (simp add: card_image)
  also have "\<dots> < card {n. bit c n}" using c by (intro card_Diff1_less) auto
  finally show "(push_bit 1 c, c) \<in> measure (\<lambda>c. card {n. bit c n})" by simp
qed auto

declare l1.simps [simp del]

text \<open>The \<open>n\<close> continuation bytes of a sequence; reading the terminator fails the \<open>10......\<close> test.\<close>

fun utf8_tail :: "nat \<Rightarrow> u32 \<Rightarrow> bytes \<Rightarrow> (u32 \<times> bytes) option" where
  "utf8_tail 0 cp s = Some (cp, s)"
| "utf8_tail (Suc n) cp [] = None"
| "utf8_tail (Suc n) cp (c # s) =
     (if l1 c \<noteq> 1 then None
      else utf8_tail n (push_bit 6 cp OR (ucast c AND 0x3f)) s)"

text \<open>The overlong checks and the split of a code point into one or two UTF-16 units.\<close>

definition overlong :: "nat \<Rightarrow> u32 \<Rightarrow> bool" where
  "overlong l cp \<longleftrightarrow> l = 2 \<and> cp < 0x80 \<or> l = 3 \<and> cp < 0x800 \<or> l = 4 \<and> cp < 0x10000"

definition utf16_units :: "u32 \<Rightarrow> u16 list option" where
  "utf16_units cp =
     (if cp < 0xd800 \<or> cp - 0xe000 < 0x2000 then Some [ucast cp]
      else if cp < 0xe000 then None
      else if cp < 0x110000 then
        (let cp = cp - 0x10000 in
         Some [ucast (0xd800 OR drop_bit 10 cp), ucast (0xdc00 OR (cp AND 0x3ff))])
      else None)"

definition validate_utf8_cp :: "bytes \<Rightarrow> (u16 list \<times> bytes) option" where
  "validate_utf8_cp s =
     (case s of
        [] \<Rightarrow> Some ([0], [])
      | c # s \<Rightarrow>
        (let l = l1 c in
         if l = 0 then Some ([ucast c AND 0x7f], s)
         else if l = 1 then None
         else if l \<le> 4 then
           (case utf8_tail (l - 1) (ucast c AND drop_bit l 0x7f) s of
              None \<Rightarrow> None
            | Some (cp, s) \<Rightarrow>
              if overlong l cp then None
              else map_option (\<lambda>us. (us, s)) (utf16_units cp))
         else None))"

lemma utf8_tail_shorter: "utf8_tail n cp s = Some (cp', s') \<Longrightarrow> length s' \<le> length s"
  by (induction n cp s rule: utf8_tail.induct) (auto split: if_splits)

lemma validate_shorter: "validate_utf8_cp (c # s) = Some (us, s') \<Longrightarrow> length s' \<le> length s"
  by (auto simp: validate_utf8_cp_def Let_def dest: utf8_tail_shorter split: if_splits option.splits)

text \<open>
  The number of UTF-16 units of a string, \<open>None\<close> where the code returns -1. The loop runs while the
  current character is not the terminator.
\<close>

function validate_utf8_str :: "bytes \<Rightarrow> nat option" where
  "validate_utf8_str [] = Some 0"
| "validate_utf8_str (c # s) =
     (if c = 0 then Some 0
      else case validate_utf8_cp (c # s) of
             None \<Rightarrow> None
           | Some (us, s') \<Rightarrow> map_option ((+) (length us)) (validate_utf8_str s'))"
  by pat_completeness auto
termination by (relation "measure length") (auto dest!: validate_shorter)

subsection \<open>UTF-8 to UTF-16\<close>

record smb2_utf16 =
  u_len :: nat
  u_val :: bytes

definition le_units :: "u16 list \<Rightarrow> bytes" where
  "le_units us = concat (map le16 us)"

text \<open>
  The second pass: units are stored while fewer than \<open>len\<close> of them have been. The \<open>default\<close> branch of
  the code's \<open>switch\<close> (``won't happen'') stores nothing and goes on past the invalid sequence; the model
  has no result there, and \<open>utf8_to_utf16_loop_string\<close> shows that the branch is never taken.
\<close>

function utf8_to_utf16_loop :: "nat \<Rightarrow> nat \<Rightarrow> bytes \<Rightarrow> u16 list option" where
  "utf8_to_utf16_loop i len s =
     (if i < len then
        (case validate_utf8_cp s of
           None \<Rightarrow> None
         | Some (us, s') \<Rightarrow> if us = [] then None
            else map_option ((@) us) (utf8_to_utf16_loop (i + length us) len s'))
      else Some [])"
  by pat_completeness auto
termination by (relation "measure (\<lambda>(i, len, s). len - i)") (auto simp flip: length_greater_0_conv)

declare utf8_to_utf16_loop.simps [simp del]

definition smb2_utf8_to_utf16 :: "(nat \<Rightarrow> bool) \<Rightarrow> bytes \<Rightarrow> smb2_utf16 option" where
  "smb2_utf8_to_utf16 mem s =
     (case validate_utf8_str s of
        None \<Rightarrow> None
      | Some len \<Rightarrow>
        if \<not> mem (4 + 2 * len) then None
        else map_option (\<lambda>us. \<lparr>u_len = len, u_val = le_units us\<rparr>) (utf8_to_utf16_loop 0 len s))"

subsection \<open>UTF-16 to UTF-8\<close>

fun units_of :: "nat \<Rightarrow> bytes \<Rightarrow> u16 list" where
  "units_of 0 bs = []"
| "units_of (Suc n) bs = rd_le (take 2 bs) # units_of n (drop 2 bs)"

definition surrogate_pair :: "u32 \<Rightarrow> u32 \<Rightarrow> u32" where
  "surrogate_pair code trail = 0x10000 + push_bit 10 (code AND 0x3ff) + (trail AND 0x3ff)"

fun utf16_size :: "u16 list \<Rightarrow> nat" where
  "utf16_size [] = 0"
| "utf16_size (u # us) =
     (let code = ucast u :: u32 in
      if code < 0x80 then 1 + utf16_size us
      else if code < 0x800 then 2 + utf16_size us
      else if code < 0xd800 \<or> code - 0xe000 < 0x2000 then 3 + utf16_size us
      else if code < 0xdc00 then
        (case us of
           [] \<Rightarrow> 3
         | t # us' \<Rightarrow>
           (let trail = ucast t :: u32 in
            if trail - 0xdc00 < 0x400
            then (if surrogate_pair code trail < 0x10000 then 3 else 4) + utf16_size us'
            else 3 + utf16_size us))
      else 3 + utf16_size us)"

definition utf8_1 :: "u32 \<Rightarrow> bytes" where
  "utf8_1 code = [ucast code]"

definition utf8_2 :: "u32 \<Rightarrow> bytes" where
  "utf8_2 code = [ucast (0xc0 OR drop_bit 6 code), ucast (0x80 OR (code AND 0x3f))]"

definition utf8_3 :: "u32 \<Rightarrow> bytes" where
  "utf8_3 code = [ucast (0xe0 OR drop_bit 12 code), ucast (0x80 OR (drop_bit 6 code AND 0x3f)),
                  ucast (0x80 OR (code AND 0x3f))]"

definition utf8_4 :: "u32 \<Rightarrow> bytes" where
  "utf8_4 code = [ucast (0xf0 OR drop_bit 18 code), ucast (0x80 OR (drop_bit 12 code AND 0x3f)),
                  ucast (0x80 OR (drop_bit 6 code AND 0x3f)), ucast (0x80 OR (code AND 0x3f))]"

definition replacement_char :: bytes where
  "replacement_char = [0xef, 0xbf, 0xbd]"

text \<open>The bytes the conversion loop stores, in order.\<close>

fun utf16_to_utf8_loop :: "u16 list \<Rightarrow> bytes" where
  "utf16_to_utf8_loop [] = []"
| "utf16_to_utf8_loop (u # us) =
     (let code = ucast u :: u32 in
      if code < 0x80 then utf8_1 code @ utf16_to_utf8_loop us
      else if code < 0x800 then utf8_2 code @ utf16_to_utf8_loop us
      else if code < 0xd800 \<or> code - 0xe000 < 0x2000 then utf8_3 code @ utf16_to_utf8_loop us
      else if code < 0xdc00 then
        (case us of
           [] \<Rightarrow> replacement_char
         | t # us' \<Rightarrow>
           (let trail = ucast t :: u32 in
            if trail - 0xdc00 < 0x400
            then (let code = surrogate_pair code trail in
                  if code < 0x10000 then utf8_3 code else utf8_4 code) @ utf16_to_utf8_loop us'
            else replacement_char @ utf16_to_utf8_loop us))
      else replacement_char @ utf16_to_utf8_loop us)"

text \<open>
  The result is the whole allocated buffer, terminator included; \<open>junk\<close> is what \<open>malloc\<close> left in it.
\<close>

definition smb2_utf16_to_utf8 :: "(nat \<Rightarrow> bool) \<Rightarrow> u8 \<Rightarrow> bytes \<Rightarrow> nat \<Rightarrow> bytes option" where
  "smb2_utf16_to_utf8 mem junk utf16 utf16_len =
     (let us = units_of utf16_len utf16; utf8_len = 1 + utf16_size us in
      if \<not> mem utf8_len then None
      else let str = replicate (utf8_len - 1) junk @ [0] in
           Some (put_at 0 (utf16_to_utf8_loop us) str))"

text \<open>The buffer that was sized by \<open>utf16_size\<close> is filled exactly: every byte before the terminator is
  written, the terminator is not, and nothing is written behind it.\<close>

lemma utf16_loop_size: "length (utf16_to_utf8_loop us) = utf16_size us"
  by (induction us rule: utf16_to_utf8_loop.induct)
    (auto simp: Let_def utf8_1_def utf8_2_def utf8_3_def utf8_4_def replacement_char_def
      split: list.splits)

lemma utf16_to_utf8_eq:
  "smb2_utf16_to_utf8 mem junk utf16 n =
     (if mem (1 + utf16_size (units_of n utf16))
      then Some (utf16_to_utf8_loop (units_of n utf16) @ [0]) else None)"
  by (simp add: smb2_utf16_to_utf8_def Let_def put_at_def utf16_loop_size)

lemma units_of_le_units [simp]: "units_of (length us) (le_units us) = us"
  by (induction us) (simp_all add: le_units_def)

subsection \<open>Bits of a sequence\<close>

lemma l1_push:
  "l1 (push_bit k c) = (if k \<le> 7 \<and> bit c (7 - k) then Suc (l1 (push_bit (Suc k) c)) else 0)"
  by (subst l1.simps) (simp only: push_bit_push_bit plus_1_eq_Suc bit_push_bit_iff, simp)

lemma l1_iff:
  "l1 c = 0 \<longleftrightarrow> \<not> bit c 7"
  "l1 c = Suc 0 \<longleftrightarrow> bit c 7 \<and> \<not> bit c 6"
  "l1 c = 2 \<longleftrightarrow> bit c 7 \<and> bit c 6 \<and> \<not> bit c 5"
  "l1 c = 3 \<longleftrightarrow> bit c 7 \<and> bit c 6 \<and> bit c 5 \<and> \<not> bit c 4"
  "l1 c = 4 \<longleftrightarrow> bit c 7 \<and> bit c 6 \<and> bit c 5 \<and> bit c 4 \<and> \<not> bit c 3"
  using l1_push [of 0 c] l1_push [of 1 c] l1_push [of 2 c] l1_push [of 3 c] l1_push [of 4 c]
  by (simp_all del: push_bit_Suc add: numeral_eq_Suc)

text \<open>One sequence: what the decoder makes of the bytes, put together again, are the bytes.\<close>

definition cp2 :: "u8 \<Rightarrow> u8 \<Rightarrow> u32" where
  "cp2 c d = push_bit 6 (ucast c AND 0x1f) OR (ucast d AND 0x3f)"
definition cp3 :: "u8 \<Rightarrow> u8 \<Rightarrow> u8 \<Rightarrow> u32" where
  "cp3 c d e = push_bit 6 (push_bit 6 (ucast c AND 0xf) OR (ucast d AND 0x3f)) OR (ucast e AND 0x3f)"
definition cp4 :: "u8 \<Rightarrow> u8 \<Rightarrow> u8 \<Rightarrow> u8 \<Rightarrow> u32" where
  "cp4 c d e f = push_bit 6 (push_bit 6 (push_bit 6 (ucast c AND 0x7) OR (ucast d AND 0x3f))
     OR (ucast e AND 0x3f)) OR (ucast f AND 0x3f)"

lemma utf8_2_cp2:
  assumes "l1 c = 2" "l1 d = Suc 0"
  shows "utf8_2 (cp2 c d) = [c, d]"
  using assms unfolding l1_iff utf8_2_def cp2_def
  by (auto intro!: u8_bits_eqI simp: bit_simps)

lemma utf8_3_cp3:
  assumes "l1 c = 3" "l1 d = Suc 0" "l1 e = Suc 0"
  shows "utf8_3 (cp3 c d e) = [c, d, e]"
  using assms unfolding l1_iff utf8_3_def cp3_def
  by (auto intro!: u8_bits_eqI simp: bit_simps)

lemma utf8_4_cp4:
  assumes "l1 c = 4" "l1 d = Suc 0" "l1 e = Suc 0" "l1 f = Suc 0"
  shows "utf8_4 (cp4 c d e f) = [c, d, e, f]"
  using assms unfolding l1_iff utf8_4_def cp4_def
  by (auto intro!: u8_bits_eqI simp: bit_simps)


text \<open>The other way round: the sequence written for a code point has the lead and continuation bytes of
  its length, and reads back as the code point.\<close>

lemma bits_below: "x < 2 ^ k \<Longrightarrow> \<forall>n \<ge> k. \<not> bit x n" for x :: u32
  using word_less_not_bit by blast

lemma u32_bits_eqI: "list_all (\<lambda>n. bit x n = bit y n) [0..<32] \<Longrightarrow> x = (y :: u32)"
  by (rule bit_word_eqI) (auto simp: list_all_iff)

lemma u16_bits_eqI: "list_all (\<lambda>n. bit x n = bit y n) [0..<16] \<Longrightarrow> x = (y :: u16)"
  by (rule bit_word_eqI) (auto simp: list_all_iff)

lemma utf8_2_parts:
  assumes "code < 0x800"
  obtains c d where "utf8_2 code = [c, d]" "l1 c = 2" "l1 d = Suc 0" "cp2 c d = code"
proof
  have *: "\<forall>n \<ge> 11. \<not> bit code n" using bits_below [of code 11] assms by simp
  let ?c = "ucast (0xc0 OR drop_bit 6 code) :: u8" and ?d = "ucast (0x80 OR (code AND 0x3f)) :: u8"
  show "utf8_2 code = [?c, ?d]" by (simp add: utf8_2_def)
  show "l1 ?c = 2" "l1 ?d = Suc 0" using * by (simp_all add: l1_iff bit_simps)
  show "cp2 ?c ?d = code"
    using * by (intro u32_bits_eqI)
      (simp add: cp2_def bit_simps upt_conv_Cons, (simp add: numeral_eq_Suc)?)
qed

lemma utf8_3_parts:
  assumes "code < 0x10000"
  obtains c d e where "utf8_3 code = [c, d, e]" "l1 c = 3" "l1 d = Suc 0" "l1 e = Suc 0"
    "cp3 c d e = code"
proof
  have *: "\<forall>n \<ge> 16. \<not> bit code n" using bits_below [of code 16] assms by simp
  let ?c = "ucast (0xe0 OR drop_bit 12 code) :: u8"
    and ?d = "ucast (0x80 OR (drop_bit 6 code AND 0x3f)) :: u8"
    and ?e = "ucast (0x80 OR (code AND 0x3f)) :: u8"
  show "utf8_3 code = [?c, ?d, ?e]" by (simp add: utf8_3_def)
  show "l1 ?c = 3" "l1 ?d = Suc 0" "l1 ?e = Suc 0" using * by (simp_all add: l1_iff bit_simps)
  show "cp3 ?c ?d ?e = code"
    using * by (intro u32_bits_eqI)
      (simp add: cp3_def bit_simps upt_conv_Cons, (simp add: numeral_eq_Suc)?)
qed

lemma utf8_4_parts:
  assumes "code < 0x200000"
  obtains c d e f where "utf8_4 code = [c, d, e, f]" "l1 c = 4" "l1 d = Suc 0" "l1 e = Suc 0"
    "l1 f = Suc 0" "cp4 c d e f = code"
proof
  have *: "\<forall>n \<ge> 21. \<not> bit code n" using bits_below [of code 21] assms by simp
  let ?c = "ucast (0xf0 OR drop_bit 18 code) :: u8"
    and ?d = "ucast (0x80 OR (drop_bit 12 code AND 0x3f)) :: u8"
    and ?e = "ucast (0x80 OR (drop_bit 6 code AND 0x3f)) :: u8"
    and ?f = "ucast (0x80 OR (code AND 0x3f)) :: u8"
  show "utf8_4 code = [?c, ?d, ?e, ?f]" by (simp add: utf8_4_def)
  show "l1 ?c = 4" "l1 ?d = Suc 0" "l1 ?e = Suc 0" "l1 ?f = Suc 0"
    using * by (simp_all add: l1_iff bit_simps)
  show "cp4 ?c ?d ?e ?f = code"
    using * by (intro u32_bits_eqI)
      (simp add: cp4_def bit_simps upt_conv_Cons, (simp add: numeral_eq_Suc)?)
qed

subsection \<open>Surrogates\<close>

lemma or_disjoint_add: "x AND y = 0 \<Longrightarrow> x OR y = x + y" for x y :: "'a::len word"
  by (simp add: disjunctive_add_eq_or)

lemma high_surrogate: "x < 0x400 \<Longrightarrow> 0xd800 OR x = 0xd800 + (x :: u32)"
  by (rule or_disjoint_add, rule u32_bits_eqI)
    (use bits_below [of x 10] in \<open>simp add: bit_simps upt_conv_Cons\<close>)

lemma low_surrogate: "x < 0x400 \<Longrightarrow> 0xdc00 OR x = 0xdc00 + (x :: u32)"
  by (rule or_disjoint_add, rule u32_bits_eqI)
    (use bits_below [of x 10] in \<open>simp add: bit_simps upt_conv_Cons\<close>)

lemma ucast_u16_u32: "x < 0x10000 \<Longrightarrow> ucast (ucast x :: u16) = (x :: u32)"
  by (rule u32_bits_eqI) (use bits_below [of x 16] in \<open>simp add: bit_simps upt_conv_Cons\<close>)

lemma unat_u32_u16: "x < 0x10000 \<Longrightarrow> unat (ucast x :: u16) = unat (x :: u32)"
  by (simp add: unsigned_ucast_eq take_bit_nat_eq_self word_less_nat_alt)

lemma bmp_high: "x - 0xe000 < 0x2000 \<longleftrightarrow> 0xe000 \<le> x \<and> x < (0x10000 :: u32)"
  by (simp add: word_nat; arith?)

text \<open>The UTF-8 encoding of a code point, by its size: the reference for the code's branches.\<close>

definition utf8_of :: "u32 \<Rightarrow> bytes" where
  "utf8_of cp = (if cp < 0x80 then utf8_1 cp else if cp < 0x800 then utf8_2 cp
     else if cp < 0x10000 then utf8_3 cp else utf8_4 cp)"

lemma surrogate_parts:
  assumes "y < (0x100000 :: u32)"
  shows "drop_bit 10 y < 0x400" "y AND 0x3ff < 0x400"
    "(0xd800 + drop_bit 10 y) AND 0x3ff = drop_bit 10 y"
    "(0xdc00 + (y AND 0x3ff)) AND 0x3ff = y AND 0x3ff"
    "push_bit 10 (drop_bit 10 y) + (y AND 0x3ff) = y"
proof -
  have b: "\<forall>n \<ge> 20. \<not> bit y n" using bits_below [of y 20] assms by simp
  show hi: "drop_bit 10 y < 0x400"
    using word_less_iff_bits [of 10 "drop_bit 10 y"] b by (simp add: bit_simps)
  show lo: "y AND 0x3ff < 0x400"
    using word_and_le1 [of y "0x3ff"] by (simp add: word_nat)
  show "(0xd800 + drop_bit 10 y) AND 0x3ff = drop_bit 10 y"
    unfolding high_surrogate [OF hi, symmetric]
    by (rule u32_bits_eqI) (use b in \<open>simp add: bit_simps upt_conv_Cons\<close>)
  show "(0xdc00 + (y AND 0x3ff)) AND 0x3ff = y AND 0x3ff"
    unfolding low_surrogate [OF lo, symmetric]
    by (rule u32_bits_eqI) (simp add: bit_simps upt_conv_Cons)
  have "push_bit 10 (drop_bit 10 y) AND (y AND 0x3ff) = 0"
    by (rule u32_bits_eqI) (simp add: bit_simps upt_conv_Cons)
  then have "push_bit 10 (drop_bit 10 y) + (y AND 0x3ff) = push_bit 10 (drop_bit 10 y) OR (y AND 0x3ff)"
    by (simp add: or_disjoint_add)
  also have "\<dots> = y"
    by (rule u32_bits_eqI) (simp add: bit_simps upt_conv_Cons, (simp add: numeral_eq_Suc)?)
  finally show "push_bit 10 (drop_bit 10 y) + (y AND 0x3ff) = y" .
qed

lemma utf16_units_loop:
  assumes "utf16_units cp = Some us"
  shows "utf16_to_utf8_loop (us @ vs) = utf8_of cp @ utf16_to_utf8_loop vs"
proof (cases "cp < 0xd800 \<or> cp - 0xe000 < 0x2000")
  case True
  then have "cp < 0x10000" unfolding bmp_high by (auto simp: word_nat)
  with True assms show ?thesis
    by (auto simp: utf16_units_def utf8_of_def ucast_u16_u32)
next
  case False
  with assms have cp: "\<not> cp < 0xe000" "cp < 0x110000"
    by (auto simp: utf16_units_def split: if_splits)
  define y where "y = cp - 0x10000"
  from False cp have y: "y < 0x100000" "cp = 0x10000 + y" "\<not> cp < 0x10000"
    by (auto simp: y_def bmp_high word_nat)
  note sp = surrogate_parts [OF y(1)]
  let ?hi = "0xd800 + drop_bit 10 y" and ?lo = "0xdc00 + (y AND 0x3ff)"
  have us: "us = [ucast ?hi, ucast ?lo]"
    using assms False cp sp(1,2)
    by (simp add: utf16_units_def Let_def flip: y_def high_surrogate low_surrogate)
  have r: "\<not> ?hi < 0x80" "\<not> ?hi < 0x800" "\<not> ?hi < 0xd800" "\<not> ?hi - 0xe000 < 0x2000" "?hi < 0xdc00"
    "?hi < 0x10000" "?lo < 0x10000" "?lo - 0xdc00 < 0x400"
    using sp(1,2) by (simp_all add: word_nat)
  have "surrogate_pair ?hi ?lo = cp"
    using sp(3,4,5) y(2) by (simp add: surrogate_pair_def add.assoc)
  moreover have "\<not> cp < 0x80" "\<not> cp < 0x800" using y(3) by (auto simp: word_nat)
  ultimately show ?thesis using r y(3) by (simp add: us utf8_of_def ucast_u16_u32)
qed

subsection \<open>Code points: the specification both conversions meet\<close>

definition scalar :: "u32 \<Rightarrow> bool" where
  "scalar cp \<longleftrightarrow> cp < 0xd800 \<or> 0xe000 \<le> cp \<and> cp < 0x110000"

definition utf8_string :: "u32 list \<Rightarrow> bytes" where
  "utf8_string cps = concat (map utf8_of cps)"

definition units_of_cp :: "u32 \<Rightarrow> u16 list" where
  "units_of_cp cp =
     (if cp < 0x10000 then [ucast cp]
      else [ucast (0xd800 + drop_bit 10 (cp - 0x10000)), ucast (0xdc00 + ((cp - 0x10000) AND 0x3ff))])"

definition utf16_string :: "u32 list \<Rightarrow> u16 list" where
  "utf16_string cps = concat (map units_of_cp cps)"

lemma utf16_units_scalar: "utf16_units cp = (if scalar cp then Some (units_of_cp cp) else None)"
proof (cases "cp < 0x10000")
  case True
  then show ?thesis
    by (auto simp: utf16_units_def scalar_def units_of_cp_def bmp_high word_nat)
next
  case False
  have "cp - 0x10000 < 0x100000" if "cp < 0x110000" using that False by (simp add: word_nat)
  note sp = surrogate_parts(1,2) [OF this]
  from False sp show ?thesis
    unfolding utf16_units_def scalar_def units_of_cp_def bmp_high
    by (auto simp: Let_def high_surrogate low_surrogate word_nat)
qed

text \<open>A lone surrogate stands for the replacement character U+FFFD.\<close>

fun code_points :: "u16 list \<Rightarrow> u32 list" where
  "code_points [] = []"
| "code_points (u # us) =
     (if u < 0xd800 \<or> 0xe000 \<le> u then ucast u # code_points us
      else if u < 0xdc00 then
        (case us of
           [] \<Rightarrow> [0xfffd]
         | t # us' \<Rightarrow>
           if 0xdc00 \<le> t \<and> t < 0xe000
           then (0x10000 + (ucast u - 0xd800) * 0x400 + (ucast t - 0xdc00)) # code_points us'
           else 0xfffd # code_points us)
      else 0xfffd # code_points us)"

lemma ucast_range [simp]:
  "(ucast (u :: u16) :: u32) < 0x80 \<longleftrightarrow> u < 0x80"
  "(ucast u :: u32) < 0x800 \<longleftrightarrow> u < 0x800"
  "(ucast u :: u32) < 0xd800 \<longleftrightarrow> u < 0xd800"
  "(ucast u :: u32) < 0xdc00 \<longleftrightarrow> u < 0xdc00"
  "(ucast u :: u32) < 0xe000 \<longleftrightarrow> u < 0xe000"
  "0xe000 \<le> (ucast u :: u32) \<longleftrightarrow> 0xe000 \<le> u"
  "(ucast u :: u32) < 0x10000"
  by (simp_all add: word_nat)

lemma trail_range: "(ucast (t :: u16) :: u32) - 0xdc00 < 0x400 \<longleftrightarrow> 0xdc00 \<le> t \<and> t < 0xe000"
  using unat_bound(2) [of t] by (simp add: word_nat; arith)

lemma surrogate_pair_arith:
  assumes "0xd800 \<le> (u :: u16)" "u < 0xdc00" "0xdc00 \<le> (t :: u16)" "t < 0xe000"
  shows "surrogate_pair (ucast u) (ucast t) = 0x10000 + (ucast u - 0xd800) * 0x400 + (ucast t - 0xdc00)"
    "0x10000 \<le> surrogate_pair (ucast u) (ucast t)" "surrogate_pair (ucast u) (ucast t) < 0x110000"
proof -
  define x y where "x = (ucast u :: u32) - 0xd800" and "y = (ucast t :: u32) - 0xdc00"
  have x: "x < 0x400" "ucast u = 0xd800 + x" and y: "y < 0x400" "ucast t = 0xdc00 + y"
    using assms by (simp_all add: x_def y_def word_nat)
  have "(0xd800 + x) AND 0x3ff = x" "(0xdc00 + y) AND 0x3ff = y"
    unfolding high_surrogate [OF x(1), symmetric] low_surrogate [OF y(1), symmetric]
    by (rule u32_bits_eqI, use bits_below [of x 10] bits_below [of y 10] x y in
        \<open>simp add: bit_simps upt_conv_Cons\<close>)+
  then have eq: "surrogate_pair (ucast u) (ucast t) = 0x10000 + x * 0x400 + y"
    by (simp add: surrogate_pair_def x y push_bit_eq_mult)
  then show "surrogate_pair (ucast u) (ucast t) = 0x10000 + (ucast u - 0xd800) * 0x400 + (ucast t - 0xdc00)"
    by (simp add: x_def y_def)
  show "0x10000 \<le> surrogate_pair (ucast u) (ucast t)" "surrogate_pair (ucast u) (ucast t) < 0x110000"
    unfolding eq using x(1) y(1) by (simp_all add: word_nat)
qed

lemma utf16_loop_code_points: "utf16_to_utf8_loop us = utf8_string (code_points us)"
proof (induction us rule: code_points.induct)
  case (2 u us)
  have repl: "utf8_of 0xfffd = replacement_char"
    by (simp add: utf8_of_def utf8_3_def replacement_char_def)
  show ?case
  proof (cases "u < 0xd800 \<or> 0xe000 \<le> u")
    case True
    then have "u < 0xd800 \<or> (ucast u :: u32) - 0xe000 < 0x2000" by (simp add: bmp_high)
    moreover have "\<not> u < 0x800" if "\<not> u < 0xd800" using that by (simp add: word_nat)
    ultimately show ?thesis using True 2 by (auto simp: Let_def utf8_string_def utf8_of_def)
  next
    case False
    then have r: "\<not> u < 0x80" "\<not> u < 0x800" "\<not> u < 0xd800" "\<not> 0xe000 \<le> u"
      "\<not> (ucast u :: u32) - 0xe000 < 0x2000"
      by (auto simp: bmp_high) (auto simp: word_nat)
    show ?thesis
    proof (cases "u < 0xdc00")
      case True
      note pair = surrogate_pair_arith [of u, OF _ True]
      show ?thesis
      proof (cases us)
        case Nil
        with r True show ?thesis by (simp add: Let_def utf8_string_def repl)
      next
        case (Cons t us')
        show ?thesis
        proof (cases "0xdc00 \<le> t \<and> t < 0xe000")
          case t: True
          let ?p = "surrogate_pair (ucast u) (ucast t)"
          have "0xd800 \<le> u" using r by simp
          note pair = surrogate_pair_arith [OF this True conjunct1 [OF t] conjunct2 [OF t]]
          have "utf8_of ?p = utf8_4 ?p" "\<not> ?p < 0x10000"
            using pair(2) by (auto simp: utf8_of_def word_nat)
          then show ?thesis using 2 r True t pair(1) Cons
            by (simp add: Let_def utf8_string_def trail_range)
        next
          case False
          then have t: "\<not> (ucast t :: u32) - 0xdc00 < 0x400" by (simp add: trail_range)
          have "code_points (u # us) = 0xfffd # code_points us"
            using r True False by (subst code_points.simps(2)) (auto simp: Cons)
          moreover have "utf16_to_utf8_loop (u # us) = replacement_char @ utf16_to_utf8_loop us"
            using r True t by (subst utf16_to_utf8_loop.simps(2)) (simp add: Let_def Cons)
          moreover have "utf16_to_utf8_loop us = utf8_string (code_points us)"
            by (rule 2(3)) (use r True False Cons in auto)
          ultimately show ?thesis by (simp add: utf8_string_def repl)
        qed
      qed
    next
      case False
      with 2 r show ?thesis by (simp add: Let_def utf8_string_def repl)
    qed
  qed
qed (simp add: utf8_string_def)


lemma utf8_tail_numeral [simp]:
  "utf8_tail (numeral k) cp (c # s) =
     (if l1 c \<noteq> 1 then None
      else utf8_tail (pred_numeral k) (push_bit 6 cp OR (ucast c AND 0x3f)) s)"
  by (simp add: numeral_eq_Suc)

lemma validate_seq:
  "l1 c = 2 \<Longrightarrow> l1 d = Suc 0 \<Longrightarrow> validate_utf8_cp (c # d # s) =
     (if cp2 c d < 0x80 then None else map_option (\<lambda>us. (us, s)) (utf16_units (cp2 c d)))"
  "l1 c = 3 \<Longrightarrow> l1 d = Suc 0 \<Longrightarrow> l1 e = Suc 0 \<Longrightarrow> validate_utf8_cp (c # d # e # s) =
     (if cp3 c d e < 0x800 then None else map_option (\<lambda>us. (us, s)) (utf16_units (cp3 c d e)))"
  "l1 c = 4 \<Longrightarrow> l1 d = Suc 0 \<Longrightarrow> l1 e = Suc 0 \<Longrightarrow> l1 f = Suc 0 \<Longrightarrow>
     validate_utf8_cp (c # d # e # f # s) =
     (if cp4 c d e f < 0x10000 then None else map_option (\<lambda>us. (us, s)) (utf16_units (cp4 c d e f)))"
  by (simp_all add: validate_utf8_cp_def Let_def cp2_def cp3_def cp4_def overlong_def)

lemma validate_utf8_of:
  assumes "scalar cp"
  shows "validate_utf8_cp (utf8_of cp @ s) = Some (units_of_cp cp, s)"
proof -
  have units: "utf16_units cp = Some (units_of_cp cp)" using assms by (simp add: utf16_units_scalar)
  have max: "cp < 0x110000" using assms by (auto simp: scalar_def word_nat)
  consider "cp < 0x80" | "\<not> cp < 0x80" "cp < 0x800" | "\<not> cp < 0x800" "cp < 0x10000"
    | "\<not> cp < 0x10000" by blast
  then show ?thesis
  proof cases
    case 1
    have b: "\<forall>n \<ge> 7. \<not> bit cp n" using bits_below [of cp 7] 1 by simp
    have "ucast (ucast cp :: u8) AND 0x7f = (ucast cp :: u16)"
      by (rule u16_bits_eqI) (use b in \<open>simp add: bit_simps upt_conv_Cons\<close>)
    with b 1 show ?thesis
      by (simp add: utf8_of_def utf8_1_def validate_utf8_cp_def Let_def l1_iff bit_simps units_of_cp_def
          word_nat)
  next
    case 2
    obtain c d where p: "utf8_2 cp = [c, d]" "l1 c = 2" "l1 d = Suc 0" "cp2 c d = cp"
      using utf8_2_parts [OF 2(2)] .
    with 2 units show ?thesis by (simp add: utf8_of_def validate_seq)
  next
    case 3
    obtain c d e where "utf8_3 cp = [c, d, e]" "l1 c = 3" "l1 d = Suc 0" "l1 e = Suc 0" "cp3 c d e = cp"
      using utf8_3_parts [OF 3(2)] .
    moreover have "\<not> cp < 0x80" using 3 by (simp add: word_nat)
    ultimately show ?thesis using 3 units by (simp add: utf8_of_def validate_seq)
  next
    case 4
    have "cp < 0x200000" using max by (simp add: word_nat)
    then obtain c d e f where "utf8_4 cp = [c, d, e, f]" "l1 c = 4" "l1 d = Suc 0" "l1 e = Suc 0"
        "l1 f = Suc 0" "cp4 c d e f = cp"
      using utf8_4_parts by blast
    moreover have "\<not> cp < 0x80" "\<not> cp < 0x800" using 4 by (simp_all add: word_nat)
    ultimately show ?thesis using 4 units by (simp add: utf8_of_def validate_seq)
  qed
qed

lemma below_bits: "x = take_bit k x \<Longrightarrow> k < 32 \<Longrightarrow> x < 2 ^ k" for x :: u32
  using and_mask_less' [of k x] by (simp add: take_bit_eq_mask)

lemma cp_bounds: "cp2 c d < 0x800" "cp3 c d e < 0x10000"
proof -
  have "cp2 c d = take_bit 11 (cp2 c d)" "cp3 c d e = take_bit 16 (cp3 c d e)"
    by (rule u32_bits_eqI, simp add: cp2_def cp3_def bit_simps upt_conv_Cons)+
  then show "cp2 c d < 0x800" "cp3 c d e < 0x10000"
    using below_bits [of "cp2 c d" 11] below_bits [of "cp3 c d e" 16] by simp_all
qed

lemma validate_Some:
  assumes "validate_utf8_cp (c # s) = Some (us, s')"
  obtains cp where "scalar cp" "us = units_of_cp cp" "c # s = utf8_of cp @ s'"
proof -
  consider "l1 c = 0" | "l1 c = 2" | "l1 c = 3" | "l1 c = 4"
    using assms by (auto simp: validate_utf8_cp_def Let_def le_Suc_eq numeral_eq_Suc split: if_splits)
  then show ?thesis
  proof cases
    case 1
    then have c: "us = [ucast c AND 0x7f]" "s' = s" "\<not> bit c 7"
      using assms by (auto simp: validate_utf8_cp_def l1_iff)
    have b: "\<forall>n \<ge> 7. \<not> bit c n"
      using c(3) by (auto simp: le_less Suc_le_eq dest!: bit_imp_le_length)
    then have "c < 0x80" using word_less_iff_bits [of 7 c] by simp
    then have cp: "(ucast c :: u32) < 0x80" by (simp add: word_nat)
    have "ucast c AND 0x7f = (ucast (ucast c :: u32) :: u16)"
      by (rule u16_bits_eqI) (use b in \<open>simp add: bit_simps upt_conv_Cons\<close>)
    moreover have "ucast (ucast c :: u32) = c" by (rule u8_bits_eqI) (simp_all add: bit_simps)
    ultimately show ?thesis using c cp
      by (intro that [of "ucast c"])
        (auto simp: scalar_def units_of_cp_def utf8_of_def utf8_1_def word_nat)
  next
    case 2
    then obtain d s1 where s: "s = d # s1" "l1 d = Suc 0"
      using assms by (cases s) (auto simp: validate_utf8_cp_def Let_def split: if_splits)
    with assms 2 have *: "\<not> cp2 c d < 0x80" "scalar (cp2 c d)" "us = units_of_cp (cp2 c d)" "s' = s1"
      by (auto simp: validate_seq utf16_units_scalar split: if_splits)
    moreover have "utf8_of (cp2 c d) = [c, d]"
      using *(1) cp_bounds utf8_2_cp2 [OF 2 s(2)] by (simp add: utf8_of_def)
    ultimately show ?thesis using that [of "cp2 c d"] s by simp
  next
    case 3
    then obtain d e s1 where s: "s = d # e # s1" "l1 d = Suc 0" "l1 e = Suc 0"
      using assms by (cases s; cases "tl s")
        (auto simp: validate_utf8_cp_def Let_def numeral_2_eq_2 split: if_splits)
    with assms 3 have *: "\<not> cp3 c d e < 0x800" "scalar (cp3 c d e)" "us = units_of_cp (cp3 c d e)" "s' = s1"
      by (auto simp: validate_seq utf16_units_scalar split: if_splits)
    moreover have "\<not> cp3 c d e < 0x80" using *(1) by (simp add: word_nat)
    ultimately have "utf8_of (cp3 c d e) = [c, d, e]"
      using cp_bounds utf8_3_cp3 [OF 3 s(2,3)] by (simp add: utf8_of_def)
    then show ?thesis using that [of "cp3 c d e"] s * by simp
  next
    case 4
    then obtain d e f s1 where s: "s = d # e # f # s1" "l1 d = Suc 0" "l1 e = Suc 0" "l1 f = Suc 0"
      using assms by (cases s; cases "tl s"; cases "tl (tl s)")
        (auto simp: validate_utf8_cp_def Let_def numeral_3_eq_3 split: if_splits)
    with assms 4 have *: "\<not> cp4 c d e f < 0x10000" "scalar (cp4 c d e f)"
        "us = units_of_cp (cp4 c d e f)" "s' = s1"
      by (auto simp: validate_seq utf16_units_scalar split: if_splits)
    moreover have "\<not> cp4 c d e f < 0x80" "\<not> cp4 c d e f < 0x800" using *(1) by (simp_all add: word_nat)
    ultimately have "utf8_of (cp4 c d e f) = [c, d, e, f]"
      using utf8_4_cp4 [OF 4 s(2-4)] by (simp add: utf8_of_def)
    then show ?thesis using that [of "cp4 c d e f"] s * by simp
  qed
qed

subsection \<open>Both directions\<close>

text \<open>The validation of a whole string: success exactly on the encodings of scalar values.\<close>

lemma utf8_of_not_Nil [simp]: "utf8_of cp \<noteq> []"
  by (simp add: utf8_of_def utf8_1_def utf8_2_def utf8_3_def utf8_4_def)

lemma units_of_cp_not_Nil [simp]: "units_of_cp cp \<noteq> []"
  by (simp add: units_of_cp_def)

lemma string_simps [simp]:
  "utf8_string [] = []" "utf8_string (cp # cps) = utf8_of cp @ utf8_string cps"
  "utf16_string [] = []" "utf16_string (cp # cps) = units_of_cp cp @ utf16_string cps"
  by (simp_all add: utf8_string_def utf16_string_def)

lemma validate_str_step:
  assumes "scalar cp" "0 \<notin> set (utf8_of cp)"
  shows "validate_utf8_str (utf8_of cp @ s) =
    map_option ((+) (length (units_of_cp cp))) (validate_utf8_str s)"
proof -
  obtain c t where c: "utf8_of cp = c # t" by (cases "utf8_of cp") auto
  with assms(2) have "c \<noteq> 0" by auto
  then show ?thesis using validate_utf8_of [OF assms(1), of s] c by simp
qed

lemma validate_str_string:
  "list_all scalar cps \<Longrightarrow> 0 \<notin> set (utf8_string cps) \<Longrightarrow>
     validate_utf8_str (utf8_string cps) = Some (length (utf16_string cps))"
  by (induction cps) (simp_all add: validate_str_step)

lemma utf8_to_utf16_loop_string:
  "list_all scalar cps \<Longrightarrow> len = i + length (utf16_string cps) \<Longrightarrow>
     utf8_to_utf16_loop i len (utf8_string cps) = Some (utf16_string cps)"
proof (induction cps arbitrary: i)
  case Nil
  then show ?case by (simp add: utf8_to_utf16_loop.simps)
next
  case (Cons cp cps)
  then have "i < len" by (simp add: length_greater_0_conv)
  with Cons show ?case
    by (subst utf8_to_utf16_loop.simps) (simp add: validate_utf8_of add.assoc)
qed

lemma validate_str_Some:
  "validate_utf8_str s = Some n \<Longrightarrow> 0 \<notin> set s \<Longrightarrow> \<exists>cps. list_all scalar cps \<and> s = utf8_string cps"
proof (induction s arbitrary: n rule: validate_utf8_str.induct)
  case 1
  show ?case by (intro exI [of _ "[]"]) simp
next
  case (2 c s)
  then obtain us s' m where v: "validate_utf8_cp (c # s) = Some (us, s')" "validate_utf8_str s' = Some m"
    by (auto split: if_splits option.splits)
  then obtain cp where cp: "scalar cp" "c # s = utf8_of cp @ s'" by (metis validate_Some)
  then have "0 \<notin> set s'" using 2(3) by (metis Un_iff set_append)
  moreover have "c \<noteq> 0" using 2(3) by simp
  ultimately obtain cps where "list_all scalar cps" "s' = utf8_string cps"
    using 2(1) [OF _ v(1) refl v(2)] by blast
  with cp show ?case by (intro exI [of _ "cp # cps"]) simp
qed

lemma utf8_to_utf16_string:
  "list_all scalar cps \<Longrightarrow> 0 \<notin> set (utf8_string cps) \<Longrightarrow> mem (4 + 2 * length (utf16_string cps)) \<Longrightarrow>
   smb2_utf8_to_utf16 mem (utf8_string cps) =
     Some \<lparr>u_len = length (utf16_string cps), u_val = le_units (utf16_string cps)\<rparr>"
  by (simp add: smb2_utf8_to_utf16_def validate_str_string utf8_to_utf16_loop_string)

lemma utf8_to_utf16_SomeD:
  assumes "smb2_utf8_to_utf16 mem s = Some u" "0 \<notin> set s"
  shows "\<exists>cps. list_all scalar cps \<and> s = utf8_string cps \<and> mem (4 + 2 * length (utf16_string cps)) \<and>
    u = \<lparr>u_len = length (utf16_string cps), u_val = le_units (utf16_string cps)\<rparr>"
proof -
  from assms obtain n where "validate_utf8_str s = Some n"
    by (auto simp: smb2_utf8_to_utf16_def split: option.splits)
  then obtain cps where cps: "list_all scalar cps" "s = utf8_string cps"
    using validate_str_Some assms(2) by blast
  with assms show ?thesis
    by (intro exI [of _ cps])
      (auto simp: smb2_utf8_to_utf16_def validate_str_string utf8_to_utf16_loop_string split: if_splits)
qed

text \<open>C3. \<open>smb2_utf8_to_utf16\<close> accepts a C string exactly when it is the concatenation of the shortest
  UTF-8 encodings of Unicode scalar values (no overlong form, no surrogate, nothing above U+10FFFF, no
  truncated or stray continuation byte) and memory is available, and then returns the UTF-16LE encoding
  of those scalar values with its number of units: the two passes agree on every string.\<close>

theorem utf8_to_utf16_spec:
  assumes "0 \<notin> set s"
  shows "smb2_utf8_to_utf16 mem s = Some u \<longleftrightarrow>
    (\<exists>cps. list_all scalar cps \<and> s = utf8_string cps \<and> mem (4 + 2 * length (utf16_string cps)) \<and>
       u = \<lparr>u_len = length (utf16_string cps), u_val = le_units (utf16_string cps)\<rparr>)"
proof
  show "smb2_utf8_to_utf16 mem s = Some u \<Longrightarrow>
    \<exists>cps. list_all scalar cps \<and> s = utf8_string cps \<and> mem (4 + 2 * length (utf16_string cps)) \<and>
       u = \<lparr>u_len = length (utf16_string cps), u_val = le_units (utf16_string cps)\<rparr>"
    by (rule utf8_to_utf16_SomeD [OF _ assms])
qed (use assms in \<open>elim exE conjE, simp add: utf8_to_utf16_string\<close>)

theorem utf8_to_utf16_spec_witness:
  "smb2_utf8_to_utf16 (\<lambda>_. True) (utf8_string [0x41, 0xe4, 0x1d11e]) =
     Some \<lparr>u_len = 4, u_val = [0x41, 0, 0xe4, 0, 0x34, 0xd8, 0x1e, 0xdd]\<rparr>"
proof -
  have h: "0 \<notin> set (utf8_string [0x41, 0xe4, 0x1d11e])" by code_simp
  have "list_all scalar [0x41, 0xe4, 0x1d11e]"
    "utf16_string [0x41, 0xe4, 0x1d11e] = [0x41, 0xe4, 0xd834, 0xdd1e]"
    "le_units [0x41, 0xe4, 0xd834, 0xdd1e] = [0x41, 0, 0xe4, 0, 0x34, 0xd8, 0x1e, 0xdd]" by code_simp+
  then show ?thesis
    by (intro utf8_to_utf16_spec [OF h, THEN iffD2] exI [of _ "[0x41, 0xe4, 0x1d11e]"])
      (simp del: string_simps)
qed

text \<open>Decoding the units of scalar values gives the scalar values back.\<close>

lemma code_points_units:
  assumes "scalar cp"
  shows "code_points (units_of_cp cp @ us) = cp # code_points us"
proof (cases "cp < 0x10000")
  case True
  then have "(ucast (ucast cp :: u16) :: u32) = cp" by (simp add: ucast_u16_u32)
  moreover have "unat (ucast cp :: u16) = unat cp" using True by (rule unat_u32_u16)
  ultimately show ?thesis using assms True by (auto simp: units_of_cp_def scalar_def word_nat)
next
  case False
  define y where "y = cp - 0x10000"
  have y: "y < 0x100000" "cp = 0x10000 + y" using False assms
    by (auto simp: y_def scalar_def word_nat)
  note sp = surrogate_parts [OF y(1)]
  let ?hi = "0xd800 + drop_bit 10 y" and ?lo = "0xdc00 + (y AND 0x3ff)"
  have r: "?hi < 0x10000" "?lo < 0x10000" using sp(1,2) by (simp_all add: word_nat)
  then have u: "(ucast (ucast ?hi :: u16) :: u32) = ?hi" "(ucast (ucast ?lo :: u16) :: u32) = ?lo"
    by (simp_all only: ucast_u16_u32)
  then have n: "unat (ucast ?hi :: u16) = unat ?hi" "unat (ucast ?lo :: u16) = unat ?lo"
    using r by (simp_all only: unat_u32_u16)
  have "\<not> (ucast ?hi :: u16) < 0xd800" "\<not> 0xe000 \<le> (ucast ?hi :: u16)" "(ucast ?hi :: u16) < 0xdc00"
    "0xdc00 \<le> (ucast ?lo :: u16)" "(ucast ?lo :: u16) < 0xe000"
    using sp(1,2) unfolding word_less_nat_alt word_le_nat_alt n by (simp_all add: word_nat)
  moreover have "drop_bit 10 y * 0x400 + (y AND 0x3ff) = y"
    using sp(5) by (simp add: push_bit_eq_mult)
  ultimately show ?thesis using False u y(2)
    by (simp add: units_of_cp_def add.assoc flip: y_def)
qed

lemma code_points_string: "list_all scalar cps \<Longrightarrow> code_points (utf16_string cps) = cps"
  by (induction cps) (simp_all add: code_points_units)

text \<open>C4. A name converted to UTF-16 and back is the name, NUL-terminated.\<close>

theorem utf8_utf16_roundtrip:
  assumes "0 \<notin> set s" "smb2_utf8_to_utf16 mem s = Some u" "mem' (Suc (length s))"
  shows "smb2_utf16_to_utf8 mem' junk (u_val u) (u_len u) = Some (s @ [0])"
proof -
  from assms obtain cps where cps: "list_all scalar cps" "s = utf8_string cps"
    "u = \<lparr>u_len = length (utf16_string cps), u_val = le_units (utf16_string cps)\<rparr>"
    using utf8_to_utf16_SomeD by blast
  then have "utf16_to_utf8_loop (utf16_string cps) = s"
    by (simp add: utf16_loop_code_points code_points_string)
  with cps assms(3) show ?thesis
    by (simp add: utf16_to_utf8_eq flip: utf16_loop_size)
qed

theorem utf8_utf16_roundtrip_witness:
  "smb2_utf16_to_utf8 (\<lambda>_. True) 0xaa [0x41, 0, 0xe4, 0] 2 = Some [0x41, 0xc3, 0xa4, 0]"
proof -
  have "0 \<notin> set (utf8_string [0x41, 0xe4])" "list_all scalar [0x41, 0xe4]"
    "utf16_string [0x41, 0xe4] = [0x41, 0xe4]" "utf8_string [0x41, 0xe4] = [0x41, 0xc3, 0xa4]"
    "le_units [0x41, 0xe4] = [0x41, 0, 0xe4, 0]" by code_simp+
  with utf8_to_utf16_string [of "[0x41, 0xe4]" "\<lambda>_. True"] show ?thesis
    using utf8_utf16_roundtrip [of "[0x41, 0xc3, 0xa4]" "\<lambda>_. True" _ "\<lambda>_. True" "0xaa"]
    by (simp del: string_simps add: numeral_2_eq_2)
qed

text \<open>The converse direction has no failure but memory, whatever the units: lone surrogates become
  U+FFFD.\<close>

lemma scalar_unit: "u < 0xd800 \<or> 0xe000 \<le> u \<Longrightarrow> scalar (ucast (u :: u16))"
  using unat_bound(2) [of u] by (auto simp: scalar_def word_nat simp del: unat_bound)

lemma code_points_scalar: "list_all scalar (code_points us)"
proof (induction us rule: code_points.induct)
  case (2 u us)
  have repl: "scalar 0xfffd" by (simp add: scalar_def)
  show ?case
  proof (cases us)
    case Nil
    with 2 show ?thesis by (simp add: repl scalar_unit)
  next
    case (Cons t us')
    have "scalar (0x10000 + (ucast u - 0xd800) * 0x400 + (ucast t - 0xdc00))"
      if "\<not> (u < 0xd800 \<or> 0xe000 \<le> u)" "u < 0xdc00" "0xdc00 \<le> t \<and> t < 0xe000"
      using surrogate_pair_arith [of u t] that by (auto simp: scalar_def word_nat)
    with 2 Cons show ?thesis by (auto simp: repl scalar_unit)
  qed
qed simp


end
