(* ===== verification/Smb2_Structs.thy ===== *)
theory Smb2_Structs
  imports Smb2_Prelude
begin

text \<open>
  The wire structures of \<^verbatim>\<open>include/smb2/smb2.h\<close>: command numbers, flags, the
  \<open>StructureSize\<close> constants, and one record per request or reply structure that the command codecs
  of the development read or write. A pointer member that may be \<open>NULL\<close> is an option; a fixed-size
  array member (a file id, a lease key) is a byte list whose length is a hypothesis where it matters.
  \<open>payload\<close> is what \<open>pdu->payload\<close> points to once a command has been unmarshalled.
\<close>

subsection \<open>Constants\<close>

abbreviation (input) SMB2_NEGOTIATE :: u16 where "SMB2_NEGOTIATE \<equiv> 0"
abbreviation (input) SMB2_SESSION_SETUP :: u16 where "SMB2_SESSION_SETUP \<equiv> 1"
abbreviation (input) SMB2_LOGOFF :: u16 where "SMB2_LOGOFF \<equiv> 2"
abbreviation (input) SMB2_TREE_CONNECT :: u16 where "SMB2_TREE_CONNECT \<equiv> 3"
abbreviation (input) SMB2_TREE_DISCONNECT :: u16 where "SMB2_TREE_DISCONNECT \<equiv> 4"
abbreviation (input) SMB2_CREATE :: u16 where "SMB2_CREATE \<equiv> 5"
abbreviation (input) SMB2_CLOSE :: u16 where "SMB2_CLOSE \<equiv> 6"
abbreviation (input) SMB2_FLUSH :: u16 where "SMB2_FLUSH \<equiv> 7"
abbreviation (input) SMB2_READ :: u16 where "SMB2_READ \<equiv> 8"
abbreviation (input) SMB2_WRITE :: u16 where "SMB2_WRITE \<equiv> 9"
abbreviation (input) SMB2_LOCK :: u16 where "SMB2_LOCK \<equiv> 10"
abbreviation (input) SMB2_IOCTL :: u16 where "SMB2_IOCTL \<equiv> 11"
abbreviation (input) SMB2_CANCEL :: u16 where "SMB2_CANCEL \<equiv> 12"
abbreviation (input) SMB2_ECHO :: u16 where "SMB2_ECHO \<equiv> 13"
abbreviation (input) SMB2_QUERY_DIRECTORY :: u16 where "SMB2_QUERY_DIRECTORY \<equiv> 14"
abbreviation (input) SMB2_CHANGE_NOTIFY :: u16 where "SMB2_CHANGE_NOTIFY \<equiv> 15"
abbreviation (input) SMB2_QUERY_INFO :: u16 where "SMB2_QUERY_INFO \<equiv> 16"
abbreviation (input) SMB2_SET_INFO :: u16 where "SMB2_SET_INFO \<equiv> 17"
abbreviation (input) SMB2_OPLOCK_BREAK :: u16 where "SMB2_OPLOCK_BREAK \<equiv> 18"
abbreviation (input) SMB1_NEGOTIATE :: u16 where "SMB1_NEGOTIATE \<equiv> 114"

abbreviation (input) SMB2_FLAGS_SERVER_TO_REDIR :: u32 where "SMB2_FLAGS_SERVER_TO_REDIR \<equiv> 0x00000001"
abbreviation (input) SMB2_FLAGS_ASYNC_COMMAND :: u32 where "SMB2_FLAGS_ASYNC_COMMAND \<equiv> 0x00000002"
abbreviation (input) SMB2_FLAGS_RELATED_OPERATIONS :: u32 where "SMB2_FLAGS_RELATED_OPERATIONS \<equiv> 0x00000004"
abbreviation (input) SMB2_FLAGS_SIGNED :: u32 where "SMB2_FLAGS_SIGNED \<equiv> 0x00000008"

abbreviation (input) SMB2_STATUS_SEVERITY_MASK :: u32 where "SMB2_STATUS_SEVERITY_MASK \<equiv> 0xc0000000"
abbreviation (input) SMB2_STATUS_SEVERITY_WARNING :: u32 where "SMB2_STATUS_SEVERITY_WARNING \<equiv> 0x80000000"
abbreviation (input) SMB2_STATUS_SEVERITY_ERROR :: u32 where "SMB2_STATUS_SEVERITY_ERROR \<equiv> 0xc0000000"
abbreviation (input) SMB2_STATUS_SHUTDOWN :: u32 where "SMB2_STATUS_SHUTDOWN \<equiv> 0xffffffff"
abbreviation (input) SMB2_STATUS_PENDING :: u32 where "SMB2_STATUS_PENDING \<equiv> 0x00000103"
abbreviation (input) SMB2_STATUS_MORE_PROCESSING_REQUIRED :: u32
  where "SMB2_STATUS_MORE_PROCESSING_REQUIRED \<equiv> 0xC0000016"
abbreviation (input) SMB2_STATUS_IO_TIMEOUT :: u32 where "SMB2_STATUS_IO_TIMEOUT \<equiv> 0xC00000B5"
abbreviation (input) SMB2_STATUS_CANCELLED :: u32 where "SMB2_STATUS_CANCELLED \<equiv> 0xC0000120"
abbreviation (input) SMB2_STATUS_STOPPED_ON_SYMLINK :: u32
  where "SMB2_STATUS_STOPPED_ON_SYMLINK \<equiv> 0x8000002D"

abbreviation (input) SMB2_VERSION_0202 :: u16 where "SMB2_VERSION_0202 \<equiv> 0x0202"
abbreviation (input) SMB2_VERSION_0210 :: u16 where "SMB2_VERSION_0210 \<equiv> 0x0210"
abbreviation (input) SMB2_VERSION_0300 :: u16 where "SMB2_VERSION_0300 \<equiv> 0x0300"
abbreviation (input) SMB2_VERSION_0302 :: u16 where "SMB2_VERSION_0302 \<equiv> 0x0302"
abbreviation (input) SMB2_VERSION_0311 :: u16 where "SMB2_VERSION_0311 \<equiv> 0x0311"

abbreviation (input) SMB2_HEADER_SIZE :: nat where "SMB2_HEADER_SIZE \<equiv> 64"
abbreviation (input) SMB2_SPL_SIZE :: nat where "SMB2_SPL_SIZE \<equiv> 4"
abbreviation (input) SMB2_FD_SIZE :: nat where "SMB2_FD_SIZE \<equiv> 16"
abbreviation (input) SMB2_MAX_VECTORS :: nat where "SMB2_MAX_VECTORS \<equiv> 256"
abbreviation (input) SMB2_MAX_TREE_NESTING :: int where "SMB2_MAX_TREE_NESTING \<equiv> 32"
abbreviation (input) MAX_CREDITS :: int where "MAX_CREDITS \<equiv> 1024"

subsection \<open>Request and reply structures\<close>

record smb2_error_reply =
  err_error_context_count :: u8
  err_byte_count :: u32
  err_error_data :: "bytes option"

record smb2_tree_connect_request =
  tcq_flags :: u16
  tcq_path_offset :: u16
  tcq_path_length :: u16
  tcq_path :: "bytes option"

record smb2_tree_connect_reply =
  tcr_share_type :: u8
  tcr_share_flags :: u32
  tcr_capabilities :: u32
  tcr_maximal_access :: u32

record smb2_close_request =
  clq_flags :: u16
  clq_file_id :: bytes

record smb2_close_reply =
  clr_flags :: u16
  clr_creation_time :: u64
  clr_last_access_time :: u64
  clr_last_write_time :: u64
  clr_change_time :: u64
  clr_allocation_size :: u64
  clr_end_of_file :: u64
  clr_file_attributes :: u32

record smb2_flush_request =
  flq_file_id :: bytes

record smb2_logoff_request =
  loq_reserved :: u16

record smb2_echo_request =
  ecq_reserved :: u16

record smb2_read_request =
  rdq_flags :: u8
  rdq_length :: u32
  rdq_offset :: u64
  rdq_buf :: "bytes option"
  rdq_file_id :: bytes
  rdq_minimum_count :: u32
  rdq_channel :: u32
  rdq_remaining_bytes :: u32
  rdq_read_channel_info_offset :: u16
  rdq_read_channel_info_length :: u16
  rdq_read_channel_info :: "bytes option"

record smb2_read_reply =
  rdr_data_offset :: u8
  rdr_data_length :: u32
  rdr_data_remaining :: u32
  rdr_data :: "bytes option"

record smb2_write_request =
  wrq_data_offset :: u16
  wrq_length :: u32
  wrq_offset :: u64
  wrq_buf :: "bytes option"
  wrq_file_id :: bytes
  wrq_channel :: u32
  wrq_remaining_bytes :: u32
  wrq_write_channel_info_offset :: u16
  wrq_write_channel_info_length :: u16
  wrq_write_channel_info :: "bytes option"
  wrq_flags :: u32

record smb2_write_reply =
  wrr_count :: u32
  wrr_remaining :: u32

record smb2_lock_element =
  lke_offset :: u64
  lke_length :: u64
  lke_flags :: u32
  lke_reserved :: u32

record smb2_lock_request =
  lkq_lock_count :: u16
  lkq_lock_sequence_number :: u8
  lkq_lock_sequence_index :: u32
  lkq_file_id :: bytes
  lkq_locks :: "smb2_lock_element list option"

record smb2_session_setup_request =
  ssq_flags :: u8
  ssq_security_mode :: u8
  ssq_capabilities :: u32
  ssq_channel :: u32
  ssq_previous_session_id :: u64
  ssq_security_buffer_length :: u16
  ssq_security_buffer :: "bytes option"

record smb2_session_setup_reply =
  ssr_session_flags :: u16
  ssr_security_buffer_length :: u16
  ssr_security_buffer_offset :: u16
  ssr_security_buffer :: "bytes option"

record smb2_change_notify_request =
  cnq_flags :: u16
  cnq_output_buffer_length :: u32
  cnq_file_id :: bytes
  cnq_completion_filter :: u32

record smb2_change_notify_reply =
  cnr_output_buffer_offset :: u16
  cnr_output_buffer_length :: u32
  cnr_output :: "bytes option"

record smb2_create_request =
  crq_security_flags :: u8
  crq_requested_oplock_level :: u8
  crq_impersonation_level :: u32
  crq_smb_create_flags :: u64
  crq_desired_access :: u32
  crq_file_attributes :: u32
  crq_share_access :: u32
  crq_create_disposition :: u32
  crq_create_options :: u32
  crq_name_offset :: u16
  crq_name_length :: u16
  crq_name :: "bytes option"
  crq_create_context_offset :: u32
  crq_create_context_length :: u32
  crq_create_context :: "bytes option"

record smb2_create_reply =
  crr_oplock_level :: u8
  crr_flags :: u8
  crr_create_action :: u32
  crr_creation_time :: u64
  crr_last_access_time :: u64
  crr_last_write_time :: u64
  crr_change_time :: u64
  crr_allocation_size :: u64
  crr_end_of_file :: u64
  crr_file_attributes :: u32
  crr_file_id :: bytes
  crr_create_context_length :: u32
  crr_create_context_offset :: u32
  crr_create_context :: "bytes option"

record smb2_oplock_break =
  opb_oplock_level :: u8
  opb_file_id :: bytes

record smb2_lease_break_notification =
  lbn_new_epoch :: u16
  lbn_flags :: u32
  lbn_lease_key :: bytes
  lbn_current_lease_state :: u32
  lbn_new_lease_state :: u32
  lbn_break_reason :: u32
  lbn_access_mask_hint :: u32
  lbn_share_mask_hint :: u32

text \<open>\<open>smb2_lease_break_acknowledgement\<close> and \<open>smb2_lease_break_reply\<close> have the same members, as have the
  three oplock structures above.\<close>

record smb2_lease_break =
  lsb_flags :: u32
  lsb_lease_key :: bytes
  lsb_lease_state :: u32
  lsb_lease_duration :: u64

text \<open>The union \<open>lock\<close> of the two break structures, by the member the code uses.\<close>

datatype break_lock =
    Lock_unset
  | Lock_oplock smb2_oplock_break
  | Lock_lease_notification smb2_lease_break_notification
  | Lock_lease smb2_lease_break

record smb2_oplock_or_lease_break =
  olb_struct_size :: u16
  olb_break_type :: nat
  olb_lock :: break_lock

record smb2_ioctl_validate_negotiate_info =
  vni_capabilities :: u32
  vni_guid :: bytes
  vni_security_mode :: u16
  vni_dialect :: u16

record smb2_reparse_data_buffer =
  rpb_reparse_tag :: u32
  rpb_reparse_data_length :: u16
  rpb_flags :: u32
  rpb_subname :: "bytes option"
  rpb_printname :: "bytes option"

text \<open>What the \<open>void *\<close> members \<open>input\<close> and \<open>output\<close> of the ioctl structures point to.\<close>

datatype ioctl_data =
    Io_null
  | Io_raw bytes
  | Io_negotiate smb2_ioctl_validate_negotiate_info
  | Io_reparse smb2_reparse_data_buffer

record smb2_ioctl_request =
  ioq_ctl_code :: u32
  ioq_file_id :: bytes
  ioq_input_offset :: u32
  ioq_input_count :: u32
  ioq_max_input_response :: u32
  ioq_output_offset :: u32
  ioq_output_count :: u32
  ioq_max_output_response :: u32
  ioq_flags :: u32
  ioq_input :: ioctl_data

record smb2_ioctl_reply =
  ior_ctl_code :: u32
  ior_file_id :: bytes
  ior_input_offset :: u32
  ior_input_count :: u32
  ior_output_offset :: u32
  ior_output_count :: u32
  ior_flags :: u32
  ior_output :: ioctl_data

text \<open>A \<open>struct smb2_timeval\<close>: seconds since 1970 and microseconds.\<close>

record smb2_timeval =
  tv_sec :: int
  tv_usec :: int

record smb2_file_basic_info =
  fbi_creation_time :: smb2_timeval
  fbi_last_access_time :: smb2_timeval
  fbi_last_write_time :: smb2_timeval
  fbi_change_time :: smb2_timeval
  fbi_file_attributes :: u32

text \<open>What \<open>input_data\<close> of a set-info request points to.\<close>

datatype set_info_data =
    Si_null
  | Si_raw bytes
  | Si_basic smb2_file_basic_info
  | Si_end_of_file u64
  | Si_rename u8 bytes
  | Si_disposition u8

record smb2_set_info_request =
  siq_info_type :: u8
  siq_file_info_class :: u8
  siq_buffer_length :: u32
  siq_buffer_offset :: u16
  siq_additional_information :: u32
  siq_file_id :: bytes
  siq_input_data :: set_info_data

record smb2_query_directory_request =
  qdq_file_information_class :: u8
  qdq_flags :: u8
  qdq_file_index :: u32
  qdq_file_id :: bytes
  qdq_output_buffer_length :: u32
  qdq_file_name_offset :: u16
  qdq_file_name_length :: u16
  qdq_name :: "bytes option"

text \<open>Directory entries, as the client decodes them and as the server lists them.\<close>

record smb2_fileidfulldirectoryinformation =
  ffd_next_entry_offset :: u32
  ffd_file_index :: u32
  ffd_creation_time :: smb2_timeval
  ffd_last_access_time :: smb2_timeval
  ffd_last_write_time :: smb2_timeval
  ffd_change_time :: smb2_timeval
  ffd_end_of_file :: u64
  ffd_allocation_size :: u64
  ffd_file_attributes :: u32
  ffd_ea_size :: u32
  ffd_file_id :: u64
  ffd_name :: "bytes option"

record smb2_fileidbothdirectoryinformation =
  fbd_file_index :: u32
  fbd_creation_time :: smb2_timeval
  fbd_last_access_time :: smb2_timeval
  fbd_last_write_time :: smb2_timeval
  fbd_change_time :: smb2_timeval
  fbd_end_of_file :: u64
  fbd_allocation_size :: u64
  fbd_file_attributes :: u32
  fbd_ea_size :: u32
  fbd_short_name_length :: u8
  fbd_short_name :: bytes
  fbd_file_id :: u64
  fbd_name :: "bytes option"

text \<open>What \<open>output_buffer\<close> of a query-directory reply points to: an array of entries at the server that lists
  them, the bytes of the reply at the client and in passthrough.\<close>

datatype directory_data =
    Dir_null
  | Dir_raw bytes
  | Dir_entries "smb2_fileidbothdirectoryinformation list"

record smb2_query_directory_reply =
  qdr_output_buffer_offset :: u16
  qdr_output_buffer_length :: u32
  qdr_output_buffer :: directory_data

subsection \<open>Negotiation\<close>

record smb2_negotiate_request =
  ngq_dialect_count :: u16
  ngq_security_mode :: u16
  ngq_capabilities :: u32
  ngq_client_guid :: bytes
  ngq_negotiate_context_offset :: u32
  ngq_negotiate_context_count :: u16
  ngq_dialects :: "u16 list"

record smb2_negotiate_reply =
  ngr_security_mode :: u16
  ngr_dialect_revision :: u16
  ngr_cypher :: u16
  ngr_server_guid :: bytes
  ngr_capabilities :: u32
  ngr_max_transact_size :: u32
  ngr_max_read_size :: u32
  ngr_max_write_size :: u32
  ngr_system_time :: u64
  ngr_server_start_time :: u64
  ngr_negotiate_context_offset :: u32
  ngr_negotiate_context_count :: u16
  ngr_security_buffer_length :: u16
  ngr_security_buffer_offset :: u16
  ngr_security_buffer :: "bytes option"

subsection \<open>Information about files and file systems\<close>

record smb2_file_standard_info =
  fsi_allocation_size :: u64
  fsi_end_of_file :: u64
  fsi_number_of_links :: u32
  fsi_delete_pending :: u8
  fsi_directory :: u8

record smb2_file_stream_info =
  fst_next_entry_offset :: u32
  fst_stream_name_length :: u32
  fst_stream_size :: u64
  fst_stream_allocation_size :: u64
  fst_stream_name :: "bytes option"

record smb2_file_position_info =
  fpi_current_byte_offset :: u64

record smb2_file_name_info =
  fni_file_name_length :: u32
  fni_name :: "bytes option"

record smb2_file_all_info =
  fai_basic :: smb2_file_basic_info
  fai_standard :: smb2_file_standard_info
  fai_index_number :: u64
  fai_ea_size :: u32
  fai_access_flags :: u32
  fai_current_byte_offset :: u64
  fai_mode :: u32
  fai_alignment_requirement :: u32
  fai_name :: "bytes option"

record smb2_file_network_open_info =
  fno_creation_time :: smb2_timeval
  fno_last_access_time :: smb2_timeval
  fno_last_write_time :: smb2_timeval
  fno_change_time :: smb2_timeval
  fno_allocation_size :: u64
  fno_end_of_file :: u64
  fno_file_attributes :: u32

record smb2_file_fs_volume_info =
  fvi_creation_time :: smb2_timeval
  fvi_volume_serial_number :: u32
  fvi_volume_label_length :: u32
  fvi_supports_objects :: u8
  fvi_reserved :: u8
  fvi_volume_label :: "bytes option"

record smb2_file_fs_size_info =
  fsz_total_allocation_units :: u64
  fsz_available_allocation_units :: u64
  fsz_sectors_per_allocation_unit :: u32
  fsz_bytes_per_sector :: u32

record smb2_file_fs_attribute_info =
  fat_filesystem_attributes :: u32
  fat_maximum_component_name_length :: u32
  fat_filesystem_name_length :: u32
  fat_filesystem_name :: "bytes option"

record smb2_file_fs_device_info =
  fdv_device_type :: u32
  fdv_characteristics :: u32

record smb2_file_fs_control_info =
  fct_free_space_start_filtering :: u64
  fct_free_space_threshold :: u64
  fct_free_space_stop_filtering :: u64
  fct_default_quota_threshold :: u64
  fct_default_quota_limit :: u64
  fct_file_system_control_flags :: u32

record smb2_file_fs_full_size_info =
  ffs_total_allocation_units :: u64
  ffs_caller_available_allocation_units :: u64
  ffs_actual_available_allocation_units :: u64
  ffs_sectors_per_allocation_unit :: u32
  ffs_bytes_per_sector :: u32

record smb2_file_fs_object_id_info =
  foi_object_id :: bytes
  foi_extended_info :: bytes

record smb2_file_fs_sector_size_info =
  fss_logical_bytes_per_sector :: u32
  fss_physical_bytes_per_sector_for_atomicity :: u32
  fss_physical_bytes_per_sector_for_performance :: u32
  fss_effective_physical_bytes_per_sector_for_atomicity :: u32
  fss_flags :: u32
  fss_byte_offset_for_sector_alignment :: u32
  fss_byte_offset_for_partition_alignment :: u32

subsection \<open>Security descriptors\<close>

record smb2_sid =
  sid_revision :: u8
  sid_sub_auth_count :: u8
  sid_id_auth :: bytes
  sid_sub_auth :: "u32 list"

record smb2_ace =
  ace_ace_type :: u8
  ace_ace_flags :: u8
  ace_ace_size :: u16
  ace_mask :: u32
  ace_flags :: u32
  ace_sid :: "smb2_sid option"
  ace_object_type :: bytes
  ace_inherited_object_type :: bytes
  ace_ad_data :: bytes
  ace_raw_data :: bytes

record smb2_acl =
  acl_revision :: u8
  acl_ace_count :: u16
  acl_aces :: "smb2_ace list"

record smb2_security_descriptor =
  sd_revision :: u8
  sd_control :: u16
  sd_owner :: "smb2_sid option"
  sd_group :: "smb2_sid option"
  sd_dacl :: "smb2_acl option"

subsection \<open>Queries\<close>

text \<open>What \<open>output_buffer\<close> of a query-info reply points to.\<close>

datatype info_data =
    Inf_null
  | Inf_raw bytes
  | Inf_basic smb2_file_basic_info
  | Inf_standard smb2_file_standard_info
  | Inf_stream "smb2_file_stream_info list"
  | Inf_position smb2_file_position_info
  | Inf_name smb2_file_name_info
  | Inf_all smb2_file_all_info
  | Inf_network_open smb2_file_network_open_info
  | Inf_fs_volume smb2_file_fs_volume_info
  | Inf_fs_size smb2_file_fs_size_info
  | Inf_fs_attribute smb2_file_fs_attribute_info
  | Inf_fs_device smb2_file_fs_device_info
  | Inf_fs_control smb2_file_fs_control_info
  | Inf_fs_full_size smb2_file_fs_full_size_info
  | Inf_fs_object_id smb2_file_fs_object_id_info
  | Inf_fs_sector_size smb2_file_fs_sector_size_info
  | Inf_security smb2_security_descriptor

record smb2_query_info_request =
  qiq_info_type :: u8
  qiq_file_info_class :: u8
  qiq_output_buffer_length :: u32
  qiq_input_buffer_offset :: u16
  qiq_input_buffer_length :: u32
  qiq_additional_information :: u32
  qiq_flags :: u32
  qiq_file_id :: bytes
  qiq_input :: "bytes option"

record smb2_query_info_reply =
  qir_output_buffer_offset :: u16
  qir_output_buffer_length :: u32
  qir_output_buffer :: info_data

text \<open>\<open>P_freed\<close> is a payload that a decoder has freed while the PDU still points to it.\<close>

datatype payload =
    P_freed
  | P_error smb2_error_reply
  | P_tree_connect_request smb2_tree_connect_request
  | P_tree_connect_reply smb2_tree_connect_reply
  | P_close_request smb2_close_request
  | P_close_reply smb2_close_reply
  | P_flush_request smb2_flush_request
  | P_logoff_request smb2_logoff_request
  | P_echo_request smb2_echo_request
  | P_read_request smb2_read_request
  | P_read_reply smb2_read_reply
  | P_write_request smb2_write_request
  | P_write_reply smb2_write_reply
  | P_lock_request smb2_lock_request
  | P_session_setup_request smb2_session_setup_request
  | P_session_setup_reply smb2_session_setup_reply
  | P_change_notify_request smb2_change_notify_request
  | P_change_notify_reply smb2_change_notify_reply
  | P_create_request smb2_create_request
  | P_create_reply smb2_create_reply
  | P_break smb2_oplock_or_lease_break
  | P_ioctl_request smb2_ioctl_request
  | P_ioctl_reply smb2_ioctl_reply
  | P_set_info_request smb2_set_info_request
  | P_query_directory_request smb2_query_directory_request
  | P_query_directory_reply smb2_query_directory_reply
  | P_query_info_request smb2_query_info_request
  | P_query_info_reply smb2_query_info_reply
  | P_negotiate_request smb2_negotiate_request
  | P_negotiate_reply smb2_negotiate_reply

end
