(* ===== verification/Smb2_Context.thy ===== *)
theory Smb2_Context
  imports Smb2_Structs
begin

text \<open>
  The data model of \<^verbatim>\<open>include/libsmb2-private.h\<close>: I/O vectors, the SMB2 header, a PDU and the
  context. A PDU is a value with its address in \<open>p_ptr\<close> (a \<open>struct smb2_pdu *\<close> is compared by
  address in the list macros). A compound chain, linked through \<open>next_compound\<close> in the code, is a
  non-empty list of PDUs; \<open>outqueue\<close> is a list of chains, \<open>waitqueue\<close> a list of PDUs (a chain is
  unlinked before it enters the wait queue).

  Some members have no counterpart in the C struct: \<open>c_mem_ok\<close> says for which sizes \<open>malloc\<close> and
  \<open>calloc\<close> return memory (so that every allocation failure is a branch of the model), \<open>c_junk\<close> is what
  reading memory that \<open>malloc\<close> has not initialised gives, and \<open>c_trace\<close> records the calls of the
  application's callbacks and the frees of PDUs in order; \<open>c_now\<close> is \<open>time (NULL)\<close>; \<open>c_next_ptr\<close>
  is the address of the next PDU; the scripts of the transport are explained below, and \<open>c_sent\<close>
  is what it has taken from the library; \<open>c_random\<close> is the sequence of the values of \<open>random ()\<close>, of
  which \<open>c_random_pos\<close> have been drawn.
\<close>

datatype free_fn = NoFree | Free

record smb2_iovec =
  iov_buf :: bytes
  iov_free :: free_fn

record smb2_io_vectors =
  v_num_done :: nat
  v_total_size :: nat
  v_iov :: "smb2_iovec list"

definition no_vectors :: smb2_io_vectors where
  "no_vectors = \<lparr>v_num_done = 0, v_total_size = 0, v_iov = []\<rparr>"

text \<open>
  The header's anonymous union of \<open>async_id\<close> and \<open>{process_id, tree_id}\<close> is one 64-bit cell
  \<open>h_union\<close>, laid out as on a little-endian machine: storing an async id overwrites the tree id.
\<close>

record smb2_header =
  h_protocol_id :: bytes
  h_struct_size :: u16
  h_credit_charge :: u16
  h_status :: u32
  h_command :: u16
  h_credit_request_response :: u16
  h_flags :: u32
  h_next_command :: u32
  h_message_id :: u64
  h_union :: u64
  h_session_id :: u64
  h_signature :: bytes

definition h_async_id :: "smb2_header \<Rightarrow> u64" where
  "h_async_id h = h_union h"

definition h_process_id :: "smb2_header \<Rightarrow> u32" where
  "h_process_id h = ucast (h_union h)"

definition h_tree_id :: "smb2_header \<Rightarrow> u32" where
  "h_tree_id h = ucast (drop_bit 32 (h_union h))"

definition set_async_id :: "u64 \<Rightarrow> smb2_header \<Rightarrow> smb2_header" where
  "set_async_id x h = h\<lparr>h_union := x\<rparr>"

definition set_process_id :: "u32 \<Rightarrow> smb2_header \<Rightarrow> smb2_header" where
  "set_process_id x h = h\<lparr>h_union := push_bit 32 (drop_bit 32 (h_union h)) OR ucast x\<rparr>"

definition set_tree_id :: "u32 \<Rightarrow> smb2_header \<Rightarrow> smb2_header" where
  "set_tree_id x h = h\<lparr>h_union := push_bit 32 (ucast x) OR take_bit 32 (h_union h)\<rparr>"

lemma union_access [simp]:
  "h_tree_id (set_tree_id x h) = x"
  "h_process_id (set_process_id x h) = x"
  "h_async_id (set_async_id y h) = y"
  "h_process_id (set_tree_id x h) = h_process_id h"
  "h_tree_id (set_process_id x h) = h_tree_id h"
  by (auto simp: h_tree_id_def set_tree_id_def h_process_id_def set_process_id_def
      h_async_id_def set_async_id_def bit_simps intro!: bit_word_eqI)

lemma union_from_parts:
  assumes "h_process_id h = h_process_id h'" "h_tree_id h = h_tree_id h'"
  shows "h_union h = h_union h'"
proof (rule bit_word_eqI)
  fix n :: nat assume n: "n < LENGTH(64)"
  show "bit (h_union h) n = bit (h_union h') n"
  proof (cases "n < 32")
    case True
    then show ?thesis
      using arg_cong [OF assms(1), of "\<lambda>w. bit w n"] by (simp add: h_process_id_def bit_simps)
  next
    case False
    with n have "n - 32 < 32" by simp
    with False show ?thesis
      using arg_cong [OF assms(2), of "\<lambda>w. bit w (n - 32)"] by (simp add: h_tree_id_def bit_simps)
  qed
qed

definition zero_header :: smb2_header where
  "zero_header = \<lparr>h_protocol_id = replicate 4 0, h_struct_size = 0, h_credit_charge = 0,
     h_status = 0, h_command = 0, h_credit_request_response = 0, h_flags = 0, h_next_command = 0,
     h_message_id = 0, h_union = 0, h_session_id = 0, h_signature = replicate 16 0\<rparr>"

record smb2_pdu =
  p_ptr :: nat
  p_header :: smb2_header
  p_prev_compound_mid :: u64
  p_caller_frees_pdu :: bool
  p_cb :: nat
  p_cb_data :: nat
  p_free_cb :: bool
  p_payload :: "payload option"
  p_out :: smb2_io_vectors
  p_in :: smb2_io_vectors
  p_info_type :: u8
  p_file_info_class :: u8
  p_seal :: bool
  p_crypt :: "bytes option"
  p_timeout :: int

text \<open>A PDU as \<open>calloc\<close> leaves it.\<close>

definition zero_pdu :: smb2_pdu where
  "zero_pdu = \<lparr>p_ptr = 0, p_header = zero_header, p_prev_compound_mid = 0, p_caller_frees_pdu = False,
     p_cb = 0, p_cb_data = 0, p_free_cb = False, p_payload = None, p_out = no_vectors,
     p_in = no_vectors, p_info_type = 0, p_file_info_class = 0, p_seal = False, p_crypt = None,
     p_timeout = 0\<rparr>"

datatype recv_state =
  SMB2_RECV_SPL | SMB2_RECV_HEADER | SMB2_RECV_FIXED | SMB2_RECV_VARIABLE | SMB2_RECV_PAD
| SMB2_RECV_TRFM | SMB2_RECV_UNKNOWN

datatype event =
    Ev_callback nat nat u32 "payload option"
  | Ev_free_cb nat
  | Ev_free_pdu nat

text \<open>
  What the transport does with a call: \<open>queue_write\<close> may take some of the bytes offered, would block or
  fails; a read gives some bytes (never more than asked for), would block, finds the connection closed
  or fails. The environment's answers to the next calls are a script in the context, and an empty
  script means that the call would block.
\<close>

datatype write_result = Wr_accept nat | Wr_again | Wr_error

datatype read_result = Rd_data bytes | Rd_again | Rd_closed | Rd_error

record smb2_context =
  c_is_server :: bool
  c_transport_type :: nat
  c_transport_ops :: bool
  c_fd_valid :: bool
  c_ext_connected :: bool
  c_ext_recv :: bool
  c_timeout :: int
  c_next_timeout :: int
  c_sec :: nat
  c_security_mode :: u16
  c_capabilities :: u32
  c_version :: nat
  c_server :: "bytes option"
  c_share :: "bytes option"
  c_user :: "bytes option"
  c_password :: "bytes option"
  c_domain :: "bytes option"
  c_workstation :: "bytes option"
  c_credits :: int
  c_tree_id :: "u32 list"
  c_tree_id_top :: int
  c_tree_id_cur :: int
  c_message_id :: u64
  c_session_id :: u64
  c_async_id :: u64
  c_session_key :: "bytes option"
  c_session_key_size :: u8
  c_seal :: bool
  c_sign :: bool
  c_signing_key :: bytes
  c_serverin_key :: bytes
  c_serverout_key :: bytes
  c_salt :: bytes
  c_cypher :: u16
  c_preauthhash :: bytes
  c_enc :: "bytes option"
  c_enc_pos :: nat
  c_outqueue :: "smb2_pdu list list"
  c_waitqueue :: "smb2_pdu list"
  c_in :: smb2_io_vectors
  c_recv_state :: recv_state
  c_spl :: u32
  c_hdr :: smb2_header
  c_payload_offset :: nat
  c_pdu :: "smb2_pdu option"
  c_next_pdu :: "smb2_pdu option"
  c_passthrough :: bool
  c_oplock_break_count :: int
  c_supports_multi_credit :: bool
  c_max_transact_size :: u32
  c_max_read_size :: u32
  c_max_write_size :: u32
  c_dialect :: u16
  c_error :: string
  c_nterror :: int
  c_now :: int
  c_next_ptr :: nat
  c_mem_ok :: "nat \<Rightarrow> bool"
  c_junk :: u64
  c_trace :: "event list"
  c_wr_script :: "write_result list"
  c_sent :: bytes
  c_rd_script :: "read_result list"
  c_random :: "nat \<Rightarrow> u8"
  c_random_pos :: nat

text \<open>A context as \<open>calloc\<close> leaves it, with memory available and nothing happened yet.\<close>

definition zero_context :: smb2_context where
  "zero_context = \<lparr>c_is_server = False, c_transport_type = 0, c_transport_ops = False,
     c_fd_valid = True, c_ext_connected = False, c_ext_recv = False, c_timeout = 0, c_next_timeout = 0, c_sec = 0,
     c_security_mode = 0, c_capabilities = 0, c_version = 0, c_server = None, c_share = None,
     c_user = None, c_password = None, c_domain = None, c_workstation = None, c_credits = 0,
     c_tree_id = replicate 32 0, c_tree_id_top = 0, c_tree_id_cur = 0, c_message_id = 0,
     c_session_id = 0, c_async_id = 0, c_session_key = None, c_session_key_size = 0, c_seal = False,
     c_sign = False, c_signing_key = replicate 16 0, c_serverin_key = replicate 16 0,
     c_serverout_key = replicate 16 0, c_salt = replicate 32 0, c_cypher = 0,
     c_preauthhash = replicate 64 0, c_enc = None, c_enc_pos = 0, c_outqueue = [],
     c_waitqueue = [], c_in = no_vectors, c_recv_state = SMB2_RECV_SPL, c_spl = 0,
     c_hdr = zero_header, c_payload_offset = 0, c_pdu = None, c_next_pdu = None,
     c_passthrough = False, c_oplock_break_count = 0, c_supports_multi_credit = False,
     c_max_transact_size = 0, c_max_read_size = 0, c_max_write_size = 0, c_dialect = 0,
     c_error = [], c_nterror = 0, c_now = 0, c_next_ptr = 1, c_mem_ok = (\<lambda>_. True), c_junk = 0,
     c_trace = [], c_wr_script = [], c_sent = [], c_rd_script = [],
     c_random = (\<lambda>_. 0), c_random_pos = 0\<rparr>"

definition smb2_is_server :: "smb2_context \<Rightarrow> bool" where
  "smb2_is_server c = c_is_server c"

text \<open>
  \<^verbatim>\<open>smb2_set_error\<close> of \<^verbatim>\<open>lib/init.c\<close> keeps the format of the message (the arguments are not
  printed into it); an empty message also clears \<open>nterror\<close>. The application's error callback is not
  recorded.
\<close>

definition smb2_set_error :: "string \<Rightarrow> smb2_context \<Rightarrow> smb2_context" where
  "smb2_set_error msg c =
     (let c = (if msg = [] then c\<lparr>c_nterror := 0\<rparr> else c) in c\<lparr>c_error := msg\<rparr>)"

definition smb2_set_nterror :: "int \<Rightarrow> string \<Rightarrow> smb2_context \<Rightarrow> smb2_context" where
  "smb2_set_nterror e msg c = c\<lparr>c_error := msg, c_nterror := e\<rparr>"

lemma set_error_simps [simp]:
  "msg \<noteq> [] \<Longrightarrow> smb2_set_error msg c = c\<lparr>c_error := msg\<rparr>"
  by (simp add: smb2_set_error_def)

definition smb2_tree_id :: "smb2_context \<Rightarrow> u32" where
  "smb2_tree_id c = (if c_tree_id_cur c \<ge> 0 then c_tree_id c ! nat (c_tree_id_cur c) else 0xdeadbeef)"

end
