(* ===== verification/Smb2_Iovec.thy ===== *)
theory Smb2_Iovec
  imports Smb2_Context
begin

text \<open>
  Field access and I/O vectors: the bounds-checked little-endian accessors \<open>smb2_set_uintN\<close> and
  \<open>smb2_get_uintN\<close> and \<open>smb2_pad_to_64bit\<close> of \<^verbatim>\<open>lib/pdu.c\<close>, \<open>smb2_add_iovector\<close> and
  \<open>smb2_free_iovector\<close> of \<^verbatim>\<open>lib/init.c\<close>. An accessor returns \<open>None\<close> where the C function
  returns -1. Most callers ignore that result and go on: \<open>set16\<close> and its kin leave the buffer as it
  is then, \<open>get16\<close> and its kin the destination.
\<close>

subsection \<open>Bounds-checked fields\<close>

definition smb2_set_uint8 :: "bytes \<Rightarrow> nat \<Rightarrow> u8 \<Rightarrow> bytes option" where
  "smb2_set_uint8 buf off value =
     (if off + 1 > length buf then None else Some (put_at off [value] buf))"

definition smb2_set_uint16 :: "bytes \<Rightarrow> nat \<Rightarrow> u16 \<Rightarrow> bytes option" where
  "smb2_set_uint16 buf off value =
     (if off + 2 > length buf then None else Some (put_at off (le16 value) buf))"

definition smb2_set_uint32 :: "bytes \<Rightarrow> nat \<Rightarrow> u32 \<Rightarrow> bytes option" where
  "smb2_set_uint32 buf off value =
     (if off + 4 > length buf then None else Some (put_at off (le32 value) buf))"

definition smb2_set_uint64 :: "bytes \<Rightarrow> nat \<Rightarrow> u64 \<Rightarrow> bytes option" where
  "smb2_set_uint64 buf off value =
     (if off + 8 > length buf then None else Some (put_at off (le64 value) buf))"

definition smb2_get_uint8 :: "bytes \<Rightarrow> nat \<Rightarrow> u8 option" where
  "smb2_get_uint8 buf off =
     (if off + 1 > length buf then None else Some (buf ! off))"

definition smb2_get_uint16 :: "bytes \<Rightarrow> nat \<Rightarrow> u16 option" where
  "smb2_get_uint16 buf off =
     (if off + 2 > length buf then None else Some (rd_le (get_at off 2 buf)))"

definition smb2_get_uint32 :: "bytes \<Rightarrow> nat \<Rightarrow> u32 option" where
  "smb2_get_uint32 buf off =
     (if off + 4 > length buf then None else Some (rd_le (get_at off 4 buf)))"

definition smb2_get_uint64 :: "bytes \<Rightarrow> nat \<Rightarrow> u64 option" where
  "smb2_get_uint64 buf off =
     (if off + 8 > length buf then None else Some (rd_le (get_at off 8 buf)))"

definition or_else :: "'a \<Rightarrow> 'a option \<Rightarrow> 'a" where
  "or_else old r = (case r of None \<Rightarrow> old | Some new \<Rightarrow> new)"

definition set8 :: "nat \<Rightarrow> u8 \<Rightarrow> bytes \<Rightarrow> bytes" where
  "set8 off v buf = or_else buf (smb2_set_uint8 buf off v)"
definition set16 :: "nat \<Rightarrow> u16 \<Rightarrow> bytes \<Rightarrow> bytes" where
  "set16 off v buf = or_else buf (smb2_set_uint16 buf off v)"
definition set32 :: "nat \<Rightarrow> u32 \<Rightarrow> bytes \<Rightarrow> bytes" where
  "set32 off v buf = or_else buf (smb2_set_uint32 buf off v)"
definition set64 :: "nat \<Rightarrow> u64 \<Rightarrow> bytes \<Rightarrow> bytes" where
  "set64 off v buf = or_else buf (smb2_set_uint64 buf off v)"

definition get8 :: "bytes \<Rightarrow> nat \<Rightarrow> u8 \<Rightarrow> u8" where
  "get8 buf off old = or_else old (smb2_get_uint8 buf off)"
definition get16 :: "bytes \<Rightarrow> nat \<Rightarrow> u16 \<Rightarrow> u16" where
  "get16 buf off old = or_else old (smb2_get_uint16 buf off)"
definition get32 :: "bytes \<Rightarrow> nat \<Rightarrow> u32 \<Rightarrow> u32" where
  "get32 buf off old = or_else old (smb2_get_uint32 buf off)"
definition get64 :: "bytes \<Rightarrow> nat \<Rightarrow> u64 \<Rightarrow> u64" where
  "get64 buf off old = or_else old (smb2_get_uint64 buf off)"

lemmas set_uint_defs = smb2_set_uint8_def smb2_set_uint16_def smb2_set_uint32_def smb2_set_uint64_def
lemmas get_uint_defs = smb2_get_uint8_def smb2_get_uint16_def smb2_get_uint32_def smb2_get_uint64_def
lemmas set_defs = set8_def set16_def set32_def set64_def or_else_def set_uint_defs
lemmas get_defs = get8_def get16_def get32_def get64_def or_else_def get_uint_defs

text \<open>
  The rewriting system of the codec proofs. The codecs write their fields from left to right, so a
  buffer that is being filled is kept as \<open>field @ field @ \<dots> @ rest\<close>: a setter (\<open>set_skip\<close>, \<open>set_here\<close>)
  walks to its offset and puts its bytes there, a getter (\<open>get_skip\<close>, \<open>get_here\<close>) walks to its
  offset and finds the value.
\<close>

lemma length_set [simp, length_io]:
  "length (set8 off v8 buf) = length buf" "length (set16 off v16 buf) = length buf"
  "length (set32 off v32 buf) = length buf" "length (set64 off v64 buf) = length buf"
  by (auto simp: set_defs)

lemma set_in_bounds:
  "off + 1 \<le> length buf \<Longrightarrow> set8 off v8 buf = put_at off [v8] buf"
  "off + 2 \<le> length buf \<Longrightarrow> set16 off v16 buf = put_at off (le16 v16) buf"
  "off + 4 \<le> length buf \<Longrightarrow> set32 off v32 buf = put_at off (le32 v32) buf"
  "off + 8 \<le> length buf \<Longrightarrow> set64 off v64 buf = put_at off (le64 v64) buf"
  by (simp_all add: set_defs)

lemma set_skip [field_io]:
  "length a \<le> off \<Longrightarrow> set8 off v8 (a @ b) = a @ set8 (off - length a) v8 b"
  "length a \<le> off \<Longrightarrow> set16 off v16 (a @ b) = a @ set16 (off - length a) v16 b"
  "length a \<le> off \<Longrightarrow> set32 off v32 (a @ b) = a @ set32 (off - length a) v32 b"
  "length a \<le> off \<Longrightarrow> set64 off v64 (a @ b) = a @ set64 (off - length a) v64 b"
  by (auto simp: set_defs put_at_def Suc_diff_le)

lemma set_here [field_io]:
  "Suc 0 \<le> length b \<Longrightarrow> set8 0 v8 b = [v8] @ drop (Suc 0) b"
  "2 \<le> length b \<Longrightarrow> set16 0 v16 b = le16 v16 @ drop 2 b"
  "4 \<le> length b \<Longrightarrow> set32 0 v32 b = le32 v32 @ drop 4 b"
  "8 \<le> length b \<Longrightarrow> set64 0 v64 b = le64 v64 @ drop 8 b"
  by (auto simp: set_defs put_at_def numeral_2_eq_2)

lemma put_at_skip [field_io]: "length a \<le> off \<Longrightarrow> put_at off bs (a @ b) = a @ put_at (off - length a) bs b"
  by (simp add: put_at_def)

lemma put_at_here [field_io]: "put_at 0 bs b = bs @ drop (length bs) b"
  by (simp add: put_at_def)

lemma get_skip [field_io]:
  "length a \<le> off \<Longrightarrow> get8 (a @ b) off o8 = get8 b (off - length a) o8"
  "length a \<le> off \<Longrightarrow> get16 (a @ b) off o16 = get16 b (off - length a) o16"
  "length a \<le> off \<Longrightarrow> get32 (a @ b) off o32 = get32 b (off - length a) o32"
  "length a \<le> off \<Longrightarrow> get64 (a @ b) off o64 = get64 b (off - length a) o64"
  by (auto simp: get_defs get_at_def nth_append)

lemma get_here [field_io]:
  "get8 (v8 # b) 0 o8 = v8"
  "get16 (le16 v16 @ b) 0 o16 = v16"
  "get32 (le32 v32 @ b) 0 o32 = v32"
  "get64 (le64 v64 @ b) 0 o64 = v64"
  by (simp_all add: get_defs get_at_def)

lemma get_last [field_io]:
  "get16 (le16 v16) 0 o16 = v16" "get32 (le32 v32) 0 o32 = v32" "get64 (le64 v64) 0 o64 = v64"
  by (simp_all add: get_defs get_at_def)

lemma get_at_all [field_io]: "length a \<le> n \<Longrightarrow> get_at 0 n a = a"
  by (simp add: get_at_def)

lemma get_next [field_io]:
  "0 < off \<Longrightarrow> get8 (v # b) off o8 = get8 b (off - 1) o8"
  "0 < off \<Longrightarrow> get16 (v # b) off o16 = get16 b (off - 1) o16"
  "0 < off \<Longrightarrow> get32 (v # b) off o32 = get32 b (off - 1) o32"
  "0 < off \<Longrightarrow> get64 (v # b) off o64 = get64 b (off - 1) o64"
  using get_skip [of "[v]"] by (simp_all add: Suc_le_eq)

lemma set_next [field_io]:
  "0 < off \<Longrightarrow> set8 off v8 (v # b) = v # set8 (off - 1) v8 b"
  "0 < off \<Longrightarrow> set16 off v16 (v # b) = v # set16 (off - 1) v16 b"
  "0 < off \<Longrightarrow> set32 off v32 (v # b) = v # set32 (off - 1) v32 b"
  "0 < off \<Longrightarrow> set64 off v64 (v # b) = v # set64 (off - 1) v64 b"
  using set_skip [of "[v]"] by (simp_all add: Suc_le_eq)

lemma get_at_skip [field_io]: "length a \<le> off \<Longrightarrow> get_at off n (a @ b) = get_at (off - length a) n b"
  by (simp add: get_at_def)

lemma get_at_here [field_io]: "n \<le> length a \<Longrightarrow> get_at 0 n (a @ b) = take n a"
  by (simp add: get_at_def)

lemma get_at_next [field_io]: "0 < off \<Longrightarrow> get_at off n (v # b) = get_at (off - 1) n b"
  by (cases off) (simp_all add: get_at_def)

lemma put_at_next [field_io]: "0 < off \<Longrightarrow> put_at off bs (v # b) = v # put_at (off - 1) bs b"
  by (cases off) (simp_all add: put_at_def)

text \<open>A field that lies outside the buffer is neither written nor read, whatever its width.\<close>

lemma set_out_of_bounds:
  "smb2_set_uint8 buf off v8 = None \<longleftrightarrow> length buf < off + 1"
  "smb2_set_uint16 buf off v16 = None \<longleftrightarrow> length buf < off + 2"
  "smb2_set_uint32 buf off v32 = None \<longleftrightarrow> length buf < off + 4"
  "smb2_set_uint64 buf off v64 = None \<longleftrightarrow> length buf < off + 8"
  by (auto simp: set_uint_defs)

subsection \<open>I/O vectors\<close>

text \<open>
  \<open>niov\<close> is the length of the list. The result is \<open>None\<close> for the vectors where the code returns
  \<open>NULL\<close>: then the vectors are as before, the error is set and the buffer has been freed.
\<close>

definition smb2_add_iovector ::
  "smb2_context \<Rightarrow> smb2_io_vectors \<Rightarrow> bytes \<Rightarrow> free_fn \<Rightarrow> smb2_context \<times> smb2_io_vectors option" where
  "smb2_add_iovector c v buf free_cb =
     (if length (v_iov v) \<ge> SMB2_MAX_VECTORS
      then (smb2_set_error ''Too many I/O vectors'' c, None)
      else (c, Some (v\<lparr>v_iov := v_iov v @ [\<lparr>iov_buf = buf, iov_free = free_cb\<rparr>],
                       v_total_size := v_total_size v + length buf\<rparr>)))"

definition smb2_free_iovector :: "smb2_io_vectors \<Rightarrow> smb2_io_vectors" where
  "smb2_free_iovector v = v\<lparr>v_iov := [], v_total_size := 0, v_num_done := 0\<rparr>"

definition iov_len :: "smb2_io_vectors \<Rightarrow> nat" where
  "iov_len v = sum_list (map (length \<circ> iov_buf) (v_iov v))"

definition vec_bytes :: "smb2_io_vectors \<Rightarrow> bytes" where
  "vec_bytes v = concat (map iov_buf (v_iov v))"

text \<open>Well-formed vectors: at most \<open>SMB2_MAX_VECTORS\<close> of them, and \<open>total_size\<close> is their length.\<close>

definition vectors_ok :: "smb2_io_vectors \<Rightarrow> bool" where
  "vectors_ok v \<longleftrightarrow> length (v_iov v) \<le> SMB2_MAX_VECTORS \<and> v_total_size v = iov_len v"

definition smb2_pad_to_64bit ::
  "smb2_context \<Rightarrow> smb2_io_vectors \<Rightarrow> int \<times> smb2_context \<times> smb2_io_vectors" where
  "smb2_pad_to_64bit c v =
     (let len = iov_len v in
      if len mod 8 = 0 then (0, c, v)
      else case smb2_add_iovector c v (replicate (8 - len mod 8) 0) NoFree of
             (c, None) \<Rightarrow> (-1, c, v)
           | (c, Some v) \<Rightarrow> (0, c, v))"

lemma iov_len_vec_bytes: "iov_len v = length (vec_bytes v)"
  by (simp add: iov_len_def vec_bytes_def length_concat comp_def)

lemma no_vectors_ok [simp]: "vectors_ok no_vectors"
  by (simp add: vectors_ok_def no_vectors_def iov_len_def)

lemma free_iovector_ok [simp]: "vectors_ok (smb2_free_iovector v)"
  by (simp add: vectors_ok_def smb2_free_iovector_def iov_len_def)

lemma add_iovector_ok:
  "smb2_add_iovector c v buf f = (c', Some v') \<Longrightarrow> vectors_ok v \<Longrightarrow> vectors_ok v'"
  by (auto simp: smb2_add_iovector_def vectors_ok_def iov_len_def split: if_splits)

lemma add_iovector_bytes:
  "smb2_add_iovector c v buf f = (c', Some v') \<Longrightarrow> vec_bytes v' = vec_bytes v @ buf \<and> c' = c"
  by (auto simp: smb2_add_iovector_def vec_bytes_def split: if_splits)

lemma add_iovector_None:
  "smb2_add_iovector c v buf f = (c', None) \<Longrightarrow>
     SMB2_MAX_VECTORS \<le> length (v_iov v) \<and> c' = smb2_set_error ''Too many I/O vectors'' c"
  by (auto simp: smb2_add_iovector_def split: if_splits)

text \<open>
  The C code masks with \<open>len & 0x07\<close> on an \<open>int\<close>, which is \<open>mod 8\<close> for a length.
\<close>

lemma pad_to_64bit_ok:
  assumes "smb2_pad_to_64bit c v = (0, c', v')"
  shows "iov_len v' mod 8 = 0 \<and> c' = c \<and> (\<exists>k < 8. vec_bytes v' = vec_bytes v @ replicate k 0)"
proof (cases "iov_len v mod 8 = 0")
  case True
  with assms have "v' = v \<and> c' = c" by (simp add: smb2_pad_to_64bit_def)
  with True show ?thesis by (auto intro: exI [of _ 0])
next
  case False
  let ?pad = "replicate (8 - iov_len v mod 8) (0 :: u8)"
  from assms False obtain v1 where v1: "smb2_add_iovector c v ?pad NoFree = (c', Some v1)" "v' = v1"
    by (auto simp: smb2_pad_to_64bit_def Let_def split: option.splits prod.splits)
  from add_iovector_bytes [OF v1(1)] v1(2)
  have *: "vec_bytes v' = vec_bytes v @ ?pad" "c' = c" by auto
  then have "iov_len v' = iov_len v + (8 - iov_len v mod 8)" by (simp add: iov_len_vec_bytes)
  also have "\<dots> = (iov_len v div 8 + 1) * 8" by presburger
  finally have "iov_len v' mod 8 = 0" by simp
  moreover have "8 - iov_len v mod 8 < 8" using False by linarith
  ultimately show ?thesis using * by blast
qed

text \<open>The buffer of the last vector, which the encoders fill in after adding it.\<close>

definition map_last_iov :: "(bytes \<Rightarrow> bytes) \<Rightarrow> smb2_io_vectors \<Rightarrow> smb2_io_vectors" where
  "map_last_iov f v =
     (let i = last (v_iov v) in v\<lparr>v_iov := butlast (v_iov v) @ [i\<lparr>iov_buf := f (iov_buf i)\<rparr>]\<rparr>)"

end
