(* ===== verification/Smb2_Pdu.thy ===== *)
theory Smb2_Pdu
  imports Smb2_Iovec
begin

text \<open>
  \<^verbatim>\<open>lib/pdu.c\<close> without the queues: allocation of a PDU, the stack of tree ids, the header codec,
  compound chains, freeing, the accessors of a PDU and the sizes of the fixed parts. The queues are
  \<open>Smb2_Queue\<close>.
\<close>

subsection \<open>Allocation\<close>

text \<open>\<open>sizeof (struct smb2_pdu)\<close> on a 64-bit machine; it is only the argument of \<open>c_mem_ok\<close>.\<close>

abbreviation (input) SIZEOF_SMB2_PDU :: nat where "SIZEOF_SMB2_PDU \<equiv> 12624"

definition smb2_magic :: bytes where "smb2_magic = [0xfe, 0x53, 0x4d, 0x42]"
definition smb1_magic :: bytes where "smb1_magic = [0xff, 0x53, 0x4d, 0x42]"

definition has_tree_id :: "u16 \<Rightarrow> bool" where
  "has_tree_id command \<longleftrightarrow>
     command \<notin> {SMB2_NEGOTIATE, SMB2_SESSION_SETUP, SMB2_LOGOFF, SMB2_ECHO, SMB2_TREE_CONNECT}"

definition new_header :: "smb2_context \<Rightarrow> u16 \<Rightarrow> smb2_header" where
  "new_header c command =
     (let hdr = zero_header\<lparr>h_protocol_id := smb2_magic, h_signature := replicate 16 0,
                  h_struct_size := of_nat SMB2_HEADER_SIZE, h_command := command, h_flags := 0\<rparr>;
          hdr = set_process_id 0xfeff hdr;
          hdr = hdr\<lparr>h_credit_charge :=
                  (if c_dialect c = SMB2_VERSION_0202 then 0
                   else if h_command hdr = SMB2_NEGOTIATE then 0
                   else 1)\<rparr>;
          hdr = hdr\<lparr>h_credit_request_response := word_of_int (MAX_CREDITS - c_credits c)\<rparr>;
          hdr = (if has_tree_id command then set_tree_id (smb2_tree_id c) hdr else set_tree_id 0 hdr)
      in if command = SMB2_NEGOTIATE then hdr else hdr\<lparr>h_session_id := c_session_id c\<rparr>)"

text \<open>\<open>pdu->hdr\<close>, the buffer of the first output vector, is zeroed by \<open>calloc\<close>.\<close>

definition smb2_allocate_pdu ::
  "smb2_context \<Rightarrow> u16 \<Rightarrow> nat \<Rightarrow> nat \<Rightarrow> smb2_context \<times> smb2_pdu option" where
  "smb2_allocate_pdu c command cb cb_data =
     (if \<not> c_mem_ok c SIZEOF_SMB2_PDU then (smb2_set_error ''Failed to allocate pdu'' c, None)
      else
        (let ptr = c_next_ptr c;
             c = c\<lparr>c_next_ptr := ptr + 1\<rparr>
         in case smb2_add_iovector c no_vectors (replicate SMB2_HEADER_SIZE 0) NoFree of
              (c, None) \<Rightarrow>
                (smb2_set_error ''Too many I/O vectors when adding SMB2 header'' c, None)
            | (c, Some out) \<Rightarrow>
                (c, Some (zero_pdu\<lparr>p_ptr := ptr, p_header := new_header c command, p_cb := cb,
                       p_cb_data := cb_data, p_out := out,
                       p_seal := (command \<noteq> SMB2_NEGOTIATE \<and> command \<noteq> SMB2_SESSION_SETUP \<and> c_seal c),
                       p_timeout := (if c_timeout c \<noteq> 0 then c_now c + c_timeout c else 0)\<rparr>))))"

text \<open>Allocation fails only when there is no memory; a fresh PDU holds the 64 bytes of its header.\<close>

lemma allocate_pdu_Some:
  assumes "c_mem_ok c SIZEOF_SMB2_PDU"
  obtains p where "smb2_allocate_pdu c command cb cb_data = (c\<lparr>c_next_ptr := c_next_ptr c + 1\<rparr>, Some p)"
    "p_ptr p = c_next_ptr c" "p_header p = new_header (c\<lparr>c_next_ptr := c_next_ptr c + 1\<rparr>) command"
    "p_cb p = cb" "p_cb_data p = cb_data" "p_payload p = None" "vectors_ok (p_out p)"
    "vec_bytes (p_out p) = replicate 64 0" "p_in p = no_vectors" "length (v_iov (p_out p)) = 1"
  using assms
  by (simp add: smb2_allocate_pdu_def Let_def smb2_add_iovector_def no_vectors_def vectors_ok_def zero_pdu_def
      iov_len_def vec_bytes_def)

subsection \<open>The stack of tree ids\<close>

text \<open>
  Index 0 of \<open>tree_id\<close> is not used. The search stops at the first match, or after the top; both
  \<open>smb2_select_tree_id\<close> and \<open>smb2_disconnect_tree_id\<close> use the index it ends with.
\<close>

function tree_index :: "smb2_context \<Rightarrow> u32 \<Rightarrow> int \<Rightarrow> int" where
  "tree_index c tree_id i =
     (if i \<le> c_tree_id_top c \<and> i \<le> SMB2_MAX_TREE_NESTING \<and> c_tree_id c ! nat i \<noteq> tree_id
      then tree_index c tree_id (i + 1) else i)"
  by pat_completeness auto
termination by (relation "measure (\<lambda>(c, t, i). nat (c_tree_id_top c + 1 - i))") auto

declare tree_index.simps [simp del]

definition smb2_select_tree_id :: "smb2_context \<Rightarrow> u32 \<Rightarrow> int \<times> smb2_context" where
  "smb2_select_tree_id c tree_id =
     (let i = tree_index c tree_id 1 in
      if i \<le> c_tree_id_top c then (0, c\<lparr>c_tree_id_cur := i\<rparr>)
      else (-1, smb2_set_error ''No connected tree-id %08X to select'' c))"

text \<open>The result, the context and \<open>*tree_id\<close>. \<open>pdu\<close> may be \<open>NULL\<close>.\<close>

definition smb2_get_tree_id_for_pdu ::
  "smb2_context \<Rightarrow> smb2_pdu option \<Rightarrow> int \<times> smb2_context \<times> u32" where
  "smb2_get_tree_id_for_pdu c pdu =
     (if (case pdu of Some p \<Rightarrow> \<not> has_tree_id (h_command (p_header p)) | None \<Rightarrow> False) then (0, c, 0)
      else if c_tree_id_top c > 0 then (0, c, c_tree_id c ! nat (c_tree_id_cur c))
      else (-1, smb2_set_error ''No tree-id connected'' c, 0xdeadbeef))"

definition smb2_set_tree_id_for_pdu ::
  "smb2_context \<Rightarrow> smb2_pdu option \<Rightarrow> u32 \<Rightarrow> int \<times> smb2_context \<times> smb2_pdu option" where
  "smb2_set_tree_id_for_pdu c pdu tree_id =
     (case pdu of
        None \<Rightarrow> (-1, c, None)
      | Some p \<Rightarrow>
        if h_flags (p_header p) AND SMB2_FLAGS_ASYNC_COMMAND \<noteq> 0
        then (0, smb2_set_error ''no tree id for async pdu'' c, Some p)
        else if \<not> has_tree_id (h_command (p_header p)) then (0, c, Some p)
        else (0, c, Some (p\<lparr>p_header := set_tree_id tree_id (p_header p)\<rparr>)))"

definition smb2_connect_tree_id :: "smb2_context \<Rightarrow> u32 \<Rightarrow> int \<times> smb2_context" where
  "smb2_connect_tree_id c tree_id =
     (if c_tree_id_top c < SMB2_MAX_TREE_NESTING - 1
      then (let c = c\<lparr>c_tree_id_top := c_tree_id_top c + 1\<rparr>;
                c = c\<lparr>c_tree_id := (c_tree_id c)[nat (c_tree_id_top c) := tree_id]\<rparr>
            in (0, c\<lparr>c_tree_id_cur := c_tree_id_top c\<rparr>))
      else (-1, smb2_set_error ''Tree nesting too deep'' c))"

function shift_tree_ids :: "u32 list \<Rightarrow> int \<Rightarrow> int \<Rightarrow> u32 list" where
  "shift_tree_ids ids hi j =
     (if j < hi then shift_tree_ids (ids[nat j := ids ! nat (j + 1)]) hi (j + 1) else ids)"
  by pat_completeness auto
termination by (relation "measure (\<lambda>(ids, hi, j). nat (hi - j))") auto

declare shift_tree_ids.simps [simp del]

definition smb2_disconnect_tree_id :: "smb2_context \<Rightarrow> u32 \<Rightarrow> int \<times> smb2_context" where
  "smb2_disconnect_tree_id c tree_id =
     (let i = tree_index c tree_id 1 in
      if c_tree_id_top c > 0 \<and> i \<le> c_tree_id_top c
      then (let c = c\<lparr>c_tree_id := shift_tree_ids (c_tree_id c) (c_tree_id_top c) i\<rparr>;
                c = c\<lparr>c_tree_id_top := c_tree_id_top c - 1\<rparr>
            in (0, if c_tree_id_cur c > c_tree_id_top c
                   then c\<lparr>c_tree_id_cur := c_tree_id_top c\<rparr> else c))
      else (-1, smb2_set_error ''No tree-id %08X to remove'' c))"

text \<open>
  The abstraction: the connected trees, oldest first. The invariant keeps \<open>tree_id_cur\<close> inside the
  stack; index 0 (no tree) is current only while nothing is connected.
\<close>

definition trees :: "smb2_context \<Rightarrow> u32 list" where
  "trees c = take (nat (c_tree_id_top c)) (drop 1 (c_tree_id c))"

definition trees_ok :: "smb2_context \<Rightarrow> bool" where
  "trees_ok c \<longleftrightarrow> length (c_tree_id c) = 32 \<and> 0 \<le> c_tree_id_top c \<and> c_tree_id_top c < 32 \<and>
     0 \<le> c_tree_id_cur c \<and> c_tree_id_cur c \<le> c_tree_id_top c"

lemma length_trees: "trees_ok c \<Longrightarrow> length (trees c) = nat (c_tree_id_top c)"
  by (auto simp: trees_def trees_ok_def)

lemma nth_trees: "trees_ok c \<Longrightarrow> k < nat (c_tree_id_top c) \<Longrightarrow> trees c ! k = c_tree_id c ! Suc k"
  by (auto simp: trees_def trees_ok_def)

text \<open>Searching the list: the position of the first occurrence, or the length.\<close>

fun first_pos :: "'a \<Rightarrow> 'a list \<Rightarrow> nat" where
  "first_pos x [] = 0"
| "first_pos x (y # ys) = (if x = y then 0 else Suc (first_pos x ys))"

lemma first_pos_le: "first_pos x xs \<le> length xs"
  by (induction xs) auto

lemma first_pos_mem: "first_pos x xs < length xs \<longleftrightarrow> x \<in> set xs"
  by (induction xs) auto

lemma nth_first_pos: "x \<in> set xs \<Longrightarrow> xs ! first_pos x xs = x"
  by (induction xs) auto

lemma remove1_first_pos:
  "x \<in> set xs \<Longrightarrow> remove1 x xs = take (first_pos x xs) xs @ drop (Suc (first_pos x xs)) xs"
  by (induction xs) auto

lemma tree_index_eq:
  assumes "trees_ok c"
  shows "k \<le> nat (c_tree_id_top c) \<Longrightarrow>
    tree_index c t (1 + int k) = 1 + int (k + first_pos t (drop k (trees c)))"
proof (induction "nat (c_tree_id_top c) - k" arbitrary: k)
  case 0
  then have "drop k (trees c) = []" "\<not> 1 + int k \<le> c_tree_id_top c"
    using length_trees [OF assms] by auto
  then show ?case by (simp add: tree_index.simps)
next
  case (Suc n)
  then have k: "k < length (trees c)" "1 + int k \<le> c_tree_id_top c"
    using length_trees [OF assms] by auto
  have nth: "trees c ! k = c_tree_id c ! nat (1 + int k)"
    using nth_trees [OF assms, of k] k length_trees [OF assms] by (simp add: nat_add_distrib)
  have "1 + int k \<le> 32" using k assms by (simp add: trees_ok_def)
  moreover have "tree_index c t (1 + int (Suc k)) = 1 + int (Suc k + first_pos t (drop (Suc k) (trees c)))"
    using Suc by (intro Suc(1)) auto
  ultimately show ?case
    using k nth by (subst tree_index.simps) (auto simp: Cons_nth_drop_Suc [symmetric] add.commute)
qed

lemma tree_index_1: "trees_ok c \<Longrightarrow> tree_index c t 1 = 1 + int (first_pos t (trees c))"
  using tree_index_eq [of c 0 t] by simp

lemma tree_index_found:
  "trees_ok c \<Longrightarrow> tree_index c t 1 \<le> c_tree_id_top c \<longleftrightarrow> t \<in> set (trees c)"
  using first_pos_mem [of t "trees c"] length_trees [of c] by (auto simp: tree_index_1 trees_ok_def)

lemma shift_tree_ids_eq:
  "0 \<le> j \<Longrightarrow> j \<le> hi \<Longrightarrow> nat hi < length ids \<Longrightarrow>
   shift_tree_ids ids hi j =
     take (nat j) ids @ take (nat (hi - j)) (drop (Suc (nat j)) ids) @ drop (nat hi) ids"
proof (induction ids hi j rule: shift_tree_ids.induct)
  case (1 ids hi j)
  show ?case
  proof (cases "j < hi")
    case False
    with 1 show ?thesis by (simp add: shift_tree_ids.simps)
  next
    case True
    let ?n = "nat j" and ?ids = "ids[nat j := ids ! nat (j + 1)]"
    from True 1(2-4) have n: "Suc ?n < length ids" "nat (j + 1) = Suc ?n"
        "nat (hi - j) = Suc (nat (hi - (j + 1)))" "Suc ?n \<le> nat hi" by auto
    have "shift_tree_ids ids hi j = shift_tree_ids ?ids hi (j + 1)"
      using True by (simp add: shift_tree_ids.simps [of ids])
    also have "\<dots> = take (Suc ?n) ?ids @ take (nat (hi - (j + 1))) (drop (Suc (Suc ?n)) ?ids)
        @ drop (nat hi) ?ids"
      using 1(1) [OF True] 1(2-4) True n by simp
    also have "\<dots> = take ?n ids @ take (nat (hi - j)) (drop (Suc ?n) ids) @ drop (nat hi) ids"
      using n by (simp add: take_Suc_conv_app_nth Cons_nth_drop_Suc [symmetric, of "Suc ?n"]
          drop_update_cancel Suc_le_eq)
    finally show ?thesis .
  qed
qed


text \<open>Connecting pushes the tree and makes it current; only a full stack refuses it.\<close>

lemma connect_tree_ok:
  assumes "trees_ok c"
  shows "case smb2_connect_tree_id c t of (rc, c') \<Rightarrow>
    trees_ok c' \<and> (if length (trees c) < 31
      then rc = 0 \<and> trees c' = trees c @ [t] \<and> smb2_tree_id c' = t
      else rc = -1 \<and> c' = smb2_set_error ''Tree nesting too deep'' c)"
proof (cases "c_tree_id_top c < 31")
  case True
  let ?n = "nat (c_tree_id_top c)"
  have n: "Suc ?n < length (c_tree_id c)" "nat (c_tree_id_top c + 1) = Suc ?n"
    using assms True by (auto simp: trees_ok_def)
  have "take (Suc ?n) (drop 1 ((c_tree_id c)[Suc ?n := t])) = take ?n (drop 1 (c_tree_id c)) @ [t]"
    using n by (simp add: take_Suc_conv_app_nth drop_update_swap)
  then show ?thesis using assms True n
    by (auto simp: smb2_connect_tree_id_def trees_ok_def trees_def smb2_tree_id_def)
next
  case False
  then show ?thesis using assms length_trees [OF assms]
    by (auto simp: smb2_connect_tree_id_def trees_ok_def)
qed

lemma select_tree_ok:
  assumes "trees_ok c"
  shows "case smb2_select_tree_id c t of (rc, c') \<Rightarrow>
    trees_ok c' \<and> trees c' = trees c \<and>
    (if t \<in> set (trees c) then rc = 0 \<and> smb2_tree_id c' = t
     else rc = -1 \<and> c' = smb2_set_error ''No connected tree-id %08X to select'' c)"
proof (cases "t \<in> set (trees c)")
  case True
  then have "c_tree_id c ! nat (tree_index c t 1) = t"
    using first_pos_mem [of t "trees c"] nth_first_pos [of t "trees c"]
      nth_trees [OF assms, of "first_pos t (trees c)"] length_trees [OF assms]
    by (simp add: tree_index_1 [OF assms] nat_add_distrib)
  moreover have "1 \<le> tree_index c t 1" by (simp add: tree_index_1 [OF assms])
  ultimately show ?thesis using True assms tree_index_found [OF assms, of t]
    by (simp add: smb2_select_tree_id_def Let_def smb2_tree_id_def trees_ok_def trees_def)
next
  case False
  then show ?thesis using assms tree_index_found [OF assms, of t]
    by (simp add: smb2_select_tree_id_def Let_def trees_ok_def trees_def)
qed

lemma removed_tree_ids:
  assumes "k < n" "n < length ids"
  shows "take (n - 1) (drop 1 (take (Suc k) ids @ take (n - Suc k) (drop (Suc (Suc k)) ids) @ drop n ids))
    = take k (take n (drop 1 ids)) @ drop (Suc k) (take n (drop 1 ids))"
proof -
  have "n - Suc 0 \<le> k \<Longrightarrow> n - Suc 0 = k" using assms by simp
  then show ?thesis using assms by (cases ids) (auto simp: min_def drop_take)
qed

lemma disconnect_tree_ok:
  assumes "trees_ok c"
  shows "case smb2_disconnect_tree_id c t of (rc, c') \<Rightarrow>
    trees_ok c' \<and> trees c' = remove1 t (trees c) \<and>
    (if t \<in> set (trees c) then rc = 0
     else rc = -1 \<and> c' = smb2_set_error ''No tree-id %08X to remove'' c)"
proof (cases "t \<in> set (trees c)")
  case True
  let ?k = "first_pos t (trees c)" and ?n = "nat (c_tree_id_top c)"
  define ids where "ids = shift_tree_ids (c_tree_id c) (c_tree_id_top c) (tree_index c t 1)"
  have k: "?k < ?n" and i: "tree_index c t 1 = 1 + int ?k" "nat (1 + int ?k) = Suc ?k"
    using True first_pos_mem [of t "trees c"] length_trees [OF assms]
    by (simp_all add: tree_index_1 [OF assms])
  have n: "?n < length (c_tree_id c)" "int ?n = c_tree_id_top c" "nat (c_tree_id_top c - 1) = ?n - 1"
    using assms by (auto simp: trees_ok_def)
  have shift: "shift_tree_ids (c_tree_id c) (c_tree_id_top c) (1 + int ?k) =
      take (Suc ?k) (c_tree_id c) @ take (?n - Suc ?k) (drop (Suc (Suc ?k)) (c_tree_id c))
      @ drop ?n (c_tree_id c)"
    using k n by (subst shift_tree_ids_eq) (auto simp: nat_diff_distrib' i)
  have "take (?n - 1) (drop 1 (shift_tree_ids (c_tree_id c) (c_tree_id_top c) (1 + int ?k))) =
      take ?k (trees c) @ drop (Suc ?k) (trees c)"
    using removed_tree_ids [OF k n(1)] unfolding shift by (simp only: trees_def)
  then have tr: "take (nat (c_tree_id_top c - 1)) (drop 1 ids) = remove1 t (trees c)"
    using n(3) remove1_first_pos [OF True] by (simp add: ids_def i(1))
  have "length ids = 32" unfolding ids_def i(1) shift using k n assms by (auto simp: trees_ok_def)
  moreover have "trees (c\<lparr>c_tree_id := ids, c_tree_id_top := c_tree_id_top c - 1, c_tree_id_cur := m\<rparr>)
      = remove1 t (trees c)" for m using tr by (subst trees_def) simp
  moreover have "smb2_disconnect_tree_id c t =
     (0, c\<lparr>c_tree_id := ids, c_tree_id_top := c_tree_id_top c - 1,
           c_tree_id_cur := min (c_tree_id_cur c) (c_tree_id_top c - 1)\<rparr>)"
    using True tree_index_found [OF assms, of t] k
    by (auto simp: smb2_disconnect_tree_id_def Let_def min_def simp flip: ids_def)
  ultimately show ?thesis using True assms k by (auto simp: trees_ok_def)
next
  case False
  then show ?thesis using assms tree_index_found [OF assms, of t]
    by (simp add: smb2_disconnect_tree_id_def Let_def trees_ok_def trees_def remove1_idem)
qed


subsection \<open>Compound chains\<close>

definition smb2_pdu_is_compound :: "smb2_context \<Rightarrow> bool" where
  "smb2_pdu_is_compound c \<longleftrightarrow> h_next_command (c_hdr c) \<noteq> 0"

text \<open>The header vector of a PDU, which the setters below write to.\<close>

definition map_hdr_iov :: "(bytes \<Rightarrow> bytes) \<Rightarrow> smb2_io_vectors \<Rightarrow> smb2_io_vectors" where
  "map_hdr_iov f v =
     (case v_iov v of [] \<Rightarrow> v | i # is \<Rightarrow> v\<lparr>v_iov := i\<lparr>iov_buf := f (iov_buf i)\<rparr> # is\<rparr>)"

definition hdr_buf :: "smb2_pdu \<Rightarrow> bytes" where
  "hdr_buf p = (case v_iov (p_out p) of [] \<Rightarrow> [] | i # is \<Rightarrow> iov_buf i)"

fun smb2_add_compound_pdu :: "smb2_pdu list \<Rightarrow> smb2_pdu list \<Rightarrow> smb2_pdu list" where
  "smb2_add_compound_pdu [] next_pdu = next_pdu"
| "smb2_add_compound_pdu (p # q # ps) next_pdu = p # smb2_add_compound_pdu (q # ps) next_pdu"
| "smb2_add_compound_pdu [p] [] = [p]"
| "smb2_add_compound_pdu [p] (n # ns) =
     (let off = of_nat (iov_len (p_out p));
          p = p\<lparr>p_header := (p_header p)\<lparr>h_next_command := off\<rparr>\<rparr>;
          p = p\<lparr>p_out := map_hdr_iov (set32 20 (h_next_command (p_header p))) (p_out p)\<rparr>;
          n = n\<lparr>p_header := (p_header n)\<lparr>h_flags := h_flags (p_header n) OR SMB2_FLAGS_RELATED_OPERATIONS\<rparr>\<rparr>;
          n = n\<lparr>p_out := map_hdr_iov (set32 16 (h_flags (p_header n))) (p_out n)\<rparr>
      in [p, n] @ ns)"

subsection \<open>Freeing\<close>

text \<open>\<open>SMB2_LIST_REMOVE\<close> unlinks the element at an address, if it is in the list.\<close>

fun list_remove :: "('a \<Rightarrow> nat) \<Rightarrow> nat \<Rightarrow> 'a list \<Rightarrow> 'a list" where
  "list_remove adr ptr [] = []"
| "list_remove adr ptr (p # ps) = (if adr p = ptr then ps else p # list_remove adr ptr ps)"

definition chain_ptr :: "smb2_pdu list \<Rightarrow> nat" where
  "chain_ptr ps = (case ps of [] \<Rightarrow> 0 | p # _ \<Rightarrow> p_ptr p)"

definition log_event :: "event \<Rightarrow> smb2_context \<Rightarrow> smb2_context" where
  "log_event e c = c\<lparr>c_trace := c_trace c @ [e]\<rparr>"

fun smb2_free_pdu :: "smb2_context \<Rightarrow> smb2_pdu list \<Rightarrow> smb2_context" where
  "smb2_free_pdu c [] = c"
| "smb2_free_pdu c (p # ps) =
     (let c = c\<lparr>c_outqueue := list_remove chain_ptr (p_ptr p) (c_outqueue c)\<rparr>;
          c = c\<lparr>c_waitqueue := list_remove p_ptr (p_ptr p) (c_waitqueue c)\<rparr>;
          c = smb2_free_pdu c ps;
          c = (if p_free_cb p then log_event (Ev_free_cb (p_cb_data p)) c else c)
      in log_event (Ev_free_pdu (p_ptr p)) c)"

lemma list_remove_filter:
  "distinct (map adr ps) \<Longrightarrow> list_remove adr a ps = filter (\<lambda>p. adr p \<noteq> a) ps"
proof (induction ps)
  case (Cons p ps)
  then have "filter (\<lambda>p. adr p \<noteq> a) ps = ps" if "adr p = a"
    using that by (intro filter_True ballI) (metis distinct.simps(2) image_eqI list.map(2) list.set_map)
  with Cons show ?case by auto
qed simp

lemma set_list_remove: "set (list_remove adr a ps) \<subseteq> set ps"
  by (induction ps) auto

lemma list_remove_notin [simp]: "a \<notin> adr ` set ps \<Longrightarrow> list_remove adr a ps = ps"
  by (induction ps) auto

lemma sublist_map_distinct_remove: "distinct (map f ps) \<Longrightarrow> distinct (map f (list_remove adr a ps))"
  using set_list_remove by (induction ps) fastforce+

subsection \<open>The header codec\<close>

text \<open>
  A client numbers the message as it encodes it: a multi-credit request takes as many ids as its
  charge. The result is the context, the header with its new id, and the buffer.
\<close>

definition write_header :: "smb2_header \<Rightarrow> bytes \<Rightarrow> bytes" where
  "write_header hdr buf =
     (let buf = put_at 0 (take 4 (h_protocol_id hdr)) buf;
          buf = set16 4 (h_struct_size hdr) buf;
          buf = set16 6 (h_credit_charge hdr) buf;
          buf = set32 8 (h_status hdr) buf;
          buf = set16 12 (h_command hdr) buf;
          buf = set16 14 (h_credit_request_response hdr) buf;
          buf = set32 16 (h_flags hdr) buf;
          buf = set32 20 (h_next_command hdr) buf;
          buf = set64 24 (h_message_id hdr) buf;
          buf = (if h_flags hdr AND SMB2_FLAGS_ASYNC_COMMAND \<noteq> 0
                 then set64 32 (h_async_id hdr) buf
                 else set32 36 (h_tree_id hdr) (set32 32 (h_process_id hdr) buf));
          buf = set64 40 (h_session_id hdr) buf
      in put_at 48 (take 16 (h_signature hdr)) buf)"

definition smb2_encode_header ::
  "smb2_context \<Rightarrow> bytes \<Rightarrow> smb2_header \<Rightarrow> smb2_context \<times> smb2_header \<times> bytes" where
  "smb2_encode_header c buf hdr =
     (if smb2_is_server c then (c, hdr, write_header hdr buf)
      else (let hdr = hdr\<lparr>h_message_id := c_message_id c\<rparr>;
                c = c\<lparr>c_message_id := c_message_id c + 1\<rparr>;
                c = (if h_credit_charge hdr > 1
                     then c\<lparr>c_message_id := c_message_id c + ucast (h_credit_charge hdr - 1)\<rparr> else c)
            in (c, hdr, write_header hdr buf)))"

definition smb2_decode_header ::
  "smb2_context \<Rightarrow> bytes \<Rightarrow> smb2_header \<Rightarrow> int \<times> smb2_context \<times> smb2_header" where
  "smb2_decode_header c buf hdr =
     (if length buf < SMB2_HEADER_SIZE
      then (-1, smb2_set_error ''io vector for header is too small'' c, hdr)
      else if get_at 0 4 buf = smb1_magic then
        (if ucast (buf ! 4) = SMB1_NEGOTIATE
         then (0, c, zero_header\<lparr>h_command := SMB1_NEGOTIATE\<rparr>)
         else (-1, smb2_set_error ''not handling SMBv1 request'' c, hdr))
      else if get_at 0 4 buf \<noteq> smb2_magic
      then (-1, smb2_set_error ''bad SMB signature in header'' c, hdr)
      else
        (let hdr = hdr\<lparr>h_protocol_id := get_at 0 4 buf,
                   h_struct_size := get16 buf 4 (h_struct_size hdr),
                   h_credit_charge := get16 buf 6 (h_credit_charge hdr),
                   h_status := get32 buf 8 (h_status hdr),
                   h_command := get16 buf 12 (h_command hdr),
                   h_credit_request_response := get16 buf 14 (h_credit_request_response hdr),
                   h_flags := get32 buf 16 (h_flags hdr),
                   h_next_command := get32 buf 20 (h_next_command hdr),
                   h_message_id := get64 buf 24 (h_message_id hdr)\<rparr>;
             (c, hdr) =
               (if h_flags hdr AND SMB2_FLAGS_ASYNC_COMMAND \<noteq> 0
                then (c, set_async_id (get64 buf 32 (h_async_id hdr)) hdr)
                else (let hdr = set_process_id (get32 buf 32 (h_process_id hdr)) hdr;
                          hdr = set_tree_id (get32 buf 36 (h_tree_id hdr)) hdr
                      in (if h_flags hdr AND SMB2_FLAGS_SERVER_TO_REDIR = 0 \<and> has_tree_id (h_command hdr)
                          then snd (smb2_select_tree_id c (h_tree_id hdr)) else c,
                          hdr)));
             c = (if smb2_is_server c then c\<lparr>c_message_id := h_message_id hdr\<rparr> else c)
         in (0, c, hdr\<lparr>h_session_id := get64 buf 40 (h_session_id hdr), h_signature := get_at 48 16 buf\<rparr>)))"

subsection \<open>Accessors and error replies\<close>

definition smb2_get_compound_pdu :: "smb2_pdu list \<Rightarrow> smb2_pdu option" where
  "smb2_get_compound_pdu ps = (case ps of p # q # _ \<Rightarrow> Some q | _ \<Rightarrow> None)"

definition smb2_set_pdu_status :: "smb2_pdu \<Rightarrow> int \<Rightarrow> smb2_pdu" where
  "smb2_set_pdu_status p status = p\<lparr>p_header := (p_header p)\<lparr>h_status := word_of_int status\<rparr>\<rparr>"

definition smb2_set_pdu_message_id :: "smb2_pdu \<Rightarrow> u64 \<Rightarrow> smb2_pdu" where
  "smb2_set_pdu_message_id p message_id = p\<lparr>p_header := (p_header p)\<lparr>h_message_id := message_id\<rparr>\<rparr>"

definition smb2_get_pdu_message_id :: "smb2_pdu option \<Rightarrow> u64" where
  "smb2_get_pdu_message_id pdu = (case pdu of None \<Rightarrow> 0 | Some p \<Rightarrow> h_message_id (p_header p))"

definition smb2_get_last_request_message_id :: "smb2_context option \<Rightarrow> u64" where
  "smb2_get_last_request_message_id smb2 = (case smb2 of None \<Rightarrow> 0 | Some c \<Rightarrow> c_message_id c)"

definition smb2_get_last_reply_message_id :: "smb2_context option \<Rightarrow> u64" where
  "smb2_get_last_reply_message_id smb2 =
     (case smb2 of None \<Rightarrow> 0 | Some c \<Rightarrow> h_message_id (c_hdr c))"

fun find_mid :: "u64 \<Rightarrow> smb2_pdu list \<Rightarrow> smb2_pdu option" where
  "find_mid message_id [] = None"
| "find_mid message_id (p # ps) =
     (if h_message_id (p_header p) = message_id then Some p else find_mid message_id ps)"

definition smb2_find_pdu :: "smb2_context \<Rightarrow> u64 \<Rightarrow> smb2_pdu option" where
  "smb2_find_pdu c message_id = find_mid message_id (c_waitqueue c)"

definition smb2_is_error_response :: "smb2_context \<Rightarrow> bool" where
  "smb2_is_error_response c =
     (let status = h_status (c_hdr c) in
      if status AND SMB2_STATUS_SEVERITY_MASK = SMB2_STATUS_SEVERITY_ERROR
      then status \<noteq> SMB2_STATUS_MORE_PROCESSING_REQUIRED
      else if status AND SMB2_STATUS_SEVERITY_MASK = SMB2_STATUS_SEVERITY_WARNING
      then status = SMB2_STATUS_STOPPED_ON_SYMLINK
      else False)"

definition fixed_reply_sizes :: "(u16 \<times> int) list" where
  "fixed_reply_sizes =
     [(SMB2_NEGOTIATE, 65), (SMB2_SESSION_SETUP, 9), (SMB2_LOGOFF, 4), (SMB2_TREE_CONNECT, 16),
      (SMB2_TREE_DISCONNECT, 4), (SMB2_CREATE, 89), (SMB2_CLOSE, 60), (SMB2_FLUSH, 4),
      (SMB2_READ, 17), (SMB2_WRITE, 17), (SMB2_LOCK, 4), (SMB2_ECHO, 4), (SMB2_QUERY_DIRECTORY, 9),
      (SMB2_CHANGE_NOTIFY, 9), (SMB2_QUERY_INFO, 9), (SMB2_SET_INFO, 2), (SMB2_IOCTL, 49),
      (SMB2_OPLOCK_BREAK, 2)]"

definition fixed_request_sizes :: "(u16 \<times> int) list" where
  "fixed_request_sizes =
     [(SMB2_NEGOTIATE, 36), (SMB2_SESSION_SETUP, 25), (SMB2_LOGOFF, 4), (SMB2_TREE_CONNECT, 9),
      (SMB2_TREE_DISCONNECT, 4), (SMB2_CREATE, 57), (SMB2_CLOSE, 24), (SMB2_FLUSH, 24),
      (SMB2_READ, 49), (SMB2_WRITE, 49), (SMB2_LOCK, 48), (SMB2_CANCEL, 4), (SMB2_ECHO, 4),
      (SMB2_QUERY_DIRECTORY, 33), (SMB2_CHANGE_NOTIFY, 32), (SMB2_QUERY_INFO, 41),
      (SMB2_SET_INFO, 33), (SMB2_IOCTL, 57), (SMB2_OPLOCK_BREAK, 2)]"

definition smb2_get_fixed_reply_size :: "smb2_context \<Rightarrow> smb2_pdu \<Rightarrow> int" where
  "smb2_get_fixed_reply_size c p =
     (if smb2_is_error_response c then 8
      else case map_of fixed_reply_sizes (h_command (p_header p)) of None \<Rightarrow> -1 | Some n \<Rightarrow> n)"

definition smb2_get_fixed_request_size :: "smb2_context \<Rightarrow> smb2_pdu \<Rightarrow> int" where
  "smb2_get_fixed_request_size c p =
     (case map_of fixed_request_sizes (h_command (p_header p)) of None \<Rightarrow> -1 | Some n \<Rightarrow> n)"

definition smb2_get_fixed_size :: "smb2_context \<Rightarrow> smb2_pdu \<Rightarrow> int" where
  "smb2_get_fixed_size c p =
     (if smb2_is_server c then smb2_get_fixed_request_size c p else smb2_get_fixed_reply_size c p)"


text \<open>The 64 bytes of a header, field by field.\<close>

definition header_ok :: "smb2_header \<Rightarrow> bool" where
  "header_ok h \<longleftrightarrow> h_protocol_id h = smb2_magic \<and> length (h_signature h) = 16"

definition header_bytes :: "smb2_header \<Rightarrow> bytes" where
  "header_bytes h =
     h_protocol_id h @ le16 (h_struct_size h) @ le16 (h_credit_charge h) @ le32 (h_status h) @
     le16 (h_command h) @ le16 (h_credit_request_response h) @ le32 (h_flags h) @
     le32 (h_next_command h) @ le64 (h_message_id h) @
     (if h_flags h AND SMB2_FLAGS_ASYNC_COMMAND \<noteq> 0 then le64 (h_async_id h)
      else le32 (h_process_id h) @ le32 (h_tree_id h)) @ le64 (h_session_id h) @ h_signature h"

lemma length_magic [simp]: "length smb2_magic = 4"
  by (simp add: smb2_magic_def)

lemma length_header_bytes: "header_ok h \<Longrightarrow> length (header_bytes h) = 64"
  by (simp add: header_bytes_def header_ok_def)

lemma write_header_bytes:
  "length buf = 64 \<Longrightarrow> header_ok h \<Longrightarrow> write_header h buf = header_bytes h"
  by (simp add: write_header_def Let_def header_bytes_def header_ok_def field_io)

lemma set_union_parts:
  "set_tree_id (h_tree_id h) (set_process_id (h_process_id h) x) = x\<lparr>h_union := h_union h\<rparr>"
  "set_async_id (h_async_id h) x = x\<lparr>h_union := h_union h\<rparr>"
proof -
  have "h_union (set_tree_id (h_tree_id h) (set_process_id (h_process_id h) x)) = h_union h"
    by (rule union_from_parts) simp_all
  then show "set_tree_id (h_tree_id h) (set_process_id (h_process_id h) x) = x\<lparr>h_union := h_union h\<rparr>"
    by (simp add: set_tree_id_def set_process_id_def)
qed (simp add: set_async_id_def h_async_id_def)

lemma header_copy:
  "h_protocol_id h = m \<Longrightarrow>
   (old :: smb2_header)\<lparr>h_protocol_id := m, h_struct_size := h_struct_size h, h_credit_charge := h_credit_charge h,
     h_status := h_status h, h_command := h_command h,
     h_credit_request_response := h_credit_request_response h, h_flags := h_flags h,
     h_next_command := h_next_command h, h_message_id := h_message_id h, h_union := h_union h,
     h_session_id := h_session_id h, h_signature := h_signature h\<rparr> = h"
  by (cases h; cases old) simp

lemma decode_header_bytes:
  assumes "header_ok h"
  shows "\<exists>c'. smb2_decode_header c (header_bytes h) old = (0, c', h)"
proof -
  have "smb2_magic \<noteq> smb1_magic" by (simp add: smb2_magic_def smb1_magic_def)
  moreover have "h_protocol_id h = smb2_magic" "length (h_signature h) = 16"
    using assms by (simp_all add: header_ok_def)
  moreover note length_header_bytes [OF assms]
  ultimately show ?thesis
    by (cases "h_flags h AND 2 = 0")
      (simp_all add: smb2_decode_header_def Let_def header_bytes_def field_io set_union_parts header_copy)
qed


text \<open>The number of message ids a request takes: its credit charge, and at least one.\<close>

definition mids :: "smb2_header \<Rightarrow> u64" where
  "mids h = (if 1 < h_credit_charge h then ucast (h_credit_charge h) else 1)"

lemma one_plus_ucast: "1 < (x :: u16) \<Longrightarrow> 1 + ucast (x - 1) = (ucast x :: u64)"
  using unat_bound(2) [of x] by (simp add: word_unat_eq_iff word_nat del: unat_bound)

lemma encode_header_bytes:
  assumes "length buf = 64" "header_ok h" "smb2_encode_header c buf h = (c', h', buf')"
  shows "buf' = header_bytes h'" "header_ok h'"
    "h' = (if smb2_is_server c then h else h\<lparr>h_message_id := c_message_id c\<rparr>)"
    "c' = (if smb2_is_server c then c else c\<lparr>c_message_id := c_message_id c + mids h\<rparr>)"
proof -
  have "header_ok (h\<lparr>h_message_id := x\<rparr>)" for x using assms(2) by (simp add: header_ok_def)
  then show "buf' = header_bytes h'" "header_ok h'"
    using assms by (auto simp: smb2_encode_header_def Let_def write_header_bytes split: if_splits)
  show "h' = (if smb2_is_server c then h else h\<lparr>h_message_id := c_message_id c\<rparr>)"
    using assms(3) by (auto simp: smb2_encode_header_def Let_def split: if_splits)
  show "c' = (if smb2_is_server c then c else c\<lparr>c_message_id := c_message_id c + mids h\<rparr>)"
    using assms(3) one_plus_ucast [of "h_credit_charge h"]
    by (auto simp: smb2_encode_header_def Let_def mids_def add.assoc split: if_splits)
qed

text \<open>C1. A header that \<open>smb2_encode_header\<close> has written is read back by \<open>smb2_decode_header\<close> field for
  field, the assigned message id and the side of the async/sync union that its flags select included,
  whatever the decoder's context and the previous contents of its header are.\<close>

theorem header_roundtrip:
  assumes "length buf = 64" "header_ok h" "smb2_encode_header c buf h = (c', h', buf')"
  shows "(\<exists>d'. smb2_decode_header d buf' old = (0, d', h')) \<and>
    h' = (if smb2_is_server c then h else h\<lparr>h_message_id := c_message_id c\<rparr>)"
  using encode_header_bytes [OF assms] decode_header_bytes [of h'] by blast

theorem header_roundtrip_witness:
  "\<exists>c' h' buf'. smb2_encode_header zero_context (replicate 64 0)
      (zero_header\<lparr>h_protocol_id := smb2_magic, h_flags := 2, h_union := 7\<rparr>) = (c', h', buf') \<and>
    (\<exists>d'. smb2_decode_header zero_context buf' zero_header = (0, d', h')) \<and> h_union h' = 7"
proof -
  let ?h = "zero_header\<lparr>h_protocol_id := smb2_magic, h_flags := 2, h_union := 7\<rparr>"
  obtain c' h' buf' where e: "smb2_encode_header zero_context (replicate 64 0) ?h = (c', h', buf')"
    by (metis prod_cases3)
  have "header_ok ?h" by (simp add: header_ok_def zero_header_def)
  from header_roundtrip [OF _ this e, of zero_context zero_header] e show ?thesis by auto
qed

text \<open>C2. The tree ids are a stack of the connected trees: connecting pushes a tree and selects it unless
  31 are connected, selecting finds a connected tree and makes it current, disconnecting removes its
  first occurrence and nothing else; each fails, with its message and no other change, exactly when it
  should, and all keep the current index inside the stack.\<close>

theorem tree_ids_are_a_stack:
  assumes "trees_ok c"
  shows "(case smb2_connect_tree_id c t of (rc, c') \<Rightarrow>
      trees_ok c' \<and> (if length (trees c) < 31
        then rc = 0 \<and> trees c' = trees c @ [t] \<and> smb2_tree_id c' = t
        else rc = -1 \<and> c' = smb2_set_error ''Tree nesting too deep'' c)) \<and>
    (case smb2_select_tree_id c t of (rc, c') \<Rightarrow>
      trees_ok c' \<and> trees c' = trees c \<and>
      (if t \<in> set (trees c) then rc = 0 \<and> smb2_tree_id c' = t
       else rc = -1 \<and> c' = smb2_set_error ''No connected tree-id %08X to select'' c)) \<and>
    (case smb2_disconnect_tree_id c t of (rc, c') \<Rightarrow>
      trees_ok c' \<and> trees c' = remove1 t (trees c) \<and>
      (if t \<in> set (trees c) then rc = 0
       else rc = -1 \<and> c' = smb2_set_error ''No tree-id %08X to remove'' c))"
  by (intro conjI connect_tree_ok [OF assms] select_tree_ok [OF assms] disconnect_tree_ok [OF assms])

theorem tree_ids_are_a_stack_witness:
  "fst (smb2_disconnect_tree_id (zero_context\<lparr>c_tree_id := 0 # 5 # 6 # replicate 29 0,
     c_tree_id_top := 2, c_tree_id_cur := 1\<rparr>) 5) = 0"
  using tree_ids_are_a_stack [of "zero_context\<lparr>c_tree_id := 0 # 5 # 6 # replicate 29 0,
     c_tree_id_top := 2, c_tree_id_cur := 1\<rparr>" 5]
  by (simp add: trees_ok_def trees_def numeral_2_eq_2 split: prod.splits)

end
