(* ===== verification/Smb2_Aes.thy ===== *)
theory Smb2_Aes
  imports Smb2_Prelude
begin

text \<open>
  \<^verbatim>\<open>lib/aes_reference.c\<close>, AES-128 on one block, which the sealing (CCM) and the signing (CMAC) of
  SMB3 use through \<open>AES128_ECB_encrypt\<close> of \<^verbatim>\<open>lib/aes.c\<close> (on a platform other than Apple's). The state
  \<open>uint8_t[4][4]\<close> is the list of its 16 bytes, \<open>state[i][j]\<close> at index \<open>4 * i + j\<close>, as the code casts it.
\<close>

subsection \<open>Tables\<close>

definition smb2_sbox :: "u8 list" where
  "smb2_sbox = [
    0x63, 0x7c, 0x77, 0x7b, 0xf2, 0x6b, 0x6f, 0xc5, 0x30, 0x01, 0x67, 0x2b, 0xfe, 0xd7, 0xab, 0x76,
    0xca, 0x82, 0xc9, 0x7d, 0xfa, 0x59, 0x47, 0xf0, 0xad, 0xd4, 0xa2, 0xaf, 0x9c, 0xa4, 0x72, 0xc0,
    0xb7, 0xfd, 0x93, 0x26, 0x36, 0x3f, 0xf7, 0xcc, 0x34, 0xa5, 0xe5, 0xf1, 0x71, 0xd8, 0x31, 0x15,
    0x04, 0xc7, 0x23, 0xc3, 0x18, 0x96, 0x05, 0x9a, 0x07, 0x12, 0x80, 0xe2, 0xeb, 0x27, 0xb2, 0x75,
    0x09, 0x83, 0x2c, 0x1a, 0x1b, 0x6e, 0x5a, 0xa0, 0x52, 0x3b, 0xd6, 0xb3, 0x29, 0xe3, 0x2f, 0x84,
    0x53, 0xd1, 0x00, 0xed, 0x20, 0xfc, 0xb1, 0x5b, 0x6a, 0xcb, 0xbe, 0x39, 0x4a, 0x4c, 0x58, 0xcf,
    0xd0, 0xef, 0xaa, 0xfb, 0x43, 0x4d, 0x33, 0x85, 0x45, 0xf9, 0x02, 0x7f, 0x50, 0x3c, 0x9f, 0xa8,
    0x51, 0xa3, 0x40, 0x8f, 0x92, 0x9d, 0x38, 0xf5, 0xbc, 0xb6, 0xda, 0x21, 0x10, 0xff, 0xf3, 0xd2,
    0xcd, 0x0c, 0x13, 0xec, 0x5f, 0x97, 0x44, 0x17, 0xc4, 0xa7, 0x7e, 0x3d, 0x64, 0x5d, 0x19, 0x73,
    0x60, 0x81, 0x4f, 0xdc, 0x22, 0x2a, 0x90, 0x88, 0x46, 0xee, 0xb8, 0x14, 0xde, 0x5e, 0x0b, 0xdb,
    0xe0, 0x32, 0x3a, 0x0a, 0x49, 0x06, 0x24, 0x5c, 0xc2, 0xd3, 0xac, 0x62, 0x91, 0x95, 0xe4, 0x79,
    0xe7, 0xc8, 0x37, 0x6d, 0x8d, 0xd5, 0x4e, 0xa9, 0x6c, 0x56, 0xf4, 0xea, 0x65, 0x7a, 0xae, 0x08,
    0xba, 0x78, 0x25, 0x2e, 0x1c, 0xa6, 0xb4, 0xc6, 0xe8, 0xdd, 0x74, 0x1f, 0x4b, 0xbd, 0x8b, 0x8a,
    0x70, 0x3e, 0xb5, 0x66, 0x48, 0x03, 0xf6, 0x0e, 0x61, 0x35, 0x57, 0xb9, 0x86, 0xc1, 0x1d, 0x9e,
    0xe1, 0xf8, 0x98, 0x11, 0x69, 0xd9, 0x8e, 0x94, 0x9b, 0x1e, 0x87, 0xe9, 0xce, 0x55, 0x28, 0xdf,
    0x8c, 0xa1, 0x89, 0x0d, 0xbf, 0xe6, 0x42, 0x68, 0x41, 0x99, 0x2d, 0x0f, 0xb0, 0x54, 0xbb, 0x16]"

definition smb2_rsbox :: "u8 list" where
  "smb2_rsbox = [
    0x52, 0x09, 0x6a, 0xd5, 0x30, 0x36, 0xa5, 0x38, 0xbf, 0x40, 0xa3, 0x9e, 0x81, 0xf3, 0xd7, 0xfb,
    0x7c, 0xe3, 0x39, 0x82, 0x9b, 0x2f, 0xff, 0x87, 0x34, 0x8e, 0x43, 0x44, 0xc4, 0xde, 0xe9, 0xcb,
    0x54, 0x7b, 0x94, 0x32, 0xa6, 0xc2, 0x23, 0x3d, 0xee, 0x4c, 0x95, 0x0b, 0x42, 0xfa, 0xc3, 0x4e,
    0x08, 0x2e, 0xa1, 0x66, 0x28, 0xd9, 0x24, 0xb2, 0x76, 0x5b, 0xa2, 0x49, 0x6d, 0x8b, 0xd1, 0x25,
    0x72, 0xf8, 0xf6, 0x64, 0x86, 0x68, 0x98, 0x16, 0xd4, 0xa4, 0x5c, 0xcc, 0x5d, 0x65, 0xb6, 0x92,
    0x6c, 0x70, 0x48, 0x50, 0xfd, 0xed, 0xb9, 0xda, 0x5e, 0x15, 0x46, 0x57, 0xa7, 0x8d, 0x9d, 0x84,
    0x90, 0xd8, 0xab, 0x00, 0x8c, 0xbc, 0xd3, 0x0a, 0xf7, 0xe4, 0x58, 0x05, 0xb8, 0xb3, 0x45, 0x06,
    0xd0, 0x2c, 0x1e, 0x8f, 0xca, 0x3f, 0x0f, 0x02, 0xc1, 0xaf, 0xbd, 0x03, 0x01, 0x13, 0x8a, 0x6b,
    0x3a, 0x91, 0x11, 0x41, 0x4f, 0x67, 0xdc, 0xea, 0x97, 0xf2, 0xcf, 0xce, 0xf0, 0xb4, 0xe6, 0x73,
    0x96, 0xac, 0x74, 0x22, 0xe7, 0xad, 0x35, 0x85, 0xe2, 0xf9, 0x37, 0xe8, 0x1c, 0x75, 0xdf, 0x6e,
    0x47, 0xf1, 0x1a, 0x71, 0x1d, 0x29, 0xc5, 0x89, 0x6f, 0xb7, 0x62, 0x0e, 0xaa, 0x18, 0xbe, 0x1b,
    0xfc, 0x56, 0x3e, 0x4b, 0xc6, 0xd2, 0x79, 0x20, 0x9a, 0xdb, 0xc0, 0xfe, 0x78, 0xcd, 0x5a, 0xf4,
    0x1f, 0xdd, 0xa8, 0x33, 0x88, 0x07, 0xc7, 0x31, 0xb1, 0x12, 0x10, 0x59, 0x27, 0x80, 0xec, 0x5f,
    0x60, 0x51, 0x7f, 0xa9, 0x19, 0xb5, 0x4a, 0x0d, 0x2d, 0xe5, 0x7a, 0x9f, 0x93, 0xc9, 0x9c, 0xef,
    0xa0, 0xe0, 0x3b, 0x4d, 0xae, 0x2a, 0xf5, 0xb0, 0xc8, 0xeb, 0xbb, 0x3c, 0x83, 0x53, 0x99, 0x61,
    0x17, 0x2b, 0x04, 0x7e, 0xba, 0x77, 0xd6, 0x26, 0xe1, 0x69, 0x14, 0x63, 0x55, 0x21, 0x0c, 0x7d]"

definition smb2_Rcon :: "u8 list" where
  "smb2_Rcon = [
    0x8d, 0x01, 0x02, 0x04, 0x08, 0x10, 0x20, 0x40, 0x80, 0x1b, 0x36, 0x6c, 0xd8, 0xab, 0x4d, 0x9a,
    0x2f, 0x5e, 0xbc, 0x63, 0xc6, 0x97, 0x35, 0x6a, 0xd4, 0xb3, 0x7d, 0xfa, 0xef, 0xc5, 0x91, 0x39,
    0x72, 0xe4, 0xd3, 0xbd, 0x61, 0xc2, 0x9f, 0x25, 0x4a, 0x94, 0x33, 0x66, 0xcc, 0x83, 0x1d, 0x3a,
    0x74, 0xe8, 0xcb, 0x8d, 0x01, 0x02, 0x04, 0x08, 0x10, 0x20, 0x40, 0x80, 0x1b, 0x36, 0x6c, 0xd8,
    0xab, 0x4d, 0x9a, 0x2f, 0x5e, 0xbc, 0x63, 0xc6, 0x97, 0x35, 0x6a, 0xd4, 0xb3, 0x7d, 0xfa, 0xef,
    0xc5, 0x91, 0x39, 0x72, 0xe4, 0xd3, 0xbd, 0x61, 0xc2, 0x9f, 0x25, 0x4a, 0x94, 0x33, 0x66, 0xcc,
    0x83, 0x1d, 0x3a, 0x74, 0xe8, 0xcb, 0x8d, 0x01, 0x02, 0x04, 0x08, 0x10, 0x20, 0x40, 0x80, 0x1b,
    0x36, 0x6c, 0xd8, 0xab, 0x4d, 0x9a, 0x2f, 0x5e, 0xbc, 0x63, 0xc6, 0x97, 0x35, 0x6a, 0xd4, 0xb3,
    0x7d, 0xfa, 0xef, 0xc5, 0x91, 0x39, 0x72, 0xe4, 0xd3, 0xbd, 0x61, 0xc2, 0x9f, 0x25, 0x4a, 0x94,
    0x33, 0x66, 0xcc, 0x83, 0x1d, 0x3a, 0x74, 0xe8, 0xcb, 0x8d, 0x01, 0x02, 0x04, 0x08, 0x10, 0x20,
    0x40, 0x80, 0x1b, 0x36, 0x6c, 0xd8, 0xab, 0x4d, 0x9a, 0x2f, 0x5e, 0xbc, 0x63, 0xc6, 0x97, 0x35,
    0x6a, 0xd4, 0xb3, 0x7d, 0xfa, 0xef, 0xc5, 0x91, 0x39, 0x72, 0xe4, 0xd3, 0xbd, 0x61, 0xc2, 0x9f,
    0x25, 0x4a, 0x94, 0x33, 0x66, 0xcc, 0x83, 0x1d, 0x3a, 0x74, 0xe8, 0xcb, 0x8d, 0x01, 0x02, 0x04,
    0x08, 0x10, 0x20, 0x40, 0x80, 0x1b, 0x36, 0x6c, 0xd8, 0xab, 0x4d, 0x9a, 0x2f, 0x5e, 0xbc, 0x63,
    0xc6, 0x97, 0x35, 0x6a, 0xd4, 0xb3, 0x7d, 0xfa, 0xef, 0xc5, 0x91, 0x39, 0x72, 0xe4, 0xd3, 0xbd,
    0x61, 0xc2, 0x9f, 0x25, 0x4a, 0x94, 0x33, 0x66, 0xcc, 0x83, 0x1d, 0x3a, 0x74, 0xe8, 0xcb]"

definition smb2_getSBoxValue :: "u8 \<Rightarrow> u8" where
  "smb2_getSBoxValue num = smb2_sbox ! unat num"

definition smb2_getSBoxInvert :: "u8 \<Rightarrow> u8" where
  "smb2_getSBoxInvert num = smb2_rsbox ! unat num"

subsection \<open>Key expansion\<close>

text \<open>The words of the round keys from the \<open>i\<close>th on; \<open>roundKey\<close> holds the \<open>4 * i\<close> bytes before it.\<close>

definition next_word :: "u8 list \<Rightarrow> nat \<Rightarrow> u8 list" where
  "next_word roundKey i =
     (let tempa = map (\<lambda>j. roundKey ! ((i - 1) * 4 + j)) [0, 1, 2, 3];
          tempa = (if i mod 4 = 0
                   then (let tempa = [tempa ! 1, tempa ! 2, tempa ! 3, tempa ! 0];
                             tempa = map smb2_getSBoxValue tempa
                         in tempa[0 := tempa ! 0 XOR smb2_Rcon ! (i div 4)])
                   else tempa)
      in map (\<lambda>j. roundKey ! ((i - 4) * 4 + j) XOR tempa ! j) [0, 1, 2, 3])"

definition smb2_KeyExpansion :: "bytes \<Rightarrow> u8 list" where
  "smb2_KeyExpansion Key =
     foldl (\<lambda>roundKey i. roundKey @ next_word roundKey i) (take 16 Key) [4..<44]"

subsection \<open>Rounds\<close>

definition smb2_AddRoundKey :: "u8 list \<Rightarrow> u8 list \<Rightarrow> nat \<Rightarrow> u8 list" where
  "smb2_AddRoundKey roundKey state round =
     map (\<lambda>k. state ! k XOR roundKey ! (round * 16 + k)) [0..<16]"

definition smb2_SubBytes :: "u8 list \<Rightarrow> u8 list" where
  "smb2_SubBytes state = map smb2_getSBoxValue state"

definition smb2_InvSubBytes :: "u8 list \<Rightarrow> u8 list" where
  "smb2_InvSubBytes state = map smb2_getSBoxInvert state"

definition smb2_ShiftRows :: "u8 list \<Rightarrow> u8 list" where
  "smb2_ShiftRows state =
     map ((!) state) [0, 5, 10, 15, 4, 9, 14, 3, 8, 13, 2, 7, 12, 1, 6, 11]"

definition smb2_InvShiftRows :: "u8 list \<Rightarrow> u8 list" where
  "smb2_InvShiftRows state =
     map ((!) state) [0, 13, 10, 7, 4, 1, 14, 11, 8, 5, 2, 15, 12, 9, 6, 3]"

definition smb2_xtime :: "u8 \<Rightarrow> u8" where
  "smb2_xtime x = push_bit 1 x XOR ((drop_bit 7 x AND 1) * 0x1b)"

text \<open>One column of the state: the assignments of the loop body in order.\<close>

definition mix_column :: "u8 \<Rightarrow> u8 \<Rightarrow> u8 \<Rightarrow> u8 \<Rightarrow> u8 list" where
  "mix_column s0 s1 s2 s3 =
     (let t = s0;
          Tmp = s0 XOR s1 XOR s2 XOR s3;
          s0 = s0 XOR (smb2_xtime (s0 XOR s1) XOR Tmp);
          s1 = s1 XOR (smb2_xtime (s1 XOR s2) XOR Tmp);
          s2 = s2 XOR (smb2_xtime (s2 XOR s3) XOR Tmp);
          s3 = s3 XOR (smb2_xtime (s3 XOR t) XOR Tmp)
      in [s0, s1, s2, s3])"

definition smb2_Multiply :: "u8 \<Rightarrow> u8 \<Rightarrow> u8" where
  "smb2_Multiply x y =
     ((y AND 1) * x) XOR
     ((drop_bit 1 y AND 1) * smb2_xtime x) XOR
     ((drop_bit 2 y AND 1) * smb2_xtime (smb2_xtime x)) XOR
     ((drop_bit 3 y AND 1) * smb2_xtime (smb2_xtime (smb2_xtime x))) XOR
     ((drop_bit 4 y AND 1) * smb2_xtime (smb2_xtime (smb2_xtime (smb2_xtime x))))"

definition inv_mix_column :: "u8 \<Rightarrow> u8 \<Rightarrow> u8 \<Rightarrow> u8 \<Rightarrow> u8 list" where
  "inv_mix_column a b c d =
     [smb2_Multiply a 0x0e XOR smb2_Multiply b 0x0b XOR smb2_Multiply c 0x0d XOR smb2_Multiply d 0x09,
      smb2_Multiply a 0x09 XOR smb2_Multiply b 0x0e XOR smb2_Multiply c 0x0b XOR smb2_Multiply d 0x0d,
      smb2_Multiply a 0x0d XOR smb2_Multiply b 0x09 XOR smb2_Multiply c 0x0e XOR smb2_Multiply d 0x0b,
      smb2_Multiply a 0x0b XOR smb2_Multiply b 0x0d XOR smb2_Multiply c 0x09 XOR smb2_Multiply d 0x0e]"

fun columns :: "(u8 \<Rightarrow> u8 \<Rightarrow> u8 \<Rightarrow> u8 \<Rightarrow> u8 list) \<Rightarrow> u8 list \<Rightarrow> u8 list" where
  "columns f (s0 # s1 # s2 # s3 # state) = f s0 s1 s2 s3 @ columns f state"
| "columns f _ = []"

definition smb2_MixColumns :: "u8 list \<Rightarrow> u8 list" where
  "smb2_MixColumns state = columns mix_column state"

definition smb2_InvMixColumns :: "u8 list \<Rightarrow> u8 list" where
  "smb2_InvMixColumns state = columns inv_mix_column state"

definition cipher_round :: "u8 list \<Rightarrow> u8 list \<Rightarrow> nat \<Rightarrow> u8 list" where
  "cipher_round roundKey state round =
     smb2_AddRoundKey roundKey (smb2_MixColumns (smb2_ShiftRows (smb2_SubBytes state))) round"

definition smb2_Cipher :: "u8 list \<Rightarrow> u8 list \<Rightarrow> u8 list" where
  "smb2_Cipher roundKey state =
     (let state = smb2_AddRoundKey roundKey state 0;
          state = foldl (cipher_round roundKey) state [1..<10]
      in smb2_AddRoundKey roundKey (smb2_ShiftRows (smb2_SubBytes state)) 10)"

definition inv_cipher_round :: "u8 list \<Rightarrow> u8 list \<Rightarrow> nat \<Rightarrow> u8 list" where
  "inv_cipher_round roundKey state round =
     smb2_InvMixColumns (smb2_AddRoundKey roundKey (smb2_InvSubBytes (smb2_InvShiftRows state)) round)"

definition smb2_InvCipher :: "u8 list \<Rightarrow> u8 list \<Rightarrow> u8 list" where
  "smb2_InvCipher roundKey state =
     (let state = smb2_AddRoundKey roundKey state 10;
          state = foldl (inv_cipher_round roundKey) state (rev [1..<10])
      in smb2_AddRoundKey roundKey (smb2_InvSubBytes (smb2_InvShiftRows state)) 0)"

text \<open>\<open>BlockCopy\<close> copies the 16 bytes of the input to the output, which is then the state.\<close>

definition AES128_ECB_encrypt :: "bytes \<Rightarrow> bytes \<Rightarrow> bytes" where
  "AES128_ECB_encrypt inp key = smb2_Cipher (smb2_KeyExpansion key) (take 16 inp)"

definition AES128_ECB_decrypt :: "bytes \<Rightarrow> bytes \<Rightarrow> bytes" where
  "AES128_ECB_decrypt inp key = smb2_InvCipher (smb2_KeyExpansion key) (take 16 inp)"

subsection \<open>Decryption inverts encryption\<close>

lemma length_AddRoundKey [simp]: "length (smb2_AddRoundKey rk s r) = 16"
  by (simp add: smb2_AddRoundKey_def)

lemma length_ShiftRows [simp]: "length (smb2_ShiftRows s) = 16" "length (smb2_InvShiftRows s) = 16"
  by (simp_all add: smb2_ShiftRows_def smb2_InvShiftRows_def)

lemma length_SubBytes [simp]: "length (smb2_SubBytes s) = length s"
  by (simp add: smb2_SubBytes_def)

lemma AddRoundKey_twice: "length s = 16 \<Longrightarrow> smb2_AddRoundKey rk (smb2_AddRoundKey rk s r) r = s"
  by (rule nth_equalityI) (simp_all add: smb2_AddRoundKey_def xor.assoc)

lemma xor_cancel [simp]: "x XOR (x XOR y) = y" for x y :: "'a::len word"
  by (simp flip: xor.assoc)

lemma sbox_inverse: "smb2_getSBoxInvert (smb2_getSBoxValue x) = x"
proof -
  have "list_all (\<lambda>n. smb2_rsbox ! unat (smb2_sbox ! n) = of_nat n) [0..<256]"
    by code_simp
  then have "smb2_rsbox ! unat (smb2_sbox ! unat x) = of_nat (unat x)"
    by (simp add: list_all_iff)
  then show ?thesis by (simp add: smb2_getSBoxInvert_def smb2_getSBoxValue_def)
qed

lemma InvSubBytes_SubBytes: "smb2_InvSubBytes (smb2_SubBytes s) = s"
  by (simp add: smb2_InvSubBytes_def smb2_SubBytes_def sbox_inverse comp_def)

text \<open>A block as its 16 bytes.\<close>

lemma block_cases:
  assumes "length s = 16"
  obtains a0 a1 a2 a3 a4 a5 a6 a7 a8 a9 a10 a11 a12 a13 a14 a15
    where "s = [a0, a1, a2, a3, a4, a5, a6, a7, a8, a9, a10, a11, a12, a13, a14, a15]"
  using assms by (auto simp: numeral_eq_Suc length_Suc_conv)

lemma InvShiftRows_ShiftRows: "length s = 16 \<Longrightarrow> smb2_InvShiftRows (smb2_ShiftRows s) = s"
  by (erule block_cases) (simp add: smb2_InvShiftRows_def smb2_ShiftRows_def)

text \<open>Multiplication by \<open>x\<close> in the field is linear, so that a column is mixed by a matrix over it.\<close>

lemma xtime_bit: "smb2_xtime x = push_bit 1 x XOR (if bit x 7 then 0x1b else 0)"
proof -
  have "drop_bit 7 x AND 1 = (if bit x 7 then 1 else 0)"
    by (rule u8_bits_eqI) (auto simp: bit_simps)
  then show ?thesis by (simp add: smb2_xtime_def)
qed

lemma xtime_xor: "smb2_xtime (x XOR y) = smb2_xtime x XOR smb2_xtime y"
  by (auto simp: xtime_bit bit_simps push_bit_xor xor.assoc xor.left_commute xor.commute)

lemma multiply_eq:
  "smb2_Multiply x 0x0e = smb2_xtime x XOR smb2_xtime (smb2_xtime x) XOR smb2_xtime (smb2_xtime (smb2_xtime x))"
  "smb2_Multiply x 0x0b = x XOR smb2_xtime x XOR smb2_xtime (smb2_xtime (smb2_xtime x))"
  "smb2_Multiply x 0x0d = x XOR smb2_xtime (smb2_xtime x) XOR smb2_xtime (smb2_xtime (smb2_xtime x))"
  "smb2_Multiply x 0x09 = x XOR smb2_xtime (smb2_xtime (smb2_xtime x))"
  by (simp_all add: smb2_Multiply_def)

lemma inv_mix_column_mix_column:
  "inv_mix_column (mix_column a b c d ! 0) (mix_column a b c d ! 1)
     (mix_column a b c d ! 2) (mix_column a b c d ! 3) = [a, b, c, d]"
  by (simp add: inv_mix_column_def mix_column_def multiply_eq xtime_xor
      xor.assoc xor.left_commute xor.commute)

lemma InvMixColumns_MixColumns:
  assumes "length s = 16" shows "smb2_InvMixColumns (smb2_MixColumns s) = s"
proof -
  have mix: "mix_column a b c d = [mix_column a b c d ! 0, mix_column a b c d ! 1,
      mix_column a b c d ! 2, mix_column a b c d ! 3]" for a b c d
    by (simp add: mix_column_def Let_def)
  have "columns inv_mix_column (mix_column a b c d @ s') = [a, b, c, d] @ columns inv_mix_column s'"
    for a b c d s'
    by (subst mix) (simp only: append.simps columns.simps inv_mix_column_mix_column)
  note this this [of _ _ _ _ "[]"]
  with assms show ?thesis
    by (elim block_cases) (simp add: smb2_InvMixColumns_def smb2_MixColumns_def)
qed

lemma inv_cipher_round:
  assumes "length s = 16"
  shows "inv_cipher_round rk (smb2_ShiftRows (smb2_SubBytes (cipher_round rk s r))) r =
    smb2_ShiftRows (smb2_SubBytes s)"
proof -
  have "length (smb2_MixColumns (smb2_ShiftRows t)) = 16" for t
    by (simp add: smb2_MixColumns_def smb2_ShiftRows_def mix_column_def Let_def)
  then show ?thesis
    by (simp add: inv_cipher_round_def cipher_round_def InvShiftRows_ShiftRows InvSubBytes_SubBytes
        AddRoundKey_twice InvMixColumns_MixColumns)
qed

lemma inv_cipher_rounds:
  "length s = 16 \<Longrightarrow>
   foldl (inv_cipher_round rk) (smb2_ShiftRows (smb2_SubBytes (foldl (cipher_round rk) s rs))) (rev rs) =
     smb2_ShiftRows (smb2_SubBytes s)"
proof (induction rs rule: rev_induct)
  case (snoc r rs)
  have "length (foldl (cipher_round rk) s rs) = 16"
    using snoc.prems by (induction rs rule: rev_induct) (simp_all add: cipher_round_def)
  with snoc show ?case by (simp add: inv_cipher_round)
qed simp

lemma InvCipher_Cipher: "length s = 16 \<Longrightarrow> smb2_InvCipher rk (smb2_Cipher rk s) = s"
  by (simp only: smb2_InvCipher_def smb2_Cipher_def Let_def AddRoundKey_twice inv_cipher_rounds
      InvShiftRows_ShiftRows InvSubBytes_SubBytes length_AddRoundKey length_ShiftRows length_SubBytes)

lemma length_encrypt [simp]: "length (AES128_ECB_encrypt b key) = 16"
  by (simp add: AES128_ECB_encrypt_def smb2_Cipher_def Let_def)

text \<open>C16. AES-128 is a permutation of the 16-byte blocks under every key: the code's decryption inverts its
  encryption (the tables, the row shifts and the field arithmetic of the column mixing fit together).\<close>

theorem aes128_decrypt_encrypt:
  assumes "length block = 16"
  shows "AES128_ECB_decrypt (AES128_ECB_encrypt block key) key = block"
  using assms by (simp add: AES128_ECB_decrypt_def) (simp add: AES128_ECB_encrypt_def InvCipher_Cipher)

theorem aes128_decrypt_encrypt_witness:
  "AES128_ECB_decrypt (AES128_ECB_encrypt (replicate 16 7) []) [] = replicate 16 7"
  using aes128_decrypt_encrypt [of "replicate 16 7" "[]"] by simp

end
