(* ===== verification/Smb2_Ccm.thy ===== *)
theory Smb2_Ccm
  imports Smb2_Aes
begin

text \<open>
  \<^verbatim>\<open>lib/aes128ccm.c\<close>: AES-128 in CCM mode, the authenticated encryption of SMB3 messages. A pointer and
  its length are one list (\<open>nlen = length nonce\<close>, and so on); only the tag's length \<open>mlen\<close> stays an
  argument. The buffers that the code encrypts in place are results. \<open>memcmp\<close>'s result is only tested
  against 0: the model returns whether the tags differ.
\<close>

definition be16 :: "u16 \<Rightarrow> bytes" where "be16 x = rev (le16 x)"
definition be32 :: "u32 \<Rightarrow> bytes" where "be32 x = rev (le32 x)"

lemma length_be [simp]: "length (be16 x) = 2" "length (be32 y) = 4"
  by (simp_all add: be16_def be32_def)

text \<open>The length field of the flags byte; \<open>size_t\<close> arithmetic wraps.\<close>

definition ccm_l_flag :: "nat \<Rightarrow> u8" where
  "ccm_l_flag nlen = ucast ((15 - of_nat nlen - 1 :: u64) AND 0x07)"

definition aes_ccm_generate_b0 :: "bytes \<Rightarrow> nat \<Rightarrow> nat \<Rightarrow> nat \<Rightarrow> bytes" where
  "aes_ccm_generate_b0 nonce alen plen mlen =
     (let buf = replicate 16 0;
          buf = (if alen \<noteq> 0 then buf[0 := buf ! 0 OR 0x40] else buf);
          buf = buf[0 := buf ! 0 OR ucast (push_bit 3 ((of_nat mlen - 2 :: u64) div 2) AND 0x38)];
          buf = buf[0 := buf ! 0 OR ccm_l_flag (length nonce)];
          buf = put_at 12 (be32 (of_nat plen)) buf
      in put_at 1 nonce buf)"

definition bxory :: "bytes \<Rightarrow> bytes \<Rightarrow> nat \<Rightarrow> bytes" where
  "bxory b y num = map2 (XOR) (take num b) (take num y) @ drop num b"

text \<open>A block: zeroes with the data copied to the front.\<close>

definition ccm_block :: "bytes \<Rightarrow> bytes" where
  "ccm_block bs = put_at 0 bs (replicate 16 0)"

definition ccm_step :: "bytes \<Rightarrow> bytes \<Rightarrow> bytes \<Rightarrow> bytes" where
  "ccm_step key b y = AES128_ECB_encrypt (bxory b y 16) key"

function ccm_absorb :: "bytes \<Rightarrow> bytes \<Rightarrow> bytes \<Rightarrow> bytes" where
  "ccm_absorb key y p =
     (if p = [] then y
      else ccm_absorb key (ccm_step key (ccm_block (take 16 p)) y) (drop 16 p))"
  by pat_completeness auto
termination by (relation "measure (\<lambda>(key, y, p). length p)") auto

declare ccm_absorb.simps [simp del]

definition ccm_generate_T :: "bytes \<Rightarrow> bytes \<Rightarrow> bytes \<Rightarrow> bytes \<Rightarrow> nat \<Rightarrow> bytes" where
  "ccm_generate_T key nonce aad p mlen =
     (let b = aes_ccm_generate_b0 nonce (length aad) (length p) mlen;
          y = AES128_ECB_encrypt b key;
          y = (if aad \<noteq> []
               then (let b = ccm_block (be16 (of_nat (length aad)) @ take 14 aad);
                         y = ccm_step key b y
                     in ccm_absorb key y (drop 14 aad))
               else y);
          y = ccm_absorb key y p
      in take mlen y)"

definition ccm_generate_s :: "bytes \<Rightarrow> bytes \<Rightarrow> nat \<Rightarrow> bytes" where
  "ccm_generate_s key nonce i =
     (let s = replicate 16 0;
          s = s[0 := s ! 0 OR ccm_l_flag (length nonce)];
          s = put_at 12 (be32 (of_nat i)) s;
          s = put_at 1 nonce s
      in AES128_ECB_encrypt s key)"

function ccm_crypt_from :: "bytes \<Rightarrow> bytes \<Rightarrow> nat \<Rightarrow> bytes \<Rightarrow> bytes" where
  "ccm_crypt_from key nonce j p =
     (if p = [] then []
      else bxory (take 16 p) (ccm_generate_s key nonce (j + 1)) (length (take 16 p)) @
           ccm_crypt_from key nonce (j + 1) (drop 16 p))"
  by pat_completeness auto
termination by (relation "measure (\<lambda>(key, nonce, j, p). length p)") auto

declare ccm_crypt_from.simps [simp del]

definition aes_ccm_crypt :: "bytes \<Rightarrow> bytes \<Rightarrow> bytes \<Rightarrow> bytes" where
  "aes_ccm_crypt key nonce p = ccm_crypt_from key nonce 0 p"

text \<open>The ciphertext and the tag.\<close>

definition aes128ccm_encrypt :: "bytes \<Rightarrow> bytes \<Rightarrow> bytes \<Rightarrow> bytes \<Rightarrow> nat \<Rightarrow> bytes \<times> bytes" where
  "aes128ccm_encrypt key nonce aad p mlen =
     (let m = ccm_generate_T key nonce aad p mlen;
          s = ccm_generate_s key nonce 0;
          m = bxory m s mlen
      in (aes_ccm_crypt key nonce p, m))"

text \<open>Whether the tags differ, and the plaintext (which the code leaves in the buffer in either case).\<close>

definition aes128ccm_decrypt :: "bytes \<Rightarrow> bytes \<Rightarrow> bytes \<Rightarrow> bytes \<Rightarrow> bytes \<Rightarrow> nat \<Rightarrow> bool \<times> bytes" where
  "aes128ccm_decrypt key nonce aad p m mlen =
     (let p = aes_ccm_crypt key nonce p;
          tmp = ccm_generate_T key nonce aad p mlen;
          s = ccm_generate_s key nonce 0;
          tmp = bxory tmp s mlen
      in (take mlen tmp \<noteq> take mlen m, p))"

lemma length_bxory [simp]: "num \<le> length y \<Longrightarrow> length (bxory b y num) = length b"
  by (simp add: bxory_def)

lemma length_generate_s [simp]: "length (ccm_generate_s key nonce i) = 16"
  by (simp add: ccm_generate_s_def Let_def)

lemma length_absorb: "length y = 16 \<Longrightarrow> length (ccm_absorb key y p) = 16"
  by (induction key y p rule: ccm_absorb.induct) (subst ccm_absorb.simps, simp add: ccm_step_def)

lemma length_generate_T: "mlen \<le> 16 \<Longrightarrow> length (ccm_generate_T key nonce aad p mlen) = mlen"
  by (simp add: ccm_generate_T_def Let_def length_absorb ccm_step_def)

lemma bxory_twice:
  assumes "num \<le> length b" "num \<le> length y"
  shows "bxory (bxory b y num) y num = b"
proof -
  have "map2 (XOR) (map2 (XOR) xs ys) ys = xs" if "length xs = length ys" for xs ys :: bytes
    using that by (induction xs ys rule: list_induct2) (simp_all add: xor.assoc)
  then show ?thesis using assms by (simp add: bxory_def)
qed

lemma length_crypt_from [simp]: "length (ccm_crypt_from key nonce j p) = length p"
proof (induction key nonce j p rule: ccm_crypt_from.induct)
  case (1 key nonce j p)
  then show ?case by (subst ccm_crypt_from.simps) (auto simp: min_def)
qed

lemma split_block:
  assumes "length c \<le> 16" "r \<noteq> [] \<longrightarrow> length c = 16"
  shows "take 16 (c @ r) = c" "drop 16 (c @ r) = r"
  using assms by (cases r; simp)+

lemma crypt_from_twice: "ccm_crypt_from key nonce j (ccm_crypt_from key nonce j p) = p"
proof (induction key nonce j p rule: ccm_crypt_from.induct)
  case (1 key nonce j p)
  show ?case
  proof (cases "p = []")
    case True
    then show ?thesis by (simp add: ccm_crypt_from.simps)
  next
    case False
    let ?s = "ccm_generate_s key nonce (j + 1)" and ?l = "length (take 16 p)"
    let ?c = "bxory (take 16 p) ?s ?l" and ?r = "ccm_crypt_from key nonce (j + 1) (drop 16 p)"
    have c: "length ?c = ?l" by simp
    have r: "drop 16 p \<noteq> [] \<longrightarrow> ?l = 16" by simp
    have empty: "?r = [] \<longleftrightarrow> drop 16 p = []"
      by (simp flip: length_0_conv)
    have "length ?c \<le> 16" "?r \<noteq> [] \<longrightarrow> length ?c = 16" unfolding c empty using r by simp_all
    then have "take 16 (?c @ ?r) = ?c" "drop 16 (?c @ ?r) = ?r" by (rule split_block)+
    moreover have "?c @ ?r \<noteq> []" using False c by (metis append_is_Nil_conv length_0_conv
        take_eq_Nil2 zero_neq_numeral)
    ultimately have "ccm_crypt_from key nonce j (?c @ ?r) =
        bxory ?c ?s ?l @ ccm_crypt_from key nonce (j + 1) ?r"
      by (subst ccm_crypt_from.simps) (simp only: if_False c)
    also have "\<dots> = p" using 1 [OF False] by (simp add: bxory_twice)
    finally show ?thesis using False by (simp add: ccm_crypt_from.simps [of key nonce j p])
  qed
qed

subsection \<open>Authenticated encryption as an interface\<close>

text \<open>
  What the sealing of messages relies on: decryption of an encrypted message gives the message, and
  decryption accepts nothing but what encryption of its result gives (so a message is accepted only
  with the one tag that the key, the nonce and the associated data determine).
\<close>

locale aead =
  fixes enc :: "bytes \<Rightarrow> bytes \<Rightarrow> bytes \<Rightarrow> bytes \<Rightarrow> bytes \<times> bytes"
    and dec :: "bytes \<Rightarrow> bytes \<Rightarrow> bytes \<Rightarrow> bytes \<Rightarrow> bytes \<Rightarrow> bool \<times> bytes"
  assumes length_enc: "enc key nonce aad p = (c, m) \<Longrightarrow> length c = length p \<and> length m = 16"
    and dec_enc: "enc key nonce aad p = (c, m) \<Longrightarrow> dec key nonce aad c m = (False, p)"
    and enc_dec: "dec key nonce aad c m = (False, p) \<Longrightarrow> length m = 16 \<Longrightarrow> enc key nonce aad p = (c, m)"
begin

lemma accepted_iff:
  "length m = 16 \<Longrightarrow> dec key nonce aad c m = (False, p) \<longleftrightarrow> enc key nonce aad p = (c, m)"
  using dec_enc enc_dec by blast

lemma one_tag:
  assumes "length m = 16" "length m' = 16" "dec key nonce aad c m = (False, p)"
    "dec key nonce aad c m' = (False, p)"
  shows "m = m'"
  using assms by (simp add: accepted_iff)

end

lemma ccm_tag_length: "mlen \<le> 16 \<Longrightarrow> length (snd (aes128ccm_encrypt key nonce aad p mlen)) = mlen"
  by (simp add: aes128ccm_encrypt_def Let_def length_generate_T)

interpretation ccm: aead
  "\<lambda>key nonce aad p. aes128ccm_encrypt key nonce aad p 16"
  "\<lambda>key nonce aad p m. aes128ccm_decrypt key nonce aad p m 16"
proof unfold_locales
  fix key nonce aad p c m
  assume e: "aes128ccm_encrypt key nonce aad p 16 = (c, m)"
  then show len: "length c = length p \<and> length m = 16"
    using ccm_tag_length [of 16 key nonce aad p]
    by (auto simp: aes128ccm_encrypt_def aes_ccm_crypt_def Let_def)
  then show "aes128ccm_decrypt key nonce aad c m 16 = (False, p)"
    using e by (auto simp: aes128ccm_encrypt_def aes128ccm_decrypt_def Let_def aes_ccm_crypt_def
        crypt_from_twice)
next
  fix key nonce aad c m p
  assume "aes128ccm_decrypt key nonce aad c m 16 = (False, p)" "length m = 16"
  then show "aes128ccm_encrypt key nonce aad p 16 = (c, m)"
    by (auto simp: aes128ccm_encrypt_def aes128ccm_decrypt_def Let_def aes_ccm_crypt_def
        crypt_from_twice length_generate_T)
qed

text \<open>C14. \<open>aes128ccm_decrypt\<close> accepts a ciphertext and a 16-byte tag, with plaintext \<open>p\<close>, exactly when
  \<open>aes128ccm_encrypt\<close> of \<open>p\<close> under the same key, nonce and associated data gives that ciphertext and
  that tag: decryption inverts encryption, and no other tag is accepted.\<close>

theorem ccm_decrypt_iff_encrypt:
  assumes "length m = 16"
  shows "aes128ccm_decrypt key nonce aad c m 16 = (False, p) \<longleftrightarrow>
    aes128ccm_encrypt key nonce aad p 16 = (c, m)"
  using assms by (rule ccm.accepted_iff)

theorem ccm_decrypt_iff_encrypt_witness:
  "\<exists>c m. aes128ccm_encrypt (replicate 16 1) (replicate 11 2) [3, 4] [5, 6, 7] 16 = (c, m) \<and>
     aes128ccm_decrypt (replicate 16 1) (replicate 11 2) [3, 4] c m 16 = (False, [5, 6, 7])"
proof -
  obtain c m where e: "aes128ccm_encrypt (replicate 16 1) (replicate 11 2) [3, 4] [5, 6, 7] 16 = (c, m)"
    by fastforce
  have "length m = 16" using ccm.length_enc [OF e] by simp
  from ccm_decrypt_iff_encrypt [OF this] e show ?thesis by blast
qed

end
