(* ===== verification/Smb2_Sha256.thy ===== *)
theory Smb2_Sha256
  imports Smb2_Ccm
begin

text \<open>
  SHA-256 and HMAC-SHA-256 of \<^verbatim>\<open>lib/sha224-256.c\<close> and \<^verbatim>\<open>lib/hmac.c\<close>, which sign SMB 2.0.2 and 2.1
  messages and derive the SMB 3 keys. The hash is computed incrementally, byte by byte, in a context;
  \<open>sha256_ref\<close> is the definition of FIPS 180 on a whole message, and the theorems show that feeding a
  message in any pieces gives it. A context pointer is never \<open>NULL\<close> here.
\<close>

subsection \<open>The compression function\<close>

definition SHA256_ROTR :: "nat \<Rightarrow> u32 \<Rightarrow> u32" where
  "SHA256_ROTR bits word = drop_bit bits word OR push_bit (32 - bits) word"

definition SHA256_SHR :: "nat \<Rightarrow> u32 \<Rightarrow> u32" where
  "SHA256_SHR bits word = drop_bit bits word"

definition SHA256_SIGMA0 :: "u32 \<Rightarrow> u32" where
  "SHA256_SIGMA0 word = SHA256_ROTR 2 word XOR SHA256_ROTR 13 word XOR SHA256_ROTR 22 word"
definition SHA256_SIGMA1 :: "u32 \<Rightarrow> u32" where
  "SHA256_SIGMA1 word = SHA256_ROTR 6 word XOR SHA256_ROTR 11 word XOR SHA256_ROTR 25 word"
definition SHA256_sigma0' :: "u32 \<Rightarrow> u32" where
  "SHA256_sigma0' word = SHA256_ROTR 7 word XOR SHA256_ROTR 18 word XOR SHA256_SHR 3 word"
definition SHA256_sigma1' :: "u32 \<Rightarrow> u32" where
  "SHA256_sigma1' word = SHA256_ROTR 17 word XOR SHA256_ROTR 19 word XOR SHA256_SHR 10 word"

definition SHA_Ch :: "u32 \<Rightarrow> u32 \<Rightarrow> u32 \<Rightarrow> u32" where
  "SHA_Ch x y z = (x AND y) XOR (NOT x AND z)"
definition SHA_Maj :: "u32 \<Rightarrow> u32 \<Rightarrow> u32 \<Rightarrow> u32" where
  "SHA_Maj x y z = (x AND y) XOR (x AND z) XOR (y AND z)"

text \<open>The sixteen lines of the table \<open>K\<close>.\<close>

definition sha256_K :: "u32 list" where
  "sha256_K = concat [
      [0x428a2f98, 0x71374491, 0xb5c0fbcf, 0xe9b5dba5],
      [0x3956c25b, 0x59f111f1, 0x923f82a4, 0xab1c5ed5],
      [0xd807aa98, 0x12835b01, 0x243185be, 0x550c7dc3],
      [0x72be5d74, 0x80deb1fe, 0x9bdc06a7, 0xc19bf174],
      [0xe49b69c1, 0xefbe4786, 0x0fc19dc6, 0x240ca1cc],
      [0x2de92c6f, 0x4a7484aa, 0x5cb0a9dc, 0x76f988da],
      [0x983e5152, 0xa831c66d, 0xb00327c8, 0xbf597fc7],
      [0xc6e00bf3, 0xd5a79147, 0x06ca6351, 0x14292967],
      [0x27b70a85, 0x2e1b2138, 0x4d2c6dfc, 0x53380d13],
      [0x650a7354, 0x766a0abb, 0x81c2c92e, 0x92722c85],
      [0xa2bfe8a1, 0xa81a664b, 0xc24b8b70, 0xc76c51a3],
      [0xd192e819, 0xd6990624, 0xf40e3585, 0x106aa070],
      [0x19a4c116, 0x1e376c08, 0x2748774c, 0x34b0bcb5],
      [0x391c0cb3, 0x4ed8aa4a, 0x5b9cca4f, 0x682e6ff3],
      [0x748f82ee, 0x78a5636f, 0x84c87814, 0x8cc70208],
      [0x90befffa, 0xa4506ceb, 0xbef9a3f7, 0xc67178f2]]"

definition SHA256_H0 :: "u32 list" where
  "SHA256_H0 = [0x6a09e667, 0xbb67ae85, 0x3c6ef372, 0xa54ff53a, 0x510e527f, 0x9b05688c, 0x1f83d9ab, 0x5be0cd19]"

definition be_word :: "bytes \<Rightarrow> u32" where
  "be_word b = push_bit 24 (ucast (b ! 0)) OR push_bit 16 (ucast (b ! 1)) OR
     push_bit 8 (ucast (b ! 2)) OR ucast (b ! 3)"

definition sha256_schedule :: "bytes \<Rightarrow> u32 list" where
  "sha256_schedule block =
     foldl (\<lambda>W t. W @ [SHA256_sigma1' (W ! (t - 2)) + W ! (t - 7) + SHA256_sigma0' (W ! (t - 15)) + W ! (t - 16)])
       (map (\<lambda>t. be_word (drop (4 * t) block)) [0..<16]) [16..<64]"

fun sha256_round :: "u32 list \<Rightarrow> u32 list \<Rightarrow> nat \<Rightarrow> u32 list" where
  "sha256_round W [A, B, C, D, E, F, G, H] t =
     (let temp1 = H + SHA256_SIGMA1 E + SHA_Ch E F G + sha256_K ! t + W ! t;
          temp2 = SHA256_SIGMA0 A + SHA_Maj A B C
      in [temp1 + temp2, A, B, C, D + temp1, E, F, G])"
| "sha256_round W s t = s"

definition sha256_compress :: "u32 list \<Rightarrow> bytes \<Rightarrow> u32 list" where
  "sha256_compress hash block =
     map2 (+) hash (foldl (sha256_round (sha256_schedule block)) hash [0..<64])"

subsection \<open>The incremental context\<close>

record sha256_context =
  sha_hash :: "u32 list"
  sha_length_low :: u32
  sha_length_high :: u32
  sha_index :: nat
  sha_block :: bytes
  sha_computed :: bool
  sha_corrupted :: nat

definition SHA224_256Reset :: "sha256_context \<Rightarrow> u32 list \<Rightarrow> sha256_context" where
  "SHA224_256Reset ctx H0 = ctx\<lparr>sha_length_low := 0, sha_length_high := 0, sha_index := 0,
     sha_hash := H0, sha_computed := False, sha_corrupted := 0\<rparr>"

definition SHA256Reset :: "sha256_context \<Rightarrow> sha256_context" where
  "SHA256Reset ctx = SHA224_256Reset ctx SHA256_H0"

definition SHA224_256AddLength :: "sha256_context \<Rightarrow> u32 \<Rightarrow> sha256_context" where
  "SHA224_256AddLength ctx len =
     (let addTemp = sha_length_low ctx;
          ctx = ctx\<lparr>sha_length_low := sha_length_low ctx + len\<rparr>
      in if sha_length_low ctx < addTemp
         then (let ctx = ctx\<lparr>sha_length_high := sha_length_high ctx + 1\<rparr>
               in ctx\<lparr>sha_corrupted := (if sha_length_high ctx = 0 then 1 else 0)\<rparr>)
         else ctx\<lparr>sha_corrupted := 0\<rparr>)"

definition SHA224_256ProcessMessageBlock :: "sha256_context \<Rightarrow> sha256_context" where
  "SHA224_256ProcessMessageBlock ctx =
     ctx\<lparr>sha_hash := sha256_compress (sha_hash ctx) (sha_block ctx), sha_index := 0\<rparr>"

definition store_byte :: "sha256_context \<Rightarrow> u8 \<Rightarrow> sha256_context" where
  "store_byte ctx b = ctx\<lparr>sha_block := (sha_block ctx)[sha_index ctx := b], sha_index := sha_index ctx + 1\<rparr>"

fun input_loop :: "sha256_context \<Rightarrow> bytes \<Rightarrow> sha256_context" where
  "input_loop ctx [] = ctx"
| "input_loop ctx (b # bs) =
     (if sha_corrupted ctx \<noteq> 0 then ctx
      else (let ctx = store_byte ctx b;
                ctx = SHA224_256AddLength ctx 8;
                ctx = (if sha_corrupted ctx = 0 \<and> sha_index ctx = 64
                       then SHA224_256ProcessMessageBlock ctx else ctx)
            in input_loop ctx bs))"

text \<open>The return code (0 is \<open>shaSuccess\<close>, 3 \<open>shaStateError\<close>) and the context.\<close>

definition SHA256Input :: "sha256_context \<Rightarrow> bytes \<Rightarrow> nat \<times> sha256_context" where
  "SHA256Input ctx message =
     (if message = [] then (0, ctx)
      else if sha_computed ctx then (3, ctx\<lparr>sha_corrupted := 3\<rparr>)
      else if sha_corrupted ctx \<noteq> 0 then (sha_corrupted ctx, ctx)
      else (0, input_loop ctx message))"

function zero_fill :: "nat \<Rightarrow> sha256_context \<Rightarrow> sha256_context" where
  "zero_fill n ctx = (if sha_index ctx < n then zero_fill n (store_byte ctx 0) else ctx)"
  by pat_completeness auto
termination by (relation "measure (\<lambda>(n, ctx). n - sha_index ctx)") (auto simp: store_byte_def)

declare zero_fill.simps [simp del]

definition SHA224_256PadMessage :: "sha256_context \<Rightarrow> u8 \<Rightarrow> sha256_context" where
  "SHA224_256PadMessage ctx pad_byte =
     (let ctx = (if sha_index ctx \<ge> 56
                 then SHA224_256ProcessMessageBlock (zero_fill 64 (store_byte ctx pad_byte))
                 else store_byte ctx pad_byte);
          ctx = zero_fill 56 ctx;
          ctx = ctx\<lparr>sha_block := put_at 56 (be32 (sha_length_high ctx) @ be32 (sha_length_low ctx)) (sha_block ctx)\<rparr>
      in SHA224_256ProcessMessageBlock ctx)"

definition SHA224_256Finalize :: "sha256_context \<Rightarrow> u8 \<Rightarrow> sha256_context" where
  "SHA224_256Finalize ctx pad_byte =
     (let ctx = SHA224_256PadMessage ctx pad_byte
      in ctx\<lparr>sha_block := replicate 64 0, sha_length_low := 0, sha_length_high := 0, sha_computed := True\<rparr>)"

definition sha256_digest :: "u32 list \<Rightarrow> bytes" where
  "sha256_digest hash = map (\<lambda>i. ucast (drop_bit (8 * (3 - i mod 4)) (hash ! (i div 4)))) [0..<32]"

definition SHA256Result :: "sha256_context \<Rightarrow> nat \<times> sha256_context \<times> bytes option" where
  "SHA256Result ctx =
     (if sha_corrupted ctx \<noteq> 0 then (sha_corrupted ctx, ctx, None)
      else (let ctx = (if sha_computed ctx then ctx else SHA224_256Finalize ctx 0x80)
            in (0, ctx, Some (sha256_digest (sha_hash ctx)))))"

subsection \<open>HMAC\<close>

text \<open>
  \<open>ctx0\<close> is the uninitialised hash context that \<open>hmacReset\<close> resets. The return code is 0, or 1 where
  one of the calls in the \<open>||\<close> chain fails (then the later ones are not made).
\<close>

record hmac_context =
  hm_sha :: sha256_context
  hm_k_opad :: bytes

definition hmacReset :: "sha256_context \<Rightarrow> bytes \<Rightarrow> nat \<times> hmac_context" where
  "hmacReset ctx0 key =
     (let (err, key) =
        (if length key > 64
         then (case SHA256Input (SHA256Reset ctx0) key of
                 (rc, tctx) \<Rightarrow>
                   if rc \<noteq> 0 then (1, key)
                   else (case SHA256Result tctx of
                           (rc, tctx, None) \<Rightarrow> (1, key)
                         | (rc, tctx, Some tempkey) \<Rightarrow> (0 :: nat, tempkey)))
         else (0, key));
          k_ipad = map (\<lambda>b. b XOR 0x36) key @ replicate (64 - length key) 0x36;
          k_opad = map (\<lambda>b. b XOR 0x5c) key @ replicate (64 - length key) 0x5c
      in if err \<noteq> 0 then (err, \<lparr>hm_sha = ctx0, hm_k_opad = k_opad\<rparr>)
         else (case SHA256Input (SHA256Reset ctx0) k_ipad of
                 (rc, sha) \<Rightarrow> (if rc \<noteq> 0 then 1 else 0, \<lparr>hm_sha = sha, hm_k_opad = k_opad\<rparr>)))"

definition hmacInput :: "hmac_context \<Rightarrow> bytes \<Rightarrow> nat \<times> hmac_context" where
  "hmacInput ctx txt =
     (case SHA256Input (hm_sha ctx) txt of (rc, sha) \<Rightarrow> (rc, ctx\<lparr>hm_sha := sha\<rparr>))"

definition hmacResult :: "hmac_context \<Rightarrow> nat \<times> hmac_context \<times> bytes option" where
  "hmacResult ctx =
     (case SHA256Result (hm_sha ctx) of
        (rc, sha, None) \<Rightarrow> (1, ctx\<lparr>hm_sha := sha\<rparr>, None)
      | (rc, sha, Some digest) \<Rightarrow>
        (let sha = SHA256Reset sha in
         case SHA256Input sha (hm_k_opad ctx) of (rc, sha) \<Rightarrow>
           if rc \<noteq> 0 then (1, ctx\<lparr>hm_sha := sha\<rparr>, None)
           else case SHA256Input sha digest of (rc, sha) \<Rightarrow>
             if rc \<noteq> 0 then (1, ctx\<lparr>hm_sha := sha\<rparr>, None)
             else case SHA256Result sha of (rc, sha, d) \<Rightarrow>
               (if rc \<noteq> 0 then 1 else 0, ctx\<lparr>hm_sha := sha\<rparr>, d)))"

subsection \<open>The reference\<close>

function fold_blocks :: "u32 list \<Rightarrow> bytes \<Rightarrow> u32 list" where
  "fold_blocks hash m =
     (if length m < 64 then hash else fold_blocks (sha256_compress hash (take 64 m)) (drop 64 m))"
  by pat_completeness auto
termination by (relation "measure (\<lambda>(h, m). length m)") auto

declare fold_blocks.simps [simp del]

definition sha256_padding :: "nat \<Rightarrow> bytes" where
  "sha256_padding n =
     [0x80] @ replicate ((119 - n mod 64) mod 64) 0 @ rev (le64 (of_nat (8 * n)))"

definition sha256_ref :: "bytes \<Rightarrow> bytes" where
  "sha256_ref m = sha256_digest (fold_blocks SHA256_H0 (m @ sha256_padding (length m)))"

subsection \<open>The incremental hash is the reference\<close>

lemma fold_blocks_append:
  "64 dvd length a \<Longrightarrow> fold_blocks h (a @ b) = fold_blocks (fold_blocks h a) b"
proof (induction h a rule: fold_blocks.induct)
  case (1 h m)
  show ?case
  proof (cases "length m < 64")
    case True
    with 1(2) have "m = []" by (auto dest: dvd_imp_le)
    then show ?thesis by (simp add: fold_blocks.simps [of h "[]"])
  next
    case False
    then have "fold_blocks h (m @ b) = fold_blocks (sha256_compress h (take 64 m)) (drop 64 m @ b)"
      by (subst fold_blocks.simps) simp
    also have "\<dots> = fold_blocks (fold_blocks (sha256_compress h (take 64 m)) (drop 64 m)) b"
      using 1 False by simp
    finally show ?thesis using False by (simp add: fold_blocks.simps [of h m])
  qed
qed

lemma fold_blocks_one: "length b = 64 \<Longrightarrow> fold_blocks h b = sha256_compress h b"
  by (simp add: fold_blocks.simps)

lemma fold_blocks_two:
  "64 dvd length a \<Longrightarrow> length b = 64 \<Longrightarrow> length b' = 64 \<Longrightarrow>
   fold_blocks h (a @ (b @ b')) = sha256_compress (sha256_compress (fold_blocks h a) b) b'"
  by (simp add: fold_blocks_append fold_blocks_one)

text \<open>The invariant: the complete blocks of the input \<open>m\<close> are hashed, the rest is in the block.\<close>

definition sha_inv :: "sha256_context \<Rightarrow> bytes \<Rightarrow> bool" where
  "sha_inv ctx m \<longleftrightarrow>
     (\<exists>a. m = a @ take (sha_index ctx) (sha_block ctx) \<and> 64 dvd length a \<and>
        sha_hash ctx = fold_blocks SHA256_H0 a) \<and>
     sha_index ctx < 64 \<and> length (sha_block ctx) = 64 \<and> \<not> sha_computed ctx \<and> sha_corrupted ctx = 0 \<and>
     unat (sha_length_high ctx) * 2 ^ 32 + unat (sha_length_low ctx) = 8 * length m"

lemma reset_inv: "length (sha_block ctx) = 64 \<Longrightarrow> sha_inv (SHA256Reset ctx) []"
  by (simp add: sha_inv_def SHA256Reset_def SHA224_256Reset_def fold_blocks.simps [of _ "[]"])

lemma add_length_ok:
  assumes "unat (sha_length_high ctx) * 2 ^ 32 + unat (sha_length_low ctx) = k" "k + 8 < 2 ^ 64"
  shows "\<exists>hi lo. SHA224_256AddLength ctx 8 =
      ctx\<lparr>sha_length_low := lo, sha_length_high := hi, sha_corrupted := 0\<rparr> \<and>
    unat hi * 2 ^ 32 + unat lo = k + 8"
proof (cases "unat (sha_length_low ctx) + 8 < 2 ^ 32")
  case True
  then have lo: "unat (sha_length_low ctx + 8) = unat (sha_length_low ctx) + 8"
    by (simp add: unat_word_ariths)
  then have "\<not> sha_length_low ctx + 8 < sha_length_low ctx" by (simp add: word_less_nat_alt)
  then show ?thesis using assms lo
    by (intro exI [of _ "sha_length_high ctx"] exI [of _ "sha_length_low ctx + 8"])
      (simp add: SHA224_256AddLength_def Let_def)
next
  case False
  then have lo: "unat (sha_length_low ctx + 8) = unat (sha_length_low ctx) + 8 - 2 ^ 32"
    using unat_bound(3) [of "sha_length_low ctx"]
    by (simp add: unat_word_ariths mod_if del: unat_bound)
  then have less: "sha_length_low ctx + 8 < sha_length_low ctx"
    using unat_bound(3) [of "sha_length_low ctx"] False by (simp add: word_less_nat_alt del: unat_bound)
  have hi: "unat (sha_length_high ctx + 1) = unat (sha_length_high ctx) + 1"
    using assms False by (simp add: unat_word_ariths)
  then have "sha_length_high ctx + 1 \<noteq> 0" by (metis Suc_eq_plus1 nat.distinct(1) unat_0)
  then show ?thesis using assms lo less hi False
    by (intro exI [of _ "sha_length_high ctx + 1"] exI [of _ "sha_length_low ctx + 8"])
      (simp add: SHA224_256AddLength_def Let_def)
qed

lemma input_byte_inv:
  assumes inv: "sha_inv ctx m" and len: "8 * length (m @ [b]) < 2 ^ 64"
  defines "ctx' \<equiv> SHA224_256AddLength (store_byte ctx b) 8"
  shows "sha_inv (if sha_corrupted ctx' = 0 \<and> sha_index ctx' = 64
      then SHA224_256ProcessMessageBlock ctx' else ctx') (m @ [b])"
proof -
  let ?i = "sha_index ctx" and ?blk = "(sha_block ctx)[sha_index ctx := b]"
  from inv obtain a where a: "m = a @ take ?i (sha_block ctx)" "64 dvd length a"
      "sha_hash ctx = fold_blocks SHA256_H0 a"
    and r: "?i < 64" "length (sha_block ctx) = 64" "\<not> sha_computed ctx"
      "unat (sha_length_high ctx) * 2 ^ 32 + unat (sha_length_low ctx) = 8 * length m"
    unfolding sha_inv_def by blast
  obtain hi lo where c: "ctx' = (store_byte ctx b)\<lparr>sha_length_low := lo, sha_length_high := hi, sha_corrupted := 0\<rparr>"
      "unat hi * 2 ^ 32 + unat lo = 8 * length m + 8"
    using add_length_ok [of "store_byte ctx b" "8 * length m"] r(4) len
    by (auto simp: ctx'_def store_byte_def)
  have snoc: "m @ [b] = a @ take (Suc ?i) ?blk" using a(1) r by (simp add: take_Suc_conv_app_nth)
  show ?thesis
  proof (cases "Suc ?i = 64")
    case False
    with a r c snoc show ?thesis by (auto simp: sha_inv_def store_byte_def)
  next
    case True
    then have "m @ [b] = a @ ?blk" using snoc r by simp
    moreover have "sha256_compress (sha_hash ctx) ?blk = fold_blocks SHA256_H0 (a @ ?blk)"
      using a r by (simp add: fold_blocks_append fold_blocks_one)
    ultimately show ?thesis using True a r c
      by (auto simp: sha_inv_def store_byte_def SHA224_256ProcessMessageBlock_def intro!: exI [of _ "a @ ?blk"])
  qed
qed

lemma input_loop_inv:
  "sha_inv ctx m \<Longrightarrow> 8 * length (m @ bs) < 2 ^ 64 \<Longrightarrow> sha_inv (input_loop ctx bs) (m @ bs)"
proof (induction bs arbitrary: ctx m)
  case (Cons b bs)
  have "sha_corrupted ctx = 0" using Cons.prems(1) by (simp add: sha_inv_def)
  moreover have "8 * length (m @ [b]) < 2 ^ 64" using Cons.prems(2) by simp
  note input_byte_inv [OF Cons.prems(1) this]
  from Cons.IH [OF this] Cons.prems(2) have
    "sha_inv (input_loop (if sha_corrupted (SHA224_256AddLength (store_byte ctx b) 8) = 0 \<and>
        sha_index (SHA224_256AddLength (store_byte ctx b) 8) = 64
      then SHA224_256ProcessMessageBlock (SHA224_256AddLength (store_byte ctx b) 8)
      else SHA224_256AddLength (store_byte ctx b) 8) bs) (m @ b # bs)" by simp
  ultimately show ?case by (simp add: Let_def)
qed simp

lemma sha256_input_ok:
  assumes "sha_inv ctx m" "8 * length (m @ bs) < 2 ^ 64"
  shows "fst (SHA256Input ctx bs) = 0" "sha_inv (snd (SHA256Input ctx bs)) (m @ bs)"
  using assms input_loop_inv [OF assms] by (auto simp: SHA256Input_def sha_inv_def)

lemma zero_fill_eq:
  "sha_index ctx \<le> n \<Longrightarrow> n \<le> length (sha_block ctx) \<Longrightarrow>
   zero_fill n ctx = ctx\<lparr>sha_block := take (sha_index ctx) (sha_block ctx) @
       replicate (n - sha_index ctx) 0 @ drop n (sha_block ctx), sha_index := n\<rparr>"
proof (induction n ctx rule: zero_fill.induct)
  case (1 n ctx)
  show ?case
  proof (cases "sha_index ctx < n")
    case False
    with 1 have "sha_index ctx = n" by simp
    then show ?thesis by (simp add: zero_fill.simps)
  next
    case True
    let ?i = "sha_index ctx"
    have "take (Suc ?i) ((sha_block ctx)[?i := 0]) = take ?i (sha_block ctx) @ [0]"
      using True 1(3) by (simp add: take_Suc_conv_app_nth)
    moreover have "[0] @ replicate (n - Suc ?i) 0 = replicate (n - ?i) (0 :: u8)"
      using True by (simp add: Suc_diff_Suc flip: replicate_Suc)
    ultimately show ?thesis using 1 True
      by (subst zero_fill.simps) (simp add: store_byte_def drop_update_cancel)
  qed
qed

lemma le_bytes_add: "le_bytes (m + k) x = le_bytes m x @ le_bytes k (drop_bit (8 * m) x)"
  by (induction m arbitrary: x) (simp_all add: drop_bit_drop_bit add.commute)

lemma le_bytes_4: "le_bytes 4 (ucast (x :: u64) :: u32) = le_bytes 4 x"
  by (auto simp: numeral_eq_Suc intro!: bit_word_eqI simp: bit_simps)

lemma length_words:
  assumes "unat hi * 2 ^ 32 + unat lo = k"
  shows "be32 hi @ be32 lo = rev (le64 (of_nat k))"
proof -
  let ?x = "of_nat k :: u64"
  have x: "?x = push_bit 32 (ucast hi) OR ucast lo"
  proof -
    have "push_bit 32 (ucast hi) AND (ucast lo :: u64) = 0"
      by (auto intro!: bit_word_eqI simp: bit_simps)
    then have "push_bit 32 (ucast hi) OR ucast lo = push_bit 32 (ucast hi) + (ucast lo :: u64)"
      by (simp add: disjunctive_add_eq_or)
    also have "\<dots> = of_nat (unat hi * 2 ^ 32 + unat lo)"
      by (simp add: push_bit_eq_mult)
    finally show ?thesis unfolding assms by (rule sym)
  qed
  have "ucast ?x = lo" "ucast (drop_bit 32 ?x) = hi"
    unfolding x by (auto intro!: bit_word_eqI simp: bit_simps)
  then have "le64 ?x = le32 lo @ le32 hi"
    using le_bytes_add [of 4 4 ?x] le_bytes_4 [of ?x] le_bytes_4 [of "drop_bit 32 ?x"]
    by (simp add: le64_def le32_def)
  then show ?thesis by (simp add: be32_def)
qed

lemma pad_message_ok:
  assumes "sha_inv ctx m"
  shows "sha_hash (SHA224_256PadMessage ctx 0x80) = fold_blocks SHA256_H0 (m @ sha256_padding (length m))"
proof -
  let ?i = "sha_index ctx" and ?t = "take (sha_index ctx) (sha_block ctx)"
  from assms obtain a where a: "m = a @ ?t" "64 dvd length a" "sha_hash ctx = fold_blocks SHA256_H0 a"
    and r: "?i < 64" "length (sha_block ctx) = 64"
      "unat (sha_length_high ctx) * 2 ^ 32 + unat (sha_length_low ctx) = 8 * length m"
    unfolding sha_inv_def by blast
  let ?len = "be32 (sha_length_high ctx) @ be32 (sha_length_low ctx)"
  have len: "rev (le64 (of_nat (8 * length m))) = ?len" using length_words [OF r(3)] by simp
  have mod: "length m mod 64 = ?i" using a r by (auto elim!: dvdE)
  have store: "take (Suc ?i) ((sha_block ctx)[?i := 0x80]) = ?t @ [0x80]"
    using r by (simp add: take_Suc_conv_app_nth)
  show ?thesis
  proof (cases "56 \<le> ?i")
    case False
    then have "(119 - ?i) mod 64 = 55 - ?i" by (simp add: mod_if)
    then have msg: "m @ sha256_padding (length m) = a @ (?t @ [0x80] @ replicate (55 - ?i) 0 @ ?len)"
      unfolding sha256_padding_def len mod using a(1) by simp
    moreover have "56 - ?i = Suc (55 - ?i)" using False by simp
    ultimately show ?thesis using False r store a(2,3) unfolding msg
      by (simp add: SHA224_256PadMessage_def Let_def store_byte_def zero_fill_eq fold_blocks_append
          fold_blocks_one SHA224_256ProcessMessageBlock_def put_at_def)
  next
    case True
    then have "replicate ((119 - ?i) mod 64) 0 = replicate (63 - ?i) 0 @ replicate 56 (0 :: u8)"
      using r by (simp add: mod_if flip: replicate_add)
    then have msg: "m @ sha256_padding (length m) =
        a @ ((?t @ [0x80] @ replicate (63 - ?i) 0) @ (replicate 56 0 @ ?len))"
      unfolding sha256_padding_def len mod using a(1) by simp
    have "fold_blocks SHA256_H0 (m @ sha256_padding (length m)) =
        sha256_compress (sha256_compress (fold_blocks SHA256_H0 a) (?t @ [0x80] @ replicate (63 - ?i) 0))
          (replicate 56 0 @ ?len)"
      unfolding msg using True r a(2) by (intro fold_blocks_two) simp_all
    then show ?thesis using True r store a(2,3)
      by (simp add: SHA224_256PadMessage_def Let_def store_byte_def zero_fill_eq
          SHA224_256ProcessMessageBlock_def put_at_def)
  qed
qed

lemma sha256_result_ok:
  assumes "sha_inv ctx m"
  shows "fst (SHA256Result ctx) = 0" "snd (snd (SHA256Result ctx)) = Some (sha256_ref m)"
proof -
  have "\<not> sha_computed ctx" "sha_corrupted ctx = 0" using assms by (auto simp: sha_inv_def)
  then show "fst (SHA256Result ctx) = 0" "snd (snd (SHA256Result ctx)) = Some (sha256_ref m)"
    using pad_message_ok [OF assms]
    by (simp_all add: SHA256Result_def SHA224_256Finalize_def Let_def sha256_ref_def)
qed

subsection \<open>HMAC is the reference\<close>

definition hmac_key :: "bytes \<Rightarrow> bytes" where
  "hmac_key key = (let k = (if length key > 64 then sha256_ref key else key) in k @ replicate (64 - length k) 0)"

definition hmac_ref :: "bytes \<Rightarrow> bytes \<Rightarrow> bytes" where
  "hmac_ref key m =
     sha256_ref (map (\<lambda>b. b XOR 0x5c) (hmac_key key) @
       sha256_ref (map (\<lambda>b. b XOR 0x36) (hmac_key key) @ m))"

lemma length_sha256_ref [simp]: "length (sha256_ref m) = 32"
  by (simp add: sha256_ref_def sha256_digest_def)

lemma SHA256Input_ok:
  "sha_inv ctx m \<Longrightarrow> 8 * length (m @ bs) < 2 ^ 64 \<Longrightarrow>
   \<exists>ctx'. SHA256Input ctx bs = (0, ctx') \<and> sha_inv ctx' (m @ bs)"
  using sha256_input_ok [of ctx m bs] by (cases "SHA256Input ctx bs") auto

lemma SHA256Result_ok:
  assumes "sha_inv ctx m"
  shows "\<exists>ctx'. SHA256Result ctx = (0, ctx', Some (sha256_ref m)) \<and> length (sha_block ctx') = 64"
proof -
  have "\<not> sha_computed ctx" "sha_corrupted ctx = 0" using assms by (auto simp: sha_inv_def)
  then show ?thesis using sha256_result_ok [OF assms]
    by (simp add: SHA256Result_def SHA224_256Finalize_def Let_def)
qed

lemma hmac_reset_ok:
  assumes "length (sha_block ctx0) = 64" "8 * length key < 2 ^ 64"
  shows "\<exists>ctx. hmacReset ctx0 key = (0, ctx) \<and>
    sha_inv (hm_sha ctx) (map (\<lambda>b. b XOR 0x36) (hmac_key key)) \<and>
    hm_k_opad ctx = map (\<lambda>b. b XOR 0x5c) (hmac_key key) \<and> length (hm_k_opad ctx) = 64"
proof -
  note reset = reset_inv [OF assms(1)]
  define k where "k = (if length key > 64 then sha256_ref key else key)"
  have k: "length k \<le> 64" "hmac_key key = k @ replicate (64 - length k) 0"
    by (simp_all add: k_def hmac_key_def Let_def)
  obtain t where t: "SHA256Input (SHA256Reset ctx0) key = (0, t)" "sha_inv t key"
    using SHA256Input_ok [OF reset, of key] assms(2) by auto
  obtain t' where t': "SHA256Result t = (0, t', Some (sha256_ref key))" using SHA256Result_ok [OF t(2)] by auto
  let ?ipad = "map (\<lambda>b. b XOR 0x36) k @ replicate (64 - length k) 0x36"
  obtain u where u: "SHA256Input (SHA256Reset ctx0) ?ipad = (0, u)" "sha_inv u ?ipad"
    using SHA256Input_ok [OF reset, of ?ipad] k by auto
  show ?thesis
    using t t' u k(1) by (cases "length key > 64") (auto simp: hmacReset_def k(2) k_def)
qed

lemma hmac_inputs_ok:
  "sha_inv (hm_sha ctx) m \<Longrightarrow> 8 * (length m + length (concat chunks)) < 2 ^ 64 \<Longrightarrow>
   \<exists>ctx'. foldl (\<lambda>ctx t. snd (hmacInput ctx t)) ctx chunks = ctx' \<and>
     sha_inv (hm_sha ctx') (m @ concat chunks) \<and> hm_k_opad ctx' = hm_k_opad ctx"
proof (induction chunks arbitrary: ctx m)
  case (Cons t chunks)
  obtain sha where sha: "SHA256Input (hm_sha ctx) t = (0, sha)" "sha_inv sha (m @ t)"
    using SHA256Input_ok [OF Cons.prems(1), of t] Cons.prems(2) by auto
  with Cons.IH [of "ctx\<lparr>hm_sha := sha\<rparr>" "m @ t"] Cons.prems(2) show ?case
    by (simp add: hmacInput_def)
qed simp

lemma hmac_result_ok:
  assumes "sha_inv (hm_sha ctx) m" "length (hm_k_opad ctx) = 64"
  shows "\<exists>ctx'. hmacResult ctx = (0, ctx', Some (sha256_ref (hm_k_opad ctx @ sha256_ref m)))"
proof -
  obtain a where a: "SHA256Result (hm_sha ctx) = (0, a, Some (sha256_ref m))" "length (sha_block a) = 64"
    using SHA256Result_ok [OF assms(1)] by blast
  obtain b where b: "SHA256Input (SHA256Reset a) (hm_k_opad ctx) = (0, b)" "sha_inv b (hm_k_opad ctx)"
    using SHA256Input_ok [OF reset_inv [OF a(2)], of "hm_k_opad ctx"] assms(2) by auto
  obtain c where c: "SHA256Input b (sha256_ref m) = (0, c)" "sha_inv c (hm_k_opad ctx @ sha256_ref m)"
    using SHA256Input_ok [OF b(2), of "sha256_ref m"] assms(2) by auto
  show ?thesis using a b c SHA256Result_ok [OF c(2)] by (auto simp: hmacResult_def Let_def)
qed

lemma hmac_streaming:
  assumes "length (sha_block ctx0) = 64" "8 * length key < 2 ^ 64"
    "8 * (64 + length (concat chunks)) < 2 ^ 64"
  shows "\<exists>ctx'. hmacResult (foldl (\<lambda>ctx t. snd (hmacInput ctx t)) (snd (hmacReset ctx0 key)) chunks) =
    (0, ctx', Some (hmac_ref key (concat chunks)))"
proof -
  obtain ctx where ctx: "hmacReset ctx0 key = (0, ctx)"
      "sha_inv (hm_sha ctx) (map (\<lambda>b. b XOR 0x36) (hmac_key key))"
      "hm_k_opad ctx = map (\<lambda>b. b XOR 0x5c) (hmac_key key)" "length (hm_k_opad ctx) = 64"
    using hmac_reset_ok [OF assms(1,2)] by blast
  let ?ctx' = "foldl (\<lambda>ctx t. snd (hmacInput ctx t)) ctx chunks"
  have "length (hmac_key key) = 64" using ctx(3,4) by (metis length_map)
  then have "sha_inv (hm_sha ?ctx') (map (\<lambda>b. b XOR 0x36) (hmac_key key) @ concat chunks)"
      "hm_k_opad ?ctx' = hm_k_opad ctx"
    using hmac_inputs_ok [OF ctx(2), of chunks] assms(3) by simp_all
  then show ?thesis using hmac_result_ok [of ?ctx'] ctx by (simp add: hmac_ref_def)
qed

text \<open>C15. The keyed hash that signs SMB 2 messages is HMAC-SHA-256 of the concatenation of the vectors it is
  fed, in whatever pieces they come: \<open>hmacReset\<close>, one \<open>hmacInput\<close> per vector and \<open>hmacResult\<close> succeed
  and give the reference value, for every key and every message below 2^61 bytes.\<close>

theorem hmac_sha256_streaming:
  assumes "length (sha_block ctx0) = 64" "8 * length key < 2 ^ 64"
    "8 * (64 + length (concat chunks)) < 2 ^ 64"
  shows "\<exists>ctx'. hmacResult (foldl (\<lambda>ctx t. snd (hmacInput ctx t)) (snd (hmacReset ctx0 key)) chunks) =
    (0, ctx', Some (hmac_ref key (concat chunks)))"
  using assms by (rule hmac_streaming)

theorem hmac_sha256_streaming_witness:
  "\<exists>ctx'. hmacResult (foldl (\<lambda>ctx t. snd (hmacInput ctx t))
      (snd (hmacReset \<lparr>sha_hash = [], sha_length_low = 7, sha_length_high = 8, sha_index = 9,
        sha_block = replicate 64 1, sha_computed = True, sha_corrupted = 2\<rparr> [1, 2])) [[3], [4, 5]]) =
    (0, ctx', Some (hmac_ref [1, 2] [3, 4, 5]))"
  using hmac_sha256_streaming [of "\<lparr>sha_hash = [], sha_length_low = 7, sha_length_high = 8, sha_index = 9,
        sha_block = replicate 64 1, sha_computed = True, sha_corrupted = 2\<rparr>" "[1, 2]" "[[3], [4, 5]]"]
  by simp

end
