(* ===== verification/Smb2_Signing.thy ===== *)
theory Smb2_Signing
  imports Smb2_Pdu Smb2_Sha256
begin

text \<open>
  \<^verbatim>\<open>lib/smb2-signing.c\<close>: AES-CMAC, the signature of a message over its vectors (CMAC from SMB 3.0 on,
  HMAC-SHA-256 before), signing a PDU that is about to be sent, and the check of a received one, which
  \<open>smb2_read_data\<close> of \<^verbatim>\<open>lib/socket.c\<close> makes in place.
\<close>

subsection \<open>AES-CMAC\<close>

text \<open>The bytes shifted left by one bit, from the last byte to the first, and the bit shifted out.\<close>

definition aes_cmac_shift_left :: "bytes \<Rightarrow> bytes \<times> u8" where
  "aes_cmac_shift_left data =
     foldr (\<lambda>b (bs, cin). ((push_bit 1 b OR cin) # bs, drop_bit 7 (b AND 0x80))) data ([], 0)"

definition aes_cmac_xor :: "bytes \<Rightarrow> bytes \<Rightarrow> bytes" where
  "aes_cmac_xor data v = map2 (XOR) (take 16 data) (take 16 v)"

definition cmac_double :: "bytes \<Rightarrow> bytes" where
  "cmac_double k =
     (let (k, out) = aes_cmac_shift_left k in
      if out \<noteq> 0 then aes_cmac_xor k (replicate 15 0 @ [0x87]) else k)"

definition aes_cmac_sub_keys :: "bytes \<Rightarrow> bytes \<times> bytes" where
  "aes_cmac_sub_keys key =
     (let sub_key1 = AES128_ECB_encrypt (replicate 16 0) key;
          sub_key1 = cmac_double sub_key1
      in (sub_key1, cmac_double sub_key1))"

text \<open>The first \<open>n\<close> blocks of the message, and the rest of it.\<close>

fun cmac_blocks :: "bytes \<Rightarrow> nat \<Rightarrow> bytes \<Rightarrow> bytes \<Rightarrow> bytes \<times> bytes" where
  "cmac_blocks key 0 mac msg = (mac, msg)"
| "cmac_blocks key (Suc n) mac msg =
     cmac_blocks key n (AES128_ECB_encrypt (aes_cmac_xor mac (take 16 msg)) key) (drop 16 msg)"

definition smb3_aes_cmac_128 :: "bytes \<Rightarrow> bytes \<Rightarrow> bytes" where
  "smb3_aes_cmac_128 key msg =
     (let n = (length msg + 15) div 16;
          rem = length msg mod 16;
          is_last_block_complete = (n \<noteq> 0 \<and> rem = 0);
          n = (if n = 0 then 1 else n);
          (sub_key1, sub_key2) = aes_cmac_sub_keys key;
          (mac, msg) = cmac_blocks key (n - 1) (replicate 16 0) msg;
          scratch = (if is_last_block_complete
                     then aes_cmac_xor (take 16 msg) sub_key1
                     else aes_cmac_xor (take rem msg @ [0x80] @ replicate (16 - (rem + 1)) 0) sub_key2);
          mac = aes_cmac_xor mac scratch
      in AES128_ECB_encrypt mac key)"

subsection \<open>Signatures\<close>

definition clear_signature :: "smb2_iovec list \<Rightarrow> smb2_iovec list" where
  "clear_signature iov =
     (case iov of [] \<Rightarrow> [] | i # is \<Rightarrow> i\<lparr>iov_buf := put_at 48 (replicate 16 0) (iov_buf i)\<rparr> # is)"

definition store_signature :: "bytes \<Rightarrow> smb2_iovec list \<Rightarrow> smb2_iovec list" where
  "store_signature s iov =
     (case iov of [] \<Rightarrow> [] | i # is \<Rightarrow> i\<lparr>iov_buf := put_at 48 s (iov_buf i)\<rparr> # is)"

text \<open>A hash context on the stack, not initialised.\<close>

definition stack_sha :: "smb2_context \<Rightarrow> sha256_context" where
  "stack_sha c = \<lparr>sha_hash = replicate 8 (ucast (c_junk c)), sha_length_low = ucast (c_junk c),
     sha_length_high = ucast (c_junk c), sha_index = unat (c_junk c),
     sha_block = replicate 64 (ucast (c_junk c)), sha_computed = True,
     sha_corrupted = unat (c_junk c)\<rparr>"

text \<open>The result, the context, the signature (where the result is 0) and the vectors, whose signature field
  the code clears.\<close>

definition smb2_calc_signature ::
  "smb2_context \<Rightarrow> smb2_iovec list \<Rightarrow> int \<times> smb2_context \<times> bytes \<times> smb2_iovec list" where
  "smb2_calc_signature c iov =
     (let iov = clear_signature iov in
      if c_dialect c > SMB2_VERSION_0210
      then (let len = sum_list (map (length \<circ> iov_buf) iov) in
            if \<not> c_mem_ok c len
            then (-1, smb2_set_error ''Failed to allocate buffer for signature calculation'' c, [], iov)
            else (let msg = concat (map iov_buf iov);
                      aes_mac = smb3_aes_cmac_128 (c_signing_key c) msg
                  in (0, c, take 16 aes_mac, iov)))
      else (let ctx = snd (hmacReset (stack_sha c) (c_signing_key c));
                ctx = foldl (\<lambda>ctx i. snd (hmacInput ctx (iov_buf i))) ctx iov;
                digest = (case hmacResult ctx of (_, _, Some d) \<Rightarrow> d
                          | (_, _, None) \<Rightarrow> replicate 32 (ucast (c_junk c)))
            in (0, c, take 16 digest, iov)))"

definition smb2_pdu_add_signature :: "smb2_context \<Rightarrow> smb2_pdu \<Rightarrow> int \<times> smb2_context \<times> smb2_pdu" where
  "smb2_pdu_add_signature c p =
     (let hdr = p_header p; iov = v_iov (p_out p) in
      if h_command hdr = SMB2_SESSION_SETUP \<and>
         (h_status hdr \<noteq> 0 \<or> h_flags hdr AND SMB2_FLAGS_SERVER_TO_REDIR = 0)
      then (0, c, p)
      else if length iov < 2 then (-1, smb2_set_error ''Too few vectors to sign'' c, p)
      else if length (iov_buf (hd iov)) \<noteq> SMB2_HEADER_SIZE
      then (-1, smb2_set_error ''First vector is not same size as smb2 header'' c, p)
      else if c_session_id c = 0 then (0, c, p)
      else if c_session_key_size c = 0 then (-1, c, p)
      else
        (let hdr = hdr\<lparr>h_flags := h_flags hdr OR SMB2_FLAGS_SIGNED\<rparr>;
             out = map_hdr_iov (set32 16 (h_flags hdr)) (p_out p);
             p = p\<lparr>p_header := hdr, p_out := out\<rparr>
         in case smb2_calc_signature c (v_iov out) of
              (rc, c, sig, iov) \<Rightarrow>
                if rc < 0 then (-1, c, p\<lparr>p_out := out\<lparr>v_iov := iov\<rparr>\<rparr>)
                else (0, c, p\<lparr>p_header := hdr\<lparr>h_signature := sig\<rparr>,
                          p_out := out\<lparr>v_iov := store_signature sig iov\<rparr>\<rparr>)))"

text \<open>The check in \<open>smb2_read_data\<close>, on the vectors of the received message from its header on.\<close>

definition verify_signature ::
  "smb2_context \<Rightarrow> smb2_iovec list \<Rightarrow> int \<times> smb2_context \<times> smb2_iovec list" where
  "verify_signature c iov =
     (let signature = get_at 48 16 (iov_buf (hd iov)) in
      case smb2_calc_signature c iov of
        (rc, c, sig, iov) \<Rightarrow>
          if rc < 0 then (-1, smb2_set_error ''Signature calc failed.'' c, iov)
          else (let iov = store_signature sig iov in
                if signature \<noteq> sig
                then (-1, smb2_set_error ''Wrong signature in received PDU'' c, iov)
                else (0, c, iov)))"

subsection \<open>What is signed\<close>

lemma length_shift_left: "length (fst (aes_cmac_shift_left data)) = length data"
  unfolding aes_cmac_shift_left_def by (induction data) (auto split: prod.splits)

lemma length_cmac [simp]: "length (smb3_aes_cmac_128 key msg) = 16"
  by (simp add: smb3_aes_cmac_128_def Let_def split: prod.splits)

text \<open>The signature as a function of the bytes: the key, the dialect and the message with zeroes in the
  signature field.\<close>

definition message_signature :: "u16 \<Rightarrow> bytes \<Rightarrow> bytes \<Rightarrow> bytes" where
  "message_signature dialect key msg =
     (if dialect > SMB2_VERSION_0210 then smb3_aes_cmac_128 key msg else take 16 (hmac_ref key msg))"

lemma length_message_signature [simp]: "length (message_signature d key msg) = 16"
  by (simp add: message_signature_def hmac_ref_def)

lemma calc_signature_eq:
  assumes "c_mem_ok c (length (concat (map iov_buf (clear_signature iov))))"
    "8 * length (c_signing_key c) < 2 ^ 64"
    "8 * (64 + length (concat (map iov_buf (clear_signature iov)))) < 2 ^ 64"
  shows "smb2_calc_signature c iov =
    (0, c, message_signature (c_dialect c) (c_signing_key c) (concat (map iov_buf (clear_signature iov))),
     clear_signature iov)"
proof (cases "c_dialect c > SMB2_VERSION_0210")
  case True
  have "sum_list (map (length \<circ> iov_buf) is) = length (concat (map iov_buf is))"
    for "is" :: "smb2_iovec list"
    by (induction "is") simp_all
  with True assms(1) show ?thesis by (simp add: smb2_calc_signature_def Let_def message_signature_def)
next
  case False
  have fold: "foldl (\<lambda>ctx i. snd (hmacInput ctx (iov_buf i))) ctx is =
      foldl (\<lambda>ctx t. snd (hmacInput ctx t)) ctx (map iov_buf is)" for ctx and "is" :: "smb2_iovec list"
    by (induction "is" arbitrary: ctx) simp_all
  have "length (sha_block (stack_sha c)) = 64" by (simp add: stack_sha_def)
  then obtain ctx' where "hmacResult (foldl (\<lambda>ctx t. snd (hmacInput ctx t))
      (snd (hmacReset (stack_sha c) (c_signing_key c))) (map iov_buf (clear_signature iov))) =
    (0, ctx', Some (hmac_ref (c_signing_key c) (concat (map iov_buf (clear_signature iov)))))"
    using hmac_streaming assms(2,3) by blast
  with False show ?thesis
    by (simp add: smb2_calc_signature_def Let_def message_signature_def fold)
qed

text \<open>The signature field does not enter its own signature.\<close>

lemma clear_store_clear:
  "length (iov_buf (hd iov)) = 64 \<Longrightarrow> length s = 16 \<Longrightarrow> clear_signature (store_signature s (clear_signature iov)) = clear_signature iov"
  by (cases iov) (simp_all add: clear_signature_def store_signature_def put_at_def)

definition signed_bytes :: "smb2_iovec list \<Rightarrow> bytes" where
  "signed_bytes iov = concat (map iov_buf (clear_signature iov))"

definition can_sign :: "smb2_context \<Rightarrow> smb2_iovec list \<Rightarrow> bool" where
  "can_sign c iov \<longleftrightarrow> c_mem_ok c (length (signed_bytes iov)) \<and> length (c_signing_key c) = 16 \<and>
     8 * (64 + length (signed_bytes iov)) < 2 ^ 64"

lemma calc_signature_ok:
  "can_sign c iov \<Longrightarrow> smb2_calc_signature c iov =
     (0, c, message_signature (c_dialect c) (c_signing_key c) (signed_bytes iov), clear_signature iov)"
  using calc_signature_eq [of c iov] by (simp add: can_sign_def signed_bytes_def)

lemma verify_signature_eq:
  assumes "can_sign c iov"
  shows "fst (verify_signature c iov) = (if get_at 48 16 (iov_buf (hd iov)) =
      message_signature (c_dialect c) (c_signing_key c) (signed_bytes iov) then 0 else -1)"
  using calc_signature_ok [OF assms] by (simp add: verify_signature_def Let_def)

text \<open>The vectors that \<open>smb2_pdu_add_signature\<close> signs: the header with its signed flag, and the rest.\<close>

definition flagged :: "smb2_pdu \<Rightarrow> smb2_iovec list" where
  "flagged p = v_iov (map_hdr_iov (set32 16 (h_flags (p_header p) OR SMB2_FLAGS_SIGNED)) (p_out p))"

definition to_be_signed :: "smb2_context \<Rightarrow> smb2_pdu \<Rightarrow> bool" where
  "to_be_signed c p \<longleftrightarrow>
     \<not> (h_command (p_header p) = SMB2_SESSION_SETUP \<and>
        (h_status (p_header p) \<noteq> 0 \<or> h_flags (p_header p) AND SMB2_FLAGS_SERVER_TO_REDIR = 0)) \<and>
     2 \<le> length (v_iov (p_out p)) \<and> length (iov_buf (hd (v_iov (p_out p)))) = 64 \<and>
     c_session_id c \<noteq> 0 \<and> c_session_key_size c \<noteq> 0"

lemma add_signature_eq:
  assumes "to_be_signed c p" "can_sign c (flagged p)"
  shows "\<exists>p'. smb2_pdu_add_signature c p = (0, c, p') \<and>
    v_iov (p_out p') = store_signature
      (message_signature (c_dialect c) (c_signing_key c) (signed_bytes (flagged p))) (clear_signature (flagged p)) \<and>
    h_signature (p_header p') = message_signature (c_dialect c) (c_signing_key c) (signed_bytes (flagged p)) \<and>
    h_flags (p_header p') = h_flags (p_header p) OR SMB2_FLAGS_SIGNED"
  using assms calc_signature_ok [OF assms(2)]
  unfolding to_be_signed_def smb2_pdu_add_signature_def Let_def flagged_def by auto

lemma flagged_hd:
  "to_be_signed c p \<Longrightarrow> flagged p \<noteq> [] \<and> length (iov_buf (hd (flagged p))) = 64"
  by (cases "v_iov (p_out p)") (auto simp: to_be_signed_def flagged_def map_hdr_iov_def)

text \<open>C13. A peer that has the sender's key and dialect accepts what \<open>smb2_pdu_add_signature\<close> signed; and it
  accepts a message (of at least a header) exactly when the signature field is the signature of the
  message with that field zeroed, so a change of any other byte needs a collision of the keyed hash.\<close>

theorem sign_then_verify:
  assumes "to_be_signed c p" "can_sign c (flagged p)"
    "can_sign d (flagged p)" "c_signing_key d = c_signing_key c" "c_dialect d = c_dialect c"
  shows "\<exists>p'. smb2_pdu_add_signature c p = (0, c, p') \<and>
    h_flags (p_header p') = h_flags (p_header p) OR SMB2_FLAGS_SIGNED \<and>
    signed_bytes (v_iov (p_out p')) = signed_bytes (flagged p) \<and>
    fst (verify_signature d (v_iov (p_out p'))) = 0 \<and>
    (\<forall>iov. can_sign d iov \<longrightarrow>
       (fst (verify_signature d iov) = 0 \<longleftrightarrow> get_at 48 16 (iov_buf (hd iov)) =
          message_signature (c_dialect c) (c_signing_key c) (signed_bytes iov)))"
proof -
  let ?s = "message_signature (c_dialect c) (c_signing_key c) (signed_bytes (flagged p))"
  let ?iov = "store_signature ?s (clear_signature (flagged p))"
  from add_signature_eq [OF assms(1,2)] obtain p' where p': "smb2_pdu_add_signature c p = (0, c, p')"
      "v_iov (p_out p') = ?iov" "h_flags (p_header p') = h_flags (p_header p) OR SMB2_FLAGS_SIGNED"
    by blast
  have hd: "flagged p \<noteq> []" "length (iov_buf (hd (flagged p))) = 64" using flagged_hd [OF assms(1)] by auto
  then have sb: "signed_bytes ?iov = signed_bytes (flagged p)"
    by (simp add: signed_bytes_def clear_store_clear)
  have "get_at 48 16 (iov_buf (hd ?iov)) = ?s"
    using hd by (cases "flagged p") (simp_all add: clear_signature_def store_signature_def get_put_same)
  moreover have "can_sign d ?iov" using assms(3) sb by (simp add: can_sign_def)
  ultimately have "fst (verify_signature d ?iov) = 0"
    using verify_signature_eq [of d ?iov] sb assms(4,5) by simp
  with p' sb assms(4,5) show ?thesis by (auto simp: verify_signature_eq)
qed

theorem sign_then_verify_witness:
  "\<exists>p'. smb2_pdu_add_signature
       (zero_context\<lparr>c_session_id := 9, c_session_key_size := 16, c_dialect := 0x0311\<rparr>)
       (zero_pdu\<lparr>p_out := \<lparr>v_num_done = 0, v_total_size = 66, v_iov =
          [\<lparr>iov_buf = replicate 64 0, iov_free = NoFree\<rparr>, \<lparr>iov_buf = [1, 2], iov_free = Free\<rparr>]\<rparr>\<rparr>) =
     (0, zero_context\<lparr>c_session_id := 9, c_session_key_size := 16, c_dialect := 0x0311\<rparr>, p') \<and>
   fst (verify_signature (zero_context\<lparr>c_dialect := 0x0311\<rparr>) (v_iov (p_out p'))) = 0"
proof -
  let ?c = "zero_context\<lparr>c_session_id := 9, c_session_key_size := 16, c_dialect := 0x0311\<rparr>"
  let ?p = "zero_pdu\<lparr>p_out := \<lparr>v_num_done = 0, v_total_size = 66, v_iov =
          [\<lparr>iov_buf = replicate 64 0, iov_free = NoFree\<rparr>, \<lparr>iov_buf = [1, 2], iov_free = Free\<rparr>]\<rparr>\<rparr>"
  have "to_be_signed ?c ?p" by (simp add: to_be_signed_def zero_pdu_def zero_header_def)
  moreover have "length (signed_bytes (flagged ?p)) = 66"
    by (simp add: signed_bytes_def flagged_def map_hdr_iov_def clear_signature_def zero_pdu_def)
  then have "can_sign ?c (flagged ?p)" "can_sign (zero_context\<lparr>c_dialect := 0x0311\<rparr>) (flagged ?p)"
    by (simp_all add: can_sign_def zero_context_def)
  ultimately show ?thesis
    using sign_then_verify [of ?c ?p "zero_context\<lparr>c_dialect := 0x0311\<rparr>"] by (auto simp: zero_context_def)
qed

end
