(* ===== verification/Smb2_Seal.thy ===== *)
theory Smb2_Seal
  imports Smb2_Signing
begin

text \<open>
  \<^verbatim>\<open>lib/smb3-seal.c\<close>: the transform header and the encryption of a (compound) message, and the decryption
  of a received one. \<open>smb3_decrypt_pdu\<close> goes on to parse the plaintext, which is in \<open>Smb2_Recv\<close>;
  \<open>transform_decrypt\<close> is its cryptographic part.
\<close>

definition xfer :: bytes where "xfer = [0xfd, 0x53, 0x4d, 0x42]"

definition chain_bytes :: "smb2_pdu list \<Rightarrow> bytes" where
  "chain_bytes ps = concat (map (vec_bytes \<circ> p_out) ps)"

definition draw_random :: "nat \<Rightarrow> smb2_context \<Rightarrow> bytes \<times> smb2_context" where
  "draw_random n c =
     (map (\<lambda>i. c_random c (c_random_pos c + i)) [0..<n], c\<lparr>c_random_pos := c_random_pos c + n\<rparr>)"

text \<open>The transform header and the plaintext, before encryption.\<close>

definition transform_plain :: "smb2_context \<Rightarrow> bytes \<Rightarrow> bytes \<Rightarrow> bytes" where
  "transform_plain c nonce msg =
     (let crypt = replicate (52 + length msg) 0;
          crypt = put_at 0 xfer crypt;
          crypt = put_at 20 nonce crypt;
          crypt = put_at 36 (le32 (of_nat (length msg))) crypt;
          crypt = put_at 42 (le16 1) crypt;
          crypt = put_at 44 (le64 (c_session_id c)) crypt
      in put_at 52 msg crypt)"

fun smb3_encrypt_pdu :: "smb2_context \<Rightarrow> smb2_pdu list \<Rightarrow> int \<times> smb2_context \<times> smb2_pdu list" where
  "smb3_encrypt_pdu c [] = (0, c, [])"
| "smb3_encrypt_pdu c (pdu # ps) =
     (if \<not> c_seal c then (0, c, pdu # ps)
      else if \<not> p_seal pdu then (0, c, pdu # ps)
      else
        (let msg = chain_bytes (pdu # ps); spl = 52 + length msg in
         if \<not> c_mem_ok c spl then (-1, c, pdu\<lparr>p_seal := False\<rparr> # ps)
         else (case draw_random 11 c of
           (nonce, c) \<Rightarrow>
           (let crypt = transform_plain c nonce msg in
            case aes128ccm_encrypt (c_serverin_key c) (get_at 20 11 crypt) (get_at 20 32 crypt)
                   (drop 52 crypt) 16 of
              (enc, m) \<Rightarrow> (0, c, pdu\<lparr>p_crypt := Some (put_at 4 m (put_at 52 enc crypt))\<rparr> # ps)))))"

text \<open>\<open>hdr\<close> and \<open>payload\<close> are the last two vectors of the received message.\<close>

definition transform_decrypt :: "smb2_context \<Rightarrow> bytes \<Rightarrow> bytes \<Rightarrow> bool \<times> bytes" where
  "transform_decrypt c hdr payload =
     aes128ccm_decrypt (c_serverout_key c) (get_at 20 11 hdr) (get_at 20 32 hdr) payload (get_at 4 16 hdr) 16"

subsection \<open>Sealing and opening\<close>

context aead
begin

text \<open>A frame that carries its tag, nonce and associated data in a 52-byte header opens to the message.\<close>

lemma sealed_frame_opens:
  assumes "enc key (get_at 20 11 frame) (get_at 20 32 frame) msg = (c, m)" "length frame = 52 + length msg"
  shows "dec key (get_at 20 11 (take 52 (put_at 4 m (put_at 52 c frame))))
      (get_at 20 32 (take 52 (put_at 4 m (put_at 52 c frame))))
      (drop 52 (put_at 4 m (put_at 52 c frame))) (get_at 4 16 (take 52 (put_at 4 m (put_at 52 c frame)))) =
    (False, msg)"
proof -
  have len: "length c = length msg" "length m = 16" using length_enc [OF assms(1)] by auto
  have "get_at 20 n (take 52 (put_at 4 m (put_at 52 c frame))) = get_at 20 n frame" if "n \<le> 32" for n
    using that len assms(2) by (simp add: get_at_def put_at_def min_def take_drop)
  moreover have "drop 52 (put_at 4 m (put_at 52 c frame)) = c"
    "get_at 4 16 (take 52 (put_at 4 m (put_at 52 c frame))) = m"
    using len assms(2) by (simp_all add: get_at_def put_at_def)
  ultimately show ?thesis using dec_enc [OF assms(1)] by simp
qed

end

lemma length_chain: "length (chain_bytes ps) = sum_list (map (iov_len \<circ> p_out) ps)"
  by (induction ps) (simp_all add: chain_bytes_def iov_len_vec_bytes)

lemma length_transform_plain: "length nonce = 11 \<Longrightarrow> length (transform_plain c nonce msg) = 52 + length msg"
  by (simp add: transform_plain_def Let_def xfer_def)

lemma drop_put_at: "length buf = off + length bs \<Longrightarrow> drop off (put_at off bs buf) = bs"
  by (simp add: put_at_def)

lemma take_put_at: "n \<le> off \<Longrightarrow> off \<le> length buf \<Longrightarrow> take n (put_at off bs buf) = take n buf"
  by (simp add: put_at_def)

lemma drop_transform_plain: "length nonce = 11 \<Longrightarrow> drop 52 (transform_plain c nonce msg) = msg"
  unfolding transform_plain_def Let_def by (rule drop_put_at) (simp add: xfer_def)

lemma take_transform_plain: "length nonce = 11 \<Longrightarrow> take 4 (transform_plain c nonce msg) = xfer"
  by (simp add: transform_plain_def Let_def take_put_at xfer_def) (simp add: put_at_def)

text \<open>C12. What \<open>smb3_encrypt_pdu\<close> makes of a compound message that is to be sealed is a frame of a 52-byte
  transform header, which starts with the transform magic, and the ciphertext; a peer whose
  \<open>serverout_key\<close> is the sender's \<open>serverin_key\<close> gets the bytes of all PDUs of the chain back from it.
  Without memory the message is left unsealed and the call fails.\<close>

theorem seal_then_open:
  assumes "c_seal c" "p_seal pdu" "c_serverout_key d = c_serverin_key c"
  shows "case smb3_encrypt_pdu c (pdu # ps) of
    (rc, c', ps') \<Rightarrow>
      if c_mem_ok c (52 + length (chain_bytes (pdu # ps)))
      then rc = 0 \<and> (\<exists>frame. ps' = pdu\<lparr>p_crypt := Some frame\<rparr> # ps \<and>
             length frame = 52 + length (chain_bytes (pdu # ps)) \<and> take 4 frame = xfer \<and>
             transform_decrypt d (take 52 frame) (drop 52 frame) = (False, chain_bytes (pdu # ps)))
      else rc = -1 \<and> c' = c \<and> ps' = pdu\<lparr>p_seal := False\<rparr> # ps"
proof (cases "c_mem_ok c (52 + length (chain_bytes (pdu # ps)))")
  case False
  then show ?thesis using assms by (simp add: Let_def)
next
  case True
  let ?msg = "chain_bytes (pdu # ps)"
  obtain nonce c' where r: "draw_random 11 c = (nonce, c')" by fastforce
  then have n: "length nonce = 11" "c_serverin_key c' = c_serverin_key c" by (auto simp: draw_random_def)
  let ?plain = "transform_plain c' nonce ?msg"
  obtain enc m where e: "aes128ccm_encrypt (c_serverin_key c) (get_at 20 11 ?plain) (get_at 20 32 ?plain) ?msg 16 = (enc, m)"
    by fastforce
  let ?frame = "put_at 4 m (put_at 52 enc ?plain)"
  have len: "length enc = length ?msg" "length m = 16" using ccm.length_enc [OF e] by auto
  have l: "length ?plain = 52 + length ?msg" using length_transform_plain [OF n(1)] by simp
  then have "length ?frame = 52 + length ?msg" using len by simp
  moreover have "take 4 ?frame = xfer"
    using take_transform_plain [OF n(1), of c' ?msg] l len by (simp add: take_put_at)
  moreover have "transform_decrypt d (take 52 ?frame) (drop 52 ?frame) = (False, ?msg)"
    using ccm.sealed_frame_opens [OF e l] assms(3) by (simp add: transform_decrypt_def)
  moreover have "smb3_encrypt_pdu c (pdu # ps) = (0, c', pdu\<lparr>p_crypt := Some ?frame\<rparr> # ps)"
    using True assms r e n by (simp add: Let_def drop_transform_plain)
  ultimately show ?thesis using True by auto
qed

theorem seal_then_open_witness:
  "\<exists>frame c'. smb3_encrypt_pdu (zero_context\<lparr>c_seal := True\<rparr>) [zero_pdu\<lparr>p_seal := True\<rparr>] =
     (0, c', [zero_pdu\<lparr>p_seal := True, p_crypt := Some frame\<rparr>]) \<and>
   transform_decrypt zero_context (take 52 frame) (drop 52 frame) = (False, [])"
  using seal_then_open [of "zero_context\<lparr>c_seal := True\<rparr>" "zero_pdu\<lparr>p_seal := True\<rparr>" zero_context "[]"]
  by (auto simp: zero_context_def chain_bytes_def vec_bytes_def no_vectors_def zero_pdu_def
      simp del: smb3_encrypt_pdu.simps split: prod.splits)

end
