(* ===== verification/Smb2_Queue.thy ===== *)
theory Smb2_Queue
  imports Smb2_Seal
begin

text \<open>
  The send side of the engine: queueing a PDU (\<^verbatim>\<open>lib/pdu.c\<close>), the credit accounting and the writer of
  \<^verbatim>\<open>lib/socket.c\<close>, and the deadlines of \<^verbatim>\<open>lib/timer.c\<close> and \<open>smb2_timeout_pdus\<close>. The application's
  callbacks and its event-loop notifications (\<open>change_events\<close>) do not change the context here; a
  callback is recorded in \<open>c_trace\<close>. The writer gathers a chain in an array of \<open>SMB2_MAX_VECTORS\<close>
  vectors on the stack; a chain that has more is outside the model.
\<close>

subsection \<open>Credits\<close>

definition smb2_get_real_credit_charge_for_one_pdu :: "smb2_context \<Rightarrow> smb2_header \<Rightarrow> int" where
  "smb2_get_real_credit_charge_for_one_pdu c hdr =
     (let credits = uint (h_credit_charge hdr) in
      if h_command hdr = SMB2_NEGOTIATE then credits
      else if c_dialect c \<le> SMB2_VERSION_0202 then credits + 1
      else credits)"

fun smb2_get_credit_charge :: "smb2_context \<Rightarrow> smb2_pdu list \<Rightarrow> int" where
  "smb2_get_credit_charge c [] = 0"
| "smb2_get_credit_charge c (p # ps) =
     smb2_get_real_credit_charge_for_one_pdu c (p_header p) + smb2_get_credit_charge c ps"

subsection \<open>The writer\<close>

definition SMB2_TRANSPORT_TCP :: nat where "SMB2_TRANSPORT_TCP = 0"

definition smb2_transport_is_connected :: "smb2_context \<Rightarrow> bool" where
  "smb2_transport_is_connected c =
     (if c_transport_type c = SMB2_TRANSPORT_TCP then c_fd_valid c else c_ext_connected c)"

text \<open>The bytes of a chain on the wire: the big-endian length and the vectors, or the sealed frame.\<close>

definition chain_payload :: "smb2_pdu list \<Rightarrow> bytes" where
  "chain_payload ps =
     (if p_seal (hd ps) then (case p_crypt (hd ps) of None \<Rightarrow> [] | Some crypt \<Rightarrow> crypt)
      else chain_bytes ps)"

definition chain_frame :: "smb2_pdu list \<Rightarrow> bytes" where
  "chain_frame ps = be32 (of_nat (length (chain_payload ps))) @ chain_payload ps"

definition chain_done :: "smb2_pdu list \<Rightarrow> nat" where
  "chain_done ps = v_num_done (p_out (hd ps))"

definition set_chain_done :: "nat \<Rightarrow> smb2_pdu list \<Rightarrow> smb2_pdu list" where
  "set_chain_done n ps =
     (case ps of [] \<Rightarrow> [] | p # ps \<Rightarrow> p\<lparr>p_out := (p_out p)\<lparr>v_num_done := n\<rparr>\<rparr> # ps)"

text \<open>\<open>transport->queue_write\<close> of the bytes that are left: what it takes is appended to \<open>c_sent\<close>.\<close>

definition queue_write :: "smb2_context \<Rightarrow> bytes \<Rightarrow> nat option \<times> bool \<times> smb2_context" where
  "queue_write c bs =
     (case c_wr_script c of
        [] \<Rightarrow> (None, True, c)
      | Wr_again # s \<Rightarrow> (None, True, c\<lparr>c_wr_script := s\<rparr>)
      | Wr_error # s \<Rightarrow> (None, False, c\<lparr>c_wr_script := s\<rparr>)
      | Wr_accept n # s \<Rightarrow>
          (Some (min n (length bs)), True, c\<lparr>c_wr_script := s, c_sent := c_sent c @ take n bs\<rparr>))"

text \<open>A chain that is completely written: a client waits for the replies, a server is done with it.\<close>

fun chain_sent :: "smb2_context \<Rightarrow> smb2_pdu list \<Rightarrow> smb2_context" where
  "chain_sent c [] = c"
| "chain_sent c (p # ps) =
     (if \<not> smb2_is_server c
      then chain_sent (c\<lparr>c_credits := c_credits c - smb2_get_real_credit_charge_for_one_pdu c (p_header p),
                         c_waitqueue := c_waitqueue c @ [p]\<rparr>) ps
      else chain_sent (smb2_free_pdu (c\<lparr>c_credits := 128\<rparr>) [p]) ps)"

lemma queue_write_script:
  "queue_write c bs = (Some n, ok, c') \<Longrightarrow> length (c_wr_script c') < length (c_wr_script c)"
  by (auto simp: queue_write_def split: list.splits write_result.splits)

lemma free_pdu_script [simp]:
  "c_wr_script (smb2_free_pdu c ps) = c_wr_script c" "c_sent (smb2_free_pdu c ps) = c_sent c"
  "c_is_server (smb2_free_pdu c ps) = c_is_server c" "c_credits (smb2_free_pdu c ps) = c_credits c"
  "c_message_id (smb2_free_pdu c ps) = c_message_id c" "c_dialect (smb2_free_pdu c ps) = c_dialect c"
  by (induction c ps rule: smb2_free_pdu.induct) (simp_all add: Let_def log_event_def)

lemma chain_sent_script [simp]: "c_wr_script (chain_sent c ps) = c_wr_script c"
  by (induction c ps rule: chain_sent.induct) (simp_all del: smb2_free_pdu.simps)

text \<open>One iteration of the loop: it returns (\<open>Inl\<close>) or goes on (\<open>Inr\<close>).\<close>

definition write_step ::
  "smb2_context \<Rightarrow> smb2_pdu list \<Rightarrow> smb2_pdu list list \<Rightarrow> (int \<times> smb2_context) + smb2_context" where
  "write_step c ps rest =
     (if unat (word_of_int (smb2_get_credit_charge c ps) :: u32) > unat (word_of_int (c_credits c) :: u32)
      then Inl (0, c)
      else
        (case queue_write c (drop (chain_done ps) (chain_frame ps)) of
           (None, again, c) \<Rightarrow>
             Inl (if again then (0, c) else (-1, smb2_set_error ''Error when writing to socket :%d %s'' c))
         | (Some count, _, c) \<Rightarrow>
           (let num_done = chain_done ps + count; ps = set_chain_done num_done ps in
            Inr (if num_done = length (chain_frame ps)
                 then chain_sent (c\<lparr>c_outqueue := rest\<rparr>) ps
                 else c\<lparr>c_outqueue := ps # rest\<rparr>))))"

lemma write_step_script:
  "write_step c ps rest = Inr c' \<Longrightarrow> length (c_wr_script c') < length (c_wr_script c)"
  by (auto simp: write_step_def Let_def dest: queue_write_script split: if_splits prod.splits option.splits)

function write_loop :: "smb2_context \<Rightarrow> int \<times> smb2_context" where
  "write_loop c =
     (case c_outqueue c of
        [] \<Rightarrow> (0, c)
      | ps # rest \<Rightarrow> (case write_step c ps rest of Inl r \<Rightarrow> r | Inr c \<Rightarrow> write_loop c))"
  by pat_completeness auto
termination
  by (relation "measure (length \<circ> c_wr_script)") (auto dest: write_step_script)

declare write_loop.simps [simp del]

definition smb2_write_to_socket :: "smb2_context \<Rightarrow> int \<times> smb2_context" where
  "smb2_write_to_socket c =
     (if c_transport_type c = SMB2_TRANSPORT_TCP \<and> \<not> c_fd_valid c
      then (-1, smb2_set_error ''trying to write but not connected'' c)
      else if \<not> c_transport_ops c
      then (-1, smb2_set_error ''No transport queue_write operation registered.'' c)
      else write_loop c)"

subsection \<open>Queueing\<close>

definition update_ptr :: "nat \<Rightarrow> (smb2_pdu \<Rightarrow> smb2_pdu) \<Rightarrow> smb2_pdu list \<Rightarrow> smb2_pdu list" where
  "update_ptr ptr f ps = map (\<lambda>p. if p_ptr p = ptr then f p else p) ps"

definition smb2_correlate_reply :: "smb2_context \<Rightarrow> smb2_pdu \<Rightarrow> int \<times> smb2_context \<times> smb2_pdu" where
  "smb2_correlate_reply c p =
     (let hdr = p_header p in
      case smb2_find_pdu c (h_message_id hdr) of
        None \<Rightarrow>
          if h_command hdr \<noteq> SMB2_OPLOCK_BREAK
          then (-1, smb2_set_error ''no matching request PDU found for reply to cmd %d id %llu'' c, p)
          else (0, c, p\<lparr>p_header :=
                  (set_tree_id 0 (hdr\<lparr>h_message_id := 0xffffffffffffffff\<rparr>))\<lparr>h_session_id := 0\<rparr>\<rparr>)
      | Some req \<Rightarrow>
          (let credit_grant = h_credit_request_response (p_header req);
               hdr = hdr\<lparr>h_credit_request_response := (if credit_grant > 0xf000 then 0xffff else credit_grant)\<rparr>;
               hdr = (if h_credit_charge (p_header req) > h_credit_charge hdr
                      then hdr\<lparr>h_credit_charge := h_credit_charge (p_header req)\<rparr> else hdr);
               hdr = hdr\<lparr>h_message_id := h_message_id (p_header req)\<rparr>;
               hdr = (if h_command hdr \<noteq> SMB2_TREE_CONNECT
                      then set_tree_id (h_tree_id (p_header req)) hdr else hdr)
           in if h_flags hdr AND SMB2_FLAGS_ASYNC_COMMAND \<noteq> 0 \<and> h_status hdr = SMB2_STATUS_PENDING
              then (let c = c\<lparr>c_async_id := c_async_id c + 1\<rparr>;
                        hdr = set_async_id (c_async_id c) hdr;
                        mark = (\<lambda>r. r\<lparr>p_header := (set_async_id (h_async_id hdr) (p_header r))
                                   \<lparr>h_flags := h_flags (p_header r) OR SMB2_FLAGS_ASYNC_COMMAND\<rparr>\<rparr>)
                    in (0, c\<lparr>c_waitqueue := update_ptr (p_ptr req) mark (c_waitqueue c)\<rparr>, p\<lparr>p_header := hdr\<rparr>))
              else (let hdr = (if h_flags (p_header req) AND SMB2_FLAGS_ASYNC_COMMAND \<noteq> 0
                               then set_async_id (h_async_id (p_header req))
                                      (hdr\<lparr>h_flags := h_flags hdr OR SMB2_FLAGS_ASYNC_COMMAND\<rparr>)
                               else hdr);
                        c = c\<lparr>c_waitqueue := list_remove p_ptr (p_ptr req) (c_waitqueue c)\<rparr>
                    in (0, smb2_free_pdu c [req], p\<lparr>p_header := hdr\<rparr>))))"

text \<open>
  One PDU \<open>p\<close> of the chain, with those \<open>before\<close> it. In a server the code sets the flags of \<open>pdu\<close>, the first PDU of
  the chain, and tests the first one's message id, where \<open>p\<close>, the current one, is meant. \<open>None\<close> is the
  early return that frees the chain.
\<close>

definition queue_prepare ::
  "smb2_context \<Rightarrow> smb2_pdu list \<Rightarrow> smb2_pdu \<Rightarrow> (smb2_context \<times> smb2_pdu list \<times> smb2_pdu) option" where
  "queue_prepare c before p =
     (let ps = before @ [p]; pdu = hd ps; hdr = p_header pdu;
          hdr = hdr\<lparr>h_flags := h_flags hdr OR SMB2_FLAGS_SERVER_TO_REDIR\<rparr>;
          hdr = (if h_status hdr = SMB2_STATUS_PENDING
                 then hdr\<lparr>h_flags := h_flags hdr OR SMB2_FLAGS_ASYNC_COMMAND\<rparr> else hdr);
          ps = ps[0 := pdu\<lparr>p_header := hdr\<rparr>]
      in if h_message_id hdr = 0 \<and> h_command hdr \<noteq> SMB2_NEGOTIATE then None
         else (case smb2_correlate_reply c (last ps) of (_, c, p) \<Rightarrow> Some (c, butlast ps, p)))"

definition must_sign :: "smb2_context \<Rightarrow> smb2_pdu \<Rightarrow> bool" where
  "must_sign c p \<longleftrightarrow> c_sign c \<or>
     (h_command (p_header p) = SMB2_TREE_CONNECT \<and> c_dialect c = SMB2_VERSION_0311 \<and> \<not> c_seal c)"

definition queue_encode :: "smb2_context \<Rightarrow> smb2_pdu \<Rightarrow> u64 \<Rightarrow> smb2_context \<times> smb2_pdu" where
  "queue_encode c p prev_compound_mid =
     (case smb2_encode_header c (hdr_buf p) (p_header p) of
        (c, hdr, buf) \<Rightarrow>
          (let p = p\<lparr>p_header := hdr, p_out := map_hdr_iov (\<lambda>_. buf) (p_out p)\<rparr>;
               p = (if smb2_is_server c then p else p\<lparr>p_prev_compound_mid := prev_compound_mid\<rparr>)
           in if must_sign c p
              then (case smb2_pdu_add_signature c p of
                      (rc, c, p) \<Rightarrow>
                        (if rc < 0 then smb2_set_error ''Failure to add signature. %s'' c else c, p))
              else (c, p)))"

fun queue_loop ::
  "smb2_context \<Rightarrow> smb2_pdu list \<Rightarrow> smb2_pdu list \<Rightarrow> u64 \<Rightarrow> smb2_context \<times> smb2_pdu list option" where
  "queue_loop c before [] prev_compound_mid = (c, Some before)"
| "queue_loop c before (p # after) prev_compound_mid =
     (case (if smb2_is_server c then queue_prepare c before p else Some (c, before, p)) of
        None \<Rightarrow> (smb2_free_pdu (smb2_set_error ''Queued pdu has no message id'' c) (before @ p # after), None)
      | Some (c, before, p) \<Rightarrow>
        (case queue_encode c p prev_compound_mid of
           (c, p) \<Rightarrow>
             queue_loop c (before @ [p]) after
               (if smb2_is_server c then prev_compound_mid else h_message_id (p_header p))))"

definition smb2_add_to_outqueue :: "smb2_context \<Rightarrow> smb2_pdu list \<Rightarrow> smb2_context" where
  "smb2_add_to_outqueue c ps =
     (let first = (c_outqueue c = []);
          c = c\<lparr>c_outqueue := c_outqueue c @ [ps]\<rparr>
      in if first then snd (smb2_write_to_socket c) else c)"

definition smb2_queue_pdu :: "smb2_context \<Rightarrow> smb2_pdu list \<Rightarrow> smb2_context" where
  "smb2_queue_pdu c ps =
     (case queue_loop c [] ps 0 of
        (c, None) \<Rightarrow> c
      | (c, Some ps) \<Rightarrow>
        (case smb3_encrypt_pdu c ps of (_, c, ps) \<Rightarrow> smb2_add_to_outqueue c ps))"

subsection \<open>Deadlines\<close>

definition expired :: "int \<Rightarrow> smb2_pdu \<Rightarrow> bool" where
  "expired t p \<longleftrightarrow> p_timeout p \<noteq> 0 \<and> p_timeout p < t"

definition timeout_out_pdu :: "int \<Rightarrow> smb2_context \<Rightarrow> smb2_pdu list \<Rightarrow> smb2_context" where
  "timeout_out_pdu t c ps =
     (if expired t (hd ps)
      then (let c = c\<lparr>c_outqueue := list_remove chain_ptr (chain_ptr ps) (c_outqueue c)\<rparr>;
                c = log_event (Ev_callback (p_cb (hd ps)) (p_cb_data (hd ps)) SMB2_STATUS_IO_TIMEOUT None) c
            in smb2_free_pdu c ps)
      else c)"

definition timeout_wait_pdu :: "int \<Rightarrow> smb2_context \<Rightarrow> smb2_pdu \<Rightarrow> smb2_context" where
  "timeout_wait_pdu t c p =
     (if expired t p
      then (let c = c\<lparr>c_waitqueue := list_remove p_ptr (p_ptr p) (c_waitqueue c)\<rparr>;
                c = log_event (Ev_callback (p_cb p) (p_cb_data p) SMB2_STATUS_IO_TIMEOUT None) c
            in smb2_free_pdu c [p])
      else c)"

definition smb2_timeout_pdus :: "smb2_context \<Rightarrow> smb2_context" where
  "smb2_timeout_pdus c =
     (let t = c_now c;
          c = foldl (timeout_out_pdu t) c (c_outqueue c)
      in foldl (timeout_wait_pdu t) c (c_waitqueue c))"

text \<open>\<open>None\<close> is the code's \<open>have == 0\<close>.\<close>

fun earlier :: "int list \<Rightarrow> int option \<Rightarrow> int option" where
  "earlier [] d = d"
| "earlier (t # ts) d =
     earlier ts (if t \<noteq> 0 \<and> (case d of None \<Rightarrow> True | Some x \<Rightarrow> t < x) then Some t else d)"

definition smb2_earliest_deadline :: "smb2_context \<Rightarrow> int option" where
  "smb2_earliest_deadline c =
     (let d = earlier (map (p_timeout \<circ> hd) (c_outqueue c)) None;
          d = earlier (map p_timeout (c_waitqueue c)) d
      in earlier [c_next_timeout c] d)"

text \<open>The result and \<open>tv_sec\<close> (\<open>tv_usec\<close> is 0), for non-\<open>NULL\<close> arguments.\<close>

definition smb2_get_timeout :: "smb2_context \<Rightarrow> int \<times> int option" where
  "smb2_get_timeout c =
     (case smb2_earliest_deadline c of
        None \<Rightarrow> (0, None)
      | Some deadline \<Rightarrow> (1, Some (if deadline > c_now c then deadline - c_now c else 0)))"

definition INT_MAX :: int where "INT_MAX = 2147483647"

definition smb2_next_timeout_ms :: "smb2_context \<Rightarrow> int" where
  "smb2_next_timeout_ms c =
     (case smb2_earliest_deadline c of
        None \<Rightarrow> -1
      | Some deadline \<Rightarrow>
        if deadline \<le> c_now c then 0
        else (let secs = deadline - c_now c in
              if secs > INT_MAX div 1000 then INT_MAX else secs * 1000))"

text \<open>The TCP backend has no timer operation.\<close>

definition smb2_service_timeout :: "smb2_context \<Rightarrow> int \<times> smb2_context" where
  "smb2_service_timeout c = (0, if c_timeout c \<noteq> 0 then smb2_timeout_pdus c else c)"

subsection \<open>The writer sends whole frames in order\<close>

text \<open>PDUs are compared up to \<open>num_done\<close>, the writer's progress.\<close>

definition undone :: "smb2_pdu \<Rightarrow> smb2_pdu" where
  "undone p = p\<lparr>p_out := (p_out p)\<lparr>v_num_done := 0\<rparr>\<rparr>"

definition partly_sent :: "smb2_context \<Rightarrow> bytes" where
  "partly_sent c = (case c_outqueue c of [] \<Rightarrow> [] | ps # _ \<Rightarrow> take (chain_done ps) (chain_frame ps))"

definition out_ok :: "smb2_context \<Rightarrow> bool" where
  "out_ok c \<longleftrightarrow> (\<forall>ps \<in> set (c_outqueue c). ps \<noteq> []) \<and> (\<forall>ps \<in> set (tl (c_outqueue c)). chain_done ps = 0) \<and>
     (c_outqueue c \<noteq> [] \<longrightarrow> chain_done (hd (c_outqueue c)) < length (chain_frame (hd (c_outqueue c))))"

lemma set_chain_done_simps [simp]:
  "chain_frame (set_chain_done n ps) = chain_frame ps"
  "map undone (set_chain_done n ps) = map undone ps"
  "set_chain_done n ps = [] \<longleftrightarrow> ps = []"
  "ps \<noteq> [] \<Longrightarrow> chain_done (set_chain_done n ps) = n"
  by (cases ps; simp add: set_chain_done_def chain_frame_def chain_payload_def chain_bytes_def vec_bytes_def
      undone_def chain_done_def)+

lemma frame_nonempty: "0 < length (chain_frame ps)"
  by (simp add: chain_frame_def)

lemma chain_sent_client:
  "\<not> c_is_server c \<Longrightarrow> chain_sent c ps =
     c\<lparr>c_credits := c_credits c - smb2_get_credit_charge c ps, c_waitqueue := c_waitqueue c @ ps\<rparr>"
proof (induction ps arbitrary: c)
  case (Cons p ps)
  have "smb2_get_credit_charge (c\<lparr>c_credits := x, c_waitqueue := y\<rparr>) ps = smb2_get_credit_charge c ps" for x y
    by (induction ps) (simp_all add: smb2_get_real_credit_charge_for_one_pdu_def Let_def)
  with Cons show ?case by (simp add: smb2_is_server_def)
qed simp

lemma undone_frame: "chain_frame (map undone ps) = chain_frame ps"
proof -
  have "chain_bytes (map undone ps) = chain_bytes ps"
    by (simp add: chain_bytes_def comp_def undone_def vec_bytes_def)
  moreover have "p_seal (hd (map undone ps)) = p_seal (hd ps)" "p_crypt (hd (map undone ps)) = p_crypt (hd ps)"
    if "ps \<noteq> []" using that by (simp_all add: hd_map undone_def)
  ultimately show ?thesis by (cases "ps = []") (auto simp: chain_frame_def chain_payload_def)
qed

lemma undone_charge: "smb2_get_credit_charge c (map undone ps) = smb2_get_credit_charge c ps"
  by (induction ps) (simp_all add: undone_def)

lemma charge_cong:
  "c_dialect c' = c_dialect c \<Longrightarrow> smb2_get_credit_charge c' ps = smb2_get_credit_charge c ps"
  by (induction ps) (simp_all add: smb2_get_real_credit_charge_for_one_pdu_def Let_def)

text \<open>\<open>advances k c c'\<close>: from \<open>c\<close> to \<open>c'\<close> the first \<open>k\<close> chains of the queue have been sent completely.\<close>

definition advances :: "nat \<Rightarrow> smb2_context \<Rightarrow> smb2_context \<Rightarrow> bool" where
  "advances k c c' \<longleftrightarrow>
     k \<le> length (c_outqueue c) \<and>
     map (map undone) (c_outqueue c') = drop k (map (map undone) (c_outqueue c)) \<and>
     map undone (c_waitqueue c') = map undone (c_waitqueue c) @ concat (take k (map (map undone) (c_outqueue c))) \<and>
     (\<forall>F. c_sent c = F @ partly_sent c \<longrightarrow>
        c_sent c' = F @ concat (map chain_frame (take k (c_outqueue c))) @ partly_sent c') \<and>
     c_credits c' = c_credits c - sum_list (map (smb2_get_credit_charge c) (take k (c_outqueue c))) \<and>
     c_is_server c' = c_is_server c \<and> c_dialect c' = c_dialect c \<and> c_message_id c' = c_message_id c"

lemma undone_maps:
  assumes "map (map undone) a = map (map undone) b"
  shows "map chain_frame a = map chain_frame b"
    "map (smb2_get_credit_charge c) a = map (smb2_get_credit_charge c) b"
proof -
  have "map chain_frame x = map chain_frame (map (map undone) x)"
    "map (smb2_get_credit_charge c) x = map (smb2_get_credit_charge c) (map (map undone) x)" for x
    by (simp_all add: undone_frame undone_charge)
  with assms show "map chain_frame a = map chain_frame b"
    "map (smb2_get_credit_charge c) a = map (smb2_get_credit_charge c) b" by metis+
qed

lemma advances_trans:
  assumes "advances k c1 c2" "advances l c2 c3"
  shows "advances (k + l) c1 c3"
proof -
  let ?q = "c_outqueue c1"
  have q2: "map (map undone) (take l (c_outqueue c2)) = map (map undone) (take l (drop k ?q))"
    using assms(1) unfolding advances_def take_map drop_map by (simp only: map_map flip: take_map drop_map)
  have len: "length (c_outqueue c2) = length ?q - k"
    using assms(1) unfolding advances_def by (metis length_drop length_map)
  have add: "take (k + l) xs = take k xs @ take l (drop k xs)" for xs :: "'a list"
    by (rule take_add)
  have d: "c_dialect c2 = c_dialect c1" using assms(1) by (simp add: advances_def)
  have ch: "smb2_get_credit_charge c2 = smb2_get_credit_charge c1" using charge_cong [OF d] by (rule ext)
  note maps = undone_maps [OF q2]
  have sent: "c_sent c3 = F @ concat (map chain_frame (take (k + l) ?q)) @ partly_sent c3"
    if "c_sent c1 = F @ partly_sent c1" for F
  proof -
    have "c_sent c2 = (F @ concat (map chain_frame (take k ?q))) @ partly_sent c2"
      using assms(1) that unfolding advances_def by (metis append_assoc)
    then have "c_sent c3 = (F @ concat (map chain_frame (take k ?q))) @
        concat (map chain_frame (take l (c_outqueue c2))) @ partly_sent c3"
      using assms(2) unfolding advances_def by blast
    then show ?thesis by (simp add: add maps(1))
  qed
  have "c_credits c3 = c_credits c1 - sum_list (map (smb2_get_credit_charge c1) (take (k + l) ?q))"
    using assms ch by (simp add: advances_def add maps(2))
  moreover have "map (map undone) (c_outqueue c3) = drop (k + l) (map (map undone) ?q)"
    using assms by (simp add: advances_def add.commute)
  moreover have "map undone (c_waitqueue c3) =
      map undone (c_waitqueue c1) @ concat (take (k + l) (map (map undone) ?q))"
    using assms by (simp add: advances_def add)
  moreover have "k \<le> length ?q" "l \<le> length (c_outqueue c2)" using assms unfolding advances_def by blast+
  then have "k + l \<le> length ?q" using len by linarith
  moreover have "c_is_server c3 = c_is_server c1" "c_dialect c3 = c_dialect c1"
    "c_message_id c3 = c_message_id c1"
    using assms unfolding advances_def by (elim conjE; simp)+
  ultimately show ?thesis unfolding advances_def using sent by blast
qed

lemma write_step_advances:
  assumes ok: "out_ok c" and client: "\<not> c_is_server c" and q: "c_outqueue c = ps # rest"
    and step: "write_step c ps rest = Inr c'"
  shows "out_ok c' \<and> (\<exists>k. advances k c c')"
proof -
  let ?frame = "chain_frame ps" and ?d = "chain_done ps"
  have ps: "ps \<noteq> []" "?d < length ?frame" "\<forall>qs \<in> set rest. qs \<noteq> [] \<and> chain_done qs = 0"
    using ok q by (auto simp: out_ok_def)
  from step obtain n s where w: "c_wr_script c = Wr_accept n # s"
    by (auto simp: write_step_def queue_write_def Let_def split: if_splits list.splits write_result.splits)
  define count where "count = min n (length ?frame - ?d)"
  define c1 where "c1 = c\<lparr>c_wr_script := s, c_sent := c_sent c @ take n (drop ?d ?frame)\<rparr>"
  have c': "c' = (if ?d + count = length ?frame
      then chain_sent (c1\<lparr>c_outqueue := rest\<rparr>) (set_chain_done (?d + count) ps)
      else c1\<lparr>c_outqueue := set_chain_done (?d + count) ps # rest\<rparr>)"
    using step w by (auto simp: write_step_def queue_write_def Let_def c1_def count_def split: if_splits)
  have sent: "c_sent c1 = c_sent c @ take count (drop ?d ?frame)"
    by (simp add: c1_def count_def min_def)
  have prefix: "take ?d ?frame @ take count (drop ?d ?frame) = take (?d + count) ?frame"
    by (simp add: take_add)
  show ?thesis
  proof (cases "?d + count = length ?frame")
    case False
    moreover have "count \<le> length ?frame - ?d" by (simp add: count_def)
    ultimately have less: "?d + count < length ?frame" using ps(2) by linarith
    have c'': "c' = c1\<lparr>c_outqueue := set_chain_done (?d + count) ps # rest\<rparr>" using c' False by simp
    have "advances 0 c c'"
      using q ps sent prefix unfolding c'' advances_def partly_sent_def by (auto simp: c1_def)
    moreover have "out_ok c'" using q ps less ok unfolding c'' out_ok_def by auto
    ultimately show ?thesis by blast
  next
    case True
    have "\<not> c_is_server (c1\<lparr>c_outqueue := rest\<rparr>)" using client by (simp add: c1_def)
    note cs = chain_sent_client [OF this, of "set_chain_done (?d + count) ps"]
    have charge: "smb2_get_credit_charge (c1\<lparr>c_outqueue := rest\<rparr>) (set_chain_done (?d + count) ps) =
        smb2_get_credit_charge c ps"
      using charge_cong [of "c1\<lparr>c_outqueue := rest\<rparr>" c] undone_charge [of c ps]
        undone_charge [of c "set_chain_done (?d + count) ps"] by (simp add: c1_def)
    have head: "take 0 (chain_frame qs) = []" for qs by simp
    have part: "partly_sent c' = []"
      using ps(3) True c' cs by (cases rest) (simp_all add: partly_sent_def)
    have "advances 1 c c'"
      using q ps sent prefix True c' cs charge part unfolding advances_def
      by (auto simp: c1_def partly_sent_def)
    moreover have "out_ok c'"
      using ps(3) True c' cs frame_nonempty by (cases rest) (auto simp: out_ok_def)
    ultimately show ?thesis by blast
  qed
qed


lemma write_step_stops:
  assumes "write_step c ps rest = Inl (rc, c')"
  shows "c_outqueue c' = c_outqueue c" "c_waitqueue c' = c_waitqueue c" "c_sent c' = c_sent c"
    "c_credits c' = c_credits c" "c_is_server c' = c_is_server c" "c_dialect c' = c_dialect c"
    "c_message_id c' = c_message_id c"
  using assms by (auto simp: write_step_def queue_write_def Let_def split: if_splits list.splits write_result.splits)

lemma advances_refl:
  "c_outqueue c' = c_outqueue c \<Longrightarrow> c_waitqueue c' = c_waitqueue c \<Longrightarrow> c_sent c' = c_sent c \<Longrightarrow>
   c_credits c' = c_credits c \<Longrightarrow> c_is_server c' = c_is_server c \<Longrightarrow> c_dialect c' = c_dialect c \<Longrightarrow>
   c_message_id c' = c_message_id c \<Longrightarrow> advances 0 c c'"
  by (simp add: advances_def partly_sent_def)

lemma write_loop_advances:
  "out_ok c \<Longrightarrow> \<not> c_is_server c \<Longrightarrow> write_loop c = (rc, c') \<Longrightarrow> out_ok c' \<and> (\<exists>k. advances k c c')"
proof (induction c rule: write_loop.induct)
  case (1 c)
  show ?case
  proof (cases "c_outqueue c")
    case Nil
    with 1(2-) show ?thesis by (auto simp: write_loop.simps intro: advances_refl)
  next
    case (Cons ps rest)
    show ?thesis
    proof (cases "write_step c ps rest")
      case (Inl r)
      then have r: "r = (rc, c')" using 1(4) Cons by (simp add: write_loop.simps)
      note st = write_step_stops [OF Inl [unfolded r]]
      have "out_ok c'" using 1(2) st by (simp add: out_ok_def)
      with advances_refl [OF st] show ?thesis by blast
    next
      case (Inr d)
      from write_step_advances [OF 1(2,3) Cons Inr] obtain k where k: "out_ok d" "advances k c d" by blast
      have "write_loop d = (rc, c')" using 1(4) Cons Inr by (simp add: write_loop.simps [of c])
      with 1(1) [OF Cons Inr k(1)] k(2) 1(3) show ?thesis
        by (auto simp: advances_def [of k] dest: advances_trans [OF k(2)])
    qed
  qed
qed

subsection \<open>Credits are not overdrawn\<close>

lemma charge_bounds: "0 \<le> smb2_get_credit_charge c ps" "smb2_get_credit_charge c ps \<le> 65536 * int (length ps)"
proof (induction ps)
  case (Cons p ps)
  have "0 \<le> smb2_get_real_credit_charge_for_one_pdu c (p_header p)"
    "smb2_get_real_credit_charge_for_one_pdu c (p_header p) \<le> 65536"
    using uint_bounded [of "h_credit_charge (p_header p)"]
    by (auto simp: smb2_get_real_credit_charge_for_one_pdu_def Let_def)
  with Cons show "0 \<le> smb2_get_credit_charge c (p # ps)"
    "smb2_get_credit_charge c (p # ps) \<le> 65536 * int (length (p # ps))" by simp_all
qed simp_all

lemma unat_word_of_int: "0 \<le> x \<Longrightarrow> x < 2 ^ 32 \<Longrightarrow> unat (word_of_int x :: u32) = nat x"
  by (simp add: unat_eq_nat_uint uint_word_of_int)

definition credits_ok :: "smb2_context \<Rightarrow> bool" where
  "credits_ok c \<longleftrightarrow> 0 \<le> c_credits c \<and> c_credits c < 2 ^ 31 \<and> (\<forall>ps \<in> set (c_outqueue c). length ps < 2 ^ 15)"

lemma write_step_client:
  assumes client: "\<not> c_is_server c" and step: "write_step c ps rest = Inr c'"
  shows "\<exists>s bs m. c' = c\<lparr>c_wr_script := s, c_sent := c_sent c @ bs, c_outqueue := rest,
        c_credits := c_credits c - smb2_get_credit_charge c ps,
        c_waitqueue := c_waitqueue c @ set_chain_done m ps\<rparr> \<or>
      c' = c\<lparr>c_wr_script := s, c_sent := c_sent c @ bs, c_outqueue := set_chain_done m ps # rest\<rparr>"
proof -
  from step obtain n s where w: "c_wr_script c = Wr_accept n # s"
    by (auto simp: write_step_def queue_write_def Let_def split: if_splits list.splits write_result.splits)
  let ?bs = "take n (drop (chain_done ps) (chain_frame ps))" and ?m = "chain_done ps + min n (length (chain_frame ps) - chain_done ps)"
  let ?c1 = "c\<lparr>c_wr_script := s, c_sent := c_sent c @ ?bs, c_outqueue := rest\<rparr>"
  have charge: "smb2_get_credit_charge ?c1 (set_chain_done ?m ps) = smb2_get_credit_charge c ps"
    using charge_cong [of ?c1 c] undone_charge [of c ps] undone_charge [of c "set_chain_done ?m ps"] by simp
  have "\<not> c_is_server ?c1" using client by simp
  note cs = chain_sent_client [OF this, of "set_chain_done ?m ps", unfolded charge]
  have "c' = (if ?m = length (chain_frame ps) then chain_sent ?c1 (set_chain_done ?m ps)
      else c\<lparr>c_wr_script := s, c_sent := c_sent c @ ?bs, c_outqueue := set_chain_done ?m ps # rest\<rparr>)"
    using step w by (simp add: write_step_def queue_write_def Let_def split: if_splits)
  then show ?thesis unfolding cs
    by (cases "?m = length (chain_frame ps)") (simp_all, blast+)
qed

lemma write_step_credits:
  assumes ok: "credits_ok c" and client: "\<not> c_is_server c" and q: "c_outqueue c = ps # rest"
    and step: "write_step c ps rest = Inr c'"
  shows "credits_ok c' \<and> \<not> c_is_server c'"
proof -
  have len: "length (set_chain_done n ps) = length ps" for n
    by (cases ps) (simp_all add: set_chain_done_def)
  have "smb2_get_credit_charge c ps < 2 ^ 32"
    using charge_bounds(2) [of c ps] ok q by (auto simp: credits_ok_def)
  moreover have "\<not> unat (word_of_int (smb2_get_credit_charge c ps) :: u32) > unat (word_of_int (c_credits c) :: u32)"
    using step by (auto simp: write_step_def split: if_splits)
  ultimately have le: "smb2_get_credit_charge c ps \<le> c_credits c"
    using ok charge_bounds(1) [of c ps] by (auto simp: unat_word_of_int credits_ok_def)
  from write_step_client [OF client step] show ?thesis
    using ok q client le charge_bounds(1) [of c ps] by (auto simp: credits_ok_def len)
qed

lemma write_loop_credits:
  "credits_ok c \<Longrightarrow> \<not> c_is_server c \<Longrightarrow> write_loop c = (rc, c') \<Longrightarrow> credits_ok c'"
proof (induction c rule: write_loop.induct)
  case (1 c)
  show ?case
  proof (cases "c_outqueue c")
    case Nil
    with 1(2-) show ?thesis by (auto simp: write_loop.simps)
  next
    case (Cons ps rest)
    show ?thesis
    proof (cases "write_step c ps rest")
      case (Inl r)
      then have "write_step c ps rest = Inl (rc, c')" using 1(4) Cons by (simp add: write_loop.simps)
      from write_step_stops [OF this] 1(2) show ?thesis by (simp add: credits_ok_def)
    next
      case (Inr d)
      from write_step_credits [OF 1(2,3) Cons Inr] have "credits_ok d" "\<not> c_is_server d" by auto
      moreover have "write_loop d = (rc, c')" using 1(4) Cons Inr by (simp add: write_loop.simps [of c])
      ultimately show ?thesis using 1(1) [OF Cons Inr] by blast
    qed
  qed
qed

text \<open>The writer keeps going while the transport takes the data: with enough credits and a transport that
  accepts every frame, the queue drains.\<close>

lemma write_loop_drains:
  assumes "out_ok c" "\<not> c_is_server c" "credits_ok c"
    "sum_list (map (smb2_get_credit_charge c) (c_outqueue c)) \<le> c_credits c"
    "c_wr_script c = map Wr_accept ns" "length (c_outqueue c) \<le> length ns"
    "\<forall>n \<in> set ns. \<forall>ps \<in> set (c_outqueue c). length (chain_frame ps) \<le> n"
  shows "fst (write_loop c) = 0 \<and> c_outqueue (snd (write_loop c)) = []"
  using assms
proof (induction c arbitrary: ns rule: write_loop.induct)
  case (1 c)
  show ?case
  proof (cases "c_outqueue c")
    case Nil
    then show ?thesis by (simp add: write_loop.simps)
  next
    case (Cons ps rest)
    with 1(7) obtain n ns' where ns: "ns = n # ns'" by (cases ns) auto
    have ps: "chain_done ps < length (chain_frame ps)" "length (chain_frame ps) \<le> n" "length ps < 2 ^ 15"
      using 1(2,4,8) Cons ns by (auto simp: out_ok_def credits_ok_def)
    have "0 \<le> sum_list (map (smb2_get_credit_charge c) rest)"
      by (rule sum_list_nonneg) (auto simp: charge_bounds)
    then have le: "smb2_get_credit_charge c ps \<le> c_credits c" using 1(5) Cons by simp
    have "unat (word_of_int (smb2_get_credit_charge c ps) :: u32) \<le> unat (word_of_int (c_credits c) :: u32)"
      using le charge_bounds [of c ps] 1(4) by (simp add: unat_word_of_int credits_ok_def)
    moreover define d where "d = chain_sent (c\<lparr>c_wr_script := map Wr_accept ns',
        c_sent := c_sent c @ take n (drop (chain_done ps) (chain_frame ps)), c_outqueue := rest\<rparr>)
        (set_chain_done (length (chain_frame ps)) ps)"
    ultimately have step: "write_step c ps rest = Inr d"
      using ps 1(6) ns by (simp add: write_step_def queue_write_def Let_def min_def not_less)
    let ?c1 = "c\<lparr>c_wr_script := map Wr_accept ns',
        c_sent := c_sent c @ take n (drop (chain_done ps) (chain_frame ps)), c_outqueue := rest\<rparr>"
    have charge: "smb2_get_credit_charge ?c1 (set_chain_done m ps) = smb2_get_credit_charge c ps" for m
      using charge_cong [of ?c1 c] undone_charge [of c ps] undone_charge [of c "set_chain_done m ps"] by simp
    have "\<not> c_is_server ?c1" using 1(3) by simp
    note cs = chain_sent_client [OF this, of "set_chain_done (length (chain_frame ps)) ps", unfolded charge, folded d_def]
    have "smb2_get_credit_charge d = smb2_get_credit_charge c" by (rule ext, rule charge_cong) (simp add: cs)
    with write_step_advances [OF 1(2,3) Cons step] write_step_credits [OF 1(4,3) Cons step]
    have "fst (write_loop d) = 0 \<and> c_outqueue (snd (write_loop d)) = []"
      using 1(5-8) Cons ns by (intro 1(1) [OF Cons step, of ns']) (auto simp: cs)
    then show ?thesis using Cons step by (simp add: write_loop.simps [of c])
  qed
qed

subsection \<open>Message ids\<close>

abbreviation (input) mid :: "smb2_pdu \<Rightarrow> u64" where "mid p \<equiv> h_message_id (p_header p)"

definition pending :: "smb2_context \<Rightarrow> smb2_pdu list" where
  "pending c = c_waitqueue c @ concat (c_outqueue c)"

text \<open>The requests that are outstanding, oldest first, have increasing message ids below the next one.\<close>

definition mids_ok :: "smb2_context \<Rightarrow> bool" where
  "mids_ok c \<longleftrightarrow> sorted_wrt (<) (map mid (pending c)) \<and> (\<forall>p \<in> set (pending c). mid p < c_message_id c)"

lemma add_signature_keeps:
  assumes "smb2_pdu_add_signature c p = (rc, c', p')"
  shows "mid p' = mid p" "c_message_id c' = c_message_id c" "c_is_server c' = c_is_server c"
    "c_outqueue c' = c_outqueue c" "c_waitqueue c' = c_waitqueue c" "p_ptr p' = p_ptr p"
    "v_num_done (p_out p') = v_num_done (p_out p)" "c_sent c' = c_sent c"
  using assms
  by (auto simp: smb2_pdu_add_signature_def smb2_calc_signature_def Let_def map_hdr_iov_def
      split: if_splits prod.splits list.splits)

lemma queue_encode_client:
  assumes "\<not> c_is_server c" "queue_encode c p m = (c', p')"
  shows "mid p' = c_message_id c" "c_message_id c' = c_message_id c + mids (p_header p)"
    "\<not> c_is_server c'" "c_outqueue c' = c_outqueue c" "c_waitqueue c' = c_waitqueue c"
    "p_ptr p' = p_ptr p" "v_num_done (p_out p') = v_num_done (p_out p)" "c_sent c' = c_sent c"
proof -
  have e: "smb2_encode_header c (hdr_buf p) (p_header p) =
      (c\<lparr>c_message_id := c_message_id c + mids (p_header p)\<rparr>, (p_header p)\<lparr>h_message_id := c_message_id c\<rparr>,
       write_header ((p_header p)\<lparr>h_message_id := c_message_id c\<rparr>) (hdr_buf p))"
    using assms(1) one_plus_ucast [of "h_credit_charge (p_header p)"]
    by (simp add: smb2_encode_header_def smb2_is_server_def Let_def mids_def add.assoc)
  have d: "v_num_done (map_hdr_iov f v) = v_num_done v" for f v
    by (simp add: map_hdr_iov_def split: list.splits)
  define c1 p1 where "c1 = c\<lparr>c_message_id := c_message_id c + mids (p_header p)\<rparr>"
    and "p1 = p\<lparr>p_header := (p_header p)\<lparr>h_message_id := c_message_id c\<rparr>,
      p_out := map_hdr_iov (\<lambda>_. write_header ((p_header p)\<lparr>h_message_id := c_message_id c\<rparr>) (hdr_buf p)) (p_out p),
      p_prev_compound_mid := m\<rparr>"
  obtain rc c2 p2 where s: "smb2_pdu_add_signature c1 p1 = (rc, c2, p2)" by (metis prod_cases3)
  have "queue_encode c p m = (if must_sign c1 p1
      then (if rc < 0 then c2\<lparr>c_error := ''Failure to add signature. %s''\<rparr> else c2, p2) else (c1, p1))"
    using assms(1) s unfolding queue_encode_def e by (simp add: Let_def smb2_is_server_def c1_def p1_def)
  with assms show "mid p' = c_message_id c" "c_message_id c' = c_message_id c + mids (p_header p)"
    "\<not> c_is_server c'" "c_outqueue c' = c_outqueue c" "c_waitqueue c' = c_waitqueue c"
    "p_ptr p' = p_ptr p" "v_num_done (p_out p') = v_num_done (p_out p)" "c_sent c' = c_sent c"
    using add_signature_keeps [OF s] by (auto simp: c1_def p1_def d split: if_splits)
qed

text \<open>A chain takes consecutive blocks of message ids.\<close>

fun numbered :: "u64 \<Rightarrow> smb2_pdu list \<Rightarrow> smb2_pdu list \<Rightarrow> bool" where
  "numbered m [] qs \<longleftrightarrow> qs = []"
| "numbered m (p # ps) qs \<longleftrightarrow>
     (\<exists>q qs'. qs = q # qs' \<and> mid q = m \<and> p_ptr q = p_ptr p \<and>
        v_num_done (p_out q) = v_num_done (p_out p) \<and> numbered (m + mids (p_header p)) ps qs')"

definition chain_mids :: "smb2_pdu list \<Rightarrow> u64" where
  "chain_mids ps = sum_list (map (mids \<circ> p_header) ps)"

lemma queue_loop_client:
  "\<not> c_is_server c \<Longrightarrow>
   \<exists>c' qs. queue_loop c before ps m = (c', Some (before @ qs)) \<and> numbered (c_message_id c) ps qs \<and>
     c_message_id c' = c_message_id c + chain_mids ps \<and> \<not> c_is_server c' \<and>
     c_outqueue c' = c_outqueue c \<and> c_waitqueue c' = c_waitqueue c \<and> c_sent c' = c_sent c"
proof (induction ps arbitrary: c before m)
  case Nil
  then show ?case by (simp add: chain_mids_def)
next
  case (Cons p ps)
  obtain c1 p1 where e: "queue_encode c p m = (c1, p1)" by fastforce
  note k = queue_encode_client [OF Cons.prems e]
  from Cons.IH [OF k(3), of "before @ [p1]" "mid p1"] obtain c' qs where
    "queue_loop c1 (before @ [p1]) ps (mid p1) = (c', Some ((before @ [p1]) @ qs))"
    "numbered (c_message_id c1) ps qs" "c_message_id c' = c_message_id c1 + chain_mids ps"
    "\<not> c_is_server c'" "c_outqueue c' = c_outqueue c1" "c_waitqueue c' = c_waitqueue c1" "c_sent c' = c_sent c1"
    by blast
  with e k Cons.prems show ?case
    by (auto simp: smb2_is_server_def chain_mids_def add.assoc intro!: exI [of _ "p1 # qs"])
qed

lemma mids_bounds: "1 \<le> unat (mids h)" "unat (mids h) < 65536"
  by (auto simp: mids_def word_less_nat_alt)

lemma numbered_sorted:
  assumes "numbered m ps qs" "unat m + 65536 * length ps < 2 ^ 64"
  shows "sorted_wrt (<) (map mid qs) \<and> (\<forall>q \<in> set qs. m \<le> mid q \<and> mid q < m + chain_mids ps) \<and>
    unat (m + chain_mids ps) \<le> unat m + 65536 * length ps \<and> m \<le> m + chain_mids ps"
  using assms
proof (induction m ps qs rule: numbered.induct)
  case (2 m p ps qs)
  let ?m' = "m + mids (p_header p)"
  from 2(2) obtain q qs' where q: "qs = q # qs'" "mid q = m" "numbered ?m' ps qs'" by auto
  have m': "unat ?m' = unat m + unat (mids (p_header p))"
    using 2(3) mids_bounds [of "p_header p"] by (simp add: unat_word_ariths)
  then have less: "m < ?m'" "unat ?m' + 65536 * length ps < 2 ^ 64"
    using mids_bounds [of "p_header p"] 2(3) by (auto simp: word_less_nat_alt)
  from 2(1) [OF q(3) less(2)] have ih: "sorted_wrt (<) (map mid qs')"
      "\<forall>q \<in> set qs'. ?m' \<le> mid q \<and> mid q < ?m' + chain_mids ps"
      "unat (?m' + chain_mids ps) \<le> unat ?m' + 65536 * length ps" "?m' \<le> ?m' + chain_mids ps" by blast+
  have c: "m + chain_mids (p # ps) = ?m' + chain_mids ps" by (simp add: chain_mids_def add.assoc)
  show ?case unfolding c q(1)
    using ih less(1) q(2) m' mids_bounds [of "p_header p"] by (fastforce dest: less_le_trans)
qed (simp add: chain_mids_def)

lemma encrypt_pdu_keeps:
  assumes "smb3_encrypt_pdu c ps = (rc, c', qs)"
  shows "map mid qs = map mid ps" "map p_ptr qs = map p_ptr ps"
    "map (v_num_done \<circ> p_out) qs = map (v_num_done \<circ> p_out) ps" "c_message_id c' = c_message_id c"
    "c_is_server c' = c_is_server c" "c_outqueue c' = c_outqueue c" "c_waitqueue c' = c_waitqueue c"
    "c_sent c' = c_sent c"
  using assms by (cases ps; auto simp: Let_def draw_random_def split: if_splits prod.splits)+

lemma pending_advances: "advances k c c' \<Longrightarrow> map undone (pending c') = map undone (pending c)"
proof -
  assume "advances k c c'"
  then have "map undone (concat (c_outqueue c')) = concat (drop k (map (map undone) (c_outqueue c)))"
    "map undone (c_waitqueue c') = map undone (c_waitqueue c) @ concat (take k (map (map undone) (c_outqueue c)))"
    by (simp_all add: advances_def map_concat)
  then show "map undone (pending c') = map undone (pending c)"
    unfolding pending_def map_append map_concat [of undone "c_outqueue c"]
    by (metis append.assoc append_take_drop_id concat_append)
qed

lemma undone_mid: "mid (undone p) = mid p" "p_ptr (undone p) = p_ptr p"
  by (simp_all add: undone_def)

lemma mids_ok_cong:
  assumes "map mid (pending c') = map mid (pending c)" "c_message_id c' = c_message_id c" "mids_ok c"
  shows "mids_ok c'"
proof -
  have iff: "(\<forall>p \<in> set ps. mid p < m) \<longleftrightarrow> list_all (\<lambda>x. x < m) (map mid ps)" for ps m
    by (induction ps) simp_all
  show ?thesis using assms unfolding mids_ok_def iff by simp
qed

lemma mids_ok_advances: "advances k c c' \<Longrightarrow> mids_ok c \<Longrightarrow> mids_ok c'"
proof (rule mids_ok_cong [of c' c])
  assume *: "advances k c c'"
  have "map mid ps = map mid (map undone ps)" for ps by (simp add: undone_mid)
  then show "map mid (pending c') = map mid (pending c)" using pending_advances [OF *] by metis
  show "c_message_id c' = c_message_id c" using * by (simp add: advances_def)
qed

lemma write_to_socket_client:
  assumes "out_ok c" "\<not> c_is_server c" "smb2_write_to_socket c = (rc, c')"
  shows "out_ok c' \<and> (\<exists>k. advances k c c')"
proof (cases "c_transport_type c = SMB2_TRANSPORT_TCP \<and> \<not> c_fd_valid c \<or> \<not> c_transport_ops c")
  case True
  then obtain msg where "c' = c\<lparr>c_error := msg\<rparr>" using assms(3) by (auto simp: smb2_write_to_socket_def split: if_splits)
  then show ?thesis using assms(1) by (auto simp: out_ok_def intro!: exI [of _ 0] advances_refl)
next
  case False
  then have "write_loop c = (rc, c')" using assms(3) by (auto simp: smb2_write_to_socket_def split: if_splits)
  with write_loop_advances [OF assms(1,2)] show ?thesis by blast
qed

lemma write_to_socket_keeps:
  assumes "out_ok c" "mids_ok c" "\<not> c_is_server c"
  shows "out_ok (snd (smb2_write_to_socket c)) \<and> mids_ok (snd (smb2_write_to_socket c)) \<and>
    \<not> c_is_server (snd (smb2_write_to_socket c))"
proof -
  obtain rc c' where w: "smb2_write_to_socket c = (rc, c')" by fastforce
  with write_to_socket_client [OF assms(1,3)] obtain k where k: "out_ok c'" "advances k c c'" by blast
  then have "\<not> c_is_server c'" using assms(3) by (simp add: advances_def)
  with k mids_ok_advances [OF k(2) assms(2)] w show ?thesis by simp
qed

lemma numbered_ptrs: "numbered m ps qs \<Longrightarrow> map p_ptr qs = map p_ptr ps"
  by (induction m ps qs rule: numbered.induct) auto

text \<open>A client's chain enters the queue with its ids assigned, sealed if it has to be, and is written at once
  if nothing is before it.\<close>

lemma queue_pdu_form:
  assumes "\<not> c_is_server c" "ps \<noteq> []"
  shows "\<exists>c3 rs qs. smb2_queue_pdu c ps = (if c_outqueue c = [] then snd (smb2_write_to_socket c3) else c3) \<and>
    c_outqueue c3 = c_outqueue c @ [rs] \<and> c_waitqueue c3 = c_waitqueue c \<and> c_sent c3 = c_sent c \<and>
    \<not> c_is_server c3 \<and> c_message_id c3 = c_message_id c + chain_mids ps \<and>
    rs \<noteq> [] \<and> chain_done rs = chain_done ps \<and> map p_ptr rs = map p_ptr ps \<and>
    numbered (c_message_id c) ps qs \<and> map mid rs = map mid qs"
proof -
  from queue_loop_client [OF assms(1), of "[]" ps 0] obtain c1 qs where q:
    "queue_loop c [] ps 0 = (c1, Some qs)" "numbered (c_message_id c) ps qs"
    "c_message_id c1 = c_message_id c + chain_mids ps" "\<not> c_is_server c1"
    "c_outqueue c1 = c_outqueue c" "c_waitqueue c1 = c_waitqueue c" "c_sent c1 = c_sent c" by auto
  obtain rc c2 rs where e: "smb3_encrypt_pdu c1 qs = (rc, c2, rs)" by (metis prod_cases3)
  note k = encrypt_pdu_keeps [OF e]
  have qs: "qs \<noteq> []" "chain_done qs = chain_done ps" "map p_ptr qs = map p_ptr ps"
    using q(2) assms(2) numbered_ptrs by (cases ps; auto simp: chain_done_def)+
  have rs: "rs \<noteq> []" "chain_done rs = chain_done qs"
    using k(2,3) qs(1) by (cases qs; cases rs; auto simp: chain_done_def)+
  have "smb2_queue_pdu c ps = (if c_outqueue c = [] then snd (smb2_write_to_socket (c2\<lparr>c_outqueue := c_outqueue c2 @ [rs]\<rparr>))
      else c2\<lparr>c_outqueue := c_outqueue c2 @ [rs]\<rparr>)"
    using q e k by (simp add: smb2_queue_pdu_def smb2_add_to_outqueue_def Let_def)
  then show ?thesis using q k qs rs
    by (intro exI [of _ "c2\<lparr>c_outqueue := c_outqueue c2 @ [rs]\<rparr>"] exI [of _ rs] exI [of _ qs]) simp
qed

subsection \<open>Timeouts\<close>

text \<open>Addresses are those of distinct PDUs; a chain in the queue is not empty.\<close>

definition ptrs_ok :: "smb2_context \<Rightarrow> bool" where
  "ptrs_ok c \<longleftrightarrow> distinct (map p_ptr (pending c)) \<and> (\<forall>ps \<in> set (c_outqueue c). ps \<noteq> [])"

definition callback_of :: "smb2_pdu \<Rightarrow> event" where
  "callback_of p = Ev_callback (p_cb p) (p_cb_data p) SMB2_STATUS_IO_TIMEOUT None"

definition is_callback :: "event \<Rightarrow> bool" where
  "is_callback e = (case e of Ev_callback _ _ _ _ \<Rightarrow> True | _ \<Rightarrow> False)"

definition callbacks :: "smb2_context \<Rightarrow> event list" where
  "callbacks c = filter is_callback (c_trace c)"

lemma free_pdu_callbacks [simp]: "callbacks (smb2_free_pdu c ps) = callbacks c"
  by (induction c ps rule: smb2_free_pdu.induct)
    (simp_all add: Let_def callbacks_def log_event_def is_callback_def)

lemma free_pdu_queues:
  "c_outqueue (smb2_free_pdu c ps) = foldl (\<lambda>q p. list_remove chain_ptr (p_ptr p) q) (c_outqueue c) ps"
  "c_waitqueue (smb2_free_pdu c ps) = foldl (\<lambda>q p. list_remove p_ptr (p_ptr p) q) (c_waitqueue c) ps"
  by (induction c ps rule: smb2_free_pdu.induct) (simp_all add: Let_def log_event_def)

lemma foldl_list_remove_other:
  "\<forall>p \<in> set ps. p_ptr p \<notin> adr ` set q \<Longrightarrow> foldl (\<lambda>q p. list_remove adr (p_ptr p) q) q ps = q"
  by (induction ps) simp_all

lemma list_remove_append:
  "a \<notin> adr ` set xs \<Longrightarrow> adr y = a \<Longrightarrow> list_remove adr a (xs @ y # ys) = xs @ ys"
  by (induction xs) auto

lemma distinct_apart:
  assumes "distinct (map f (a @ b @ c))" "x \<in> set b" "y \<in> set (a @ c)"
  shows "f x \<noteq> f y"
proof
  assume "f x = f y"
  moreover have "f x \<in> f ` set b" using assms(2) by (rule imageI)
  moreover have "f y \<in> f ` set a \<or> f y \<in> f ` set c" using assms(3) by auto
  ultimately show False using assms(1) by auto
qed

lemma distinct_drop_mid: "distinct (map f (a @ b @ c)) \<Longrightarrow> distinct (map f (a @ c))"
  by auto

lemma chain_ptr_in: "ps \<noteq> [] \<Longrightarrow> chain_ptr ps \<in> p_ptr ` set ps"
  by (cases ps) (auto simp: chain_ptr_def)

definition same_engine :: "smb2_context \<Rightarrow> smb2_context \<Rightarrow> bool" where
  "same_engine c c' \<longleftrightarrow> c_message_id c' = c_message_id c \<and> c_is_server c' = c_is_server c \<and>
     c_credits c' = c_credits c \<and> c_sent c' = c_sent c"

lemma timeout_out_expired:
  assumes ptrs: "distinct (map p_ptr (wq @ concat (kept @ ps # rest)))" "\<forall>qs \<in> set (kept @ ps # rest). qs \<noteq> []"
    and q: "c_outqueue c = kept @ ps # rest" "c_waitqueue c = wq" and x: "expired t (hd ps)"
  shows "c_outqueue (timeout_out_pdu t c ps) = kept @ rest" "c_waitqueue (timeout_out_pdu t c ps) = wq"
    "callbacks (timeout_out_pdu t c ps) = callbacks c @ [callback_of (hd ps)]"
    "same_engine c (timeout_out_pdu t c ps)"
proof -
  have "distinct (map p_ptr ((wq @ concat kept) @ ps @ concat rest))" using ptrs(1) by simp
  note apart = distinct_apart [OF this]
  have other: "p_ptr p \<notin> chain_ptr ` set (kept @ rest)" if p: "p \<in> set ps" for p
  proof
    assume "p_ptr p \<in> chain_ptr ` set (kept @ rest)"
    then obtain qs where qs: "qs \<in> set (kept @ rest)" "p_ptr p = chain_ptr qs" by blast
    then have "qs \<noteq> []" using ptrs(2) by auto
    then obtain x where x: "x \<in> set qs" "p_ptr p = p_ptr x" using chain_ptr_in [of qs] qs(2) by auto
    then have "x \<in> set ((wq @ concat kept) @ concat rest)" using qs(1) by auto
    with apart [OF p] x(2) show False by blast
  qed
  have "chain_ptr ps \<notin> chain_ptr ` set kept" using other chain_ptr_in [of ps] ptrs(2) by fastforce
  then have rm: "list_remove chain_ptr (chain_ptr ps) (kept @ ps # rest) = kept @ rest"
    by (simp add: list_remove_append)
  have wq: "\<forall>p \<in> set ps. p_ptr p \<notin> p_ptr ` set wq" using apart by auto
  show "c_outqueue (timeout_out_pdu t c ps) = kept @ rest"
    using x q rm other by (simp add: timeout_out_pdu_def Let_def free_pdu_queues log_event_def foldl_list_remove_other)
  show "c_waitqueue (timeout_out_pdu t c ps) = wq"
    using x q wq by (simp add: timeout_out_pdu_def Let_def free_pdu_queues log_event_def foldl_list_remove_other)
  show "callbacks (timeout_out_pdu t c ps) = callbacks c @ [callback_of (hd ps)]"
    using x by (simp add: timeout_out_pdu_def Let_def callback_of_def)
      (simp add: callbacks_def log_event_def is_callback_def)
  show "same_engine c (timeout_out_pdu t c ps)"
    using x by (simp add: same_engine_def timeout_out_pdu_def Let_def log_event_def)
qed

lemma timeout_out_all:
  assumes "distinct (map p_ptr (wq @ concat (kept @ todo)))" "\<forall>qs \<in> set (kept @ todo). qs \<noteq> []"
    "c_outqueue c = kept @ todo" "c_waitqueue c = wq"
  shows "c_outqueue (foldl (timeout_out_pdu t) c todo) = kept @ filter (\<lambda>ps. \<not> expired t (hd ps)) todo \<and>
    c_waitqueue (foldl (timeout_out_pdu t) c todo) = wq \<and>
    callbacks (foldl (timeout_out_pdu t) c todo) = callbacks c @ map (callback_of \<circ> hd) (filter (\<lambda>ps. expired t (hd ps)) todo) \<and>
    same_engine c (foldl (timeout_out_pdu t) c todo)"
  using assms
proof (induction todo arbitrary: kept c)
  case Nil
  then show ?case by (simp add: same_engine_def)
next
  case (Cons ps rest)
  show ?case
  proof (cases "expired t (hd ps)")
    case True
    note st = timeout_out_expired [OF Cons.prems(1-4) True]
    have "distinct (map p_ptr (wq @ concat (kept @ rest)))" 
      using distinct_drop_mid [of p_ptr "wq @ concat kept" ps "concat rest"] Cons.prems(1) by simp
    from Cons.IH [OF this _ st(1,2)] Cons.prems(2) True st(3,4) show ?thesis by (auto simp: same_engine_def)
  next
    case False
    then have "timeout_out_pdu t c ps = c" by (simp add: timeout_out_pdu_def)
    with Cons.IH [of "kept @ [ps]" c] Cons.prems False show ?thesis by simp
  qed
qed

lemma timeout_wait_all:
  assumes "distinct (map p_ptr ((kept @ todo) @ concat out))" "\<forall>qs \<in> set out. qs \<noteq> []"
    "c_waitqueue c = kept @ todo" "c_outqueue c = out"
  shows "c_waitqueue (foldl (timeout_wait_pdu t) c todo) = kept @ filter (\<lambda>p. \<not> expired t p) todo \<and>
    c_outqueue (foldl (timeout_wait_pdu t) c todo) = out \<and>
    callbacks (foldl (timeout_wait_pdu t) c todo) = callbacks c @ map callback_of (filter (expired t) todo) \<and>
    same_engine c (foldl (timeout_wait_pdu t) c todo)"
  using assms
proof (induction todo arbitrary: kept c)
  case Nil
  then show ?case by (simp add: same_engine_def)
next
  case (Cons p rest)
  show ?case
  proof (cases "expired t p")
    case True
    let ?c = "timeout_wait_pdu t c p"
    have "p_ptr p \<notin> p_ptr ` set (kept @ rest)" "p_ptr p \<notin> chain_ptr ` set out"
      using Cons.prems(1,2) chain_ptr_in by (auto simp: image_iff) (metis imageE image_eqI)
    moreover from this have "list_remove p_ptr (p_ptr p) (kept @ rest) = kept @ rest" by simp
    ultimately have "c_waitqueue ?c = kept @ rest" "c_outqueue ?c = out"
      "callbacks ?c = callbacks c @ [callback_of p]" "same_engine c ?c"
      using True Cons.prems(3,4)
      by (simp_all add: timeout_wait_pdu_def Let_def log_event_def list_remove_append callbacks_def
          is_callback_def callback_of_def same_engine_def image_Un)
    moreover have "distinct (map p_ptr ((kept @ rest) @ concat out))" using Cons.prems(1) by (simp; blast)
    ultimately show ?thesis using Cons.IH [of kept ?c] Cons.prems(2) True by (auto simp: same_engine_def)
  next
    case False
    then have "timeout_wait_pdu t c p = c" by (simp add: timeout_wait_pdu_def)
    with Cons.IH [of "kept @ [p]" c] Cons.prems False show ?thesis by simp
  qed
qed

lemma timeout_pdus_eq:
  assumes "ptrs_ok c"
  shows "c_outqueue (smb2_timeout_pdus c) = filter (\<lambda>ps. \<not> expired (c_now c) (hd ps)) (c_outqueue c)"
    "c_waitqueue (smb2_timeout_pdus c) = filter (\<lambda>p. \<not> expired (c_now c) p) (c_waitqueue c)"
    "callbacks (smb2_timeout_pdus c) = callbacks c @
       map (callback_of \<circ> hd) (filter (\<lambda>ps. expired (c_now c) (hd ps)) (c_outqueue c)) @
       map callback_of (filter (expired (c_now c)) (c_waitqueue c))"
    "same_engine c (smb2_timeout_pdus c)"
proof -
  let ?t = "c_now c" and ?c1 = "foldl (timeout_out_pdu (c_now c)) c (c_outqueue c)"
  let ?out = "filter (\<lambda>ps. \<not> expired ?t (hd ps)) (c_outqueue c)"
  have p: "distinct (map p_ptr (c_waitqueue c @ concat (c_outqueue c)))" "\<forall>qs \<in> set (c_outqueue c). qs \<noteq> []"
    using assms by (auto simp: ptrs_ok_def pending_def)
  have o: "c_outqueue ?c1 = ?out" "c_waitqueue ?c1 = c_waitqueue c"
    "callbacks ?c1 = callbacks c @ map (callback_of \<circ> hd) (filter (\<lambda>ps. expired ?t (hd ps)) (c_outqueue c))"
    "same_engine c ?c1"
    using timeout_out_all [of "c_waitqueue c" "[]" "c_outqueue c" c ?t] p by auto
  have "distinct (map p_ptr (c_waitqueue c @ concat ?out))"
  proof -
    have "distinct (map p_ptr (concat (filter P q)))" if "distinct (map p_ptr (concat q))" for P q
      using that by (induction q) (auto simp: image_iff)
    with p(1) show ?thesis by (simp; blast)
  qed
  then show "c_outqueue (smb2_timeout_pdus c) = ?out"
    "c_waitqueue (smb2_timeout_pdus c) = filter (\<lambda>p. \<not> expired (c_now c) p) (c_waitqueue c)"
    "callbacks (smb2_timeout_pdus c) = callbacks c @
       map (callback_of \<circ> hd) (filter (\<lambda>ps. expired (c_now c) (hd ps)) (c_outqueue c)) @
       map callback_of (filter (expired (c_now c)) (c_waitqueue c))"
    "same_engine c (smb2_timeout_pdus c)"
    using timeout_wait_all [of "[]" "c_waitqueue c" ?out ?c1 ?t] o p(2)
    by (auto simp: smb2_timeout_pdus_def Let_def same_engine_def)
qed

subsection \<open>The engine as a transition system\<close>

text \<open>
  What a connected client does to its queues: it queues a chain of fresh PDUs, writes to the socket,
  services timeouts, and takes the request out of the wait queue that an incoming reply belongs to,
  with the credits granted (\<open>Smb2_Recv\<close>). The bound on the message ids says that the 64-bit counter does
  not wrap.
\<close>

inductive engine_step :: "smb2_context \<Rightarrow> smb2_context \<Rightarrow> bool" where
  step_queue: "ps \<noteq> [] \<Longrightarrow> chain_done ps = 0 \<Longrightarrow> distinct (map p_ptr (pending c @ ps)) \<Longrightarrow>
    unat (c_message_id c) + 65536 * length ps < 2 ^ 64 \<Longrightarrow> engine_step c (smb2_queue_pdu c ps)"
| step_write: "engine_step c (snd (smb2_write_to_socket c))"
| step_timeout: "engine_step c (snd (smb2_service_timeout c))"
| step_reply: "smb2_find_pdu c m = Some p \<Longrightarrow>
    engine_step c (c\<lparr>c_waitqueue := list_remove p_ptr (p_ptr p) (c_waitqueue c), c_credits := c_credits c + g\<rparr>)"

inductive_cases engine_stepE: "engine_step c c'"

definition engine_ok :: "smb2_context \<Rightarrow> bool" where
  "engine_ok c \<longleftrightarrow> \<not> c_is_server c \<and> out_ok c \<and> mids_ok c \<and> ptrs_ok c"

lemma distinct_iff_sorted: "distinct xs \<longleftrightarrow> sorted_wrt (\<noteq>) xs"
  by (induction xs) auto

lemma out_ok_filter:
  assumes "out_ok c" "c_outqueue c' = filter P (c_outqueue c)"
  shows "out_ok c'"
proof (cases "c_outqueue c")
  case Nil
  with assms show ?thesis by (simp add: out_ok_def)
next
  case (Cons ps rest)
  have rest: "\<forall>qs \<in> set rest. qs \<noteq> [] \<and> chain_done qs = 0" using assms(1) Cons by (auto simp: out_ok_def)
  show ?thesis
  proof (cases "P ps")
    case True
    with assms Cons show ?thesis by (auto simp: out_ok_def)
  next
    case False
    then have q: "c_outqueue c' = filter P rest" using assms(2) Cons by simp
    then have "set (c_outqueue c') \<subseteq> set rest" by auto
    then show ?thesis using rest frame_nonempty
      by (cases "c_outqueue c'") (auto simp: out_ok_def)
  qed
qed

lemma sorted_concat_filter: "sorted_wrt R (concat q) \<Longrightarrow> sorted_wrt R (concat (filter P q))"
  by (induction q) (auto simp: sorted_wrt_append)

lemma sorted_filters:
  assumes "sorted_wrt R (map f (w @ concat q))"
  shows "sorted_wrt R (map f (filter P w @ concat (filter Q q)))"
proof -
  have "sorted_wrt R (map f w)" "sorted_wrt R (concat (map (map f) q))"
    and lt: "\<forall>x \<in> set w. \<forall>y \<in> set (concat q). R (f x) (f y)"
    using assms by (auto simp: sorted_wrt_append map_concat)
  then have "sorted_wrt R (map f (filter P w))" "sorted_wrt R (map f (concat (filter Q q)))"
    using sorted_concat_filter [of "\<lambda>x y. R (f x) (f y)" q Q]
    by (auto simp: sorted_wrt_map sorted_wrt_filter simp flip: map_concat)
  with lt show ?thesis by (auto simp: sorted_wrt_append)
qed

lemma service_timeout_ok:
  assumes "engine_ok c" shows "engine_ok (snd (smb2_service_timeout c))"
proof (cases "c_timeout c = 0")
  case True
  then show ?thesis using assms by (simp add: smb2_service_timeout_def)
next
  case False
  let ?c = "smb2_timeout_pdus c"
  have ok: "ptrs_ok c" "out_ok c" "mids_ok c" using assms by (auto simp: engine_ok_def)
  note eq = timeout_pdus_eq [OF ok(1)]
  have sub: "set (pending ?c) \<subseteq> set (pending c)" by (auto simp: pending_def eq(1,2))
  have "distinct (map p_ptr (pending ?c))"
    using sorted_filters [of "(\<noteq>)" p_ptr "c_waitqueue c" "c_outqueue c"] ok(1)
    by (simp add: ptrs_ok_def pending_def eq(1,2) distinct_iff_sorted)
  then have "ptrs_ok ?c" using ok(1) by (simp add: ptrs_ok_def eq(1))
  moreover have "mids_ok ?c"
    using sorted_filters [of "(<)" mid "c_waitqueue c" "c_outqueue c"] ok(3) sub eq(4)
    by (auto simp: mids_ok_def pending_def [of ?c] pending_def [of c] eq(1,2) same_engine_def subset_eq)
  moreover have "out_ok ?c"
    using ok(2) eq(1) by (rule out_ok_filter)
  ultimately show ?thesis using False assms eq(4)
    by (simp add: engine_ok_def smb2_service_timeout_def same_engine_def)
qed

lemma ptrs_ok_cong:
  "map p_ptr (pending c') = map p_ptr (pending c) \<Longrightarrow> \<forall>ps \<in> set (c_outqueue c'). ps \<noteq> [] \<Longrightarrow> ptrs_ok c \<Longrightarrow> ptrs_ok c'"
  by (simp add: ptrs_ok_def)

lemma write_to_socket_ok:
  assumes "engine_ok c" shows "engine_ok (snd (smb2_write_to_socket c))"
proof -
  obtain rc c' where w: "smb2_write_to_socket c = (rc, c')" by fastforce
  have ok: "out_ok c" "mids_ok c" "\<not> c_is_server c" "ptrs_ok c" using assms by (auto simp: engine_ok_def)
  from write_to_socket_client [OF ok(1,3) w] obtain k where k: "out_ok c'" "advances k c c'" by blast
  have "map p_ptr ps = map p_ptr (map undone ps)" for ps by (simp add: undone_mid)
  then have "map p_ptr (pending c') = map p_ptr (pending c)" using pending_advances [OF k(2)] by metis
  then have "ptrs_ok c'" using ptrs_ok_cong ok(4) k(1) by (simp add: out_ok_def)
  with write_to_socket_keeps [OF ok(1-3)] w show ?thesis by (simp add: engine_ok_def)
qed

lemma queue_pdu_ok:
  assumes "engine_ok c" "ps \<noteq> []" "chain_done ps = 0" "distinct (map p_ptr (pending c @ ps))"
    "unat (c_message_id c) + 65536 * length ps < 2 ^ 64"
  shows "engine_ok (smb2_queue_pdu c ps)"
proof -
  have ok: "out_ok c" "mids_ok c" "\<not> c_is_server c" "ptrs_ok c" using assms(1) by (auto simp: engine_ok_def)
  from queue_pdu_form [OF ok(3) assms(2)] obtain c3 rs qs where f:
    "smb2_queue_pdu c ps = (if c_outqueue c = [] then snd (smb2_write_to_socket c3) else c3)"
    "c_outqueue c3 = c_outqueue c @ [rs]" "c_waitqueue c3 = c_waitqueue c" "\<not> c_is_server c3"
    "c_message_id c3 = c_message_id c + chain_mids ps" "rs \<noteq> []" "chain_done rs = chain_done ps"
    "map p_ptr rs = map p_ptr ps" "numbered (c_message_id c) ps qs" "map mid rs = map mid qs" by blast
  have pend: "pending c3 = pending c @ rs" by (simp add: pending_def f(2,3))
  have "mids_ok c3"
  proof -
    have rs: "(\<forall>r \<in> set rs. P (mid r)) \<longleftrightarrow> (\<forall>q \<in> set qs. P (mid q))" for P
      using arg_cong [OF f(10), of "\<lambda>ms. \<forall>m \<in> set ms. P m"] by simp
    from numbered_sorted [OF f(9) assms(5)] f(5,10) have "sorted_wrt (<) (map mid rs)"
        "\<forall>r \<in> set rs. c_message_id c \<le> mid r \<and> mid r < c_message_id c3" "c_message_id c \<le> c_message_id c3"
      unfolding rs [of "\<lambda>m. c_message_id c \<le> m \<and> m < c_message_id c3"] by auto
    then show ?thesis using ok(2) unfolding mids_ok_def pend
      by (auto simp: sorted_wrt_append dest: less_le_trans)
  qed
  moreover have "out_ok c3"
    using ok(1) f(2,6,7) assms(3) frame_nonempty by (cases "c_outqueue c") (auto simp: out_ok_def)
  moreover have "ptrs_ok c3" using assms(4) f(2,6,8) ok(4) by (simp add: ptrs_ok_def pend)
  ultimately have "engine_ok c3" using f(4) by (simp add: engine_ok_def)
  then show ?thesis using f(1) write_to_socket_ok [of c3] by simp
qed

lemma reply_ok:
  assumes "engine_ok c"
  shows "engine_ok (c\<lparr>c_waitqueue := list_remove p_ptr a (c_waitqueue c), c_credits := x\<rparr>)" (is "engine_ok ?c")
proof -
  have ok: "out_ok c" "mids_ok c" "\<not> c_is_server c" "ptrs_ok c" using assms by (auto simp: engine_ok_def)
  have wq: "list_remove p_ptr a (c_waitqueue c) = filter (\<lambda>p. p_ptr p \<noteq> a) (c_waitqueue c)"
    using ok(4) by (intro list_remove_filter) (auto simp: ptrs_ok_def pending_def)
  have "filter (\<lambda>_. True) (c_outqueue c) = c_outqueue c" by simp
  then have s: "sorted_wrt R (map f (pending c)) \<Longrightarrow> sorted_wrt R (map f (pending ?c))" for R and f :: "smb2_pdu \<Rightarrow> 'b"
    using sorted_filters [of R f "c_waitqueue c" "c_outqueue c" "\<lambda>p. p_ptr p \<noteq> a" "\<lambda>_. True"]
    by (simp add: pending_def wq)
  have sub: "set (pending ?c) \<subseteq> set (pending c)" using set_list_remove by (fastforce simp: pending_def)
  have "mids_ok ?c" using ok(2) s [of "(<)" mid] sub by (auto simp: mids_ok_def)
  moreover have "ptrs_ok ?c" using ok(4) s [of "(\<noteq>)" p_ptr] by (simp add: ptrs_ok_def distinct_iff_sorted)
  moreover have "out_ok ?c" using ok(1) by (simp add: out_ok_def)
  ultimately show ?thesis using ok(3) by (simp add: engine_ok_def)
qed

interpretation engine: preserved engine_step engine_ok
proof unfold_locales
  fix c c' assume "engine_step c c'" "engine_ok c"
  then show "engine_ok c'"
    by (cases rule: engine_step.cases)
      (auto intro: queue_pdu_ok write_to_socket_ok service_timeout_ok reply_ok)
qed

subsection \<open>Properties of the send side\<close>

lemma find_mid_sorted:
  "sorted_wrt (<) (map mid ps) \<Longrightarrow> p \<in> set ps \<Longrightarrow> find_mid (mid p) ps = Some p"
  by (induction ps) auto

lemma idle_engine_ok: "\<not> c_is_server c \<Longrightarrow> c_outqueue c = [] \<Longrightarrow> c_waitqueue c = [] \<Longrightarrow> engine_ok c"
  by (simp add: engine_ok_def out_ok_def mids_ok_def ptrs_ok_def pending_def)



text \<open>C7. The writer is a FIFO with exact framing. Whatever the transport does with each call (takes any part
  of the data, blocks, or fails), after \<open>smb2_write_to_socket\<close> some number \<open>k\<close> of chains at the front of the
  queue have been sent completely: they are gone from the queue and wait for their replies in the same
  order, their credits are charged, and what the transport has taken is what it had taken before,
  then their frames, then a prefix of the frame at the front now. No byte is lost, doubled or
  reordered.\<close>

theorem write_to_socket_fifo:
  assumes "out_ok c" "\<not> c_is_server c" "smb2_write_to_socket c = (rc, c')" "c_sent c = F @ partly_sent c"
  shows "out_ok c' \<and> (\<exists>k. k \<le> length (c_outqueue c) \<and>
     map (map undone) (c_outqueue c') = drop k (map (map undone) (c_outqueue c)) \<and>
     map undone (c_waitqueue c') = map undone (c_waitqueue c) @ concat (take k (map (map undone) (c_outqueue c))) \<and>
     c_sent c' = F @ concat (map chain_frame (take k (c_outqueue c))) @ partly_sent c' \<and>
     c_credits c' = c_credits c - sum_list (map (smb2_get_credit_charge c) (take k (c_outqueue c))))"
  using write_to_socket_client [OF assms(1-3)] assms(4) unfolding advances_def by blast

text \<open>C9. The writer never overdraws: a client whose credit count is not negative (and below 2^31) keeps it so
  through every \<open>smb2_write_to_socket\<close>, although the code compares the two \<open>int\<close>s as unsigned.\<close>

theorem credits_not_overdrawn:
  assumes "credits_ok c" "\<not> c_is_server c" "smb2_write_to_socket c = (rc, c')"
  shows "credits_ok c'"
proof (cases "c_transport_type c = SMB2_TRANSPORT_TCP \<and> \<not> c_fd_valid c \<or> \<not> c_transport_ops c")
  case True
  then show ?thesis using assms by (auto simp: smb2_write_to_socket_def credits_ok_def split: if_splits)
next
  case False
  then have "write_loop c = (rc, c')" using assms(3) by (auto simp: smb2_write_to_socket_def split: if_splits)
  with write_loop_credits [OF assms(1,2)] show ?thesis by blast
qed

text \<open>C8. The writer makes progress: with a registered transport that accepts every frame offered and enough
  credits for the whole queue, \<open>smb2_write_to_socket\<close> returns 0 with the queue empty.\<close>

theorem write_to_socket_drains:
  assumes "out_ok c" "\<not> c_is_server c" "credits_ok c" "c_transport_ops c" "smb2_transport_is_connected c"
    "sum_list (map (smb2_get_credit_charge c) (c_outqueue c)) \<le> c_credits c"
    "c_wr_script c = map Wr_accept ns" "length (c_outqueue c) \<le> length ns"
    "\<forall>n \<in> set ns. \<forall>ps \<in> set (c_outqueue c). length (chain_frame ps) \<le> n"
  shows "fst (smb2_write_to_socket c) = 0 \<and> c_outqueue (snd (smb2_write_to_socket c)) = []"
  using write_loop_drains [OF assms(1-3,6-9)] assms(4,5)
  by (auto simp: smb2_write_to_socket_def smb2_transport_is_connected_def)

text \<open>A client with one queued message of two bytes.\<close>

definition one_message :: smb2_context where
  "one_message = zero_context\<lparr>c_transport_ops := True, c_credits := 8, c_dialect := 0x0302,
     c_wr_script := [Wr_accept 100], c_outqueue :=
       [[zero_pdu\<lparr>p_ptr := 1, p_out := \<lparr>v_num_done = 0, v_total_size = 2,
           v_iov = [\<lparr>iov_buf = [7, 8], iov_free = NoFree\<rparr>]\<rparr>\<rparr>]]\<rparr>"

lemma one_message_facts:
  "out_ok one_message" "\<not> c_is_server one_message" "credits_ok one_message" "c_sent one_message = []"
  "partly_sent one_message = []" "c_outqueue one_message = [hd (c_outqueue one_message)]"
  "chain_frame (hd (c_outqueue one_message)) = [0, 0, 0, 2, 7, 8]"
  "smb2_get_credit_charge one_message (hd (c_outqueue one_message)) = 0"
  "c_credits one_message = 8" "c_wr_script one_message = map Wr_accept [100]" "c_transport_ops one_message"
  "smb2_transport_is_connected one_message"
proof -
  show f: "chain_frame (hd (c_outqueue one_message)) = [0, 0, 0, 2, 7, 8]" by code_simp
  then show "out_ok one_message"
    by (simp add: out_ok_def one_message_def zero_context_def chain_done_def zero_pdu_def)
qed (simp_all add: one_message_def zero_context_def zero_pdu_def zero_header_def credits_ok_def partly_sent_def
    chain_done_def smb2_get_real_credit_charge_for_one_pdu_def smb2_transport_is_connected_def SMB2_TRANSPORT_TCP_def)

theorem write_to_socket_fifo_witness:
  "\<exists>rc c' k. smb2_write_to_socket one_message = (rc, c') \<and> out_ok c' \<and>
     c_sent c' = concat (map chain_frame (take k (c_outqueue one_message))) @ partly_sent c'"
proof -
  obtain rc c' where w: "smb2_write_to_socket one_message = (rc, c')" by fastforce
  from write_to_socket_fifo [OF one_message_facts(1,2) w, of "[]"] one_message_facts(4,5) w show ?thesis by auto
qed

theorem credits_not_overdrawn_witness: "credits_ok (snd (smb2_write_to_socket one_message))"
  using credits_not_overdrawn [OF one_message_facts(3,2)] by (cases "smb2_write_to_socket one_message") auto

theorem write_to_socket_drains_witness: "c_outqueue (snd (smb2_write_to_socket one_message)) = []"
proof -
  obtain ps where q: "c_outqueue one_message = [ps]" "length (chain_frame ps) = 6" "smb2_get_credit_charge one_message ps = 0"
    using one_message_facts(6-8) by (cases "c_outqueue one_message") auto
  have "fst (smb2_write_to_socket one_message) = 0 \<and> c_outqueue (snd (smb2_write_to_socket one_message)) = []"
    by (rule write_to_socket_drains [OF one_message_facts(1,2,3,11,12) _ one_message_facts(10)])
      (simp_all add: q one_message_facts(9))
  then show ?thesis ..
qed

subsection \<open>Properties of the deadlines\<close>

definition deadlines :: "smb2_context \<Rightarrow> int set" where
  "deadlines c = set (map (p_timeout \<circ> hd) (c_outqueue c) @ map p_timeout (c_waitqueue c) @ [c_next_timeout c]) - {0}"

lemma earlier_Min:
  "earlier ts d = (let D = (set ts - {0}) \<union> set_option d in if D = {} then None else Some (Min D))"
proof (induction ts arbitrary: d)
  case Nil
  then show ?case by (cases d) auto
next
  case (Cons t ts)
  have f: "finite (set ts - {0})" by simp
  show ?case
  proof (cases "t = 0 \<or> d = None")
    case True
    then show ?thesis using Cons [of d] Cons [of "Some t"] by (auto simp: Let_def insert_Diff_if intro!: Min.insert)
  next
    case False
    then obtain x where d: "d = Some x" "t \<noteq> 0" by auto
    let ?R = "set ts - {0}"
    have "finite R \<Longrightarrow> Min (insert (min t x) R) = Min (insert t (insert x R))" for R
      by (cases "R = {}") (simp_all add: min.assoc)
    then have "Min (insert (min t x) ?R) = Min (insert t (insert x ?R))" using f by blast
    moreover have "earlier (t # ts) d = earlier ts (Some (min t x))" using d by (simp add: min_def)
    moreover have "set (t # ts) - {0} \<union> set_option d = insert t (insert x ?R)" using d by (auto simp: insert_Diff_if)
    moreover have "?R \<union> set_option (Some (min t x)) = insert (min t x) ?R" by simp
    ultimately show ?thesis using Cons [of "Some (min t x)"] by (simp only: Let_def insert_not_empty if_False)
  qed
qed

lemma earliest_deadline_Min:
  "smb2_earliest_deadline c = (if deadlines c = {} then None else Some (Min (deadlines c)))"
proof -
  have app: "earlier us (earlier ts d) = earlier (ts @ us) d" for ts us d
    by (induction ts arbitrary: d) simp_all
  show ?thesis
    unfolding smb2_earliest_deadline_def Let_def app
    by (simp only: earlier_Min deadlines_def Let_def append_assoc set_simps option.set Un_empty_right)
qed


definition two_waiting :: smb2_context where
  "two_waiting = zero_context\<lparr>c_now := 10, c_waitqueue :=
     [zero_pdu\<lparr>p_ptr := 1, p_timeout := 3\<rparr>, zero_pdu\<lparr>p_ptr := 2, p_timeout := 12\<rparr>]\<rparr>"


text \<open>C11. The poll timeout: \<open>smb2_next_timeout_ms\<close> is -1 exactly when no queued or waiting request and no
  backend has a deadline; otherwise it is between 0 and \<open>INT_MAX\<close>, never reaches past the earliest
  deadline, and is 0 exactly when that deadline has come.\<close>

theorem next_timeout_never_late:
  "if deadlines c = {} then smb2_next_timeout_ms c = -1
   else 0 \<le> smb2_next_timeout_ms c \<and> smb2_next_timeout_ms c \<le> INT_MAX \<and>
     c_now c * 1000 + smb2_next_timeout_ms c \<le> max (c_now c) (Min (deadlines c)) * 1000 \<and>
     (smb2_next_timeout_ms c = 0 \<longleftrightarrow> Min (deadlines c) \<le> c_now c)"
proof (cases "deadlines c = {}")
  case True
  then show ?thesis by (simp add: smb2_next_timeout_ms_def earliest_deadline_Min)
next
  case False
  have b: "x \<le> 2147483 \<or> 2147483647 \<le> x * 1000" for x :: int by linarith
  show ?thesis using False b [of "Min (deadlines c) - c_now c"]
    by (auto simp: smb2_next_timeout_ms_def earliest_deadline_Min INT_MAX_def Let_def max_def algebra_simps)
qed

text \<open>The sweep also removes a chain whose frame is partly written. The frame on the wire then stays
  incomplete, and the next frame follows in the middle of it: below, five of six bytes of a
  message have been taken when it expires.\<close>

definition partly_written :: smb2_context where
  "partly_written = one_message\<lparr>c_now := 10, c_timeout := 1, c_sent := [0, 0, 0, 2, 7],
     c_outqueue := [map (\<lambda>p. p\<lparr>p_timeout := 3, p_out := (p_out p)\<lparr>v_num_done := 5\<rparr>\<rparr>) (hd (c_outqueue one_message))]\<rparr>"

lemma timeout_truncates_frame:
  "out_ok partly_written" "partly_sent partly_written = c_sent partly_written"
  "c_outqueue (snd (smb2_service_timeout partly_written)) = []"
  "c_sent (snd (smb2_service_timeout partly_written)) = [0, 0, 0, 2, 7]"
  by (code_simp, code_simp, code_simp, code_simp)

end
