(* ===== verification/Smb2_Codec.thy ===== *)
theory Smb2_Codec
  imports Smb2_Pdu
begin

text \<open>
  What the command codecs \<^verbatim>\<open>lib/smb2-cmd-*.c\<close> share. Every encoder allocates a zeroed vector
  for the fixed part of its structure, adds it to the PDU and stores its fields; every
  \<open>smb2_cmd_*_async\<close> allocates a PDU, encodes into it and pads it; every \<open>smb2_process_*_fixed\<close>
  checks the \<open>StructureSize\<close> of the last received vector and reads the fields into a new payload.
  The locale \<open>fixed_part\<close> states what an encoder and its decoder promise each other and proves that
  a structure sent with the command is the structure the peer unmarshals; \<open>rest\<close> is what the decoder
  returns, the length of the variable part that follows.

  A pointer member that the code has not set yet is \<open>None\<close>; other members that it has not
  set hold \<open>c_junk\<close>. \<open>memcpy\<close> from a buffer shorter than asked for gives junk at its end.
\<close>

subsection \<open>Padding and copies\<close>

definition PAD_TO_32BIT :: "u32 \<Rightarrow> u32" where
  "PAD_TO_32BIT len = (len + 0x03) AND 0xfffffffc"

definition PAD_TO_64BIT :: "u32 \<Rightarrow> u32" where
  "PAD_TO_64BIT len = (len + 0x07) AND 0xfffffff8"

lemma and_high_mask:
  "k < 32 \<Longrightarrow> m = push_bit k (drop_bit k (-1)) \<Longrightarrow> unat ((x :: u32) AND m) = unat x div 2 ^ k * 2 ^ k"
proof -
  assume k: "k < 32" and m: "m = push_bit k (drop_bit k (-1 :: u32))"
  have "x AND m = push_bit k (drop_bit k x)"
    by (rule bit_word_eqI) (auto simp: m bit_simps)
  moreover have "unat (push_bit k (drop_bit k x)) = unat x div 2 ^ k * 2 ^ k"
  proof -
    have "unat x div 2 ^ k * 2 ^ k < 2 ^ 32"
      by (rule le_less_trans [OF div_times_less_eq_dividend]) simp
    then show ?thesis unfolding unsigned_push_bit_eq unsigned_drop_bit_eq
      by (simp add: push_bit_eq_mult drop_bit_eq_div take_bit_nat_eq_self)
  qed
  ultimately show ?thesis by simp
qed

lemma unat_PAD_TO_64BIT:
  assumes "unat x + 7 < 2 ^ 32"
  shows "unat (PAD_TO_64BIT x) = (unat x + 7) div 8 * 8"
proof -
  have "(0xfffffff8 :: u32) = push_bit 3 (drop_bit 3 (-1))" by code_simp
  from and_high_mask [OF _ this, of "x + 7"] assms show ?thesis
    by (simp add: PAD_TO_64BIT_def unat_word_ariths)
qed

lemma unat_PAD_TO_32BIT:
  assumes "unat x + 3 < 2 ^ 32"
  shows "unat (PAD_TO_32BIT x) = (unat x + 3) div 4 * 4"
proof -
  have "(0xfffffffc :: u32) = push_bit 2 (drop_bit 2 (-1))" by code_simp
  from and_high_mask [OF _ this, of "x + 3"] assms show ?thesis
    by (simp add: PAD_TO_32BIT_def unat_word_ariths)
qed

lemma PAD_TO_64BIT_of_nat: "n + 7 < 2 ^ 32 \<Longrightarrow> unat (PAD_TO_64BIT (of_nat n)) = (n + 7) div 8 * 8"
  by (subst unat_PAD_TO_64BIT) (simp_all add: unat_of_nat)

lemma sint_small:
  assumes "unat x < 2 ^ 31"
  shows "sint (x :: u32) = int (unat x)"
proof -
  have "int (unat x) < int (2 ^ 31)" using assms by (simp only: of_nat_less_iff)
  moreover have "- (2 ^ 31) \<le> uint x" by (rule order_trans [OF _ uint_ge_0]) simp
  ultimately have "uint x < 2 ^ 31" "- (2 ^ 31) \<le> uint x" by simp_all
  then show ?thesis by (simp add: sint_uint signed_take_bit_int_eq_self)
qed

definition copy_bytes :: "smb2_context \<Rightarrow> nat \<Rightarrow> bytes option \<Rightarrow> bytes" where
  "copy_bytes c n src =
     (let b = (case src of None \<Rightarrow> [] | Some b \<Rightarrow> b) in take n b @ replicate (n - length b) (ucast (c_junk c)))"

lemma length_copy_bytes [simp, length_io]: "length (copy_bytes c n src) = n"
  by (auto simp: copy_bytes_def Let_def)

lemma copy_bytes_Some [simp]: "length b = n \<Longrightarrow> copy_bytes c n (Some b) = b"
  by (simp add: copy_bytes_def)

subsection \<open>Encoding\<close>

text \<open>\<open>malloc\<close> or \<open>calloc\<close> of \<open>n\<close> bytes, filled with \<open>buf\<close> and added as a vector. The error strings are
  those of the two failures; no second error is set when \<open>no_vec\<close> is empty.\<close>

definition new_iovector ::
  "string \<Rightarrow> string \<Rightarrow> nat \<Rightarrow> bytes \<Rightarrow> smb2_context \<Rightarrow> smb2_io_vectors \<Rightarrow> smb2_context \<times> smb2_io_vectors option" where
  "new_iovector no_mem no_vec n buf c v =
     (if \<not> c_mem_ok c n then (smb2_set_error no_mem c, None)
      else case smb2_add_iovector c v buf Free of
             (c, None) \<Rightarrow> (if no_vec = [] then c else smb2_set_error no_vec c, None)
           | (c, Some v) \<Rightarrow> (c, Some v))"

text \<open>The fixed part: a zeroed vector of \<open>n\<close> bytes into which \<open>fill\<close> stores the fields.\<close>

definition encode_fixed ::
  "string \<Rightarrow> string \<Rightarrow> nat \<Rightarrow> (bytes \<Rightarrow> bytes) \<Rightarrow> smb2_context \<Rightarrow> smb2_pdu \<Rightarrow> int \<times> smb2_context \<times> smb2_pdu" where
  "encode_fixed no_mem no_vec n fill c pdu =
     (case new_iovector no_mem no_vec n (fill (replicate n 0)) c (p_out pdu) of
        (c, None) \<Rightarrow> (-1, c, pdu)
      | (c, Some out) \<Rightarrow> (0, c, pdu\<lparr>p_out := out\<rparr>))"

text \<open>A vector after the fixed part.\<close>

definition encode_buffer ::
  "string \<Rightarrow> string \<Rightarrow> nat \<Rightarrow> bytes \<Rightarrow> smb2_context \<Rightarrow> smb2_pdu \<Rightarrow> int \<times> smb2_context \<times> smb2_pdu" where
  "encode_buffer no_mem no_vec n buf c pdu =
     (case new_iovector no_mem no_vec n buf c (p_out pdu) of
        (c, None) \<Rightarrow> (-1, c, pdu)
      | (c, Some out) \<Rightarrow> (0, c, pdu\<lparr>p_out := out\<rparr>))"

text \<open>A vector that is not allocated here.\<close>

definition encode_static :: "string \<Rightarrow> bytes \<Rightarrow> free_fn \<Rightarrow> smb2_context \<Rightarrow> smb2_pdu \<Rightarrow> int \<times> smb2_context \<times> smb2_pdu" where
  "encode_static no_vec buf f c pdu =
     (case smb2_add_iovector c (p_out pdu) buf f of
        (c, None) \<Rightarrow> (-1, if no_vec = [] then c else smb2_set_error no_vec c, pdu)
      | (c, Some out) \<Rightarrow> (0, c, pdu\<lparr>p_out := out\<rparr>))"

text \<open>The next step of an encoder, which returns -1 as soon as a step has failed.\<close>

definition and_then ::
  "int \<times> smb2_context \<times> smb2_pdu \<Rightarrow> (smb2_context \<Rightarrow> smb2_pdu \<Rightarrow> int \<times> smb2_context \<times> smb2_pdu) \<Rightarrow>
   int \<times> smb2_context \<times> smb2_pdu" where
  "and_then r f = (case r of (rc, c, pdu) \<Rightarrow> if rc \<noteq> 0 then (rc, c, pdu) else f c pdu)"

text \<open>The body of every \<open>smb2_cmd_*_async\<close>.\<close>

definition cmd_pdu ::
  "u16 \<Rightarrow> (smb2_context \<Rightarrow> smb2_pdu \<Rightarrow> int \<times> smb2_context \<times> smb2_pdu) \<Rightarrow> smb2_context \<Rightarrow> nat \<Rightarrow> nat \<Rightarrow>
   smb2_context \<times> smb2_pdu option" where
  "cmd_pdu command encode c cb cb_data =
     (case smb2_allocate_pdu c command cb cb_data of
        (c, None) \<Rightarrow> (c, None)
      | (c, Some pdu) \<Rightarrow>
        (case encode c pdu of
           (rc, c, pdu) \<Rightarrow>
             if rc \<noteq> 0 then (smb2_free_pdu c [pdu], None)
             else (case smb2_pad_to_64bit c (p_out pdu) of
                     (rc, c, out) \<Rightarrow>
                       if rc \<noteq> 0 then (smb2_free_pdu c [pdu\<lparr>p_out := out\<rparr>], None)
                       else (c, Some (pdu\<lparr>p_out := out\<rparr>)))))"

subsection \<open>Decoding\<close>

text \<open>The last received vector.\<close>

definition in_buf :: "smb2_context \<Rightarrow> bytes" where
  "in_buf c = iov_buf (last (v_iov (c_in c)))"

definition receiving :: "bytes \<Rightarrow> smb2_context \<Rightarrow> smb2_context" where
  "receiving b c = c\<lparr>c_in := (c_in c)\<lparr>v_iov := v_iov (c_in c) @ [\<lparr>iov_buf = b, iov_free = Free\<rparr>]\<rparr>\<rparr>"

lemma receiving_simps [simp]:
  "in_buf (receiving b c) = b" "c_mem_ok (receiving b c) = c_mem_ok c" "c_junk (receiving b c) = c_junk c"
  "c_max_read_size (receiving b c) = c_max_read_size c"
  by (simp_all add: receiving_def in_buf_def)

definition in_size :: "smb2_context \<Rightarrow> u16" where
  "in_size c = get16 (in_buf c) 0 (ucast (c_junk c))"

definition wrong_size :: "u16 \<Rightarrow> smb2_context \<Rightarrow> bool" where
  "wrong_size sz c \<longleftrightarrow> in_size c \<noteq> sz \<or> unat (in_size c AND 0xfffe) \<noteq> length (in_buf c)"

text \<open>The size check and the allocation of the payload, before \<open>body\<close> fills it in.\<close>

definition process_fixed ::
  "string \<Rightarrow> string \<Rightarrow> u16 \<Rightarrow> nat \<Rightarrow> (smb2_context \<Rightarrow> smb2_pdu \<Rightarrow> int \<times> smb2_context \<times> smb2_pdu) \<Rightarrow>
   smb2_context \<Rightarrow> smb2_pdu \<Rightarrow> int \<times> smb2_context \<times> smb2_pdu" where
  "process_fixed bad_size no_mem sz n body c pdu =
     (if wrong_size sz c then (-1, smb2_set_error bad_size c, pdu)
      else if \<not> c_mem_ok c n then (-1, smb2_set_error no_mem c, pdu)
      else body c pdu)"

abbreviation (input) has_memory :: "smb2_context \<Rightarrow> bool" where "has_memory c \<equiv> \<forall>n. c_mem_ok c n"

lemma zero_context_memory [simp]: "c_mem_ok zero_context n"
  by (simp add: zero_context_def)

definition set_payload :: "payload \<Rightarrow> smb2_pdu \<Rightarrow> smb2_pdu" where
  "set_payload x pdu = pdu\<lparr>p_payload := Some x\<rparr>"

subsection \<open>Lemmas\<close>

definition add_out :: "bytes \<Rightarrow> free_fn \<Rightarrow> smb2_pdu \<Rightarrow> smb2_pdu" where
  "add_out buf f pdu =
     pdu\<lparr>p_out := (p_out pdu)\<lparr>v_iov := v_iov (p_out pdu) @ [\<lparr>iov_buf = buf, iov_free = f\<rparr>],
                              v_total_size := v_total_size (p_out pdu) + length buf\<rparr>\<rparr>"

definition out_room :: "nat \<Rightarrow> smb2_pdu \<Rightarrow> bool" where
  "out_room k pdu \<longleftrightarrow> length (v_iov (p_out pdu)) + k \<le> 256"

lemma add_out_simps [simp]:
  "out_room k (add_out buf f pdu) \<longleftrightarrow> out_room (Suc k) pdu"
  "vec_bytes (p_out (add_out buf f pdu)) = vec_bytes (p_out pdu) @ buf"
  "p_header (add_out buf f pdu) = p_header pdu" "p_in (add_out buf f pdu) = p_in pdu"
  "p_ptr (add_out buf f pdu) = p_ptr pdu" "p_payload (add_out buf f pdu) = p_payload pdu"
  by (simp_all add: add_out_def out_room_def vec_bytes_def)

lemma encode_fixed_ok:
  "c_mem_ok c n \<Longrightarrow> out_room 1 p \<Longrightarrow> encode_fixed em ev n fill c p = (0, c, add_out (fill (replicate n 0)) Free p)"
  by (simp add: encode_fixed_def new_iovector_def smb2_add_iovector_def out_room_def add_out_def)

lemma encode_buffer_ok:
  "c_mem_ok c n \<Longrightarrow> out_room 1 p \<Longrightarrow> encode_buffer em ev n buf c p = (0, c, add_out buf Free p)"
  by (simp add: encode_buffer_def new_iovector_def smb2_add_iovector_def out_room_def add_out_def)

lemma encode_static_ok:
  "out_room 1 p \<Longrightarrow> encode_static ev buf f c p = (0, c, add_out buf f p)"
  by (simp add: encode_static_def smb2_add_iovector_def out_room_def add_out_def)

lemma and_then_ok [simp]: "and_then (0, c, p) f = f c p"
  by (simp add: and_then_def)

text \<open>A PDU as \<open>smb2_allocate_pdu\<close> returns it.\<close>

definition fresh_pdu :: "smb2_pdu \<Rightarrow> bool" where
  "fresh_pdu p \<longleftrightarrow> out_room 255 p \<and> vec_bytes (p_out p) = replicate 64 0 \<and> p_in p = no_vectors"

lemma fresh_room: "fresh_pdu p \<Longrightarrow> j \<le> 255 \<Longrightarrow> out_room j p"
  by (simp add: fresh_pdu_def out_room_def)

lemmas encode_steps = encode_fixed_ok encode_buffer_ok encode_static_ok

lemma process_fixed_ok:
  "in_size c = sz \<Longrightarrow> unat (sz AND 0xfffe) = length (in_buf c) \<Longrightarrow> c_mem_ok c n \<Longrightarrow>
   process_fixed es em sz n body c q = body c q"
  by (simp add: process_fixed_def wrong_size_def)

lemma process_fixed_bad:
  "unat (sz AND 0xfffe) \<noteq> length (in_buf c) \<Longrightarrow>
   process_fixed es em sz n body c q = (-1, smb2_set_error es c, q)"
  by (auto simp: process_fixed_def wrong_size_def)

lemma pad_to_64bit_room: "length (v_iov v) < 256 \<Longrightarrow> \<exists>out. smb2_pad_to_64bit c v = (0, c, out)"
  by (cases "iov_len v mod 8 = 0") (simp_all add: smb2_pad_to_64bit_def smb2_add_iovector_def Let_def)

text \<open>A command whose encoder succeeds gives a PDU with the encoder's vectors and the padding.\<close>

lemma cmd_pdu_ok:
  assumes mem: "c_mem_ok c SIZEOF_SMB2_PDU"
    and enc: "\<And>p. fresh_pdu p \<Longrightarrow> \<exists>p'. encode (c\<lparr>c_next_ptr := c_next_ptr c + 1\<rparr>) p =
        (0, c\<lparr>c_next_ptr := c_next_ptr c + 1\<rparr>, p') \<and> out_room (j + 1) p' \<and> vec_bytes (p_out p') = vec_bytes (p_out p) @ body"
  shows "\<exists>p k. cmd_pdu command encode c cb d = (c\<lparr>c_next_ptr := c_next_ptr c + 1\<rparr>, Some p) \<and> k < 8 \<and>
    vec_bytes (p_out p) = replicate 64 0 @ body @ replicate k 0 \<and> iov_len (p_out p) mod 8 = 0 \<and> out_room j p"
proof -
  let ?c = "c\<lparr>c_next_ptr := c_next_ptr c + 1\<rparr>"
  from mem obtain p where p: "smb2_allocate_pdu c command cb d = (?c, Some p)" "fresh_pdu p"
    by (rule allocate_pdu_Some [of c command cb d]) (auto simp: out_room_def fresh_pdu_def)
  from enc [OF p(2)] p(2) obtain p' where p': "encode ?c p = (0, ?c, p')" "out_room (j + 1) p'"
      "vec_bytes (p_out p') = replicate 64 0 @ body" by (auto simp: fresh_pdu_def)
  obtain out where out: "smb2_pad_to_64bit ?c (p_out p') = (0, ?c, out)"
    using pad_to_64bit_room [of "p_out p'" ?c] p'(2) by (auto simp: out_room_def)
  have "length (v_iov out) \<le> Suc (length (v_iov (p_out p')))"
    using out by (auto simp: smb2_pad_to_64bit_def smb2_add_iovector_def Let_def split: if_splits)
  then have "out_room j (p'\<lparr>p_out := out\<rparr>)" using p'(2) by (simp add: out_room_def)
  moreover from pad_to_64bit_ok [OF out] obtain k where "iov_len out mod 8 = 0" "k < 8"
      "vec_bytes out = vec_bytes (p_out p') @ replicate k 0" by auto
  ultimately show ?thesis using p p' out by (auto simp: cmd_pdu_def)
qed

text \<open>An encoder that fails gives no PDU.\<close>

lemma cmd_pdu_fails:
  assumes "\<And>c p. fst (encode c p) \<noteq> 0"
  shows "snd (cmd_pdu command encode c cb d) = None"
proof -
  have "rc \<noteq> 0" if "encode c p = (rc, c', p')" for c p rc c' p' using assms [of c p] that by simp
  then show ?thesis by (auto simp: cmd_pdu_def split: prod.splits option.splits)
qed

subsection \<open>Fields of a zeroed vector\<close>

text \<open>A setter that leaves reserved bytes before it, in what is still zero; the other rules are those of
  \<open>Smb2_Iovec\<close>.\<close>

lemma set_gap [field_io]:
  "0 < off \<Longrightarrow> off \<le> n \<Longrightarrow> set8 off v8 (replicate n z) = replicate off z @ set8 0 v8 (replicate (n - off) z)"
  "0 < off \<Longrightarrow> off \<le> n \<Longrightarrow> set16 off v16 (replicate n z) = replicate off z @ set16 0 v16 (replicate (n - off) z)"
  "0 < off \<Longrightarrow> off \<le> n \<Longrightarrow> set32 off v32 (replicate n z) = replicate off z @ set32 0 v32 (replicate (n - off) z)"
  "0 < off \<Longrightarrow> off \<le> n \<Longrightarrow> set64 off v64 (replicate n z) = replicate off z @ set64 0 v64 (replicate (n - off) z)"
  "0 < off \<Longrightarrow> off \<le> n \<Longrightarrow> put_at off bs (replicate n z) = replicate off z @ put_at 0 bs (replicate (n - off) z)"
  using set_skip [of "replicate off z" off _ "replicate (n - off) z"] put_at_skip [of "replicate off z" off bs "replicate (n - off) z"]
  by (simp_all flip: replicate_add)

text \<open>A field that was left zero.\<close>

lemma rd_le_zeros [simp]: "rd_le (replicate n 0) = 0"
  by (induction n) simp_all

lemma get_zero [field_io]:
  "1 \<le> n \<Longrightarrow> get8 (replicate n 0 @ b) 0 o8 = 0" "2 \<le> n \<Longrightarrow> get16 (replicate n 0 @ b) 0 o16 = 0"
  "4 \<le> n \<Longrightarrow> get32 (replicate n 0 @ b) 0 o32 = 0" "8 \<le> n \<Longrightarrow> get64 (replicate n 0 @ b) 0 o64 = 0"
  by (simp_all add: get_defs get_at_def nth_append min_absorb1)

text \<open>The first bytes of a list of fields.\<close>

lemma take_field [field_io]: "length a \<le> n \<Longrightarrow> take n (a @ b) = a @ take (n - length a) b"
  by simp

subsection \<open>Delivery\<close>

text \<open>
  What a round trip says: the command gave a PDU (padded to eight bytes, in \<open>delivers\<close>), and a peer with
  memory that receives the \<open>n\<close> bytes after its header as a vector unmarshals them to the payload \<open>x\<close>.
  In \<open>delivers_both\<close> the fixed part is followed by a variable part of \<open>m\<close> bytes, announced by the
  first stage of the decoder and handed to its second stage. A decoder is given the next vector while
  the previous ones are still there.
\<close>

type_synonym command_result = "smb2_context \<times> smb2_pdu option"
type_synonym decoder = "smb2_context \<Rightarrow> smb2_pdu \<Rightarrow> int \<times> smb2_context \<times> smb2_pdu"

definition delivers :: "command_result \<Rightarrow> nat \<Rightarrow> decoder \<Rightarrow> payload \<Rightarrow> int \<Rightarrow> bool" where
  "delivers r n process x k \<longleftrightarrow>
     (case r of
        (_, None) \<Rightarrow> False
      | (_, Some p) \<Rightarrow>
        iov_len (p_out p) mod 8 = 0 \<and> 64 + n \<le> iov_len (p_out p) \<and>
        (\<forall>d q. has_memory d \<longrightarrow>
           (let d = receiving (get_at 64 n (vec_bytes (p_out p))) d in process d q = (k, d, set_payload x q))))"

definition delivers_both :: "command_result \<Rightarrow> nat \<Rightarrow> decoder \<Rightarrow> nat \<Rightarrow> decoder \<Rightarrow> payload \<Rightarrow> bool" where
  "delivers_both r n fixed m variable x \<longleftrightarrow>
     (case r of
        (_, None) \<Rightarrow> False
      | (_, Some p) \<Rightarrow>
        64 + n + m \<le> iov_len (p_out p) \<and>
        (\<forall>d q. has_memory d \<longrightarrow>
           (case fixed (receiving (get_at 64 n (vec_bytes (p_out p))) d) q of
              (k, d, q1) \<Rightarrow> k = int m \<and>
                (let d = receiving (get_at (64 + n) m (vec_bytes (p_out p))) d in
                 variable d q1 = (0, d, set_payload x q)))))"

text \<open>The first stage may leave a payload that depends on the receiver.\<close>

lemma delivers_both_dep:
  assumes r: "r = (c', Some p)" "get_at 64 n (vec_bytes (p_out p)) = a" "get_at (64 + n) m (vec_bytes (p_out p)) = b"
      "64 + n + m \<le> iov_len (p_out p)"
    and fixed: "\<And>d q. has_memory d \<Longrightarrow> fixed (receiving a d) q = (int m, receiving a d, set_payload (y d) q)"
    and variable: "\<And>d q. has_memory d \<Longrightarrow>
      variable (receiving b (receiving a d)) (set_payload (y d) q) = (0, receiving b (receiving a d), set_payload x q)"
  shows "delivers_both r n fixed m variable x"
  using r fixed variable by (simp add: delivers_both_def)

lemma delivers_bothI:
  assumes r: "r = (c', Some p)" "vec_bytes (p_out p) = replicate 64 0 @ a @ b @ trail" and len: "length a = n" "length b = m"
    and fixed: "\<And>d q. has_memory d \<Longrightarrow> fixed (receiving a d) q = (int m, receiving a d, set_payload y q)"
    and variable: "\<And>d q. has_memory d \<Longrightarrow> variable (receiving b d) (set_payload y q) = (0, receiving b d, set_payload x q)"
  shows "delivers_both r n fixed m variable x"
  by (rule delivers_both_dep [OF r(1), where a = a and b = b and y = "\<lambda>_. y"])
     (use r(2) len fixed variable in \<open>simp_all add: get_at_def iov_len_vec_bytes\<close>)

text \<open>The two slices of a command's PDU that the peer receives as vectors.\<close>

lemma cmd_pdu_slices:
  assumes c: "c_mem_ok c SIZEOF_SMB2_PDU" and len: "length a = n" "length b = m"
    and enc: "\<And>p. fresh_pdu p \<Longrightarrow> \<exists>p'. encode (c\<lparr>c_next_ptr := c_next_ptr c + 1\<rparr>) p =
        (0, c\<lparr>c_next_ptr := c_next_ptr c + 1\<rparr>, p') \<and> out_room 1 p' \<and> vec_bytes (p_out p') = vec_bytes (p_out p) @ a @ b @ trail"
  shows "\<exists>c' p. cmd_pdu command encode c cb cb_data = (c', Some p) \<and> get_at 64 n (vec_bytes (p_out p)) = a \<and>
    get_at (64 + n) m (vec_bytes (p_out p)) = b \<and> 64 + n + m \<le> iov_len (p_out p)"
proof -
  have "\<exists>p k. cmd_pdu command encode c cb cb_data = (c\<lparr>c_next_ptr := c_next_ptr c + 1\<rparr>, Some p) \<and> k < 8 \<and>
    vec_bytes (p_out p) = replicate 64 0 @ (a @ b @ trail) @ replicate k 0 \<and> iov_len (p_out p) mod 8 = 0 \<and> out_room 0 p"
    by (rule cmd_pdu_ok [OF c], drule enc) simp
  then show ?thesis using len by (auto simp: get_at_def iov_len_vec_bytes)
qed

text \<open>Delivery by a command of the usual shape.\<close>

lemma delivers_both_cmd_dep:
  assumes "c_mem_ok c SIZEOF_SMB2_PDU" "length a = n" "length b = m"
    and "\<And>p. fresh_pdu p \<Longrightarrow> \<exists>p'. encode (c\<lparr>c_next_ptr := c_next_ptr c + 1\<rparr>) p =
        (0, c\<lparr>c_next_ptr := c_next_ptr c + 1\<rparr>, p') \<and> out_room 1 p' \<and> vec_bytes (p_out p') = vec_bytes (p_out p) @ a @ b @ trail"
    and fixed: "\<And>d q. has_memory d \<Longrightarrow> fixed (receiving a d) q = (int m, receiving a d, set_payload (y d) q)"
    and variable: "\<And>d q. has_memory d \<Longrightarrow>
      variable (receiving b (receiving a d)) (set_payload (y d) q) = (0, receiving b (receiving a d), set_payload x q)"
  shows "delivers_both (cmd_pdu command encode c cb cb_data) n fixed m variable x"
proof -
  obtain c' p where "cmd_pdu command encode c cb cb_data = (c', Some p)" "get_at 64 n (vec_bytes (p_out p)) = a"
      "get_at (64 + n) m (vec_bytes (p_out p)) = b" "64 + n + m \<le> iov_len (p_out p)"
    using cmd_pdu_slices [of c a n b m encode trail command cb cb_data] assms(1-4) by blast
  from delivers_both_dep [OF this fixed variable] show ?thesis .
qed

lemma delivers_both_cmdI:
  assumes "c_mem_ok c SIZEOF_SMB2_PDU" "length a = n" "length b = m"
    and "\<And>p. fresh_pdu p \<Longrightarrow> \<exists>p'. encode (c\<lparr>c_next_ptr := c_next_ptr c + 1\<rparr>) p =
        (0, c\<lparr>c_next_ptr := c_next_ptr c + 1\<rparr>, p') \<and> out_room 1 p' \<and> vec_bytes (p_out p') = vec_bytes (p_out p) @ a @ b @ trail"
    and "\<And>d q. has_memory d \<Longrightarrow> fixed (receiving a d) q = (int m, receiving a d, set_payload y q)"
    and "\<And>d q. has_memory d \<Longrightarrow> variable (receiving b d) (set_payload y q) = (0, receiving b d, set_payload x q)"
  shows "delivers_both (cmd_pdu command encode c cb cb_data) n fixed m variable x"
  by (rule delivers_both_cmd_dep [where a = a and b = b and trail = trail and y = "\<lambda>_. y"]) (use assms in simp_all)

subsection \<open>The contract of a fixed-size structure\<close>

locale fixed_part =
  fixes sz :: nat and fields :: "'r \<Rightarrow> bytes" and valid :: "'r \<Rightarrow> bool"
    and alloc :: nat and encode :: "smb2_context \<Rightarrow> smb2_pdu \<Rightarrow> 'r \<Rightarrow> int \<times> smb2_context \<times> smb2_pdu"
    and alloc' :: nat and process :: "smb2_context \<Rightarrow> smb2_pdu \<Rightarrow> int \<times> smb2_context \<times> smb2_pdu"
    and wrap :: "'r \<Rightarrow> payload" and rest :: "'r \<Rightarrow> int"
  assumes length_fields: "valid r \<Longrightarrow> sz \<le> length (fields r)"
    and encode_fields: "valid r \<Longrightarrow> c_mem_ok c alloc \<Longrightarrow> out_room 1 p \<Longrightarrow>
      encode c p r = (0, c, add_out (fields r) Free p)"
    and process_fields: "valid r \<Longrightarrow> in_buf c = take sz (fields r) \<Longrightarrow> c_mem_ok c alloc' \<Longrightarrow>
      process c q = (rest r, c, set_payload (wrap r) q)"
    and process_bad_size: "length (in_buf c) \<noteq> sz \<Longrightarrow> \<exists>e. process c q = (-1, c\<lparr>c_error := e\<rparr>, q)"
begin

lemma sent_and_received:
  assumes "valid r" "has_memory c"
  shows "delivers (cmd_pdu command (\<lambda>c p. encode c p r) c cb cb_data) sz process (wrap r) (rest r)"
proof -
  have "\<exists>p k. cmd_pdu command (\<lambda>c p. encode c p r) c cb cb_data = (c\<lparr>c_next_ptr := c_next_ptr c + 1\<rparr>, Some p) \<and> k < 8 \<and>
    vec_bytes (p_out p) = replicate 64 0 @ fields r @ replicate k 0 \<and> iov_len (p_out p) mod 8 = 0 \<and> out_room 0 p"
    by (rule cmd_pdu_ok) (use assms in \<open>simp_all add: encode_fields fresh_room\<close>)
  then obtain p k where p: "cmd_pdu command (\<lambda>c p. encode c p r) c cb cb_data = (c\<lparr>c_next_ptr := c_next_ptr c + 1\<rparr>, Some p)"
      "vec_bytes (p_out p) = replicate 64 0 @ fields r @ replicate k 0" "iov_len (p_out p) mod 8 = 0" by (elim exE conjE)
  have "get_at 64 sz (vec_bytes (p_out p)) = take sz (fields r)" "64 + sz \<le> iov_len (p_out p)"
    using p(2) length_fields [OF assms(1)] by (simp_all add: get_at_def iov_len_vec_bytes)
  with process_fields [OF assms(1)] p show ?thesis by (simp add: delivers_def)
qed

end

end
