(* ===== verification/Smb2_Cmd_Basic.thy ===== *)
theory Smb2_Cmd_Basic
  imports Smb2_Codec
begin

text \<open>
  The commands whose structures have a fixed size, or a fixed part and one buffer: close, flush, echo,
  logoff, tree connect and disconnect, and the error reply (\<^verbatim>\<open>lib/smb2-cmd-close.c\<close>,
  \<^verbatim>\<open>-flush.c\<close>, \<^verbatim>\<open>-echo.c\<close>, \<^verbatim>\<open>-logoff.c\<close>, \<^verbatim>\<open>-tree-connect.c\<close>,
  \<^verbatim>\<open>-tree-disconnect.c\<close>, \<^verbatim>\<open>-error.c\<close>). The \<open>fields\<close> functions are the stores of an encoder in the
  order of the code, applied to its zeroed vector.
\<close>

subsection \<open>Close\<close>

definition close_request_fields :: "smb2_close_request \<Rightarrow> bytes \<Rightarrow> bytes" where
  "close_request_fields req = put_at 8 (clq_file_id req) \<circ> set16 2 (clq_flags req) \<circ> set16 0 24"

definition smb2_encode_close_request ::
  "smb2_context \<Rightarrow> smb2_pdu \<Rightarrow> smb2_close_request \<Rightarrow> int \<times> smb2_context \<times> smb2_pdu" where
  "smb2_encode_close_request c pdu req =
     encode_fixed ''Failed to allocate close buffer'' ''Failed to add iovector for close request''
       24 (close_request_fields req) c pdu"

definition smb2_cmd_close_async ::
  "smb2_context \<Rightarrow> smb2_close_request \<Rightarrow> nat \<Rightarrow> nat \<Rightarrow> smb2_context \<times> smb2_pdu option" where
  "smb2_cmd_close_async c req = cmd_pdu SMB2_CLOSE (\<lambda>c pdu. smb2_encode_close_request c pdu req) c"

definition close_reply_fields :: "smb2_close_reply \<Rightarrow> bytes \<Rightarrow> bytes" where
  "close_reply_fields rep =
     set32 56 (clr_file_attributes rep) \<circ> set64 48 (clr_end_of_file rep) \<circ> set64 40 (clr_allocation_size rep) \<circ>
     set64 32 (clr_change_time rep) \<circ> set64 24 (clr_last_write_time rep) \<circ> set64 16 (clr_last_access_time rep) \<circ>
     set64 8 (clr_creation_time rep) \<circ> set16 2 (clr_flags rep) \<circ> set16 0 60"

definition smb2_encode_close_reply ::
  "smb2_context \<Rightarrow> smb2_pdu \<Rightarrow> smb2_close_reply \<Rightarrow> int \<times> smb2_context \<times> smb2_pdu" where
  "smb2_encode_close_reply c pdu rep =
     encode_fixed ''Failed to allocate close reply buffer'' ''Failed to add iovector for close reply''
       60 (close_reply_fields rep) c pdu"

definition smb2_cmd_close_reply_async ::
  "smb2_context \<Rightarrow> smb2_close_reply \<Rightarrow> nat \<Rightarrow> nat \<Rightarrow> smb2_context \<times> smb2_pdu option" where
  "smb2_cmd_close_reply_async c rep = cmd_pdu SMB2_CLOSE (\<lambda>c pdu. smb2_encode_close_reply c pdu rep) c"

definition smb2_process_close_fixed :: "smb2_context \<Rightarrow> smb2_pdu \<Rightarrow> int \<times> smb2_context \<times> smb2_pdu" where
  "smb2_process_close_fixed =
     process_fixed ''Unexpected size of Close reply. Expected %d, got %d'' ''Failed to allocate close reply'' 60 64
       (\<lambda>c pdu. let b = in_buf c; j = c_junk c in
         (0, c, set_payload (P_close_reply \<lparr>clr_flags = get16 b 2 (ucast j), clr_creation_time = get64 b 8 j,
            clr_last_access_time = get64 b 16 j, clr_last_write_time = get64 b 24 j, clr_change_time = get64 b 32 j,
            clr_allocation_size = get64 b 40 j, clr_end_of_file = get64 b 48 j,
            clr_file_attributes = get32 b 56 (ucast j)\<rparr>) pdu))"

definition smb2_process_close_request_fixed :: "smb2_context \<Rightarrow> smb2_pdu \<Rightarrow> int \<times> smb2_context \<times> smb2_pdu" where
  "smb2_process_close_request_fixed =
     process_fixed ''Unexpected size of Close request. Expected %d, got %d'' ''Failed to allocate close request'' 24 18
       (\<lambda>c pdu. let b = in_buf c; j = c_junk c in
         (0, c, set_payload (P_close_request \<lparr>clq_flags = get16 b 2 (ucast j),
            clq_file_id = get_at 8 SMB2_FD_SIZE b\<rparr>) pdu))"

subsection \<open>Flush\<close>

definition flush_request_fields :: "smb2_flush_request \<Rightarrow> bytes \<Rightarrow> bytes" where
  "flush_request_fields req = put_at 8 (flq_file_id req) \<circ> set16 0 24"

definition smb2_encode_flush_request ::
  "smb2_context \<Rightarrow> smb2_pdu \<Rightarrow> smb2_flush_request \<Rightarrow> int \<times> smb2_context \<times> smb2_pdu" where
  "smb2_encode_flush_request c pdu req =
     encode_fixed ''Failed to allocate flush buffer'' [] 24 (flush_request_fields req) c pdu"

definition smb2_cmd_flush_async ::
  "smb2_context \<Rightarrow> smb2_flush_request \<Rightarrow> nat \<Rightarrow> nat \<Rightarrow> smb2_context \<times> smb2_pdu option" where
  "smb2_cmd_flush_async c req = cmd_pdu SMB2_FLUSH (\<lambda>c pdu. smb2_encode_flush_request c pdu req) c"

definition smb2_encode_flush_reply :: "smb2_context \<Rightarrow> smb2_pdu \<Rightarrow> int \<times> smb2_context \<times> smb2_pdu" where
  "smb2_encode_flush_reply = encode_fixed ''Failed to allocate flush reply buffer'' [] 4 (set16 0 4)"

definition smb2_cmd_flush_reply_async :: "smb2_context \<Rightarrow> nat \<Rightarrow> nat \<Rightarrow> smb2_context \<times> smb2_pdu option" where
  "smb2_cmd_flush_reply_async = cmd_pdu SMB2_FLUSH smb2_encode_flush_reply"

definition smb2_process_flush_fixed :: "smb2_context \<Rightarrow> smb2_pdu \<Rightarrow> int \<times> smb2_context \<times> smb2_pdu" where
  "smb2_process_flush_fixed c pdu =
     (if wrong_size 4 c
      then (-1, smb2_set_error ''Unexpected size of flush reply. Expected %d, got %d'' c, pdu) else (0, c, pdu))"

definition smb2_process_flush_request_fixed :: "smb2_context \<Rightarrow> smb2_pdu \<Rightarrow> int \<times> smb2_context \<times> smb2_pdu" where
  "smb2_process_flush_request_fixed =
     process_fixed ''Unexpected size of flush request. Expected %d, got %d'' ''Failed to allocate flush request'' 24 16
       (\<lambda>c pdu. (0, c, set_payload (P_flush_request \<lparr>flq_file_id = get_at 8 SMB2_FD_SIZE (in_buf c)\<rparr>) pdu))"

subsection \<open>Echo and logoff\<close>

definition smb2_encode_echo_request :: "smb2_context \<Rightarrow> smb2_pdu \<Rightarrow> int \<times> smb2_context \<times> smb2_pdu" where
  "smb2_encode_echo_request =
     encode_fixed ''Failed to allocate echo buffer'' ''Failed to add iovector for echo request'' 4 (set16 0 4)"

definition smb2_cmd_echo_async :: "smb2_context \<Rightarrow> nat \<Rightarrow> nat \<Rightarrow> smb2_context \<times> smb2_pdu option" where
  "smb2_cmd_echo_async = cmd_pdu SMB2_ECHO smb2_encode_echo_request"

definition smb2_encode_echo_reply :: "smb2_context \<Rightarrow> smb2_pdu \<Rightarrow> int \<times> smb2_context \<times> smb2_pdu" where
  "smb2_encode_echo_reply =
     encode_fixed ''Failed to allocate echo buffer'' ''Failed to add iovector for echo reply'' 4 (set16 0 4)"

definition smb2_cmd_echo_reply_async :: "smb2_context \<Rightarrow> nat \<Rightarrow> nat \<Rightarrow> smb2_context \<times> smb2_pdu option" where
  "smb2_cmd_echo_reply_async = cmd_pdu SMB2_ECHO smb2_encode_echo_reply"

definition smb2_process_echo_fixed :: "smb2_context \<Rightarrow> smb2_pdu \<Rightarrow> int \<times> smb2_context \<times> smb2_pdu" where
  "smb2_process_echo_fixed c pdu =
     (if wrong_size 4 c
      then (-1, smb2_set_error ''Unexpected size of echo reply. Expected %d, got %d'' c, pdu) else (0, c, pdu))"

definition smb2_process_echo_request_fixed :: "smb2_context \<Rightarrow> smb2_pdu \<Rightarrow> int \<times> smb2_context \<times> smb2_pdu" where
  "smb2_process_echo_request_fixed =
     process_fixed ''Unexpected size of echo request. Expected %d, got %d'' ''Failed to allocate echo request'' 4 2
       (\<lambda>c pdu. (0, c, set_payload (P_echo_request \<lparr>ecq_reserved = ucast (c_junk c)\<rparr>) pdu))"

definition smb2_encode_logoff_request :: "smb2_context \<Rightarrow> smb2_pdu \<Rightarrow> int \<times> smb2_context \<times> smb2_pdu" where
  "smb2_encode_logoff_request =
     encode_fixed ''Failed to allocate logoff buffer'' ''Failed to add iovector for logoff request'' 4 (set16 0 4)"

definition smb2_cmd_logoff_async :: "smb2_context \<Rightarrow> nat \<Rightarrow> nat \<Rightarrow> smb2_context \<times> smb2_pdu option" where
  "smb2_cmd_logoff_async = cmd_pdu SMB2_LOGOFF smb2_encode_logoff_request"

definition smb2_encode_logoff_reply :: "smb2_context \<Rightarrow> smb2_pdu \<Rightarrow> int \<times> smb2_context \<times> smb2_pdu" where
  "smb2_encode_logoff_reply =
     encode_fixed ''Failed to allocate logoff reply buffer'' ''Failed to add iovector for logoff reply'' 4 (set16 0 4)"

definition smb2_cmd_logoff_reply_async :: "smb2_context \<Rightarrow> nat \<Rightarrow> nat \<Rightarrow> smb2_context \<times> smb2_pdu option" where
  "smb2_cmd_logoff_reply_async = cmd_pdu SMB2_LOGOFF smb2_encode_logoff_reply"

definition smb2_process_logoff_fixed :: "smb2_context \<Rightarrow> smb2_pdu \<Rightarrow> int \<times> smb2_context \<times> smb2_pdu" where
  "smb2_process_logoff_fixed c pdu = (0, c, pdu)"

definition smb2_process_logoff_request_fixed :: "smb2_context \<Rightarrow> smb2_pdu \<Rightarrow> int \<times> smb2_context \<times> smb2_pdu" where
  "smb2_process_logoff_request_fixed =
     process_fixed ''Unexpected size of logoff request. Expected %d, got %d'' ''Failed to allocate echo request'' 4 2
       (\<lambda>c pdu. (0, c, set_payload (P_logoff_request \<lparr>loq_reserved = ucast (c_junk c)\<rparr>) pdu))"

subsection \<open>Tree disconnect\<close>

definition smb2_encode_tree_disconnect_request :: "smb2_context \<Rightarrow> smb2_pdu \<Rightarrow> int \<times> smb2_context \<times> smb2_pdu" where
  "smb2_encode_tree_disconnect_request =
     encode_fixed ''Failed to allocate tree disconnect buffer''
       ''Failed to add iovector for tree disconnect request'' 4 (set16 0 4)"

definition smb2_cmd_tree_disconnect_async :: "smb2_context \<Rightarrow> nat \<Rightarrow> nat \<Rightarrow> smb2_context \<times> smb2_pdu option" where
  "smb2_cmd_tree_disconnect_async = cmd_pdu SMB2_TREE_DISCONNECT smb2_encode_tree_disconnect_request"

definition smb2_encode_tree_disconnect_reply :: "smb2_context \<Rightarrow> smb2_pdu \<Rightarrow> int \<times> smb2_context \<times> smb2_pdu" where
  "smb2_encode_tree_disconnect_reply =
     encode_fixed ''Failed to allocate tree disconnect reply buffer''
       ''Failed to add iovector for tree disconnect reply'' 4 (set16 0 4)"

definition smb2_cmd_tree_disconnect_reply_async :: "smb2_context \<Rightarrow> nat \<Rightarrow> nat \<Rightarrow> smb2_context \<times> smb2_pdu option" where
  "smb2_cmd_tree_disconnect_reply_async = cmd_pdu SMB2_TREE_DISCONNECT smb2_encode_tree_disconnect_reply"

definition smb2_process_tree_disconnect_fixed :: "smb2_context \<Rightarrow> smb2_pdu \<Rightarrow> int \<times> smb2_context \<times> smb2_pdu" where
  "smb2_process_tree_disconnect_fixed c pdu =
     (0, snd (smb2_disconnect_tree_id c (h_tree_id (c_hdr c))), pdu)"

definition smb2_process_tree_disconnect_request_fixed ::
  "smb2_context \<Rightarrow> smb2_pdu \<Rightarrow> int \<times> smb2_context \<times> smb2_pdu" where
  "smb2_process_tree_disconnect_request_fixed c pdu = (0, c, pdu)"

subsection \<open>Tree connect\<close>

definition tree_connect_request_fields :: "smb2_tree_connect_request \<Rightarrow> bytes \<Rightarrow> bytes" where
  "tree_connect_request_fields req =
     set16 6 (tcq_path_length req) \<circ> set16 4 (of_nat (SMB2_HEADER_SIZE + 8)) \<circ> set16 2 (tcq_flags req) \<circ> set16 0 9"

definition smb2_encode_tree_connect_request ::
  "smb2_context \<Rightarrow> smb2_pdu \<Rightarrow> smb2_tree_connect_request \<Rightarrow> int \<times> smb2_context \<times> smb2_pdu" where
  "smb2_encode_tree_connect_request c pdu req =
     and_then (encode_fixed ''Failed to allocate tree connect setup buffer''
                 ''Failed to add iovector for tree connect request'' 8 (tree_connect_request_fields req) c pdu)
       (\<lambda>c pdu. let n = unat (tcq_path_length req) in
          encode_buffer ''Failed to allocate tcon path'' ''Failed to add iovector for tree connect path''
            n (copy_bytes c n (tcq_path req)) c pdu)"

definition smb2_cmd_tree_connect_async ::
  "smb2_context \<Rightarrow> smb2_tree_connect_request \<Rightarrow> nat \<Rightarrow> nat \<Rightarrow> smb2_context \<times> smb2_pdu option" where
  "smb2_cmd_tree_connect_async c req =
     cmd_pdu SMB2_TREE_CONNECT (\<lambda>c pdu. smb2_encode_tree_connect_request c pdu req) c"

definition tree_connect_reply_fields :: "smb2_tree_connect_reply \<Rightarrow> bytes \<Rightarrow> bytes" where
  "tree_connect_reply_fields rep =
     set32 12 (tcr_maximal_access rep) \<circ> set32 8 (tcr_capabilities rep) \<circ> set32 4 (tcr_share_flags rep) \<circ>
     set8 3 0 \<circ> set8 2 (tcr_share_type rep) \<circ> set16 0 16"

definition smb2_encode_tree_connect_reply ::
  "smb2_context \<Rightarrow> smb2_pdu \<Rightarrow> smb2_tree_connect_reply \<Rightarrow> int \<times> smb2_context \<times> smb2_pdu" where
  "smb2_encode_tree_connect_reply c pdu rep =
     encode_fixed ''Failed to allocate tree connect reply buffer''
       ''Failed to add iovector for tree connect reply'' 16 (tree_connect_reply_fields rep) c pdu"

text \<open>\<open>invented\<close> is the next value of the function's static counter \<open>s_tree_id\<close>, used when the caller gives
  no tree id.\<close>

definition smb2_cmd_tree_connect_reply_async ::
  "smb2_context \<Rightarrow> smb2_tree_connect_reply \<Rightarrow> u32 \<Rightarrow> u32 \<Rightarrow> nat \<Rightarrow> nat \<Rightarrow> smb2_context \<times> smb2_pdu option" where
  "smb2_cmd_tree_connect_reply_async c rep tree_id invented =
     cmd_pdu SMB2_TREE_CONNECT
       (\<lambda>c pdu. let tree_id = (if tree_id = 0 then invented else tree_id);
                    c = snd (smb2_connect_tree_id c tree_id);
                    pdu = pdu\<lparr>p_header := set_tree_id (smb2_tree_id c) (p_header pdu)\<rparr>
                in smb2_encode_tree_connect_reply c pdu rep) c"

abbreviation (input) SMB2_SHAREFLAG_ENCRYPT_DATA :: u32 where "SMB2_SHAREFLAG_ENCRYPT_DATA \<equiv> 0x00008000"

definition smb2_process_tree_connect_fixed :: "smb2_context \<Rightarrow> smb2_pdu \<Rightarrow> int \<times> smb2_context \<times> smb2_pdu" where
  "smb2_process_tree_connect_fixed =
     process_fixed ''Unexpected size of Tree Connect reply. Expected %d, got %d'' ''Failed to allocate tcon reply'' 16 16
       (\<lambda>c pdu. let c = snd (smb2_connect_tree_id c (h_tree_id (c_hdr c)));
                    b = in_buf c; j = ucast (c_junk c);
                    rep = \<lparr>tcr_share_type = get8 b 2 (ucast j), tcr_share_flags = get32 b 4 j,
                           tcr_capabilities = get32 b 8 j, tcr_maximal_access = get32 b 12 j\<rparr>
                in (0, if \<not> c_seal c
                       then c\<lparr>c_seal := (tcr_share_flags rep AND SMB2_SHAREFLAG_ENCRYPT_DATA \<noteq> 0)\<rparr> else c,
                    set_payload (P_tree_connect_reply rep) pdu))"

definition smb2_process_tree_connect_request_fixed ::
  "smb2_context \<Rightarrow> smb2_pdu \<Rightarrow> int \<times> smb2_context \<times> smb2_pdu" where
  "smb2_process_tree_connect_request_fixed =
     process_fixed ''Unexpected size of Tree Connect request. Expected %d, got %d'' ''Failed to allocate tcon request'' 9 16
       (\<lambda>c pdu. let b = in_buf c; j = ucast (c_junk c);
                    req = \<lparr>tcq_flags = get16 b 2 j, tcq_path_offset = get16 b 4 j, tcq_path_length = get16 b 6 j,
                           tcq_path = None\<rparr>
                in (int (unat (tcq_path_length req)), c, set_payload (P_tree_connect_request req) pdu))"

definition smb2_process_tree_connect_request_variable ::
  "smb2_context \<Rightarrow> smb2_pdu \<Rightarrow> int \<times> smb2_context \<times> smb2_pdu" where
  "smb2_process_tree_connect_request_variable c pdu =
     (case p_payload pdu of
        Some (P_tree_connect_request req) \<Rightarrow>
          (0, c, set_payload (P_tree_connect_request (req\<lparr>tcq_path := Some (in_buf c)\<rparr>)) pdu)
      | _ \<Rightarrow> (0, c, pdu))"

subsection \<open>Error replies\<close>

definition error_reply_fields :: "smb2_error_reply \<Rightarrow> bytes \<Rightarrow> bytes" where
  "error_reply_fields rep = set32 4 (err_byte_count rep) \<circ> set8 2 (err_error_context_count rep) \<circ> set16 0 9"

definition smb2_encode_error_reply ::
  "smb2_context \<Rightarrow> smb2_pdu \<Rightarrow> smb2_error_reply \<Rightarrow> int \<times> smb2_context \<times> smb2_pdu" where
  "smb2_encode_error_reply c pdu rep =
     encode_fixed ''Failed to allocate error buffer'' ''Failed to add iovector for error reply''
       9 (error_reply_fields rep) c pdu"

definition smb2_cmd_error_reply_async ::
  "smb2_context \<Rightarrow> smb2_error_reply \<Rightarrow> u8 \<Rightarrow> u32 \<Rightarrow> nat \<Rightarrow> nat \<Rightarrow> smb2_context \<times> smb2_pdu option" where
  "smb2_cmd_error_reply_async c rep causing_command status =
     cmd_pdu (ucast causing_command)
       (\<lambda>c pdu. smb2_encode_error_reply c (pdu\<lparr>p_header := (p_header pdu)\<lparr>h_status := status\<rparr>\<rparr>) rep) c"

definition smb2_process_error_fixed :: "smb2_context \<Rightarrow> smb2_pdu \<Rightarrow> int \<times> smb2_context \<times> smb2_pdu" where
  "smb2_process_error_fixed =
     process_fixed ''Unexpected size of Error reply. Expected %d, got %d'' ''Failed to allocate error reply'' 9 16
       (\<lambda>c pdu. let b = in_buf c; j = ucast (c_junk c);
                    rep = \<lparr>err_error_context_count = get8 b 2 (ucast j), err_byte_count = get32 b 4 j, err_error_data = None\<rparr>
                in (sint (err_byte_count rep), c, set_payload (P_error rep) pdu))"

definition smb2_process_error_variable :: "smb2_context \<Rightarrow> smb2_pdu \<Rightarrow> int \<times> smb2_context \<times> smb2_pdu" where
  "smb2_process_error_variable c pdu =
     (case p_payload pdu of
        Some (P_error rep) \<Rightarrow> (0, c, set_payload (P_error (rep\<lparr>err_error_data := Some (in_buf c)\<rparr>)) pdu)
      | _ \<Rightarrow> (0, c, pdu))"

subsection \<open>What the encoders write\<close>

lemma close_request_bytes:
  "length (clq_file_id r) = 16 \<Longrightarrow>
   close_request_fields r (replicate 24 0) = le16 24 @ le16 (clq_flags r) @ replicate 4 0 @ clq_file_id r"
  by (simp add: close_request_fields_def field_io)

lemma close_reply_bytes:
  "close_reply_fields r (replicate 60 0) = le16 60 @ le16 (clr_flags r) @ replicate 4 0 @ le64 (clr_creation_time r) @
     le64 (clr_last_access_time r) @ le64 (clr_last_write_time r) @ le64 (clr_change_time r) @
     le64 (clr_allocation_size r) @ le64 (clr_end_of_file r) @ le32 (clr_file_attributes r)"
  by (simp add: close_reply_fields_def field_io)

lemma flush_request_bytes:
  "length (flq_file_id r) = 16 \<Longrightarrow> flush_request_fields r (replicate 24 0) = le16 24 @ replicate 6 0 @ flq_file_id r"
  by (simp add: flush_request_fields_def field_io)

lemma tree_connect_reply_bytes:
  "tree_connect_reply_fields r (replicate 16 0) = le16 16 @ [tcr_share_type r, 0] @ le32 (tcr_share_flags r) @
     le32 (tcr_capabilities r) @ le32 (tcr_maximal_access r)"
  by (simp add: tree_connect_reply_fields_def field_io)

lemma tree_connect_request_bytes:
  "tree_connect_request_fields r (replicate 8 0) = le16 9 @ le16 (tcq_flags r) @ le16 72 @ le16 (tcq_path_length r)"
  by (simp add: tree_connect_request_fields_def field_io)

lemma error_reply_bytes:
  "error_reply_fields r (replicate 9 0) = le16 9 @ [err_error_context_count r] @ replicate 1 0 @ le32 (err_byte_count r) @ replicate 1 0"
  by (simp add: error_reply_fields_def field_io)

interpretation close_request: fixed_part 24 "\<lambda>r. close_request_fields r (replicate 24 0)"
  "\<lambda>r. length (clq_file_id r) = 16" 24 smb2_encode_close_request 18 smb2_process_close_request_fixed
  P_close_request "\<lambda>_. 0"
proof unfold_locales
  fix r :: smb2_close_request and c q
  assume "length (clq_file_id r) = 16" "in_buf c = take 24 (close_request_fields r (replicate 24 0))" "c_mem_ok c 18"
  then show "smb2_process_close_request_fixed c q = (0, c, set_payload (P_close_request r) q)"
    by (cases r) (simp add: smb2_process_close_request_fixed_def process_fixed_ok in_size_def close_request_bytes field_io)
qed (auto simp: smb2_encode_close_request_def encode_steps close_request_bytes smb2_process_close_request_fixed_def process_fixed_bad)

interpretation close_reply: fixed_part 60 "\<lambda>r. close_reply_fields r (replicate 60 0)"
  "\<lambda>_. True" 60 smb2_encode_close_reply 64 smb2_process_close_fixed P_close_reply "\<lambda>_. 0"
proof unfold_locales
  fix r :: smb2_close_reply and c q
  assume "in_buf c = take 60 (close_reply_fields r (replicate 60 0))" "c_mem_ok c 64"
  then show "smb2_process_close_fixed c q = (0, c, set_payload (P_close_reply r) q)"
    by (cases r) (simp add: smb2_process_close_fixed_def process_fixed_ok in_size_def close_reply_bytes field_io)
qed (auto simp: smb2_encode_close_reply_def encode_steps close_reply_bytes smb2_process_close_fixed_def process_fixed_bad)

interpretation flush_request: fixed_part 24 "\<lambda>r. flush_request_fields r (replicate 24 0)"
  "\<lambda>r. length (flq_file_id r) = 16" 24 smb2_encode_flush_request 16 smb2_process_flush_request_fixed
  P_flush_request "\<lambda>_. 0"
proof unfold_locales
  fix r :: smb2_flush_request and c q
  assume "length (flq_file_id r) = 16" "in_buf c = take 24 (flush_request_fields r (replicate 24 0))" "c_mem_ok c 16"
  then show "smb2_process_flush_request_fixed c q = (0, c, set_payload (P_flush_request r) q)"
    by (cases r) (simp add: smb2_process_flush_request_fixed_def process_fixed_ok in_size_def flush_request_bytes field_io)
qed (auto simp: smb2_encode_flush_request_def encode_steps flush_request_bytes smb2_process_flush_request_fixed_def process_fixed_bad)

interpretation error_reply: fixed_part 8 "\<lambda>r. error_reply_fields r (replicate 9 0)"
  "\<lambda>r. err_error_data r = None" 9 smb2_encode_error_reply 16 smb2_process_error_fixed
  P_error "\<lambda>r. sint (err_byte_count r)"
proof unfold_locales
  fix r :: smb2_error_reply and c q
  assume "err_error_data r = None" "in_buf c = take 8 (error_reply_fields r (replicate 9 0))" "c_mem_ok c 16"
  then show "smb2_process_error_fixed c q = (sint (err_byte_count r), c, set_payload (P_error r) q)"
    by (cases r) (simp add: smb2_process_error_fixed_def process_fixed_ok in_size_def error_reply_bytes field_io)
qed (auto simp: smb2_encode_error_reply_def encode_steps error_reply_bytes smb2_process_error_fixed_def process_fixed_bad)

subsection \<open>Properties\<close>

text \<open>Close and flush round trips: with memory, each command gives a padded PDU, and a peer that receives
  the fixed part of that PDU (the 24, 60 or 24 bytes after the header) unmarshals it to the structure
  that was sent, member for member, and changes nothing else.\<close>

theorem close_flush_roundtrip:
  assumes "has_memory c" "length (clq_file_id req) = 16" "length (flq_file_id freq) = 16"
  shows "delivers (smb2_cmd_close_async c req cb cb_data) 24 smb2_process_close_request_fixed (P_close_request req) 0 \<and>
    delivers (smb2_cmd_close_reply_async c rep cb cb_data) 60 smb2_process_close_fixed (P_close_reply rep) 0 \<and>
    delivers (smb2_cmd_flush_async c freq cb cb_data) 24 smb2_process_flush_request_fixed (P_flush_request freq) 0"
  unfolding smb2_cmd_close_async_def smb2_cmd_close_reply_async_def smb2_cmd_flush_async_def using assms
  by (intro conjI close_request.sent_and_received close_reply.sent_and_received flush_request.sent_and_received TrueI)

theorem close_flush_roundtrip_witness:
  "delivers (smb2_cmd_close_async zero_context \<lparr>clq_flags = 1, clq_file_id = replicate 16 7\<rparr> 1 2) 24
     smb2_process_close_request_fixed (P_close_request \<lparr>clq_flags = 1, clq_file_id = replicate 16 7\<rparr>) 0"
  using close_flush_roundtrip [of zero_context "\<lparr>clq_flags = 1, clq_file_id = replicate 16 7\<rparr>"
      "\<lparr>flq_file_id = replicate 16 7\<rparr>" 1 2]
  by (simp add: zero_context_def)

text \<open>The request of tree connect in two stages.\<close>

lemma tree_connect_request_sent:
  assumes "has_memory c" "tcq_path req = Some path" "length path = unat (tcq_path_length req)"
  shows "delivers_both (smb2_cmd_tree_connect_async c req cb cb_data) 8 smb2_process_tree_connect_request_fixed
    (length path) smb2_process_tree_connect_request_variable (P_tree_connect_request (req\<lparr>tcq_path_offset := 72\<rparr>))"
  unfolding smb2_cmd_tree_connect_async_def
proof (rule delivers_both_cmdI [where y = "P_tree_connect_request (req\<lparr>tcq_path_offset := 72, tcq_path := None\<rparr>)"
      and a = "tree_connect_request_fields req (replicate 8 0)" and b = path and trail = "[]"])
  fix d :: smb2_context and q
  assume "has_memory d"
  then show "smb2_process_tree_connect_request_fixed (receiving (tree_connect_request_fields req (replicate 8 0)) d) q =
     (int (length path), receiving (tree_connect_request_fields req (replicate 8 0)) d,
      set_payload (P_tree_connect_request (req\<lparr>tcq_path_offset := 72, tcq_path := None\<rparr>)) q)"
    using assms(3) by (cases req) (simp add: smb2_process_tree_connect_request_fixed_def process_fixed_ok in_size_def
        tree_connect_request_bytes field_io)
qed (use assms in \<open>auto simp: smb2_process_tree_connect_request_variable_def set_payload_def tree_connect_request_bytes
    smb2_encode_tree_connect_request_def encode_steps fresh_room\<close>)

text \<open>Tree connect: the request's fixed part announces the path, which the second stage delivers; the reply,
  received on a context with room for another tree, pushes the tree id of the reply's header and makes it
  current, and turns sealing on exactly when it was on or the share demands it.\<close>

theorem tree_connect_roundtrip:
  assumes "has_memory c" "tcq_path req = Some path" "length path = unat (tcq_path_length req)"
    and "has_memory d" "trees_ok d" "length (trees d) < 31"
    and "smb2_process_tree_connect_fixed (receiving (tree_connect_reply_fields rep (replicate 16 0)) d) q = (rc, d', q')"
  shows "delivers_both (smb2_cmd_tree_connect_async c req cb cb_data) 8 smb2_process_tree_connect_request_fixed
     (length path) smb2_process_tree_connect_request_variable (P_tree_connect_request (req\<lparr>tcq_path_offset := 72\<rparr>)) \<and>
    rc = 0 \<and> q' = set_payload (P_tree_connect_reply rep) q \<and>
    trees d' = trees d @ [h_tree_id (c_hdr d)] \<and> smb2_tree_id d' = h_tree_id (c_hdr d) \<and>
    c_seal d' = (c_seal d \<or> tcr_share_flags rep AND SMB2_SHAREFLAG_ENCRYPT_DATA \<noteq> 0)"
proof -
  define e where "e = receiving (tree_connect_reply_fields rep (replicate 16 0)) d"
  define e1 where "e1 = snd (smb2_connect_tree_id e (h_tree_id (c_hdr e)))"
  have ok: "trees_ok e" "length (trees e) < 31" "trees e = trees d" "c_hdr e = c_hdr d" "c_seal e = c_seal d" "has_memory e"
    using assms(4-6) by (simp_all add: e_def receiving_def trees_ok_def trees_def)
  then have t: "trees e1 = trees d @ [h_tree_id (c_hdr d)]" "smb2_tree_id e1 = h_tree_id (c_hdr d)"
    using connect_tree_ok [OF ok(1), of "h_tree_id (c_hdr d)"] by (auto simp: e1_def split: prod.splits)
  have keep: "c_seal e1 = c_seal e" "in_buf e1 = in_buf e" "c_junk e1 = c_junk e"
    by (simp_all add: e1_def smb2_connect_tree_id_def Let_def in_buf_def)
  have set: "trees (c\<lparr>c_seal := s\<rparr>) = trees c" "smb2_tree_id (c\<lparr>c_seal := s\<rparr>) = smb2_tree_id c" for c s
    by (simp_all add: trees_def smb2_tree_id_def)
  have "in_buf e = le16 16 @ [tcr_share_type rep, 0] @ le32 (tcr_share_flags rep) @
     le32 (tcr_capabilities rep) @ le32 (tcr_maximal_access rep)" by (simp add: e_def tree_connect_reply_bytes)
  then have "rc = 0 \<and> q' = set_payload (P_tree_connect_reply rep) q \<and>
     d' = (if c_seal e then e1 else e1\<lparr>c_seal := (tcr_share_flags rep AND SMB2_SHAREFLAG_ENCRYPT_DATA \<noteq> 0)\<rparr>)"
    using assms(7) [folded e_def] keep ok(6) unfolding e1_def
    by (cases rep) (auto simp: smb2_process_tree_connect_fixed_def process_fixed_ok in_size_def Let_def field_io)
  with t keep(1) ok(5) set tree_connect_request_sent [OF assms(1-3)] show ?thesis by simp
qed

theorem tree_connect_roundtrip_witness:
  "trees (fst (snd (smb2_process_tree_connect_fixed (receiving (tree_connect_reply_fields
     \<lparr>tcr_share_type = 1, tcr_share_flags = 0, tcr_capabilities = 0, tcr_maximal_access = 3\<rparr> (replicate 16 0))
     (zero_context\<lparr>c_hdr := set_tree_id 5 zero_header\<rparr>)) zero_pdu))) = [5]"
proof -
  let ?d = "zero_context\<lparr>c_hdr := set_tree_id 5 zero_header\<rparr>"
  have ok: "has_memory zero_context" "has_memory ?d" "trees_ok ?d" "trees ?d = []"
    by (simp_all add: zero_context_def trees_ok_def trees_def)
  let ?rep = "\<lparr>tcr_share_type = 1, tcr_share_flags = 0, tcr_capabilities = 0, tcr_maximal_access = 3\<rparr>"
  obtain rc d' q' where r: "smb2_process_tree_connect_fixed
      (receiving (tree_connect_reply_fields ?rep (replicate 16 0)) ?d) zero_pdu = (rc, d', q')" by (rule prod_cases3)
  from tree_connect_roundtrip [OF ok(1) _ _ ok(2,3) _ r, where path = "[1, 0]" and
      req = "\<lparr>tcq_flags = 0, tcq_path_offset = 0, tcq_path_length = 2, tcq_path = Some [1, 0]\<rparr>"] ok(4) r
  show ?thesis by simp
qed

end
