(* ===== verification/Smb2_Cmd_IO.thy ===== *)
theory Smb2_Cmd_IO
  imports Smb2_Codec
begin

text \<open>
  Reading, writing and locking: \<^verbatim>\<open>lib/smb2-cmd-read.c\<close>, \<^verbatim>\<open>lib/smb2-cmd-write.c\<close> and
  \<^verbatim>\<open>lib/smb2-cmd-lock.c\<close>. The encoders of a read and a write request first limit the length when
  the server has no multi-credit support, and the command goes on with the limited request; what the
  caller finds in its own structure afterwards is not modelled.
\<close>

subsection \<open>Read\<close>

abbreviation (input) CHANNEL_INFO_OFFSET :: u16 where "CHANNEL_INFO_OFFSET \<equiv> 112"

definition limit_read :: "smb2_context \<Rightarrow> smb2_read_request \<Rightarrow> smb2_read_request" where
  "limit_read c req =
     (if \<not> c_supports_multi_credit c \<and> rdq_length req > 64 * 1024
      then req\<lparr>rdq_length := 64 * 1024, rdq_minimum_count := 0\<rparr> else req)"

definition read_has_channel :: "smb2_read_request \<Rightarrow> bool" where
  "read_has_channel req \<longleftrightarrow> rdq_read_channel_info_length req > 0 \<and> rdq_read_channel_info req \<noteq> None"

definition read_request_fields :: "smb2_context \<Rightarrow> smb2_read_request \<Rightarrow> bytes \<Rightarrow> bytes" where
  "read_request_fields c req buf =
     (let buf = set16 0 49 buf;
          buf = set8 3 (rdq_flags req) buf;
          buf = set32 4 (rdq_length req) buf;
          buf = set64 8 (rdq_offset req) buf;
          buf = put_at 16 (rdq_file_id req) buf;
          buf = set32 32 (rdq_minimum_count req) buf;
          buf = set32 36 (rdq_channel req) buf;
          buf = set32 40 (rdq_remaining_bytes req) buf;
          buf = set16 46 (rdq_read_channel_info_length req) buf
      in if read_has_channel req \<and> c_passthrough c then set16 44 CHANNEL_INFO_OFFSET buf else buf)"

text \<open>Channel information padded to eight bytes.\<close>

definition channel_info :: "smb2_context \<Rightarrow> u16 \<Rightarrow> bytes option \<Rightarrow> bytes" where
  "channel_info c n info =
     copy_bytes c (unat n) info @ replicate (unat (PAD_TO_64BIT (ucast n)) - unat n) 0"

definition smb2_encode_read_request ::
  "smb2_context \<Rightarrow> smb2_pdu \<Rightarrow> smb2_read_request \<Rightarrow> int \<times> smb2_context \<times> smb2_pdu" where
  "smb2_encode_read_request c pdu req =
     (let req = limit_read c req; n = rdq_read_channel_info_length req in
      and_then (and_then (encode_fixed ''Failed to allocate read buffer'' [] 48 (read_request_fields c req) c pdu)
        (\<lambda>c pdu.
           if read_has_channel req then
             if c_passthrough c
             then encode_buffer ''Failed to allocate read channel context'' [] (unat (PAD_TO_64BIT (ucast n)))
                    (channel_info c n (rdq_read_channel_info req)) c pdu
             else (-1, smb2_set_error ''ChannelInfo not yet implemented'' c, pdu)
           else (0, c, pdu)))
        (\<lambda>c pdu. if n = 0 then encode_static [] [0] NoFree c pdu else (0, c, pdu)))"

text \<open>The vector for the reply's data, over the application's buffer.\<close>

definition read_reply_vector ::
  "smb2_read_request \<Rightarrow> smb2_context \<Rightarrow> smb2_pdu \<Rightarrow> int \<times> smb2_context \<times> smb2_pdu" where
  "read_reply_vector req c pdu =
     (if rdq_length req = 0 then (0, c, pdu)
      else case rdq_buf req of
             None \<Rightarrow> (-1, smb2_set_error ''No buffer for read reply data'' c, pdu)
           | Some buf \<Rightarrow>
             (case smb2_add_iovector c (p_in pdu) (copy_bytes c (unat (rdq_length req)) (Some buf)) NoFree of
                (c, None) \<Rightarrow> (-1, c, pdu)
              | (c, Some v) \<Rightarrow> (0, c, pdu\<lparr>p_in := v\<rparr>)))"

text \<open>The credit charge of a payload of \<open>length\<close> bytes: one credit for every 64 kB begun.\<close>

definition charge_for :: "u32 \<Rightarrow> u16" where
  "charge_for len = ucast ((len - 1) div 65536 + 1)"

definition adjust_charge :: "smb2_context \<Rightarrow> u32 \<Rightarrow> smb2_pdu \<Rightarrow> smb2_pdu" where
  "adjust_charge c len pdu =
     (if c_supports_multi_credit c then pdu\<lparr>p_header := (p_header pdu)\<lparr>h_credit_charge := charge_for len\<rparr>\<rparr> else pdu)"

definition smb2_cmd_read_async ::
  "smb2_context \<Rightarrow> smb2_read_request \<Rightarrow> nat \<Rightarrow> nat \<Rightarrow> smb2_context \<times> smb2_pdu option" where
  "smb2_cmd_read_async c req cb cb_data =
     (case cmd_pdu SMB2_READ (\<lambda>c pdu. and_then (smb2_encode_read_request c pdu req) (read_reply_vector (limit_read c req)))
             c cb cb_data of
        (c, None) \<Rightarrow> (c, None)
      | (c, Some pdu) \<Rightarrow> (c, Some (adjust_charge c (rdq_length (limit_read c req)) pdu)))"

definition read_reply_fields :: "smb2_read_reply \<Rightarrow> bytes \<Rightarrow> bytes" where
  "read_reply_fields rep =
     set32 8 (rdr_data_remaining rep) \<circ> set32 4 (rdr_data_length rep) \<circ>
     set8 2 (if rdr_data_length rep \<noteq> 0 \<and> rdr_data rep \<noteq> None then 80 else 0) \<circ> set16 0 17"

definition smb2_encode_read_reply ::
  "smb2_context \<Rightarrow> smb2_pdu \<Rightarrow> smb2_read_reply \<Rightarrow> int \<times> smb2_context \<times> smb2_pdu" where
  "smb2_encode_read_reply c pdu rep =
     and_then (encode_fixed ''Failed to allocate read reply buffer'' [] 16 (read_reply_fields rep) c pdu)
       (\<lambda>c pdu. if rdr_data_length rep > 0 \<and> rdr_data rep \<noteq> None
                 then encode_static [] (copy_bytes c (unat (rdr_data_length rep)) (rdr_data rep)) Free c pdu
                 else (0, c, pdu))"

definition smb2_cmd_read_reply_async ::
  "smb2_context \<Rightarrow> smb2_read_reply \<Rightarrow> nat \<Rightarrow> nat \<Rightarrow> smb2_context \<times> smb2_pdu option" where
  "smb2_cmd_read_reply_async c rep = cmd_pdu SMB2_READ (\<lambda>c pdu. smb2_encode_read_reply c pdu rep) c"

definition smb2_process_read_fixed :: decoder where
  "smb2_process_read_fixed c pdu =
     (if in_size c > 17 then (-1, smb2_set_error ''Unexpected size of Read reply. Expected %d, got %d'' c, pdu)
      else if \<not> c_mem_ok c 24 then (-1, smb2_set_error ''Failed to allocate read reply'' c, pdu)
      else
        (let b = in_buf c; j = c_junk c;
             rep = \<lparr>rdr_data_offset = get8 b 2 (ucast j), rdr_data_length = get32 b 4 (ucast j),
                    rdr_data_remaining = get32 b 8 (ucast j), rdr_data = None\<rparr>
         in if rdr_data_length rep = 0 then (0, c, set_payload (P_read_reply rep) pdu)
            else if rdr_data_offset rep \<noteq> 80
            then (-1, smb2_set_error ''Unexpected data offset in Read reply. Expected %d, got %d'' c, pdu\<lparr>p_payload := None\<rparr>)
            else (sint (rdr_data_length rep), c, set_payload (P_read_reply rep) pdu)))"

definition smb2_process_read_variable :: decoder where
  "smb2_process_read_variable c pdu =
     (case p_payload pdu of
        Some (P_read_reply rep) \<Rightarrow>
          (0, c, set_payload (P_read_reply (rep\<lparr>rdr_data := Some
             (case rdr_data rep of
                Some _ \<Rightarrow> copy_bytes c (unat (rdr_data_length rep)) (Some (in_buf c))
              | None \<Rightarrow> in_buf c)\<rparr>)) pdu)
      | _ \<Rightarrow> (0, c, pdu))"

text \<open>\<open>read_channel_info_length\<close> is tested before it has been read, while it still has the 0 of \<open>calloc\<close>, so the
  offset is never read from the wire.\<close>

definition smb2_process_read_request_fixed :: decoder where
  "smb2_process_read_request_fixed c pdu =
     (if in_size c > 49 then (-1, smb2_set_error ''Unexpected size of Read request. Expected %d, got %d'' c, pdu)
      else if \<not> c_mem_ok c 64 then (-1, smb2_set_error ''Failed to allocate read request'' c, pdu)
      else
        (let b = in_buf c;
             req = \<lparr>rdq_flags = get8 b 3 0, rdq_length = get32 b 4 0, rdq_offset = get64 b 8 0, rdq_buf = None,
                    rdq_file_id = get_at 16 SMB2_FD_SIZE b, rdq_minimum_count = get32 b 32 0,
                    rdq_channel = get32 b 36 0, rdq_remaining_bytes = get32 b 40 0,
                    rdq_read_channel_info_offset = 0, rdq_read_channel_info_length = 0,
                    rdq_read_channel_info = None\<rparr>;
             req = (if rdq_read_channel_info_length req \<noteq> 0
                    then req\<lparr>rdq_read_channel_info_offset := get16 b 44 CHANNEL_INFO_OFFSET\<rparr> else req);
             req = req\<lparr>rdq_read_channel_info_length := get16 b 46 (rdq_read_channel_info_length req)\<rparr>
         in if rdq_length req > c_max_read_size c
            then (-1, smb2_set_error ''can not read more than %d bytes'' c, pdu\<lparr>p_payload := None\<rparr>)
            else if rdq_read_channel_info_length req = 0 then (0, c, set_payload (P_read_request req) pdu)
            else if rdq_read_channel_info_offset req < CHANNEL_INFO_OFFSET
            then (-1, smb2_set_error ''channel info overlaps request'' c, pdu\<lparr>p_payload := None\<rparr>)
            else (int (unat (rdq_read_channel_info_offset req)) - 112 + int (unat (rdq_read_channel_info_length req)), c,
                  set_payload (P_read_request req) pdu)))"

definition smb2_process_read_request_variable :: decoder where
  "smb2_process_read_request_variable c pdu =
     (case p_payload pdu of
        Some (P_read_request req) \<Rightarrow>
          (0, c, set_payload (P_read_request (req\<lparr>rdq_read_channel_info := Some (in_buf c)\<rparr>)) pdu)
      | _ \<Rightarrow> (0, c, pdu))"

subsection \<open>Write\<close>

definition limit_write :: "smb2_context \<Rightarrow> smb2_write_request \<Rightarrow> smb2_write_request" where
  "limit_write c req =
     (if \<not> c_supports_multi_credit c \<and> wrq_length req > 64 * 1024 then req\<lparr>wrq_length := 64 * 1024\<rparr> else req)"

definition write_has_channel :: "smb2_write_request \<Rightarrow> bool" where
  "write_has_channel req \<longleftrightarrow> wrq_write_channel_info_length req > 0 \<and> wrq_write_channel_info req \<noteq> None"

definition write_request_fields :: "smb2_context \<Rightarrow> smb2_write_request \<Rightarrow> bytes \<Rightarrow> bytes" where
  "write_request_fields c req buf =
     (let buf = set16 0 49 buf;
          buf = set16 2 (of_nat (SMB2_HEADER_SIZE + 48)) buf;
          buf = set32 4 (wrq_length req) buf;
          buf = set64 8 (wrq_offset req) buf;
          buf = put_at 16 (wrq_file_id req) buf;
          buf = set32 32 (wrq_channel req) buf;
          buf = set32 36 (wrq_remaining_bytes req) buf;
          buf = set16 42 (wrq_write_channel_info_length req) buf;
          buf = set32 44 (wrq_flags req) buf
      in if write_has_channel req \<and> c_passthrough c then set16 40 CHANNEL_INFO_OFFSET buf else buf)"

definition smb2_encode_write_request ::
  "smb2_context \<Rightarrow> smb2_pdu \<Rightarrow> smb2_write_request \<Rightarrow> int \<times> smb2_context \<times> smb2_pdu" where
  "smb2_encode_write_request c pdu req =
     (let req = limit_write c req; n = wrq_write_channel_info_length req in
      and_then (encode_fixed ''Failed to allocate write buffer'' [] 48 (write_request_fields c req) c pdu)
        (\<lambda>c pdu.
           if write_has_channel req then
             if c_passthrough c
             then encode_buffer ''Failed to allocate write channel context'' [] (unat (PAD_TO_64BIT (ucast n)))
                    (channel_info c n (wrq_write_channel_info req)) c pdu
             else (-1, smb2_set_error ''ChannelInfo not yet implemented'' c, pdu)
           else (0, c, pdu)))"

definition smb2_cmd_write_async ::
  "smb2_context \<Rightarrow> smb2_write_request \<Rightarrow> bool \<Rightarrow> nat \<Rightarrow> nat \<Rightarrow> smb2_context \<times> smb2_pdu option" where
  "smb2_cmd_write_async c req pass_buf_ownership cb cb_data =
     (case cmd_pdu SMB2_WRITE (\<lambda>c pdu. smb2_encode_write_request c pdu req) c cb cb_data of
        (c, None) \<Rightarrow> (c, None)
      | (c, Some pdu) \<Rightarrow>
        (let req = limit_write c req in
         case encode_static [] (copy_bytes c (unat (wrq_length req)) (wrq_buf req))
                (if pass_buf_ownership then Free else NoFree) c pdu of
           (rc, c, pdu) \<Rightarrow>
             if rc \<noteq> 0 then (smb2_free_pdu c [pdu], None)
             else (c, Some (adjust_charge c (wrq_length req) pdu))))"

definition write_reply_fields :: "smb2_write_reply \<Rightarrow> bytes \<Rightarrow> bytes" where
  "write_reply_fields rep = set32 8 (wrr_remaining rep) \<circ> set32 4 (wrr_count rep) \<circ> set16 0 17"

definition smb2_encode_write_reply ::
  "smb2_context \<Rightarrow> smb2_pdu \<Rightarrow> smb2_write_reply \<Rightarrow> int \<times> smb2_context \<times> smb2_pdu" where
  "smb2_encode_write_reply c pdu rep =
     encode_fixed ''Failed to allocate write reply buffer'' [] 17 (write_reply_fields rep) c pdu"

definition smb2_cmd_write_reply_async ::
  "smb2_context \<Rightarrow> smb2_write_reply \<Rightarrow> nat \<Rightarrow> nat \<Rightarrow> smb2_context \<times> smb2_pdu option" where
  "smb2_cmd_write_reply_async c rep = cmd_pdu SMB2_WRITE (\<lambda>c pdu. smb2_encode_write_reply c pdu rep) c"

definition smb2_process_write_fixed :: decoder where
  "smb2_process_write_fixed =
     process_fixed ''Unexpected size of Write reply. Expected %d, got %d'' ''Failed to allocate write reply'' 17 8
       (\<lambda>c pdu. let b = in_buf c; j = ucast (c_junk c) in
         (0, c, set_payload (P_write_reply \<lparr>wrr_count = get32 b 4 j, wrr_remaining = get32 b 8 j\<rparr>) pdu))"

text \<open>\<open>IOVREQ_OFFSET_WRITE\<close>\<close>

definition write_channel_offset :: "smb2_write_request \<Rightarrow> u32" where
  "write_channel_offset req =
     (if wrq_write_channel_info_length req \<noteq> 0 then ucast (wrq_write_channel_info_offset req) - 112 else 0)"

definition smb2_process_write_request_fixed :: decoder where
  "smb2_process_write_request_fixed c pdu =
     (if in_size c > 49 then (-1, smb2_set_error ''Unexpected size of Write request. Expected %d, got %d'' c, pdu)
      else if \<not> c_mem_ok c 72 then (-1, smb2_set_error ''Failed to allocate write request'' c, pdu)
      else
        (let b = in_buf c; j = c_junk c;
             req = \<lparr>wrq_data_offset = get16 b 2 (ucast j), wrq_length = get32 b 4 (ucast j), wrq_offset = get64 b 8 j,
                    wrq_buf = None, wrq_file_id = get_at 16 SMB2_FD_SIZE b, wrq_channel = get32 b 32 (ucast j),
                    wrq_remaining_bytes = get32 b 36 (ucast j), wrq_write_channel_info_offset = get16 b 40 (ucast j),
                    wrq_write_channel_info_length = get16 b 42 (ucast j), wrq_write_channel_info = None,
                    wrq_flags = get32 b 44 (ucast j)\<rparr>;
             n = wrq_write_channel_info_length req
         in if n \<noteq> 0 \<and> wrq_write_channel_info_offset req < CHANNEL_INFO_OFFSET
            then (-1, smb2_set_error ''channel info overlaps request'' c, pdu\<lparr>p_payload := None\<rparr>)
            else (sint (if wrq_length req \<noteq> 0
                        then write_channel_offset req + PAD_TO_64BIT (ucast n) + wrq_length req
                        else if n \<noteq> 0 then write_channel_offset req + ucast n else 0), c,
                  set_payload (P_write_request req) pdu)))"

definition smb2_process_write_request_variable :: decoder where
  "smb2_process_write_request_variable c pdu =
     (case p_payload pdu of
        Some (P_write_request req) \<Rightarrow>
          (let vec = drop (unat (write_channel_offset req)) (in_buf c) in
           (0, c, set_payload (P_write_request (req\<lparr>wrq_write_channel_info := Some vec,
              wrq_buf := Some (drop (unat (PAD_TO_64BIT (ucast (wrq_write_channel_info_length req)))) vec)\<rparr>)) pdu))
      | _ \<Rightarrow> (0, c, pdu))"

subsection \<open>Lock\<close>

fun put_locks :: "nat \<Rightarrow> smb2_lock_element list \<Rightarrow> bytes \<Rightarrow> bytes" where
  "put_locks off [] buf = buf"
| "put_locks off (e # es) buf =
     put_locks (off + 24) es (set32 (off + 16) (lke_flags e) (set64 (off + 8) (lke_length e) (set64 off (lke_offset e) buf)))"

text \<open>The first \<open>n\<close> elements of the caller's array, whatever follows it in memory included.\<close>

definition lock_array :: "smb2_context \<Rightarrow> nat \<Rightarrow> smb2_lock_element list \<Rightarrow> smb2_lock_element list" where
  "lock_array c n es =
     (let j = c_junk c in
      take n es @ replicate (n - length es) \<lparr>lke_offset = j, lke_length = j, lke_flags = ucast j, lke_reserved = ucast j\<rparr>)"

definition lock_request_fields :: "smb2_context \<Rightarrow> smb2_lock_request \<Rightarrow> bytes \<Rightarrow> bytes" where
  "lock_request_fields c req buf =
     (let buf = set16 0 48 buf;
          buf = set16 2 (lkq_lock_count req) buf;
          buf = set32 4 (push_bit 28 (ucast (lkq_lock_sequence_number req)) OR lkq_lock_sequence_index req) buf;
          buf = put_at 8 (lkq_file_id req) buf
      in case lkq_locks req of
           None \<Rightarrow> buf
         | Some es \<Rightarrow> if lkq_lock_count req \<noteq> 0 then put_locks 24 (lock_array c 1 es) buf else buf)"

definition smb2_encode_lock_request ::
  "smb2_context \<Rightarrow> smb2_pdu \<Rightarrow> smb2_lock_request \<Rightarrow> int \<times> smb2_context \<times> smb2_pdu" where
  "smb2_encode_lock_request c pdu req =
     and_then (encode_fixed ''Failed to allocate lock buffer'' ''Failed to add iovector for lock request''
                 48 (lock_request_fields c req) c pdu)
       (\<lambda>c pdu. let n = unat (lkq_lock_count req) in
          case lkq_locks req of
            None \<Rightarrow> (0, c, pdu)
          | Some es \<Rightarrow>
            if n > 1
            then encode_fixed ''Failed to allocate locks buffer'' ''Failed to add iovector for lock elements''
                   (unat (PAD_TO_64BIT (of_nat (24 * n)))) (put_locks 0 (tl (lock_array c n es))) c pdu
            else (0, c, pdu))"

definition smb2_cmd_lock_async ::
  "smb2_context \<Rightarrow> smb2_lock_request \<Rightarrow> nat \<Rightarrow> nat \<Rightarrow> smb2_context \<times> smb2_pdu option" where
  "smb2_cmd_lock_async c req = cmd_pdu SMB2_LOCK (\<lambda>c pdu. smb2_encode_lock_request c pdu req) c"

definition smb2_encode_lock_reply :: "smb2_context \<Rightarrow> smb2_pdu \<Rightarrow> int \<times> smb2_context \<times> smb2_pdu" where
  "smb2_encode_lock_reply =
     encode_fixed ''Failed to allocate lock buffer'' ''Failed to add iovector for lock reply'' 4 (set16 0 4)"

definition smb2_cmd_lock_reply_async :: "smb2_context \<Rightarrow> nat \<Rightarrow> nat \<Rightarrow> smb2_context \<times> smb2_pdu option" where
  "smb2_cmd_lock_reply_async = cmd_pdu SMB2_LOCK smb2_encode_lock_reply"

definition smb2_process_lock_fixed :: decoder where
  "smb2_process_lock_fixed c pdu =
     (if wrong_size 4 c
      then (-1, smb2_set_error ''Unexpected size of lock reply. Expected %d, got %d'' c, pdu) else (0, c, pdu))"

text \<open>The elements are read over an array that \<open>smb2_alloc_init\<close> has zeroed.\<close>

fun smb2_parse_locks :: "bytes \<Rightarrow> nat \<Rightarrow> nat \<Rightarrow> smb2_lock_element list" where
  "smb2_parse_locks b off 0 = []"
| "smb2_parse_locks b off (Suc n) =
     \<lparr>lke_offset = get64 b off 0, lke_length = get64 b (off + 8) 0, lke_flags = get32 b (off + 16) 0,
      lke_reserved = 0\<rparr> # smb2_parse_locks b (off + 24) n"

definition zero_lock :: smb2_lock_element where
  "zero_lock = \<lparr>lke_offset = 0, lke_length = 0, lke_flags = 0, lke_reserved = 0\<rparr>"

definition smb2_process_lock_request_fixed :: decoder where
  "smb2_process_lock_request_fixed =
     process_fixed ''Unexpected size of lock request. Expected %d, got %d'' ''Failed to allocate lock request'' 48 32
       (\<lambda>c pdu.
          let b = in_buf c; j = c_junk c;
              u32 = get32 b 4 (ucast j); count = get16 b 2 (ucast j); n = unat count;
              req = \<lparr>lkq_lock_count = count, lkq_lock_sequence_number = ucast (drop_bit 28 u32),
                     lkq_lock_sequence_index = u32 AND 0x0FFFFFFF, lkq_file_id = get_at 8 SMB2_FD_SIZE b,
                     lkq_locks = None\<rparr>
          in if n < 1
             then (-1, smb2_set_error ''Lock request must have at least one lock.'' c, pdu\<lparr>p_payload := None\<rparr>)
             else if \<not> c_mem_ok c (8 + n * 24)
             then (-1, smb2_set_error ''can not alloc lock buffer.'' c, pdu\<lparr>p_payload := None\<rparr>)
             else (int (24 * (n - 1)), c,
                   set_payload (P_lock_request (req\<lparr>lkq_locks :=
                     Some (smb2_parse_locks (drop 24 b) 0 1 @ replicate (n - 1) zero_lock)\<rparr>)) pdu))"

definition smb2_process_lock_request_variable :: decoder where
  "smb2_process_lock_request_variable c pdu =
     (case p_payload pdu of
        Some (P_lock_request req) \<Rightarrow>
          (case lkq_locks req of
             None \<Rightarrow> (-1, c, pdu)
           | Some es \<Rightarrow>
             (0, c, set_payload (P_lock_request (req\<lparr>lkq_locks :=
                Some (take 1 es @ smb2_parse_locks (in_buf c) 0 (unat (lkq_lock_count req) - 1))\<rparr>)) pdu))
      | _ \<Rightarrow> (-1, c, pdu))"

subsection \<open>What the encoders write\<close>

lemma read_request_bytes:
  "length (rdq_file_id r) = 16 \<Longrightarrow> \<not> read_has_channel r \<Longrightarrow>
   read_request_fields c r (replicate 48 0) = le16 49 @ replicate 1 0 @ [rdq_flags r] @ le32 (rdq_length r) @ le64 (rdq_offset r) @
     rdq_file_id r @ le32 (rdq_minimum_count r) @ le32 (rdq_channel r) @ le32 (rdq_remaining_bytes r) @ replicate 2 0 @
     le16 (rdq_read_channel_info_length r)"
  by (simp add: read_request_fields_def Let_def field_io)

lemma read_reply_bytes:
  "read_reply_fields r (replicate 16 0) = le16 17 @ [if rdr_data_length r \<noteq> 0 \<and> rdr_data r \<noteq> None then 80 else 0] @
     replicate 1 0 @ le32 (rdr_data_length r) @ le32 (rdr_data_remaining r) @ replicate 4 0"
  by (simp add: read_reply_fields_def field_io)

lemma write_request_bytes:
  "length (wrq_file_id r) = 16 \<Longrightarrow> \<not> write_has_channel r \<Longrightarrow>
   write_request_fields c r (replicate 48 0) = le16 49 @ le16 112 @ le32 (wrq_length r) @ le64 (wrq_offset r) @
     wrq_file_id r @ le32 (wrq_channel r) @ le32 (wrq_remaining_bytes r) @ replicate 2 0 @
     le16 (wrq_write_channel_info_length r) @ le32 (wrq_flags r)"
  by (simp add: write_request_fields_def Let_def field_io)

lemma write_reply_bytes:
  "write_reply_fields r (replicate 17 0) = le16 17 @ replicate 2 0 @ le32 (wrr_count r) @ le32 (wrr_remaining r) @ replicate 5 0"
  by (simp add: write_reply_fields_def field_io)

definition lock_bytes :: "smb2_lock_element \<Rightarrow> bytes" where
  "lock_bytes e = le64 (lke_offset e) @ le64 (lke_length e) @ le32 (lke_flags e) @ replicate 4 0"

lemma length_lock_bytes [simp]: "length (lock_bytes e) = 24"
  by (simp add: lock_bytes_def)

lemma length_concat_locks: "length (concat (map lock_bytes es)) = 24 * length es"
  by (induction es) simp_all

lemma put_locks_bytes:
  "put_locks (length pre) es (pre @ replicate (24 * length es + k) 0) = pre @ concat (map lock_bytes es) @ replicate k 0"
proof (induction es arbitrary: pre)
  case (Cons e es)
  have "set32 (length pre + 16) (lke_flags e) (set64 (length pre + 8) (lke_length e) (set64 (length pre) (lke_offset e)
      (pre @ replicate (24 * length (e # es) + k) 0))) = (pre @ lock_bytes e) @ replicate (24 * length es + k) 0"
    by (simp add: lock_bytes_def field_io flip: replicate_add)
  with Cons [of "pre @ lock_bytes e"] show ?case by simp
qed simp

lemma parse_locks_bytes:
  "\<forall>e \<in> set es. lke_reserved e = 0 \<Longrightarrow>
   smb2_parse_locks (pre @ concat (map lock_bytes es) @ post) (length pre) (length es) = es"
proof (induction es arbitrary: pre)
  case (Cons e es)
  have "smb2_parse_locks (pre @ lock_bytes e @ concat (map lock_bytes es) @ post) (length pre + 24) (length es) = es"
    using Cons.IH [of "pre @ lock_bytes e"] Cons.prems by simp
  moreover have "get64 (pre @ lock_bytes e @ x) (length pre) 0 = lke_offset e"
    "get64 (pre @ lock_bytes e @ x) (length pre + 8) 0 = lke_length e"
    "get32 (pre @ lock_bytes e @ x) (length pre + 16) 0 = lke_flags e" for x
    by (simp_all add: lock_bytes_def field_io)
  moreover have "\<lparr>lke_offset = lke_offset e, lke_length = lke_length e, lke_flags = lke_flags e, lke_reserved = 0\<rparr> = e"
    using Cons.prems by (cases e) simp
  ultimately show ?case by simp
qed simp

interpretation write_reply: fixed_part 16 "\<lambda>r. write_reply_fields r (replicate 17 0)"
  "\<lambda>_. True" 17 smb2_encode_write_reply 8 smb2_process_write_fixed P_write_reply "\<lambda>_. 0"
proof unfold_locales
  fix r :: smb2_write_reply and c q
  assume "in_buf c = take 16 (write_reply_fields r (replicate 17 0))" "c_mem_ok c 8"
  then show "smb2_process_write_fixed c q = (0, c, set_payload (P_write_reply r) q)"
    by (cases r) (simp add: smb2_process_write_fixed_def process_fixed_ok in_size_def write_reply_bytes field_io)
qed (auto simp: smb2_encode_write_reply_def encode_steps write_reply_bytes smb2_process_write_fixed_def process_fixed_bad)

subsection \<open>Properties\<close>

text \<open>The PDU of a read request.\<close>

lemma read_request_sent:
  assumes "has_memory c" "length (rdq_file_id req) = 16" "rdq_read_channel_info_length req = 0"
    "rdq_buf req \<noteq> None"
  shows "\<exists>c' p trail. smb2_cmd_read_async c req cb cb_data = (c', Some p) \<and>
    vec_bytes (p_out p) = replicate 64 0 @ read_request_fields c (limit_read c req) (replicate 48 0) @ trail"
proof -
  let ?a = "read_request_fields c (limit_read c req) (replicate 48 0)"
  let ?enc = "\<lambda>c pdu. and_then (smb2_encode_read_request c pdu req) (read_reply_vector (limit_read c req))"
  let ?c = "c\<lparr>c_next_ptr := c_next_ptr c + 1\<rparr>"
  have lim: "limit_read ?c req = limit_read c req" "rdq_read_channel_info_length (limit_read c req) = 0"
    "\<not> read_has_channel (limit_read c req)" "read_request_fields ?c r = read_request_fields c r" "rdq_buf (limit_read c req) = rdq_buf req" for r
    using assms(3) by (auto simp: limit_read_def read_has_channel_def read_request_fields_def fun_eq_iff)
  have "\<exists>p k. cmd_pdu SMB2_READ ?enc c cb cb_data = (?c, Some p) \<and> k < 8 \<and>
    vec_bytes (p_out p) = replicate 64 0 @ (?a @ [0]) @ replicate k 0 \<and> iov_len (p_out p) mod 8 = 0 \<and> out_room 0 p"
  proof (rule cmd_pdu_ok)
    fix p assume p: "fresh_pdu p"
    let ?p = "add_out [0] NoFree (add_out ?a Free p)"
    have "smb2_encode_read_request ?c p req = (0, ?c, ?p)"
      using assms(1) p lim by (simp add: smb2_encode_read_request_def encode_steps fresh_room)
    moreover have "\<exists>p'. read_reply_vector (limit_read c req) ?c ?p = (0, ?c, p') \<and> p_out p' = p_out ?p"
      using p assms(4) lim(5) by (auto simp: read_reply_vector_def smb2_add_iovector_def fresh_pdu_def no_vectors_def)
    ultimately show "\<exists>p'. ?enc ?c p = (0, ?c, p') \<and> out_room (0 + 1) p' \<and> vec_bytes (p_out p') = vec_bytes (p_out p) @ ?a @ [0]"
      using p lim(1) by (auto simp: fresh_pdu_def out_room_def add_out_def vec_bytes_def)
  qed (use assms in simp)
  then obtain p k where "cmd_pdu SMB2_READ ?enc c cb cb_data = (?c, Some p)"
    "vec_bytes (p_out p) = replicate 64 0 @ ?a @ [0] @ replicate k 0" by auto
  then show ?thesis by (simp add: smb2_cmd_read_async_def adjust_charge_def)
qed

lemma read_reply_sent:
  assumes "has_memory c" "rdr_data rep = Some data" "length data = unat (rdr_data_length rep)" "data \<noteq> []"
    "length data < 2 ^ 31"
  shows "delivers_both (smb2_cmd_read_reply_async c rep cb cb_data) 16 smb2_process_read_fixed
    (length data) smb2_process_read_variable (P_read_reply (rep\<lparr>rdr_data_offset := 80\<rparr>))"
  unfolding smb2_cmd_read_reply_async_def
proof (rule delivers_both_cmdI [where y = "P_read_reply (rep\<lparr>rdr_data_offset := 80, rdr_data := None\<rparr>)"
      and a = "read_reply_fields rep (replicate 16 0)" and b = data and trail = "[]"])
  have pos: "rdr_data_length rep \<noteq> 0" using assms(3,4) by auto
  have s: "sint (rdr_data_length rep) = int (length data)"
    using assms(3,5) by (simp add: sint_small)
  fix d :: smb2_context and q
  assume "has_memory d"
  then show "smb2_process_read_fixed (receiving (read_reply_fields rep (replicate 16 0)) d) q =
     (int (length data), receiving (read_reply_fields rep (replicate 16 0)) d,
      set_payload (P_read_reply (rep\<lparr>rdr_data_offset := 80, rdr_data := None\<rparr>)) q)"
    using s pos assms(2) by (cases rep) (simp add: smb2_process_read_fixed_def in_size_def read_reply_bytes field_io)
qed (use assms in \<open>auto simp: smb2_process_read_variable_def set_payload_def read_reply_bytes
    smb2_encode_read_reply_def encode_steps fresh_room word_gt_0\<close>)

lemma write_request_sent:
  assumes "has_memory c" "length (wrq_file_id req) = 16" "wrq_write_channel_info_length req = 0"
    "wrq_length req \<le> 64 * 1024 \<or> c_supports_multi_credit c"
    "wrq_buf req = Some data" "length data = unat (wrq_length req)" "data \<noteq> []" "length data < 2 ^ 31"
  shows "delivers_both (smb2_cmd_write_async c req own cb cb_data) 48 smb2_process_write_request_fixed
    (length data) smb2_process_write_request_variable
    (P_write_request (req\<lparr>wrq_data_offset := 112, wrq_write_channel_info_offset := 0, wrq_write_channel_info := Some data\<rparr>))"
proof -
  let ?a = "write_request_fields c req (replicate 48 0)" and ?c = "c\<lparr>c_next_ptr := c_next_ptr c + 1\<rparr>"
  have lim: "limit_write ?c req = req" "\<not> write_has_channel req" "write_request_fields ?c req = write_request_fields c req"
    "length ?a = 48"
    using assms(2-4) by (auto simp: limit_write_def write_has_channel_def write_request_fields_def fun_eq_iff write_request_bytes)
  have "\<exists>p k. cmd_pdu SMB2_WRITE (\<lambda>c pdu. smb2_encode_write_request c pdu req) c cb cb_data = (?c, Some p) \<and> k < 8 \<and>
    vec_bytes (p_out p) = replicate 64 0 @ ?a @ replicate k 0 \<and> iov_len (p_out p) mod 8 = 0 \<and> out_room 1 p"
    by (rule cmd_pdu_ok) (use assms(1) lim in \<open>simp_all add: smb2_encode_write_request_def encode_steps fresh_room\<close>)
  then obtain p k where p: "cmd_pdu SMB2_WRITE (\<lambda>c pdu. smb2_encode_write_request c pdu req) c cb cb_data = (?c, Some p)" "k < 8"
    "vec_bytes (p_out p) = replicate 64 0 @ ?a @ replicate k 0" "iov_len (p_out p) mod 8 = 0" "out_room 1 p" by (elim exE conjE)
  have "(112 + k) mod 8 = 0" using p(3,4) lim(4) by (simp add: iov_len_vec_bytes)
  then have k: "k = 0" using p(2) by presburger
  have pos: "wrq_length req \<noteq> 0" using assms(6,7) by auto
  have s: "sint (wrq_length req) = int (length data)" using assms(6,8) by (simp add: sint_small)
  let ?f = "if own then Free else NoFree"
  have r: "smb2_cmd_write_async c req own cb cb_data = (?c, Some (adjust_charge ?c (wrq_length req) (add_out data ?f p)))"
    using p(1,5) lim(1) assms(5,6) by (simp add: smb2_cmd_write_async_def encode_steps)
  have "vec_bytes (p_out (adjust_charge ?c (wrq_length req) (add_out data ?f p))) = replicate 64 0 @ ?a @ data @ []"
    using p(3) k by (simp add: adjust_charge_def)
  moreover have "smb2_process_write_request_fixed (receiving ?a d) q = (int (length data), receiving ?a d,
      set_payload (P_write_request (req\<lparr>wrq_data_offset := 112, wrq_write_channel_info_offset := 0,
        wrq_write_channel_info := None, wrq_buf := None\<rparr>)) q)" if "has_memory d" for d q
    using that s pos lim(2) assms(2,3) by (cases req)
      (simp add: smb2_process_write_request_fixed_def in_size_def write_request_bytes write_channel_offset_def
        PAD_TO_64BIT_def field_io)
  ultimately show ?thesis using lim(4) assms(3,5)
    by (intro delivers_bothI [OF r]) (auto simp: smb2_process_write_request_variable_def set_payload_def
        write_channel_offset_def PAD_TO_64BIT_def)
qed

lemma lock_array_any: "c_junk c = c_junk d \<Longrightarrow> lock_array c n es = lock_array d n es"
  by (simp add: lock_array_def)

lemma lock_request_bytes:
  assumes "length (lkq_file_id r) = 16" "lkq_locks r = Some (e # es)" "lkq_lock_count r \<noteq> 0"
  shows "lock_request_fields c r (replicate 48 0) = le16 48 @ le16 (lkq_lock_count r) @
     le32 (push_bit 28 (ucast (lkq_lock_sequence_number r)) OR lkq_lock_sequence_index r) @ lkq_file_id r @ lock_bytes e"
proof -
  have "put_locks 24 [e] (a @ b @ d @ f @ replicate 24 0) = a @ b @ d @ f @ lock_bytes e"
    if "length a + (length b + (length d + length f)) = 24" for a b d f
    using put_locks_bytes [of "a @ b @ d @ f" "[e]" 0] that by (simp del: put_locks.simps)
  with assms show ?thesis by (simp add: lock_request_fields_def Let_def lock_array_def field_io del: put_locks.simps)
qed

text \<open>The lock sequence number and index share a 32-bit field.\<close>

lemma lock_sequence_field:
  assumes "n < 16" "i < 2 ^ 28"
  shows "ucast (drop_bit 28 (push_bit 28 (ucast (n :: u8)) OR (i :: u32))) = n"
    "(push_bit 28 (ucast n) OR i) AND 0x0FFFFFFF = i"
proof -
  have i: "bit i k \<Longrightarrow> k < 28" for k using word_less_not_bit [OF assms(2), of k] not_le by blast
  have n: "bit n k \<Longrightarrow> k < 4" for k using word_less_not_bit [of n 4 k] assms(1) not_le by fastforce
  have m: "(0x0FFFFFFF :: u32) = mask 28" by (simp add: mask_eq_exp_minus_1)
  show "ucast (drop_bit 28 (push_bit 28 (ucast n) OR i)) = n"
    by (rule bit_word_eqI) (use i n in \<open>auto simp: bit_simps dest: n i\<close>)
  show "(push_bit 28 (ucast n) OR i) AND 0x0FFFFFFF = i"
    unfolding m by (rule bit_word_eqI) (use i in \<open>auto simp: bit_simps not_less dest: i\<close>)
qed

lemma lock_request_sent:
  assumes mem: "has_memory c" and fid: "length (lkq_file_id req) = 16"
    and locks: "lkq_locks req = Some es" "length es = unat (lkq_lock_count req)" "2 \<le> length es"
    and zero: "\<forall>e \<in> set es. lke_reserved e = 0" "lkq_lock_sequence_number req < 16" "lkq_lock_sequence_index req < 2 ^ 28"
  shows "delivers_both (smb2_cmd_lock_async c req cb cb_data) 48 smb2_process_lock_request_fixed
    (24 * (length es - 1)) smb2_process_lock_request_variable (P_lock_request req)"
proof -
  obtain e fs where es: "es = e # fs" using locks(3) by (cases es) auto
  let ?n = "unat (lkq_lock_count req)"
  have n: "?n = Suc (length fs)" "lkq_lock_count req \<noteq> 0" "fs \<noteq> []" using locks es by auto
  let ?a = "lock_request_fields c req (replicate 48 0)" and ?b = "concat (map lock_bytes fs)"
  have "24 * ?n + 7 < 2 ^ 32" using unat_bound(2) [of "lkq_lock_count req"] by (simp del: unat_bound)
  moreover have "(24 * m + 7) div 8 * 8 = 24 * m" for m :: nat by presburger
  ultimately have "unat (PAD_TO_64BIT (of_nat (24 * ?n))) = 24 * ?n" by (simp only: PAD_TO_64BIT_of_nat)
  then have pad: "unat (PAD_TO_64BIT (of_nat (24 * ?n))) = 24 * length fs + 24" using n(1) by simp
  have b: "put_locks 0 fs (replicate (24 * length fs + 24) 0) = ?b @ replicate 24 0"
    using put_locks_bytes [of "[]" fs 24] by simp
  have arr: "lock_array c' ?n es = es" "lock_request_fields (c\<lparr>c_next_ptr := x\<rparr>) req = lock_request_fields c req" for c' x
    using locks lock_array_any [of "c\<lparr>c_next_ptr := x\<rparr>" c 1 es]
    by (simp_all add: lock_array_def lock_request_fields_def fun_eq_iff Let_def)
  show ?thesis unfolding smb2_cmd_lock_async_def
  proof (rule delivers_both_cmdI [where y = "P_lock_request (req\<lparr>lkq_locks := Some (e # replicate (length fs) zero_lock)\<rparr>)"
        and a = ?a and b = ?b and trail = "replicate 24 0"])
    show "length ?a = 48" using lock_request_bytes [OF fid, of e fs c] locks(1) es n(2) fid by simp
    show "length ?b = 24 * (length es - 1)" by (simp add: es length_concat_locks)
    show "\<exists>p'. smb2_encode_lock_request (c\<lparr>c_next_ptr := c_next_ptr c + 1\<rparr>) p req = (0, c\<lparr>c_next_ptr := c_next_ptr c + 1\<rparr>, p')
      \<and> out_room 1 p' \<and> vec_bytes (p_out p') = vec_bytes (p_out p) @ ?a @ ?b @ replicate 24 0" if "fresh_pdu p" for p
      using mem locks n arr pad b that by (simp add: smb2_encode_lock_request_def encode_steps fresh_room es)
  next
    fix d :: smb2_context and q assume d: "has_memory d"
    have "smb2_parse_locks (lock_bytes e) 0 1 = [e]"
      using parse_locks_bytes [of "[e]" "[]" "[]"] zero(1) es by simp
    then show "smb2_process_lock_request_fixed (receiving ?a d) q = (int (24 * (length es - 1)), receiving ?a d,
       set_payload (P_lock_request (req\<lparr>lkq_locks := Some (e # replicate (length fs) zero_lock)\<rparr>)) q)"
      using d fid locks(1) es n(1,2) lock_sequence_field [OF zero(2,3)] unfolding lock_request_bytes [OF fid locks(1) [unfolded es] n(2)]
      by (cases req) (simp add: smb2_process_lock_request_fixed_def process_fixed_ok in_size_def field_io)
    have "smb2_parse_locks ?b 0 (length fs) = fs" using parse_locks_bytes [of fs "[]" "[]"] zero(1) es by simp
    then show "smb2_process_lock_request_variable (receiving ?b d) (set_payload (P_lock_request
        (req\<lparr>lkq_locks := Some (e # replicate (length fs) zero_lock)\<rparr>)) q) = (0, receiving ?b d, set_payload (P_lock_request req) q)"
      using locks(1) es n(1) by (cases req) (simp add: smb2_process_lock_request_variable_def set_payload_def)
  qed (use mem in simp)
qed

text \<open>C17. Reading: a read request without channel information reaches a server that allows its length with every
  member as sent, the length (and minimum count) limited to 64 kB where the client has no multi-credit
  support; a read reply with data announces its length and delivers the data.\<close>

theorem read_roundtrip:
  assumes "has_memory c" "length (rdq_file_id req) = 16" "rdq_read_channel_info_length req = 0" "rdq_buf req \<noteq> None"
    "has_memory d" "rdq_length (limit_read c req) \<le> c_max_read_size d"
    "rdr_data rep = Some data" "length data = unat (rdr_data_length rep)" "data \<noteq> []" "length data < 2 ^ 31"
  shows "(\<exists>c' p. smb2_cmd_read_async c req cb cb_data = (c', Some p) \<and>
      (let d = receiving (get_at 64 48 (vec_bytes (p_out p))) d in smb2_process_read_request_fixed d q =
         (0, d, set_payload (P_read_request ((limit_read c req)\<lparr>rdq_buf := None, rdq_read_channel_info_offset := 0,
            rdq_read_channel_info := None\<rparr>)) q))) \<and>
    delivers_both (smb2_cmd_read_reply_async c rep cb cb_data) 16 smb2_process_read_fixed
      (length data) smb2_process_read_variable (P_read_reply (rep\<lparr>rdr_data_offset := 80\<rparr>))"
proof -
  define r where "r = limit_read c req"
  have r: "length (rdq_file_id r) = 16" "rdq_read_channel_info_length r = 0" "\<not> read_has_channel r"
    "rdq_length r \<le> c_max_read_size d"
    using assms(2,3,6) by (auto simp: r_def limit_read_def read_has_channel_def)
  let ?a = "read_request_fields c r (replicate 48 0)"
  from read_request_sent [OF assms(1-4), of cb cb_data] obtain c' p trail where
    p: "smb2_cmd_read_async c req cb cb_data = (c', Some p)" "vec_bytes (p_out p) = replicate 64 0 @ ?a @ trail"
    unfolding r_def by auto
  have "get_at 64 48 (vec_bytes (p_out p)) = ?a"
    using p(2) read_request_bytes [OF r(1,3), of c] r(1) by (simp add: get_at_def)
  moreover have "smb2_process_read_request_fixed (receiving ?a d) q = (0, receiving ?a d,
     set_payload (P_read_request (r\<lparr>rdq_buf := None, rdq_read_channel_info_offset := 0, rdq_read_channel_info := None\<rparr>)) q)"
    unfolding read_request_bytes [OF r(1,3)] using r assms(5)
    by (cases r) (simp add: smb2_process_read_request_fixed_def in_size_def Let_def field_io not_less)
  ultimately show ?thesis using p(1) read_reply_sent [OF assms(1,7-10)] unfolding r_def by (simp add: Let_def)
qed

text \<open>C18. Writing: a write request with data and no channel information delivers the data and every other member
  to the server (\<open>data_offset\<close> set to 112), and the reply its two counts.\<close>

theorem write_roundtrip:
  assumes "has_memory c" "length (wrq_file_id req) = 16" "wrq_write_channel_info_length req = 0"
    "wrq_length req \<le> 64 * 1024 \<or> c_supports_multi_credit c"
    "wrq_buf req = Some data" "length data = unat (wrq_length req)" "data \<noteq> []" "length data < 2 ^ 31"
  shows "delivers_both (smb2_cmd_write_async c req own cb cb_data) 48 smb2_process_write_request_fixed
      (length data) smb2_process_write_request_variable
      (P_write_request (req\<lparr>wrq_data_offset := 112, wrq_write_channel_info_offset := 0, wrq_write_channel_info := Some data\<rparr>)) \<and>
    delivers (smb2_cmd_write_reply_async c rep cb cb_data) 16 smb2_process_write_fixed (P_write_reply rep) 0"
  using write_request_sent [OF assms] write_reply.sent_and_received [OF TrueI assms(1)]
  unfolding smb2_cmd_write_reply_async_def by blast

text \<open>Locking: a lock request for several ranges is rebuilt by the server range by range, the first from the
  fixed part and the others from the variable part.\<close>

theorem lock_roundtrip:
  assumes "has_memory c" "length (lkq_file_id req) = 16" "lkq_locks req = Some es"
    "length es = unat (lkq_lock_count req)" "2 \<le> length es" "\<forall>e \<in> set es. lke_reserved e = 0"
    "lkq_lock_sequence_number req < 16" "lkq_lock_sequence_index req < 2 ^ 28"
  shows "delivers_both (smb2_cmd_lock_async c req cb cb_data) 48 smb2_process_lock_request_fixed
    (24 * (length es - 1)) smb2_process_lock_request_variable (P_lock_request req)"
  by (rule lock_request_sent [OF assms])

text \<open>With multi-credit support a payload of \<open>n\<close> bytes is charged one credit for every 64 kB begun, up to
  the 65535 credits the header can express.\<close>

theorem charge_for_ceiling:
  assumes "0 < unat len" "unat len \<le> 65535 * 65536"
  shows "unat (charge_for len) = (unat len + 65535) div 65536"
proof -
  have "unat (len - 1) = unat len - 1" using assms(1) by (simp add: unat_sub_if' Suc_le_eq)
  moreover have e: "unat len + 65535 = (unat len - 1) + 65536" using assms(1) by simp
  have "(unat len - 1) div 65536 + 1 = (unat len + 65535) div 65536" unfolding e by simp
  moreover have "(unat len + 65535) div 65536 < 65536" using assms(2) by (intro less_mult_imp_div_less) simp
  ultimately show ?thesis
    by (simp add: charge_for_def unsigned_ucast_eq unat_word_ariths unat_div take_bit_nat_eq_self)
qed

theorem charge_for_ceiling_witness: "unat (charge_for 65537) = 2"
  using charge_for_ceiling [of 65537] by simp

definition sample_write :: smb2_write_request where
  "sample_write = \<lparr>wrq_data_offset = 0, wrq_length = 1, wrq_offset = 9, wrq_buf = Some [7], wrq_file_id = replicate 16 3,
     wrq_channel = 0, wrq_remaining_bytes = 0, wrq_write_channel_info_offset = 0, wrq_write_channel_info_length = 0,
     wrq_write_channel_info = None, wrq_flags = 1\<rparr>"

theorem write_roundtrip_witness:
  "delivers_both (smb2_cmd_write_async zero_context sample_write False 1 2) 48 smb2_process_write_request_fixed
     1 smb2_process_write_request_variable
     (P_write_request (sample_write\<lparr>wrq_data_offset := 112, wrq_write_channel_info_offset := 0, wrq_write_channel_info := Some [7]\<rparr>))"
  using write_roundtrip [of zero_context sample_write "[7]" False 1 2 "\<lparr>wrr_count = 0, wrr_remaining = 0\<rparr>"]
  by (simp add: sample_write_def)

definition sample_lock :: smb2_lock_request where
  "sample_lock = \<lparr>lkq_lock_count = 2, lkq_lock_sequence_number = 3, lkq_lock_sequence_index = 7, lkq_file_id = replicate 16 3,
     lkq_locks = Some [zero_lock, zero_lock\<lparr>lke_length := 8\<rparr>]\<rparr>"

theorem lock_roundtrip_witness:
  "delivers_both (smb2_cmd_lock_async zero_context sample_lock 1 2) 48 smb2_process_lock_request_fixed
    24 smb2_process_lock_request_variable (P_lock_request sample_lock)"
  using lock_roundtrip [of zero_context sample_lock "[zero_lock, zero_lock\<lparr>lke_length := 8\<rparr>]" 1 2]
  by (simp add: sample_lock_def zero_lock_def)

definition sample_read :: smb2_read_request where
  "sample_read = \<lparr>rdq_flags = 0, rdq_length = 100000, rdq_offset = 0, rdq_buf = Some [], rdq_file_id = replicate 16 3,
     rdq_minimum_count = 1, rdq_channel = 0, rdq_remaining_bytes = 0, rdq_read_channel_info_offset = 0,
     rdq_read_channel_info_length = 0, rdq_read_channel_info = None\<rparr>"

theorem read_roundtrip_witness:
  "delivers_both (smb2_cmd_read_reply_async zero_context
     \<lparr>rdr_data_offset = 0, rdr_data_length = 1, rdr_data_remaining = 0, rdr_data = Some [7]\<rparr> 1 2) 16 smb2_process_read_fixed
      1 smb2_process_read_variable
      (P_read_reply \<lparr>rdr_data_offset = 80, rdr_data_length = 1, rdr_data_remaining = 0, rdr_data = Some [7]\<rparr>) \<and>
   rdq_length (limit_read zero_context sample_read) = 65536"
proof -
  have m: "has_memory zero_context" "has_memory (zero_context\<lparr>c_max_read_size := 100000\<rparr>)" by (simp_all add: zero_context_def)
  have l: "limit_read zero_context sample_read = sample_read\<lparr>rdq_length := 64 * 1024, rdq_minimum_count := 0\<rparr>"
    by (simp add: limit_read_def sample_read_def zero_context_def)
  from read_roundtrip [OF m(1) _ _ _ m(2), of sample_read
      "\<lparr>rdr_data_offset = 0, rdr_data_length = 1, rdr_data_remaining = 0, rdr_data = Some [7]\<rparr>" "[7]" 1 2] l
  show ?thesis by (simp add: sample_read_def)
qed

text \<open>A read request that carries channel information is refused whatever its offset field says.\<close>

lemma read_channel_info_refused:
  assumes "get16 (in_buf c) 46 0 \<noteq> 0" "has_memory c"
  shows "fst (smb2_process_read_request_fixed c q) = -1"
  using assms by (simp add: smb2_process_read_request_fixed_def Let_def)

end
