(* ===== verification/Smb2_Cmd_Session.thy ===== *)
theory Smb2_Cmd_Session
  imports Smb2_Codec
begin

text \<open>
  Session setup, change notification and oplock and lease breaks: \<^verbatim>\<open>lib/smb2-cmd-session-setup.c\<close>,
  \<^verbatim>\<open>lib/smb2-cmd-notify-change.c\<close> and \<^verbatim>\<open>lib/smb2-cmd-oplock-break.c\<close>.
\<close>

subsection \<open>Session setup\<close>

definition session_setup_request_fields :: "smb2_session_setup_request \<Rightarrow> bytes \<Rightarrow> bytes" where
  "session_setup_request_fields req =
     set64 16 (ssq_previous_session_id req) \<circ> set16 14 (ssq_security_buffer_length req) \<circ>
     set16 12 (of_nat (SMB2_HEADER_SIZE + 24)) \<circ> set32 8 (ssq_channel req) \<circ> set32 4 (ssq_capabilities req) \<circ>
     set8 3 (ssq_security_mode req) \<circ> set8 2 (ssq_flags req) \<circ> set16 0 25"

definition smb2_encode_session_setup_request ::
  "smb2_context \<Rightarrow> smb2_pdu \<Rightarrow> smb2_session_setup_request \<Rightarrow> int \<times> smb2_context \<times> smb2_pdu" where
  "smb2_encode_session_setup_request c pdu req =
     and_then (encode_fixed ''Failed to allocate session setup buffer''
                 ''Failed to add iovector for session setup request'' 24 (session_setup_request_fields req) c pdu)
       (\<lambda>c pdu. let n = unat (ssq_security_buffer_length req) in
          encode_buffer ''Failed to allocate secbuf'' ''Failed to add iovector for session setup security buffer''
            n (copy_bytes c n (ssq_security_buffer req)) c pdu)"

definition smb2_cmd_session_setup_async ::
  "smb2_context \<Rightarrow> smb2_session_setup_request \<Rightarrow> nat \<Rightarrow> nat \<Rightarrow> smb2_context \<times> smb2_pdu option" where
  "smb2_cmd_session_setup_async c req =
     cmd_pdu SMB2_SESSION_SETUP (\<lambda>c pdu. smb2_encode_session_setup_request c pdu req) c"

definition session_setup_reply_fields :: "smb2_session_setup_reply \<Rightarrow> bytes \<Rightarrow> bytes" where
  "session_setup_reply_fields rep =
     set16 6 (ssr_security_buffer_length rep) \<circ> set16 4 (of_nat (8 + SMB2_HEADER_SIZE)) \<circ>
     set16 2 (ssr_session_flags rep) \<circ> set16 0 9"

text \<open>A buffer padded with zeroes to four bytes.\<close>

definition padded32 :: "smb2_context \<Rightarrow> u32 \<Rightarrow> bytes option \<Rightarrow> bytes" where
  "padded32 c n src = copy_bytes c (unat n) src @ replicate (unat (PAD_TO_32BIT n) - unat n) 0"

definition smb2_encode_session_setup_reply ::
  "smb2_context \<Rightarrow> smb2_pdu \<Rightarrow> smb2_session_setup_reply \<Rightarrow> int \<times> smb2_context \<times> smb2_pdu" where
  "smb2_encode_session_setup_reply c pdu rep =
     and_then (encode_fixed ''Failed to allocate session_setup buffer''
                 ''Failed to add iovector for session setup reply'' 8 (session_setup_reply_fields rep) c pdu)
       (\<lambda>c pdu. let n = ucast (ssr_security_buffer_length rep) in
          if n = 0 then (0, c, pdu)
          else encode_buffer ''Failed to allocate secbuf'' ''Failed to add iovector for session setup reply buffer''
                 (unat (PAD_TO_32BIT n)) (padded32 c n (ssr_security_buffer rep)) c pdu)"

definition smb2_cmd_session_setup_reply_async ::
  "smb2_context \<Rightarrow> smb2_session_setup_reply \<Rightarrow> nat \<Rightarrow> nat \<Rightarrow> smb2_context \<times> smb2_pdu option" where
  "smb2_cmd_session_setup_reply_async c rep =
     cmd_pdu SMB2_SESSION_SETUP (\<lambda>c pdu. smb2_encode_session_setup_reply c pdu rep) c"

text \<open>\<open>IOV_OFFSET_SESSION\<close>\<close>

definition session_offset :: "smb2_session_setup_reply \<Rightarrow> int" where
  "session_offset rep = int (unat (ssr_security_buffer_offset rep)) - 72"

text \<open>The bound uses the low 16 bits of the length of the message.\<close>

definition smb2_process_session_setup_fixed :: decoder where
  "smb2_process_session_setup_fixed =
     process_fixed ''Unexpected size of Session Setup reply. Expected %d, got %d''
       ''Failed to allocate session setup reply'' 9 16
       (\<lambda>c pdu.
          let b = in_buf c; j = ucast (c_junk c);
              rep = \<lparr>ssr_session_flags = get16 b 2 j, ssr_security_buffer_length = get16 b 6 j,
                     ssr_security_buffer_offset = get16 b 4 j, ssr_security_buffer = None\<rparr>;
              off = unat (ssr_security_buffer_offset rep); len = unat (ssr_security_buffer_length rep)
          in if len \<noteq> 0 \<and> off + len > unat (ucast (c_spl c) :: u16)
             then (-1, smb2_set_error ''Security buffer extends beyond end of PDU'' c, pdu\<lparr>p_payload := None\<rparr>)
             else
               (let c = c\<lparr>c_session_id := h_session_id (c_hdr c)\<rparr> in
                if len = 0 then (0, c, set_payload (P_session_setup_reply rep) pdu)
                else if off < SMB2_HEADER_SIZE + 8
                then (-1, smb2_set_error ''Security buffer overlaps with Session Setup reply header'' c, pdu\<lparr>p_payload := None\<rparr>)
                else (session_offset rep + int len, c, set_payload (P_session_setup_reply rep) pdu)))"

definition smb2_process_session_setup_variable :: decoder where
  "smb2_process_session_setup_variable c pdu =
     (case p_payload pdu of
        Some (P_session_setup_reply rep) \<Rightarrow>
          (0, c, set_payload (P_session_setup_reply (rep\<lparr>ssr_security_buffer :=
             Some (drop (nat (session_offset rep)) (in_buf c))\<rparr>)) pdu)
      | _ \<Rightarrow> (0, c, pdu))"

definition smb2_process_session_setup_request_fixed :: decoder where
  "smb2_process_session_setup_request_fixed =
     process_fixed ''Unexpected size of Session setup request. Expected %d, got %d''
       ''Failed to allocate session setup request'' 25 40
       (\<lambda>c pdu.
          let b = in_buf c; j = c_junk c;
              req = \<lparr>ssq_flags = get8 b 2 (ucast j), ssq_security_mode = get8 b 3 (ucast j),
                     ssq_capabilities = get32 b 4 (ucast j), ssq_channel = get32 b 8 (ucast j),
                     ssq_previous_session_id = get64 b 18 j,
                     ssq_security_buffer_length = get16 b 14 (ucast j), ssq_security_buffer = None\<rparr>
          in (int (unat (ssq_security_buffer_length req)), c, set_payload (P_session_setup_request req) pdu))"

definition smb2_process_session_setup_request_variable :: decoder where
  "smb2_process_session_setup_request_variable c pdu =
     (case p_payload pdu of
        Some (P_session_setup_request req) \<Rightarrow>
          (0, c, set_payload (P_session_setup_request (req\<lparr>ssq_security_buffer := Some (in_buf c)\<rparr>)) pdu)
      | _ \<Rightarrow> (0, c, pdu))"

subsection \<open>Change notification\<close>

definition change_notify_request_fields :: "smb2_change_notify_request \<Rightarrow> bytes \<Rightarrow> bytes" where
  "change_notify_request_fields req =
     set32 24 (cnq_completion_filter req) \<circ> put_at 8 (cnq_file_id req) \<circ> set32 4 (cnq_output_buffer_length req) \<circ>
     set16 2 (cnq_flags req) \<circ> set16 0 32"

definition smb2_encode_change_notify_request ::
  "smb2_context \<Rightarrow> smb2_pdu \<Rightarrow> smb2_change_notify_request \<Rightarrow> int \<times> smb2_context \<times> smb2_pdu" where
  "smb2_encode_change_notify_request c pdu req =
     encode_fixed ''Failed to allocate change-notify buffer''
       ''Failed to add iovector for change-notify request'' 32 (change_notify_request_fields req) c pdu"

definition smb2_cmd_change_notify_async ::
  "smb2_context \<Rightarrow> smb2_change_notify_request \<Rightarrow> nat \<Rightarrow> nat \<Rightarrow> smb2_context \<times> smb2_pdu option" where
  "smb2_cmd_change_notify_async c req =
     cmd_pdu SMB2_CHANGE_NOTIFY (\<lambda>c pdu. smb2_encode_change_notify_request c pdu req) c"

text \<open>The offset that the code writes is that of a buffer after the request structure.\<close>

definition change_notify_reply_fields :: "smb2_change_notify_reply \<Rightarrow> bytes \<Rightarrow> bytes" where
  "change_notify_reply_fields rep =
     set32 4 (cnr_output_buffer_length rep) \<circ> set16 2 (of_nat (SMB2_HEADER_SIZE + 32)) \<circ> set16 0 9"

definition smb2_encode_change_notify_reply ::
  "smb2_context \<Rightarrow> smb2_pdu \<Rightarrow> smb2_change_notify_reply \<Rightarrow> int \<times> smb2_context \<times> smb2_pdu" where
  "smb2_encode_change_notify_reply c pdu rep =
     and_then (encode_fixed ''Failed to allocate change-notify reply buffer''
                 ''Failed to add iovector for change-notify reply'' 8 (change_notify_reply_fields rep) c pdu)
       (\<lambda>c pdu. let n = cnr_output_buffer_length rep in
          if n = 0 then (0, c, pdu)
          else and_then
            (encode_buffer ''Failed to allocate output buf'' ''Failed to add iovector for change-notify output buffer''
               (unat (PAD_TO_32BIT n)) (copy_bytes c (unat n) (cnr_output rep)) c pdu)
            (\<lambda>c pdu. if c_passthrough c then (0, c, pdu)
                      else (-1, smb2_set_error ''Change-notify buffer packing not implemented'' c, pdu)))"

definition smb2_cmd_change_notify_reply_async ::
  "smb2_context \<Rightarrow> smb2_change_notify_reply \<Rightarrow> nat \<Rightarrow> nat \<Rightarrow> smb2_context \<times> smb2_pdu option" where
  "smb2_cmd_change_notify_reply_async c rep =
     cmd_pdu SMB2_CHANGE_NOTIFY (\<lambda>c pdu. smb2_encode_change_notify_reply c pdu rep) c"

definition smb2_process_change_notify_fixed :: decoder where
  "smb2_process_change_notify_fixed =
     process_fixed ''Unexpected size of change notify reply. Expected %d, got %d''
       ''Failed to allocate change-notify reply'' 9 16
       (\<lambda>c pdu.
          let b = in_buf c; j = ucast (c_junk c);
              rep = \<lparr>cnr_output_buffer_offset = get16 b 2 (ucast j), cnr_output_buffer_length = get32 b 4 j, cnr_output = None\<rparr>
          in (sint (cnr_output_buffer_length rep), c, set_payload (P_change_notify_reply rep) pdu))"

definition smb2_process_change_notify_variable :: decoder where
  "smb2_process_change_notify_variable c pdu =
     (case p_payload pdu of
        Some (P_change_notify_reply rep) \<Rightarrow>
          (0, c, set_payload (P_change_notify_reply (rep\<lparr>cnr_output := Some (in_buf c)\<rparr>)) pdu)
      | _ \<Rightarrow> (0, c, pdu))"

text \<open>\<open>output_buffer_length\<close> is not read.\<close>

definition smb2_process_change_notify_request_fixed :: decoder where
  "smb2_process_change_notify_request_fixed =
     process_fixed ''Unexpected size of change notify request. Expected %d, got %d''
       ''Failed to allocate change-notify request'' 32 28
       (\<lambda>c pdu. let b = in_buf c; j = ucast (c_junk c) in
         (0, c, set_payload (P_change_notify_request \<lparr>cnq_flags = get16 b 2 (ucast j), cnq_output_buffer_length = j,
            cnq_file_id = get_at 8 SMB2_FD_SIZE b, cnq_completion_filter = get32 b 24 j\<rparr>) pdu))"

subsection \<open>Oplock breaks\<close>

definition oplock_break_fields :: "smb2_oplock_break \<Rightarrow> bytes \<Rightarrow> bytes" where
  "oplock_break_fields r = put_at 8 (opb_file_id r) \<circ> set8 2 (opb_oplock_level r) \<circ> set16 0 24"

definition smb2_encode_oplock_break_acknowledgement ::
  "smb2_context \<Rightarrow> smb2_pdu \<Rightarrow> smb2_oplock_break \<Rightarrow> int \<times> smb2_context \<times> smb2_pdu" where
  "smb2_encode_oplock_break_acknowledgement c pdu req =
     encode_fixed ''Failed to allocate oplock request buffer'' ''Failed to add iovector for oplock break ack''
       24 (oplock_break_fields req) c pdu"

definition smb2_cmd_oplock_break_async ::
  "smb2_context \<Rightarrow> smb2_oplock_break \<Rightarrow> nat \<Rightarrow> nat \<Rightarrow> smb2_context \<times> smb2_pdu option" where
  "smb2_cmd_oplock_break_async c req =
     cmd_pdu SMB2_OPLOCK_BREAK (\<lambda>c pdu. smb2_encode_oplock_break_acknowledgement c pdu req) c"

definition smb2_encode_oplock_break_reply ::
  "smb2_context \<Rightarrow> smb2_pdu \<Rightarrow> smb2_oplock_break \<Rightarrow> int \<times> smb2_context \<times> smb2_pdu" where
  "smb2_encode_oplock_break_reply c pdu rep =
     encode_fixed ''Failed to allocate oplock reply buffer'' ''Failed to add iovector for oplock break reply''
       24 (oplock_break_fields rep) c pdu"

definition smb2_cmd_oplock_break_reply_async ::
  "smb2_context \<Rightarrow> smb2_oplock_break \<Rightarrow> nat \<Rightarrow> nat \<Rightarrow> smb2_context \<times> smb2_pdu option" where
  "smb2_cmd_oplock_break_reply_async c rep =
     cmd_pdu SMB2_OPLOCK_BREAK (\<lambda>c pdu. smb2_encode_oplock_break_reply c pdu rep) c"

definition smb2_encode_oplock_break_notification ::
  "smb2_context \<Rightarrow> smb2_pdu \<Rightarrow> smb2_oplock_break \<Rightarrow> int \<times> smb2_context \<times> smb2_pdu" where
  "smb2_encode_oplock_break_notification c pdu rep =
     encode_fixed ''Failed to allocate oplock reply buffer'' ''Failed to add iovector for oplock break notification''
       24 (oplock_break_fields rep) c pdu"

definition smb2_cmd_oplock_break_notification_async ::
  "smb2_context \<Rightarrow> smb2_oplock_break \<Rightarrow> nat \<Rightarrow> nat \<Rightarrow> smb2_context \<times> smb2_pdu option" where
  "smb2_cmd_oplock_break_notification_async c rep =
     cmd_pdu SMB2_OPLOCK_BREAK (\<lambda>c pdu. smb2_encode_oplock_break_notification c pdu rep) c"

subsection \<open>Lease breaks\<close>

text \<open>The acknowledgement and the notification store their last members at offset 4 of the structure.\<close>

definition lease_break_ack_fields :: "smb2_lease_break \<Rightarrow> bytes \<Rightarrow> bytes" where
  "lease_break_ack_fields req =
     set32 4 (ucast (lsb_lease_duration req)) \<circ> set32 4 (lsb_lease_state req) \<circ> put_at 8 (lsb_lease_key req) \<circ>
     set32 4 (lsb_flags req) \<circ> set16 0 36"

definition smb2_encode_lease_break_acknowledgement ::
  "smb2_context \<Rightarrow> smb2_pdu \<Rightarrow> smb2_lease_break \<Rightarrow> int \<times> smb2_context \<times> smb2_pdu" where
  "smb2_encode_lease_break_acknowledgement c pdu req =
     encode_fixed ''Failed to allocate lease notification buffer'' ''Failed to add iovector for lease break ack''
       36 (lease_break_ack_fields req) c pdu"

definition smb2_cmd_lease_break_async ::
  "smb2_context \<Rightarrow> smb2_lease_break \<Rightarrow> nat \<Rightarrow> nat \<Rightarrow> smb2_context \<times> smb2_pdu option" where
  "smb2_cmd_lease_break_async c req =
     cmd_pdu SMB2_OPLOCK_BREAK (\<lambda>c pdu. smb2_encode_lease_break_acknowledgement c pdu req) c"

definition lease_break_reply_fields :: "smb2_lease_break \<Rightarrow> bytes \<Rightarrow> bytes" where
  "lease_break_reply_fields rep =
     set32 28 (ucast (lsb_lease_duration rep)) \<circ> set32 24 (lsb_lease_state rep) \<circ> put_at 8 (lsb_lease_key rep) \<circ>
     set32 4 (lsb_flags rep) \<circ> set16 0 36"

definition smb2_encode_lease_break_reply ::
  "smb2_context \<Rightarrow> smb2_pdu \<Rightarrow> smb2_lease_break \<Rightarrow> int \<times> smb2_context \<times> smb2_pdu" where
  "smb2_encode_lease_break_reply c pdu rep =
     encode_fixed ''Failed to allocate lease-break reply buffer'' ''Failed to add iovector for lease break reply''
       36 (lease_break_reply_fields rep) c pdu"

definition smb2_cmd_lease_break_reply_async ::
  "smb2_context \<Rightarrow> smb2_lease_break \<Rightarrow> nat \<Rightarrow> nat \<Rightarrow> smb2_context \<times> smb2_pdu option" where
  "smb2_cmd_lease_break_reply_async c rep =
     cmd_pdu SMB2_OPLOCK_BREAK (\<lambda>c pdu. smb2_encode_lease_break_reply c pdu rep) c"

definition lease_break_notification_fields :: "smb2_lease_break_notification \<Rightarrow> bytes \<Rightarrow> bytes" where
  "lease_break_notification_fields req =
     set32 4 (lbn_share_mask_hint req) \<circ> set32 4 (lbn_access_mask_hint req) \<circ> set32 4 (lbn_break_reason req) \<circ>
     set32 4 (lbn_new_lease_state req) \<circ> set32 4 (lbn_current_lease_state req) \<circ> put_at 8 (lbn_lease_key req) \<circ>
     set32 4 (lbn_flags req) \<circ> set16 2 (lbn_new_epoch req) \<circ> set16 0 44"

definition smb2_encode_lease_break_notification ::
  "smb2_context \<Rightarrow> smb2_pdu \<Rightarrow> smb2_lease_break_notification \<Rightarrow> int \<times> smb2_context \<times> smb2_pdu" where
  "smb2_encode_lease_break_notification c pdu req =
     encode_fixed ''Failed to allocate lease notification buffer'' ''Failed to add iovector for lease break notification''
       44 (lease_break_notification_fields req) c pdu"

definition smb2_cmd_lease_break_notification_async ::
  "smb2_context \<Rightarrow> smb2_lease_break_notification \<Rightarrow> nat \<Rightarrow> nat \<Rightarrow> smb2_context \<times> smb2_pdu option" where
  "smb2_cmd_lease_break_notification_async c req =
     cmd_pdu SMB2_OPLOCK_BREAK (\<lambda>c pdu. smb2_encode_lease_break_notification c pdu req) c"

subsection \<open>Receiving a break\<close>

text \<open>The fixed part is only the structure size; the break type is set by the second stage.\<close>

definition break_of_size :: "smb2_context \<Rightarrow> smb2_oplock_or_lease_break" where
  "break_of_size c = \<lparr>olb_struct_size = in_size c, olb_break_type = unat (c_junk c), olb_lock = Lock_unset\<rparr>"

definition smb2_process_oplock_break_fixed :: decoder where
  "smb2_process_oplock_break_fixed c pdu =
     (if \<not> c_mem_ok c 48 then (-1, smb2_set_error ''Failed to allocate oplock-or lease break reply'' c, pdu)
      else if in_size c = 24 \<or> in_size c = 44 \<or> in_size c = 36
      then (int (unat (in_size c)) - 2, c, set_payload (P_break (break_of_size c)) pdu)
      else (-1, smb2_set_error ''Unexpected size of oplock or lease break noiify/reply. Expected %d or %d, got %d'' c,
            pdu\<lparr>p_payload := None\<rparr>))"

definition get_oplock :: "bytes \<Rightarrow> u64 \<Rightarrow> break_lock" where
  "get_oplock b j = Lock_oplock \<lparr>opb_oplock_level = get8 b 0 (ucast j), opb_file_id = get_at 6 SMB2_FD_SIZE b\<rparr>"

definition get_lease :: "bytes \<Rightarrow> u64 \<Rightarrow> break_lock" where
  "get_lease b j = Lock_lease \<lparr>lsb_flags = get32 b 2 (ucast j), lsb_lease_key = get_at 6 16 b,
     lsb_lease_state = get32 b 22 (ucast j), lsb_lease_duration = get64 b 26 j\<rparr>"

definition get_lease_notification :: "bytes \<Rightarrow> u64 \<Rightarrow> break_lock" where
  "get_lease_notification b j = Lock_lease_notification \<lparr>lbn_new_epoch = get16 b 0 (ucast j), lbn_flags = get32 b 2 (ucast j),
     lbn_lease_key = get_at 6 16 b, lbn_current_lease_state = get32 b 22 (ucast j), lbn_new_lease_state = get32 b 26 (ucast j),
     lbn_break_reason = get32 b 30 (ucast j), lbn_access_mask_hint = get32 b 34 (ucast j),
     lbn_share_mask_hint = get32 b 38 (ucast j)\<rparr>"

text \<open>Break types 1 to 6 are \<open>SMB2_BREAK_TYPE_OPLOCK_NOTIFICATION\<close>, \<open>OPLOCK_RESPONSE\<close>, \<open>OPLOCK_ACKNOWLEDGE\<close>,
  \<open>LEASE_NOTIFICATION\<close>, \<open>LEASE_RESPONSE\<close> and \<open>LEASE_ACKNOWLEDGE\<close>.\<close>

definition smb2_process_oplock_break_variable :: decoder where
  "smb2_process_oplock_break_variable c pdu =
     (case p_payload pdu of
        Some (P_break rep) \<Rightarrow>
          (let b = in_buf c; j = c_junk c; s = olb_struct_size rep in
           if s = 24
           then (0, c, set_payload (P_break (rep\<lparr>olb_break_type := (if h_message_id (c_hdr c) = 0xffffffffffffffff then 1 else 2),
                   olb_lock := get_oplock b j\<rparr>)) pdu)
           else if s = 44 then (0, c, set_payload (P_break (rep\<lparr>olb_break_type := 4, olb_lock := get_lease_notification b j\<rparr>)) pdu)
           else if s = 36 then (0, c, set_payload (P_break (rep\<lparr>olb_break_type := 5, olb_lock := get_lease b j\<rparr>)) pdu)
           else (-1, c, pdu))
      | _ \<Rightarrow> (-1, c, pdu))"

definition smb2_process_oplock_break_request_fixed :: decoder where
  "smb2_process_oplock_break_request_fixed c pdu =
     (if \<not> c_mem_ok c 40 then (-1, smb2_set_error ''Failed to allocate oplock-lease-break request'' c, pdu)
      else if in_size c = 24 \<or> in_size c = 36
      then (int (unat (in_size c)) - 2, c, set_payload (P_break (break_of_size c)) pdu)
      else (-1, smb2_set_error ''Unexpected size of oplock or lease break acknowledge. Expected %d or %d, got %d'' c,
            pdu\<lparr>p_payload := None\<rparr>))"

definition smb2_process_oplock_break_request_variable :: decoder where
  "smb2_process_oplock_break_request_variable c pdu =
     (case p_payload pdu of
        Some (P_break req) \<Rightarrow>
          (let b = in_buf c; j = c_junk c; s = olb_struct_size req in
           if s = 24 then (0, c, set_payload (P_break (req\<lparr>olb_break_type := 3, olb_lock := get_oplock b j\<rparr>)) pdu)
           else if s = 36 then (0, c, set_payload (P_break (req\<lparr>olb_break_type := 6, olb_lock := get_lease b j\<rparr>)) pdu)
           else (-1, c, pdu))
      | _ \<Rightarrow> (-1, c, pdu))"

subsection \<open>The fields on the wire\<close>

lemma session_setup_request_bytes:
  "session_setup_request_fields r (replicate 24 0) = le16 25 @ [ssq_flags r, ssq_security_mode r] @ le32 (ssq_capabilities r) @
     le32 (ssq_channel r) @ le16 88 @ le16 (ssq_security_buffer_length r) @ le64 (ssq_previous_session_id r)"
  by (simp add: session_setup_request_fields_def field_io)

lemma session_setup_reply_bytes:
  "session_setup_reply_fields r (replicate 8 0) = le16 9 @ le16 (ssr_session_flags r) @ le16 72 @ le16 (ssr_security_buffer_length r)"
  by (simp add: session_setup_reply_fields_def field_io)

lemma change_notify_request_bytes:
  "length (cnq_file_id r) = 16 \<Longrightarrow> change_notify_request_fields r (replicate 32 0) = le16 32 @ le16 (cnq_flags r) @
     le32 (cnq_output_buffer_length r) @ cnq_file_id r @ le32 (cnq_completion_filter r) @ replicate 4 0"
  by (simp add: change_notify_request_fields_def field_io)

lemma oplock_break_bytes:
  "length (opb_file_id r) = 16 \<Longrightarrow> oplock_break_fields r (replicate 24 0) =
     le16 24 @ [opb_oplock_level r] @ replicate 5 0 @ opb_file_id r"
  by (simp add: oplock_break_fields_def field_io)

lemma lease_break_reply_bytes:
  "length (lsb_lease_key r) = 16 \<Longrightarrow> lease_break_reply_fields r (replicate 36 0) =
     le16 36 @ replicate 2 0 @ le32 (lsb_flags r) @ lsb_lease_key r @ le32 (lsb_lease_state r) @
     le32 (ucast (lsb_lease_duration r)) @ replicate 4 0"
  by (simp add: lease_break_reply_fields_def field_io)

lemma session_setup_request_sent:
  assumes "has_memory c" "ssq_security_buffer req = Some blob" "length blob = unat (ssq_security_buffer_length req)"
  shows "\<exists>c' p. smb2_cmd_session_setup_async c req cb cb_data = (c', Some p) \<and>
    get_at 64 24 (vec_bytes (p_out p)) = session_setup_request_fields req (replicate 24 0) \<and>
    get_at (64 + 24) (length blob) (vec_bytes (p_out p)) = blob \<and> 64 + 24 + length blob \<le> iov_len (p_out p)"
  unfolding smb2_cmd_session_setup_async_def
  by (rule cmd_pdu_slices [where trail = "[]"])
     (use assms in \<open>simp_all add: smb2_encode_session_setup_request_def encode_steps fresh_room session_setup_request_bytes Let_def\<close>)

lemma session_setup_reply_sent:
  assumes "has_memory c" "ssr_security_buffer rep = Some blob" "length blob = unat (ssr_security_buffer_length rep)" "blob \<noteq> []"
  shows "\<exists>c' p. smb2_cmd_session_setup_reply_async c rep cb cb_data = (c', Some p) \<and>
    get_at 64 8 (vec_bytes (p_out p)) = session_setup_reply_fields rep (replicate 8 0) \<and>
    get_at (64 + 8) (length blob) (vec_bytes (p_out p)) = blob \<and> 64 + 8 + length blob \<le> iov_len (p_out p)"
proof -
  let ?n = "ucast (ssr_security_buffer_length rep) :: u32"
  have "unat ?n = unat (ssr_security_buffer_length rep)" by simp
  then have n: "unat ?n = length blob" using assms(3) by simp
  then have n0: "?n \<noteq> 0" using assms(4) by (intro notI) simp
  have p: "padded32 c' ?n (ssr_security_buffer rep) = blob @ replicate (unat (PAD_TO_32BIT ?n) - length blob) 0" for c'
    using n assms(2) by (simp add: padded32_def)
  show ?thesis unfolding smb2_cmd_session_setup_reply_async_def
    by (rule cmd_pdu_slices [where trail = "replicate (unat (PAD_TO_32BIT ?n) - length blob) 0"])
       (use assms(1) n0 p in \<open>simp_all add: smb2_encode_session_setup_reply_def encode_steps fresh_room session_setup_reply_bytes Let_def\<close>)
qed

text \<open>C24. Session setup: a request's security blob reaches the server whole with every other member of the request
  except the previous session id, which the server does not find where the client puts it; a reply's blob
  reaches a client whose message holds it, and the client takes over the session id of the reply's header.\<close>

theorem session_setup_roundtrip:
  assumes "has_memory c" "ssq_security_buffer req = Some blob" "length blob = unat (ssq_security_buffer_length req)"
    "ssr_security_buffer rep = Some blob'" "length blob' = unat (ssr_security_buffer_length rep)" "blob' \<noteq> []"
    "has_memory d" "72 + length blob' \<le> unat (ucast (c_spl d) :: u16)"
  shows "(\<exists>c' p d1 q1. smb2_cmd_session_setup_async c req cb cb_data = (c', Some p) \<and>
      smb2_process_session_setup_request_fixed (receiving (get_at 64 24 (vec_bytes (p_out p))) d) q =
        (int (length blob), d1, q1) \<and>
      snd (snd (smb2_process_session_setup_request_variable (receiving (get_at 88 (length blob) (vec_bytes (p_out p))) d1) q1)) =
        set_payload (P_session_setup_request (req\<lparr>ssq_previous_session_id := c_junk d\<rparr>)) q) \<and>
    (\<exists>c' p d1 q1. smb2_cmd_session_setup_reply_async c rep cb cb_data = (c', Some p) \<and>
      smb2_process_session_setup_fixed (receiving (get_at 64 8 (vec_bytes (p_out p))) d) q = (int (length blob'), d1, q1) \<and>
      c_session_id d1 = h_session_id (c_hdr d) \<and>
      snd (snd (smb2_process_session_setup_variable (receiving (get_at 72 (length blob') (vec_bytes (p_out p))) d1) q1)) =
        set_payload (P_session_setup_reply (rep\<lparr>ssr_security_buffer_offset := 72\<rparr>)) q)"
proof
  let ?a = "session_setup_request_fields req (replicate 24 0)"
  from session_setup_request_sent [OF assms(1-3), of cb cb_data] obtain c' p where
    p: "smb2_cmd_session_setup_async c req cb cb_data = (c', Some p)" "get_at 64 24 (vec_bytes (p_out p)) = ?a"
    "get_at 88 (length blob) (vec_bytes (p_out p)) = blob" by auto
  have "get64 ?a 18 (c_junk d) = c_junk d" unfolding session_setup_request_bytes by (simp add: get_defs)
  then have "smb2_process_session_setup_request_fixed (receiving ?a d) q = (int (length blob), receiving ?a d, set_payload
      (P_session_setup_request (req\<lparr>ssq_previous_session_id := c_junk d, ssq_security_buffer := None\<rparr>)) q)"
    unfolding session_setup_request_bytes using assms(3,7)
    by (cases req) (simp add: smb2_process_session_setup_request_fixed_def process_fixed_ok in_size_def Let_def field_io)
  with p assms(2) show "\<exists>c' p d1 q1. smb2_cmd_session_setup_async c req cb cb_data = (c', Some p) \<and>
      smb2_process_session_setup_request_fixed (receiving (get_at 64 24 (vec_bytes (p_out p))) d) q =
        (int (length blob), d1, q1) \<and>
      snd (snd (smb2_process_session_setup_request_variable (receiving (get_at 88 (length blob) (vec_bytes (p_out p))) d1) q1)) =
        set_payload (P_session_setup_request (req\<lparr>ssq_previous_session_id := c_junk d\<rparr>)) q"
    by (cases req) (simp add: smb2_process_session_setup_request_variable_def set_payload_def)
next
  let ?a = "session_setup_reply_fields rep (replicate 8 0)"
  from session_setup_reply_sent [OF assms(1,4-6), of cb cb_data] obtain c' p where
    p: "smb2_cmd_session_setup_reply_async c rep cb cb_data = (c', Some p)" "get_at 64 8 (vec_bytes (p_out p)) = ?a"
    "get_at 72 (length blob') (vec_bytes (p_out p)) = blob'" by auto
  define e where "e = (receiving ?a d)\<lparr>c_session_id := h_session_id (c_hdr d)\<rparr>"
  have [simp]: "c_spl (receiving x d) = c_spl d" "c_hdr (receiving x d) = c_hdr d" for x by (simp_all add: receiving_def)
  have "smb2_process_session_setup_fixed (receiving ?a d) q = (int (length blob'), e, set_payload
      (P_session_setup_reply (rep\<lparr>ssr_security_buffer_offset := 72, ssr_security_buffer := None\<rparr>)) q)"
    unfolding session_setup_reply_bytes e_def using assms(5-8)
    by (cases rep) (auto simp: smb2_process_session_setup_fixed_def process_fixed_ok in_size_def Let_def session_offset_def field_io)
  moreover have "c_session_id e = h_session_id (c_hdr d)" by (simp add: e_def)
  ultimately show "\<exists>c' p d1 q1. smb2_cmd_session_setup_reply_async c rep cb cb_data = (c', Some p) \<and>
      smb2_process_session_setup_fixed (receiving (get_at 64 8 (vec_bytes (p_out p))) d) q = (int (length blob'), d1, q1) \<and>
      c_session_id d1 = h_session_id (c_hdr d) \<and>
      snd (snd (smb2_process_session_setup_variable (receiving (get_at 72 (length blob') (vec_bytes (p_out p))) d1) q1)) =
        set_payload (P_session_setup_reply (rep\<lparr>ssr_security_buffer_offset := 72\<rparr>)) q"
    using p assms(4) by (cases rep) (simp add: smb2_process_session_setup_variable_def set_payload_def session_offset_def)
qed

theorem session_setup_roundtrip_witness:
  "\<exists>c' p d1 q1. smb2_cmd_session_setup_reply_async zero_context
       \<lparr>ssr_session_flags = 1, ssr_security_buffer_length = 1, ssr_security_buffer_offset = 0, ssr_security_buffer = Some [7]\<rparr> 1 2 = (c', Some p) \<and>
     smb2_process_session_setup_fixed (receiving (get_at 64 8 (vec_bytes (p_out p))) (zero_context\<lparr>c_spl := 100\<rparr>)) zero_pdu = (1, d1, q1)"
proof -
  have m: "has_memory zero_context" "has_memory (zero_context\<lparr>c_spl := 100\<rparr>)" by (simp_all add: zero_context_def)
  from session_setup_roundtrip [OF m(1) _ _ _ _ _ m(2), where blob = "[3]" and blob' = "[7]" and cb = 1 and cb_data = 2 and q = zero_pdu
    and req = "\<lparr>ssq_flags = 0, ssq_security_mode = 1, ssq_capabilities = 0, ssq_channel = 0, ssq_previous_session_id = 0,
      ssq_security_buffer_length = 1, ssq_security_buffer = Some [3]\<rparr>"
    and rep = "\<lparr>ssr_session_flags = 1, ssr_security_buffer_length = 1, ssr_security_buffer_offset = 0, ssr_security_buffer = Some [7]\<rparr>"]
  show ?thesis by auto
qed

text \<open>Breaks are received in two stages: the structure size, then the rest.\<close>

lemma oplock_break_sent:
  assumes "has_memory c" "length (opb_file_id req) = 16"
  shows "delivers_both (smb2_cmd_oplock_break_async c req cb cb_data) 2 smb2_process_oplock_break_request_fixed
    22 smb2_process_oplock_break_request_variable
    (P_break \<lparr>olb_struct_size = 24, olb_break_type = 3, olb_lock = Lock_oplock req\<rparr>)"
  unfolding smb2_cmd_oplock_break_async_def
  by (rule delivers_both_cmd_dep [where a = "le16 24" and b = "[opb_oplock_level req] @ replicate 5 0 @ opb_file_id req" and trail = "[]"
        and y = "\<lambda>d. P_break \<lparr>olb_struct_size = 24, olb_break_type = unat (c_junk d), olb_lock = Lock_unset\<rparr>"])
     (use assms in \<open>simp_all add: smb2_encode_oplock_break_acknowledgement_def encode_steps fresh_room oplock_break_bytes
        smb2_process_oplock_break_request_fixed_def smb2_process_oplock_break_request_variable_def break_of_size_def
        in_size_def get_oplock_def set_payload_def field_io\<close>)

lemma le64_small:
  assumes "unat x < 2 ^ 32"
  shows "le32 (ucast x) @ replicate 4 0 = le64 x"
proof -
  define y :: u32 where "y = ucast x"
  have "n < 32" if "bit x n" for n
    using assms that word_less_not_bit [of x 32 n] by (fastforce simp: word_less_nat_alt)
  then have x: "x = ucast y" unfolding y_def by (intro bit_word_eqI) (auto simp: bit_simps)
  have "(ucast (ucast y :: u64) :: u8) = ucast y" "(ucast (drop_bit 8 (ucast y :: u64)) :: u8) = ucast (drop_bit 8 y)"
    "(ucast (drop_bit 16 (ucast y :: u64)) :: u8) = ucast (drop_bit 16 y)" "(ucast (drop_bit 24 (ucast y :: u64)) :: u8) = ucast (drop_bit 24 y)"
    "drop_bit 32 (ucast y :: u64) = 0" "drop_bit 40 (ucast y :: u64) = 0" "drop_bit 48 (ucast y :: u64) = 0" "drop_bit 56 (ucast y :: u64) = 0"
    by (auto intro!: bit_word_eqI simp: bit_simps)
  then show ?thesis unfolding y_def [symmetric] unfolding x by (simp add: le64_def le32_def eval_nat_numeral drop_bit_drop_bit)
qed

lemma lease_break_reply_sent:
  assumes "has_memory c" "length (lsb_lease_key rep) = 16" "unat (lsb_lease_duration rep) < 2 ^ 32"
  shows "delivers_both (smb2_cmd_lease_break_reply_async c rep cb cb_data) 2 smb2_process_oplock_break_fixed
    34 smb2_process_oplock_break_variable
    (P_break \<lparr>olb_struct_size = 36, olb_break_type = 5, olb_lock = Lock_lease rep\<rparr>)"
  unfolding smb2_cmd_lease_break_reply_async_def
  by (rule delivers_both_cmd_dep [where a = "le16 36" and b = "replicate 2 0 @ le32 (lsb_flags rep) @ lsb_lease_key rep @
        le32 (lsb_lease_state rep) @ le32 (ucast (lsb_lease_duration rep)) @ replicate 4 0" and trail = "[]"
        and y = "\<lambda>d. P_break \<lparr>olb_struct_size = 36, olb_break_type = unat (c_junk d), olb_lock = Lock_unset\<rparr>"])
     (use assms in \<open>simp_all add: smb2_encode_lease_break_reply_def encode_steps fresh_room lease_break_reply_bytes
        smb2_process_oplock_break_fixed_def smb2_process_oplock_break_variable_def break_of_size_def
        in_size_def get_lease_def set_payload_def le64_small field_io\<close>)

text \<open>Breaks: an oplock break acknowledgement reaches the server as such, and a lease break response whose
  duration fits 32 bits reaches the client with every member; each is received in two stages, the size
  first, and is told apart from the other kinds of break by it.\<close>

theorem break_roundtrip:
  assumes "has_memory c" "length (opb_file_id req) = 16" "length (lsb_lease_key rep) = 16" "unat (lsb_lease_duration rep) < 2 ^ 32"
  shows "delivers_both (smb2_cmd_oplock_break_async c req cb cb_data) 2 smb2_process_oplock_break_request_fixed
      22 smb2_process_oplock_break_request_variable
      (P_break \<lparr>olb_struct_size = 24, olb_break_type = 3, olb_lock = Lock_oplock req\<rparr>) \<and>
    delivers_both (smb2_cmd_lease_break_reply_async c rep cb cb_data) 2 smb2_process_oplock_break_fixed
      34 smb2_process_oplock_break_variable
      (P_break \<lparr>olb_struct_size = 36, olb_break_type = 5, olb_lock = Lock_lease rep\<rparr>)"
  using oplock_break_sent [OF assms(1,2)] lease_break_reply_sent [OF assms(1,3,4)] by (rule conjI)

theorem break_roundtrip_witness:
  "delivers_both (smb2_cmd_oplock_break_async zero_context \<lparr>opb_oplock_level = 1, opb_file_id = replicate 16 7\<rparr> 1 2) 2
     smb2_process_oplock_break_request_fixed 22 smb2_process_oplock_break_request_variable (P_break \<lparr>olb_struct_size = 24,
     olb_break_type = 3, olb_lock = Lock_oplock \<lparr>opb_oplock_level = 1, opb_file_id = replicate 16 7\<rparr>\<rparr>)"
  using break_roundtrip [of zero_context "\<lparr>opb_oplock_level = 1, opb_file_id = replicate 16 7\<rparr>"
      "\<lparr>lsb_flags = 0, lsb_lease_key = replicate 16 7, lsb_lease_state = 1, lsb_lease_duration = 0\<rparr>" 1 2] by simp

text \<open>A lease break acknowledgement does not carry its lease state: the place of the state stays zero, and the
  flags are overwritten.\<close>

lemma get32_zeros: "off + 4 \<le> n \<Longrightarrow> get32 (replicate n 0) off j = 0"
  by (simp add: get_defs get_at_def)

lemma lease_break_ack_loses_state:
  assumes "length (lsb_lease_key r) = 16"
  shows "get32 (lease_break_ack_fields r (replicate 36 0)) 24 j = 0"
    "get32 (lease_break_ack_fields r (replicate 36 0)) 4 j = ucast (lsb_lease_duration r)"
  using assms by (simp_all add: lease_break_ack_fields_def get32_zeros field_io)

lemma lease_break_notification_loses_states:
  assumes "length (lbn_lease_key r) = 16"
  shows "get32 (lease_break_notification_fields r (replicate 44 0)) 24 j = 0"
    "get32 (lease_break_notification_fields r (replicate 44 0)) 28 j = 0"
    "get32 (lease_break_notification_fields r (replicate 44 0)) 4 j = lbn_share_mask_hint r"
  using assms by (simp_all add: lease_break_notification_fields_def get32_zeros field_io)

text \<open>A server does not learn the output buffer length of a change notification request.\<close>

lemma change_notify_length_lost:
  assumes "has_memory d" "length (cnq_file_id req) = 16"
  shows "let d = receiving (change_notify_request_fields req (replicate 32 0)) d in
    smb2_process_change_notify_request_fixed d q =
      (0, d, set_payload (P_change_notify_request (req\<lparr>cnq_output_buffer_length := ucast (c_junk d)\<rparr>)) q)"
  using assms unfolding change_notify_request_bytes [OF assms(2)]
  by (cases req) (simp add: smb2_process_change_notify_request_fixed_def process_fixed_ok in_size_def field_io Let_def)

end
