(* ===== verification/Smb2_Data.thy ===== *)
theory Smb2_Data
  imports Smb2_Codec Smb2_Unicode
begin

text \<open>
  The data structures inside replies: time stamps (\<^verbatim>\<open>lib/timestamps.c\<close>), information about files
  (\<^verbatim>\<open>lib/smb2-data-file-info.c\<close>) and file systems (\<^verbatim>\<open>lib/smb2-data-filesystem-info.c\<close>), and reparse
  points (\<^verbatim>\<open>lib/smb2-data-reparse-point.c\<close>). The structure that a decoder fills is one that
  \<open>smb2_alloc_init\<close> has zeroed, so a pointer member is \<open>None\<close> until it is set.

  A decoder gets the bytes of the vector and what the structure held before, and returns the C result and
  the structure. An encoder gets the bytes of the vector and returns the C result and the new bytes. The
  locale \<open>info_codec\<close> is the contract between the two that the classes of fixed size keep.
\<close>

subsection \<open>Time stamps\<close>

text \<open>Windows time: units of 100 ns since 1601.\<close>

definition smb2_timeval_to_win :: "smb2_timeval \<Rightarrow> u64" where
  "smb2_timeval_to_win tv =
     word_of_int (tv_sec tv) * 10000000 + 116444736000000000 + word_of_int (tv_usec tv * 10)"

definition smb2_win_to_timeval :: "u64 \<Rightarrow> smb2_timeval" where
  "smb2_win_to_timeval t =
     \<lparr>tv_sec = uint ((t - 116444736000000000) div 10000000), tv_usec = uint ((t div 10) mod 1000000)\<rparr>"

definition smb2_tv_timeval_to_win :: "smb2_timeval \<Rightarrow> u64" where
  "smb2_tv_timeval_to_win tv =
     (if tv_sec tv = 0 \<and> tv_usec tv = 0 then 0
      else if tv_sec tv = 0xffffffff \<and> tv_usec tv = 0xffffffff then 0xffffffffffffffff
      else smb2_timeval_to_win tv)"

text \<open>A time stamp that was decoded from a field which is not there.\<close>

definition get_time :: "bytes \<Rightarrow> nat \<Rightarrow> u64 \<Rightarrow> smb2_timeval" where
  "get_time b off j = smb2_win_to_timeval (get64 b off j)"

definition put_time :: "nat \<Rightarrow> smb2_timeval \<Rightarrow> bytes \<Rightarrow> bytes" where
  "put_time off tv = set64 off (smb2_tv_timeval_to_win tv)"

subsection \<open>Strings\<close>

text \<open>\<open>strlen\<close> and \<open>strcpy\<close> see a C string up to its terminator. \<open>smb2_alloc_data\<close> puts a pointer in front
  of the data.\<close>

definition c_string :: "bytes \<Rightarrow> bytes" where
  "c_string s = takeWhile (\<lambda>b. b \<noteq> 0) s"

definition smb2_alloc_data :: "smb2_context \<Rightarrow> nat \<Rightarrow> smb2_context \<times> bool" where
  "smb2_alloc_data c n =
     (if c_mem_ok c (n + 8) then (c, True) else (smb2_set_error ''Failed to alloc %zu bytes'' c, False))"

text \<open>The UTF-8 form of \<open>n\<close> UTF-16 units at an offset of the vector: \<open>None\<close> when memory for it or for the
  copy of it that is kept runs out. Units behind the end of the vector are whatever is there.\<close>

definition raw_name :: "smb2_context \<Rightarrow> bytes \<Rightarrow> nat \<Rightarrow> nat \<Rightarrow> bytes option" where
  "raw_name c b off n =
     smb2_utf16_to_utf8 (c_mem_ok c) (ucast (c_junk c)) (copy_bytes c (2 * n) (Some (drop off b))) n"

definition keep_name :: "smb2_context \<Rightarrow> bytes \<Rightarrow> smb2_context \<times> bytes option" where
  "keep_name c s =
     (case smb2_alloc_data c (length (c_string s) + 1) of
        (c, ok) \<Rightarrow> (c, if ok then Some (c_string s) else None))"

subsection \<open>Information about files\<close>

definition smb2_decode_file_basic_info :: "smb2_context \<Rightarrow> smb2_file_basic_info \<Rightarrow> bytes \<Rightarrow> int \<times> smb2_file_basic_info" where
  "smb2_decode_file_basic_info c fs b =
     (0, \<lparr>fbi_creation_time = get_time b 0 (c_junk c), fbi_last_access_time = get_time b 8 (get64 b 0 (c_junk c)),
          fbi_last_write_time = get_time b 16 (get64 b 8 (get64 b 0 (c_junk c))),
          fbi_change_time = get_time b 24 (get64 b 16 (get64 b 8 (get64 b 0 (c_junk c)))),
          fbi_file_attributes = get32 b 32 (fbi_file_attributes fs)\<rparr>)"

definition smb2_encode_file_basic_info :: "smb2_file_basic_info \<Rightarrow> bytes \<Rightarrow> int \<times> bytes" where
  "smb2_encode_file_basic_info fs b =
     (40, (set32 36 0 \<circ> set32 32 (fbi_file_attributes fs) \<circ> put_time 24 (fbi_change_time fs) \<circ>
           put_time 16 (fbi_last_write_time fs) \<circ> put_time 8 (fbi_last_access_time fs) \<circ> put_time 0 (fbi_creation_time fs)) b)"

definition smb2_decode_file_standard_info ::
  "smb2_context \<Rightarrow> smb2_file_standard_info \<Rightarrow> bytes \<Rightarrow> int \<times> smb2_file_standard_info" where
  "smb2_decode_file_standard_info c fs b =
     (0, \<lparr>fsi_allocation_size = get64 b 0 (fsi_allocation_size fs), fsi_end_of_file = get64 b 8 (fsi_end_of_file fs),
          fsi_number_of_links = get32 b 16 (fsi_number_of_links fs), fsi_delete_pending = get8 b 20 (fsi_delete_pending fs),
          fsi_directory = get8 b 21 (fsi_directory fs)\<rparr>)"

definition smb2_encode_file_standard_info :: "smb2_file_standard_info \<Rightarrow> bytes \<Rightarrow> int \<times> bytes" where
  "smb2_encode_file_standard_info fs b =
     (24, (set16 22 0 \<circ> set8 21 (fsi_directory fs) \<circ> set8 20 (fsi_delete_pending fs) \<circ> set32 16 (fsi_number_of_links fs) \<circ>
           set64 8 (fsi_end_of_file fs) \<circ> set64 0 (fsi_allocation_size fs)) b)"

definition smb2_decode_file_position_info ::
  "smb2_context \<Rightarrow> smb2_file_position_info \<Rightarrow> bytes \<Rightarrow> int \<times> smb2_file_position_info" where
  "smb2_decode_file_position_info c fs b = (0, \<lparr>fpi_current_byte_offset = get64 b 0 (fpi_current_byte_offset fs)\<rparr>)"

definition smb2_encode_file_position_info :: "smb2_file_position_info \<Rightarrow> bytes \<Rightarrow> int \<times> bytes" where
  "smb2_encode_file_position_info fs b = (8, set64 0 (fpi_current_byte_offset fs) b)"

definition smb2_decode_file_network_open_info ::
  "smb2_context \<Rightarrow> smb2_file_network_open_info \<Rightarrow> bytes \<Rightarrow> int \<times> smb2_file_network_open_info" where
  "smb2_decode_file_network_open_info c fs b =
     (if length b < 56 then (-1, fs)
      else (0, \<lparr>fno_creation_time = get_time b 0 0, fno_last_access_time = get_time b 8 0, fno_last_write_time = get_time b 16 0,
                fno_change_time = get_time b 24 0, fno_allocation_size = get64 b 32 (fno_allocation_size fs),
                fno_end_of_file = get64 b 40 (fno_end_of_file fs), fno_file_attributes = get32 b 48 (fno_file_attributes fs)\<rparr>))"

definition smb2_encode_file_network_open_info :: "smb2_file_network_open_info \<Rightarrow> bytes \<Rightarrow> int \<times> bytes" where
  "smb2_encode_file_network_open_info fs b =
     (if length b < 56 then (-1, b)
      else (56, (set32 52 0 \<circ> set32 48 (fno_file_attributes fs) \<circ> set64 40 (fno_end_of_file fs) \<circ> set64 32 (fno_allocation_size fs) \<circ>
                 put_time 24 (fno_change_time fs) \<circ> put_time 16 (fno_last_write_time fs) \<circ>
                 put_time 8 (fno_last_access_time fs) \<circ> put_time 0 (fno_creation_time fs)) b))"

text \<open>The name is cut where the vector ends.\<close>

definition smb2_decode_file_all_info ::
  "smb2_context \<Rightarrow> smb2_file_all_info \<Rightarrow> bytes \<Rightarrow> int \<times> smb2_context \<times> smb2_file_all_info" where
  "smb2_decode_file_all_info c fs b =
     (if length b < 40 then (-1, c, fs)
      else
        (let fs = fs\<lparr>fai_basic := snd (smb2_decode_file_basic_info c (fai_basic fs) (take 40 b))\<rparr> in
         if length b < 64 then (-1, c, fs)
         else
           (let fs = fs\<lparr>fai_standard := snd (smb2_decode_file_standard_info c (fai_standard fs) (get_at 40 24 b)),
                        fai_index_number := get64 b 64 (fai_index_number fs), fai_ea_size := get32 b 72 (fai_ea_size fs),
                        fai_access_flags := get32 b 76 (fai_access_flags fs),
                        fai_current_byte_offset := get64 b 80 (fai_current_byte_offset fs),
                        fai_mode := get32 b 88 (fai_mode fs), fai_alignment_requirement := get32 b 92 (fai_alignment_requirement fs)\<rparr>
            in if length b < 100 then (-1, c, fs)
               else
                 (let name_len = unat (get32 b 96 0) in
                  if name_len = 0 then (0, c, fs\<lparr>fai_name := None\<rparr>)
                  else
                    (let name_len = min name_len (length b - 100) in
                     case raw_name c b 100 (name_len div 2) of
                       None \<Rightarrow> (-1, c, fs)
                     | Some name \<Rightarrow>
                       (case keep_name c name of
                          (c, None) \<Rightarrow> (-1, c, fs\<lparr>fai_name := None\<rparr>)
                        | (c, Some s) \<Rightarrow> (0, c, fs\<lparr>fai_name := Some s\<rparr>)))))))"

text \<open>The encoders copy names without looking at the room that is left. The bytes that fit change the vector;
  the others would be written behind it, where the model has no memory.\<close>

definition memcpy_at :: "nat \<Rightarrow> bytes \<Rightarrow> bytes \<Rightarrow> bytes" where
  "memcpy_at off bs b = put_at off (take (length b - off) bs) b"

definition smb2_encode_file_all_info :: "smb2_context \<Rightarrow> smb2_file_all_info \<Rightarrow> bytes \<Rightarrow> int \<times> bytes" where
  "smb2_encode_file_all_info c fs b =
     (if length b < 40 then (-1, b)
      else
        (let b = snd (smb2_encode_file_basic_info (fai_basic fs) (take 40 b)) @ drop 40 b in
         if length b < 64 then (-1, b)
         else
           (let b = take 40 b @ snd (smb2_encode_file_standard_info (fai_standard fs) (get_at 40 24 b)) @ drop 64 b;
                b = (set32 92 (fai_alignment_requirement fs) \<circ> set32 88 (fai_mode fs) \<circ> set64 80 (fai_current_byte_offset fs) \<circ>
                     set32 76 (fai_access_flags fs) \<circ> set32 72 (fai_ea_size fs) \<circ> set64 64 (fai_index_number fs)) b
            in case fai_name fs of
                 None \<Rightarrow> (100, set32 96 0 b)
               | Some s \<Rightarrow>
                 (case smb2_utf8_to_utf16 (c_mem_ok c) s of
                    None \<Rightarrow> (-1, b)
                  | Some name \<Rightarrow>
                    (100 + 2 * int (u_len name), memcpy_at 100 (u_val name) (set32 96 (of_nat (2 * u_len name)) b))))))"

definition smb2_decode_file_normalized_name_info ::
  "smb2_context \<Rightarrow> smb2_file_name_info \<Rightarrow> bytes \<Rightarrow> int \<times> smb2_context \<times> smb2_file_name_info" where
  "smb2_decode_file_normalized_name_info c fs b =
     (if length b < 4 then (-1, c, fs)
      else
        (let fs = fs\<lparr>fni_file_name_length := get32 b 0 0\<rparr>; name_len = fni_file_name_length fs;
             n = (if length b < unat (name_len + 4) then length b - 4 else unat name_len)
         in if name_len = 0 \<or> n = 0 then (0, c, fs\<lparr>fni_name := None\<rparr>)
            else case raw_name c b 4 (n div 2) of
                   None \<Rightarrow> (-1, c, fs)
                 | Some name \<Rightarrow>
                   (case keep_name c name of
                      (c, None) \<Rightarrow> (-1, c, fs\<lparr>fni_name := None\<rparr>)
                    | (c, Some s) \<Rightarrow> (0, c, fs\<lparr>fni_name := Some s\<rparr>))))"

definition smb2_encode_file_normalized_name_info ::
  "smb2_context \<Rightarrow> smb2_file_name_info \<Rightarrow> bytes \<Rightarrow> int \<times> smb2_file_name_info \<times> bytes" where
  "smb2_encode_file_normalized_name_info c fs b =
     (if length b < unat (4 + fni_file_name_length fs) then (-1, fs, b)
      else
        (let finish = (\<lambda>fs b. (sint (4 + fni_file_name_length fs), fs, set32 0 (fni_file_name_length fs) b)) in
         case fni_name fs of
           None \<Rightarrow> finish (fs\<lparr>fni_file_name_length := 0\<rparr>) b
         | Some s \<Rightarrow>
           (case smb2_utf8_to_utf16 (c_mem_ok c) s of
              None \<Rightarrow> (-1, fs, b)
            | Some name \<Rightarrow>
              (let name_len = 2 * u_len name;
                   fs = (if fni_file_name_length fs < of_nat name_len then fs\<lparr>fni_file_name_length := of_nat name_len\<rparr> else fs)
               in if length b < name_len + 4 then (-1, fs, b)
                  else
                    (let b = put_at 4 (u_val name) b; n = unat (fni_file_name_length fs) in
                     finish fs (if name_len < n then memcpy_at (4 + name_len) (replicate (n - name_len) 0) b else b))))))"

text \<open>
  Stream information is a chain of entries. The decoder fills an array of \<open>room\<close> structures that its caller
  allocated, and the encoder walks one; running over the end of either is \<open>None\<close>, as is a negative offset
  into the vector. The decoder's \<open>offset\<close> is a C \<open>int\<close>, to which the unsigned distance to the next entry is
  added.
\<close>

definition decode_stream_entry ::
  "smb2_context \<Rightarrow> int \<Rightarrow> smb2_file_stream_info \<Rightarrow> bytes \<Rightarrow> int \<times> smb2_context \<times> smb2_file_stream_info" where
  "decode_stream_entry c offset fs b =
     (let off = nat offset;
          fs = fs\<lparr>fst_stream_name_length := get32 b (off + 4) (fst_stream_name_length fs),
                  fst_stream_size := get64 b (off + 8) (fst_stream_size fs),
                  fst_stream_allocation_size := get64 b (off + 16) (fst_stream_allocation_size fs)\<rparr>;
          name_len = sint (fst_stream_name_length fs);
          name_len = (if length b < nat (offset + 24 + name_len) \<or> offset + 24 + name_len < 0
                      then int (length b) - offset - 24 else name_len)
      in if fst_stream_name_length fs = 0 \<or> name_len \<le> 0 then (0, c, fs\<lparr>fst_stream_name := None\<rparr>)
         else case raw_name c b (off + 24) (nat (name_len div 2)) of
                None \<Rightarrow> (-1, c, fs)
              | Some name \<Rightarrow>
                (case keep_name c name of
                   (c, None) \<Rightarrow> (-1, c, fs\<lparr>fst_stream_name_length := of_nat (length (c_string name)), fst_stream_name := None\<rparr>)
                 | (c, Some s) \<Rightarrow> (0, c, fs\<lparr>fst_stream_name_length := of_nat (length s), fst_stream_name := Some s\<rparr>)))"

definition no_stream :: smb2_file_stream_info where
  "no_stream = \<lparr>fst_next_entry_offset = 0, fst_stream_name_length = 0, fst_stream_size = 0,
     fst_stream_allocation_size = 0, fst_stream_name = None\<rparr>"

fun decode_stream_loop ::
  "nat \<Rightarrow> int \<Rightarrow> u32 \<Rightarrow> u32 \<Rightarrow> smb2_context \<Rightarrow> bytes \<Rightarrow> (int \<times> smb2_context \<times> smb2_file_stream_info list) option" where
  "decode_stream_loop 0 offset our_offset next c b = None"
| "decode_stream_loop (Suc room) offset our_offset next c b =
     (let next = get32 b (nat offset) next in
      case decode_stream_entry c offset no_stream b of
        (rc, c, fs) \<Rightarrow>
          if rc \<noteq> 0 then Some (rc, c, [fs])
          else if next = 0 then Some (0, c, [fs\<lparr>fst_next_entry_offset := 0\<rparr>])
          else
            (let offset = sint (word_of_int offset + next); our_offset = our_offset + 32;
                 fs = fs\<lparr>fst_next_entry_offset := our_offset\<rparr>
             in if 0 \<le> offset + 24 \<and> nat (offset + 24) \<le> length b
                then if offset < 0 then None
                else map_option (\<lambda>(rc, c, rest). (rc, c, fs # rest)) (decode_stream_loop room offset our_offset next c b)
                else Some (0, c, [fs])))"

definition smb2_decode_file_stream_info ::
  "nat \<Rightarrow> smb2_context \<Rightarrow> bytes \<Rightarrow> (int \<times> smb2_context \<times> smb2_file_stream_info list) option" where
  "smb2_decode_file_stream_info room c b = decode_stream_loop room 0 0 (ucast (c_junk c)) c b"

fun encode_stream_loop ::
  "smb2_context \<Rightarrow> u32 \<Rightarrow> smb2_file_stream_info list \<Rightarrow> bytes \<Rightarrow> (int \<times> bytes) option" where
  "encode_stream_loop c offset [] b = None"
| "encode_stream_loop c offset (fs # rest) b =
     (if 2 ^ 31 \<le> unat offset then None
      else let off = unat offset; name_length = fst_stream_name_length fs * 2;
          b = (set64 (off + 16) (fst_stream_allocation_size fs) \<circ> set32 (off + 4) name_length \<circ>
               set64 (off + 8) (fst_stream_size fs)) b;
          named = (case fst_stream_name fs of
                     None \<Rightarrow> Some b
                   | Some s \<Rightarrow> map_option (\<lambda>name. memcpy_at (off + 24) (u_val name) b) (smb2_utf8_to_utf16 (c_mem_ok c) s))
      in case named of
           None \<Rightarrow> Some (-1, b)
         | Some b \<Rightarrow>
           (let fslen = 24 + name_length in
            if fst_next_entry_offset fs \<noteq> 0
            then
              (let padded = PAD_TO_64BIT (offset + fslen);
                   b = set32 off padded b;
                   gap = [unat (offset + fslen)..<unat padded];
                   b = fold (\<lambda>i. set8 i 0) gap b;
                   offset = (if offset + fslen < padded then padded else offset + fslen)
               in if padded \<noteq> 0 \<and> unat (offset + 24) \<le> length b then encode_stream_loop c offset rest b
                  else Some (sint offset, b))
            else Some (sint (offset + fslen), set32 off 0 b)))"

definition smb2_encode_file_stream_info :: "smb2_context \<Rightarrow> smb2_file_stream_info list \<Rightarrow> bytes \<Rightarrow> (int \<times> bytes) option" where
  "smb2_encode_file_stream_info c fs b = encode_stream_loop c 0 fs b"

subsection \<open>Information about file systems\<close>

text \<open>The volume label and its length are not checked against the vector, and a conversion that runs out of
  memory is followed by \<open>strlen (NULL)\<close> or \<open>name->len\<close>: \<open>None\<close>.\<close>

definition smb2_decode_file_fs_volume_info ::
  "smb2_context \<Rightarrow> smb2_file_fs_volume_info \<Rightarrow> bytes \<Rightarrow> (int \<times> smb2_context \<times> smb2_file_fs_volume_info) option" where
  "smb2_decode_file_fs_volume_info c fs b =
     (let fs = fs\<lparr>fvi_creation_time := get_time b 0 (c_junk c), fvi_volume_serial_number := get32 b 8 (fvi_volume_serial_number fs),
                  fvi_volume_label_length := get32 b 12 (fvi_volume_label_length fs),
                  fvi_supports_objects := get8 b 16 (fvi_supports_objects fs), fvi_reserved := get8 b 17 (fvi_reserved fs)\<rparr>
      in case raw_name c b 18 (unat (fvi_volume_label_length fs) div 2) of
           None \<Rightarrow> None
         | Some name \<Rightarrow>
           Some (case keep_name c name of
                   (c, None) \<Rightarrow> (-1, c, fs\<lparr>fvi_volume_label := None\<rparr>)
                 | (c, Some s) \<Rightarrow> (0, c, fs\<lparr>fvi_volume_label := Some s\<rparr>)))"

definition smb2_encode_file_fs_volume_info :: "smb2_context \<Rightarrow> smb2_file_fs_volume_info \<Rightarrow> bytes \<Rightarrow> (int \<times> bytes) option" where
  "smb2_encode_file_fs_volume_info c fs b =
     (let b = (set8 17 (fvi_reserved fs) \<circ> set8 16 (fvi_supports_objects fs) \<circ> set32 8 (fvi_volume_serial_number fs) \<circ>
               set64 0 (smb2_timeval_to_win (fvi_creation_time fs))) b
      in case Option.bind (fvi_volume_label fs) (smb2_utf8_to_utf16 (c_mem_ok c)) of
           None \<Rightarrow> None
         | Some name \<Rightarrow>
           Some (18 + 2 * int (u_len name), memcpy_at 18 (u_val name) (set32 12 (of_nat (2 * u_len name)) b)))"

definition smb2_decode_file_fs_size_info ::
  "smb2_context \<Rightarrow> smb2_file_fs_size_info \<Rightarrow> bytes \<Rightarrow> int \<times> smb2_file_fs_size_info" where
  "smb2_decode_file_fs_size_info c fs b =
     (if length b < 24 then (-1, fs)
      else (0, \<lparr>fsz_total_allocation_units = get64 b 0 0, fsz_available_allocation_units = get64 b 8 0,
                fsz_sectors_per_allocation_unit = get32 b 16 0, fsz_bytes_per_sector = get32 b 20 0\<rparr>))"

definition smb2_encode_file_fs_size_info :: "smb2_file_fs_size_info \<Rightarrow> bytes \<Rightarrow> int \<times> bytes" where
  "smb2_encode_file_fs_size_info fs b =
     (if length b < 24 then (-1, b)
      else (24, (set32 20 (fsz_bytes_per_sector fs) \<circ> set32 16 (fsz_sectors_per_allocation_unit fs) \<circ>
                 set64 8 (fsz_available_allocation_units fs) \<circ> set64 0 (fsz_total_allocation_units fs)) b))"

definition smb2_decode_file_fs_device_info ::
  "smb2_context \<Rightarrow> smb2_file_fs_device_info \<Rightarrow> bytes \<Rightarrow> int \<times> smb2_file_fs_device_info" where
  "smb2_decode_file_fs_device_info c fs b =
     (if length b < 8 then (-1, fs) else (0, \<lparr>fdv_device_type = get32 b 0 0, fdv_characteristics = get32 b 4 0\<rparr>))"

definition smb2_encode_file_fs_device_info :: "smb2_file_fs_device_info \<Rightarrow> bytes \<Rightarrow> int \<times> bytes" where
  "smb2_encode_file_fs_device_info fs b =
     (if length b < 8 then (-1, b) else (8, (set32 4 (fdv_characteristics fs) \<circ> set32 0 (fdv_device_type fs)) b))"

definition smb2_decode_file_fs_attribute_info ::
  "smb2_context \<Rightarrow> smb2_file_fs_attribute_info \<Rightarrow> bytes \<Rightarrow> int \<times> smb2_context \<times> smb2_file_fs_attribute_info" where
  "smb2_decode_file_fs_attribute_info c fs b =
     (if length b < 20 then (-1, c, fs)
      else
        (let fs = fs\<lparr>fat_filesystem_attributes := get32 b 0 0, fat_maximum_component_name_length := get32 b 4 0\<rparr>;
             name_len = unat (get32 b 8 0)
         in if name_len = 0 then (0, c, fs)
            else case raw_name c b 12 (name_len div 2) of
                   None \<Rightarrow> (-1, c, fs)
                 | Some name \<Rightarrow>
                   (case keep_name c name of
                      (c, None) \<Rightarrow> (-1, c, fs\<lparr>fat_filesystem_name := None\<rparr>)
                    | (c, Some s) \<Rightarrow> (0, c, fs\<lparr>fat_filesystem_name := Some s\<rparr>))))"

definition smb2_encode_file_fs_attribute_info ::
  "smb2_context \<Rightarrow> smb2_file_fs_attribute_info \<Rightarrow> bytes \<Rightarrow> (int \<times> bytes) option" where
  "smb2_encode_file_fs_attribute_info c fs b =
     (if length b < 12 then Some (-1, b)
      else
        (let b = (set32 4 (fat_maximum_component_name_length fs) \<circ> set32 0 (fat_filesystem_attributes fs)) b in
         case Option.bind (fat_filesystem_name fs) (smb2_utf8_to_utf16 (c_mem_ok c)) of
           None \<Rightarrow> None
         | Some name \<Rightarrow> Some (12 + 2 * int (u_len name), memcpy_at 12 (u_val name) (set32 8 (of_nat (2 * u_len name)) b))))"

text \<open>The decoder of control information returns 44, the size of the structure, when it succeeds.\<close>

definition smb2_decode_file_fs_control_info ::
  "smb2_context \<Rightarrow> smb2_file_fs_control_info \<Rightarrow> bytes \<Rightarrow> int \<times> smb2_file_fs_control_info" where
  "smb2_decode_file_fs_control_info c fs b =
     (if length b < 44 then (-1, fs)
      else (44, \<lparr>fct_free_space_start_filtering = get64 b 0 0, fct_free_space_threshold = get64 b 8 0,
                 fct_free_space_stop_filtering = get64 b 16 0, fct_default_quota_threshold = get64 b 24 0,
                 fct_default_quota_limit = get64 b 32 0, fct_file_system_control_flags = get32 b 40 0\<rparr>))"

definition smb2_encode_file_fs_control_info :: "smb2_file_fs_control_info \<Rightarrow> bytes \<Rightarrow> int \<times> bytes" where
  "smb2_encode_file_fs_control_info fs b =
     (if length b < 48 then (-1, b)
      else (44, (set32 40 (fct_file_system_control_flags fs) \<circ> set64 32 (fct_default_quota_limit fs) \<circ>
                 set64 24 (fct_default_quota_threshold fs) \<circ> set64 16 (fct_free_space_stop_filtering fs) \<circ>
                 set64 8 (fct_free_space_threshold fs) \<circ> set64 0 (fct_free_space_start_filtering fs)) b))"

definition smb2_decode_file_fs_full_size_info ::
  "smb2_context \<Rightarrow> smb2_file_fs_full_size_info \<Rightarrow> bytes \<Rightarrow> int \<times> smb2_file_fs_full_size_info" where
  "smb2_decode_file_fs_full_size_info c fs b =
     (if length b < 32 then (-1, fs)
      else (0, \<lparr>ffs_total_allocation_units = get64 b 0 0, ffs_caller_available_allocation_units = get64 b 8 0,
                ffs_actual_available_allocation_units = get64 b 16 0, ffs_sectors_per_allocation_unit = get32 b 24 0,
                ffs_bytes_per_sector = get32 b 28 0\<rparr>))"

definition smb2_encode_file_fs_full_size_info :: "smb2_file_fs_full_size_info \<Rightarrow> bytes \<Rightarrow> int \<times> bytes" where
  "smb2_encode_file_fs_full_size_info fs b =
     (if length b < 32 then (-1, b)
      else (32, (set32 28 (ffs_bytes_per_sector fs) \<circ> set32 24 (ffs_sectors_per_allocation_unit fs) \<circ>
                 set64 16 (ffs_actual_available_allocation_units fs) \<circ> set64 8 (ffs_caller_available_allocation_units fs) \<circ>
                 set64 0 (ffs_total_allocation_units fs)) b))"

definition smb2_decode_file_fs_object_id_info ::
  "smb2_context \<Rightarrow> smb2_file_fs_object_id_info \<Rightarrow> bytes \<Rightarrow> int \<times> smb2_file_fs_object_id_info" where
  "smb2_decode_file_fs_object_id_info c fs b =
     (if length b < 64 then (-1, fs) else (0, \<lparr>foi_object_id = get_at 0 16 b, foi_extended_info = get_at 16 48 b\<rparr>))"

definition smb2_encode_file_fs_object_id_info :: "smb2_file_fs_object_id_info \<Rightarrow> bytes \<Rightarrow> int \<times> bytes" where
  "smb2_encode_file_fs_object_id_info fs b =
     (if length b < 64 then (-1, b) else (64, (put_at 16 (foi_extended_info fs) \<circ> put_at 0 (foi_object_id fs)) b))"

definition smb2_decode_file_fs_sector_size_info ::
  "smb2_context \<Rightarrow> smb2_file_fs_sector_size_info \<Rightarrow> bytes \<Rightarrow> int \<times> smb2_file_fs_sector_size_info" where
  "smb2_decode_file_fs_sector_size_info c fs b =
     (if length b < 28 then (-1, fs)
      else (0, \<lparr>fss_logical_bytes_per_sector = get32 b 0 0, fss_physical_bytes_per_sector_for_atomicity = get32 b 4 0,
                fss_physical_bytes_per_sector_for_performance = get32 b 8 0,
                fss_effective_physical_bytes_per_sector_for_atomicity = get32 b 12 0, fss_flags = get32 b 16 0,
                fss_byte_offset_for_sector_alignment = get32 b 20 0, fss_byte_offset_for_partition_alignment = get32 b 24 0\<rparr>))"

definition smb2_encode_file_fs_sector_size_info :: "smb2_file_fs_sector_size_info \<Rightarrow> bytes \<Rightarrow> int \<times> bytes" where
  "smb2_encode_file_fs_sector_size_info fs b =
     (if length b < 28 then (-1, b)
      else (28, (set32 24 (fss_byte_offset_for_partition_alignment fs) \<circ> set32 20 (fss_byte_offset_for_sector_alignment fs) \<circ>
                 set32 16 (fss_flags fs) \<circ> set32 12 (fss_effective_physical_bytes_per_sector_for_atomicity fs) \<circ>
                 set32 8 (fss_physical_bytes_per_sector_for_performance fs) \<circ>
                 set32 4 (fss_physical_bytes_per_sector_for_atomicity fs) \<circ> set32 0 (fss_logical_bytes_per_sector fs)) b))"

subsection \<open>Reparse points\<close>

abbreviation (input) SMB2_REPARSE_TAG_SYMLINK :: u32 where "SMB2_REPARSE_TAG_SYMLINK \<equiv> 0xa000000c"

text \<open>One of the two names of a symbolic link: offset and length are at \<open>at\<close>. The outer option is the
  \<open>strlen (NULL)\<close> after a conversion that ran out of memory.\<close>

definition reparse_name ::
  "smb2_context \<Rightarrow> smb2_reparse_data_buffer \<Rightarrow> bytes \<Rightarrow> nat \<Rightarrow> (smb2_context \<times> bytes option) option" where
  "reparse_name c rp b at =
     (let off = unat (get16 b at 0); len = unat (get16 b (at + 2) 0) in
      if off + len + 12 > unat (rpb_reparse_data_length rp) then Some (c, None)
      else map_option (keep_name c) (raw_name c b (off + 20) (len div 2)))"

definition smb2_decode_reparse_data_buffer ::
  "smb2_context \<Rightarrow> smb2_reparse_data_buffer \<Rightarrow> bytes \<Rightarrow> (int \<times> smb2_context \<times> smb2_reparse_data_buffer) option" where
  "smb2_decode_reparse_data_buffer c rp b =
     (if length b < 8 then Some (-1, c, rp)
      else
        (let rp = rp\<lparr>rpb_reparse_tag := get32 b 0 0, rpb_reparse_data_length := get16 b 4 0\<rparr> in
         if length b mod 65536 < unat (rpb_reparse_data_length rp) + 8 then Some (-1, c, rp)
         else if rpb_reparse_tag rp \<noteq> SMB2_REPARSE_TAG_SYMLINK then Some (0, c, rp)
         else if length b < 20 then Some (-1, c, rp)
         else
           (let rp = rp\<lparr>rpb_flags := get32 b 16 0\<rparr> in
            case reparse_name c rp b 8 of
              None \<Rightarrow> None
            | Some (c, None) \<Rightarrow> Some (-1, c, rp)
            | Some (c, Some sub) \<Rightarrow>
              (let rp = rp\<lparr>rpb_subname := Some sub\<rparr> in
               case reparse_name c rp b 12 of
                 None \<Rightarrow> None
               | Some (c, None) \<Rightarrow> Some (-1, c, rp)
               | Some (c, Some print) \<Rightarrow> Some (0, c, rp\<lparr>rpb_printname := Some print\<rparr>)))))"

subsection \<open>Time stamps come back\<close>

text \<open>The last second that fits is in the year 60056.\<close>

definition valid_time :: "smb2_timeval \<Rightarrow> bool" where
  "valid_time tv \<longleftrightarrow> 0 \<le> tv_sec tv \<and> tv_sec tv < 1833029933770 \<and> 0 \<le> tv_usec tv \<and> tv_usec tv < 1000000"

lemma uint_timeval:
  assumes "valid_time tv"
  shows "uint (smb2_timeval_to_win tv) = tv_sec tv * 10000000 + 116444736000000000 + tv_usec tv * 10"
proof -
  let ?n = "tv_sec tv * 10000000 + 116444736000000000 + tv_usec tv * 10"
  have "0 \<le> ?n" "?n < 18446744073709551616" using assms unfolding valid_time_def by linarith+
  moreover have "smb2_timeval_to_win tv = word_of_int ?n" by (simp add: smb2_timeval_to_win_def)
  ultimately show ?thesis by (simp only: uint_word_of_int_eq) (simp add: take_bit_int_eq_self)
qed

lemma win_to_timeval_inverse:
  assumes "valid_time tv"
  shows "smb2_win_to_timeval (smb2_timeval_to_win tv) = tv"
proof -
  let ?w = "smb2_timeval_to_win tv"
  have b: "0 \<le> tv_sec tv" "0 \<le> tv_usec tv" "tv_usec tv < 1000000" "tv_sec tv < 1833029933770"
    using assms by (simp_all add: valid_time_def)
  have u64: "uint (10 :: u64) = 10" "uint (1000000 :: u64) = 1000000" "uint (10000000 :: u64) = 10000000" by simp_all
  have eq: "tv_sec tv * 10000000 + 116444736000000000 + tv_usec tv * 10 = 10 * (tv_usec tv + (tv_sec tv + 11644473600) * 1000000)"
    by simp
  have "uint (?w div 10 mod 1000000) = (tv_usec tv + (tv_sec tv + 11644473600) * 1000000) mod 1000000"
    unfolding uint_div uint_mod u64 uint_timeval [OF assms] eq by (simp add: mult.commute)
  also have "\<dots> = tv_usec tv" unfolding mod_mult_self1 using b by simp
  finally have usec: "uint (?w div 10 mod 1000000) = tv_usec tv" .
  have "116444736000000000 \<le> ?w" using uint_timeval [OF assms] b by (simp add: word_le_def)
  then have "uint (?w - 116444736000000000) = tv_usec tv * 10 + tv_sec tv * 10000000"
    using uint_timeval [OF assms] by (simp add: uint_minus_simple_alt word_le_def)
  moreover have "(tv_usec tv * 10 + tv_sec tv * 10000000) div 10000000 = tv_sec tv"
    using b by (subst div_mult_self1) simp_all
  ultimately have "uint ((?w - 116444736000000000) div 10000000) = tv_sec tv" by (simp only: uint_div u64)
  with usec show ?thesis by (simp add: smb2_win_to_timeval_def)
qed

lemma tv_win_to_timeval_inverse:
  assumes "valid_time tv" "tv_sec tv \<noteq> 0 \<or> tv_usec tv \<noteq> 0"
  shows "smb2_win_to_timeval (smb2_tv_timeval_to_win tv) = tv"
  using assms win_to_timeval_inverse by (auto simp: smb2_tv_timeval_to_win_def valid_time_def)

subsection \<open>The contract of a class of information\<close>

text \<open>An encoder that succeeds fills the first \<open>n\<close> bytes of a vector with room for \<open>room\<close> bytes and leaves
  the others alone, and the decoder finds the value in them, however the vector is cut behind them.\<close>

locale info_codec =
  fixes n room :: nat and valid :: "'a \<Rightarrow> bool" and encode :: "'a \<Rightarrow> bytes \<Rightarrow> int \<times> bytes"
    and decode :: "smb2_context \<Rightarrow> 'a \<Rightarrow> bytes \<Rightarrow> int \<times> 'a" and rc :: int and wire :: "'a \<Rightarrow> bytes"
  assumes room: "n \<le> room"
    and wire_length: "valid x \<Longrightarrow> length (wire x) = n"
    and encode_wire: "valid x \<Longrightarrow> room \<le> length b \<Longrightarrow> encode x b = (int n, wire x @ drop n b)"
    and decode_wire: "valid x \<Longrightarrow> decode c y (wire x @ post) = (rc, x)"
begin

lemma roundtrip:
  assumes "valid x" "room \<le> length b" "n \<le> m"
  shows "\<exists>b'. encode x b = (int n, b') \<and> length b' = length b \<and> decode c y (take m b') = (rc, x)"
  using encode_wire [OF assms(1,2)] decode_wire [OF assms(1)] wire_length [OF assms(1)] room assms(2,3) by simp

lemma wire_injective: "valid x \<Longrightarrow> valid y \<Longrightarrow> wire x = wire y \<Longrightarrow> x = y"
  using decode_wire [of x c y "[]" for c y] decode_wire [of y c y "[]" for c y] by (metis prod.inject)

end

abbreviation (input) set_time :: "smb2_timeval \<Rightarrow> bool" where
  "set_time tv \<equiv> valid_time tv \<and> (tv_sec tv \<noteq> 0 \<or> tv_usec tv \<noteq> 0)"

abbreviation (input) le_time :: "smb2_timeval \<Rightarrow> bytes" where
  "le_time tv \<equiv> le64 (smb2_tv_timeval_to_win tv)"

definition basic_wire :: "smb2_file_basic_info \<Rightarrow> bytes" where
  "basic_wire fs = le_time (fbi_creation_time fs) @ le_time (fbi_last_access_time fs) @ le_time (fbi_last_write_time fs) @
     le_time (fbi_change_time fs) @ le32 (fbi_file_attributes fs) @ le32 0"

definition valid_basic :: "smb2_file_basic_info \<Rightarrow> bool" where
  "valid_basic fs \<longleftrightarrow> set_time (fbi_creation_time fs) \<and> set_time (fbi_last_access_time fs) \<and>
     set_time (fbi_last_write_time fs) \<and> set_time (fbi_change_time fs)"

lemmas info_io = put_time_def get_time_def tv_win_to_timeval_inverse field_io

interpretation basic: info_codec 40 40 valid_basic smb2_encode_file_basic_info smb2_decode_file_basic_info 0 basic_wire
proof unfold_locales
  fix x :: smb2_file_basic_info and b :: bytes
  assume "40 \<le> length b"
  then show "smb2_encode_file_basic_info x b = (int 40, basic_wire x @ drop 40 b)"
    by (simp add: smb2_encode_file_basic_info_def basic_wire_def info_io)
next
  fix x :: smb2_file_basic_info and c y post
  assume "valid_basic x"
  then show "smb2_decode_file_basic_info c y (basic_wire x @ post) = (0, x)"
    by (cases x) (simp add: smb2_decode_file_basic_info_def basic_wire_def valid_basic_def info_io)
qed (simp_all add: basic_wire_def)

definition standard_wire :: "smb2_file_standard_info \<Rightarrow> bytes" where
  "standard_wire fs = le64 (fsi_allocation_size fs) @ le64 (fsi_end_of_file fs) @ le32 (fsi_number_of_links fs) @
     [fsi_delete_pending fs, fsi_directory fs] @ le16 0"

interpretation standard: info_codec 24 24 "\<lambda>_. True" smb2_encode_file_standard_info smb2_decode_file_standard_info 0 standard_wire
proof unfold_locales
  fix x :: smb2_file_standard_info and b :: bytes
  assume "24 \<le> length b"
  then show "smb2_encode_file_standard_info x b = (int 24, standard_wire x @ drop 24 b)"
    by (simp add: smb2_encode_file_standard_info_def standard_wire_def info_io)
next
  fix x :: smb2_file_standard_info and c y post
  show "smb2_decode_file_standard_info c y (standard_wire x @ post) = (0, x)"
    by (cases x) (simp add: smb2_decode_file_standard_info_def standard_wire_def info_io)
qed (simp_all add: standard_wire_def)

interpretation position: info_codec 8 8 "\<lambda>_. True" smb2_encode_file_position_info smb2_decode_file_position_info 0
  "\<lambda>fs. le64 (fpi_current_byte_offset fs)"
  by unfold_locales (simp_all add: smb2_encode_file_position_info_def smb2_decode_file_position_info_def field_io)

definition network_open_wire :: "smb2_file_network_open_info \<Rightarrow> bytes" where
  "network_open_wire fs = le_time (fno_creation_time fs) @ le_time (fno_last_access_time fs) @
     le_time (fno_last_write_time fs) @ le_time (fno_change_time fs) @ le64 (fno_allocation_size fs) @
     le64 (fno_end_of_file fs) @ le32 (fno_file_attributes fs) @ le32 0"

interpretation network_open: info_codec 56 56
  "\<lambda>fs. set_time (fno_creation_time fs) \<and> set_time (fno_last_access_time fs) \<and>
     set_time (fno_last_write_time fs) \<and> set_time (fno_change_time fs)"
  smb2_encode_file_network_open_info smb2_decode_file_network_open_info 0 network_open_wire
proof unfold_locales
  fix x :: smb2_file_network_open_info and b :: bytes
  assume "56 \<le> length b"
  then show "smb2_encode_file_network_open_info x b = (int 56, network_open_wire x @ drop 56 b)"
    by (simp add: smb2_encode_file_network_open_info_def network_open_wire_def info_io)
next
  fix x :: smb2_file_network_open_info and c y post
  assume "set_time (fno_creation_time x) \<and> set_time (fno_last_access_time x) \<and>
     set_time (fno_last_write_time x) \<and> set_time (fno_change_time x)"
  then show "smb2_decode_file_network_open_info c y (network_open_wire x @ post) = (0, x)"
    by (cases x) (simp add: smb2_decode_file_network_open_info_def network_open_wire_def info_io)
qed (simp_all add: network_open_wire_def)

interpretation fs_size: info_codec 24 24 "\<lambda>_. True" smb2_encode_file_fs_size_info smb2_decode_file_fs_size_info 0
  "\<lambda>fs. le64 (fsz_total_allocation_units fs) @ le64 (fsz_available_allocation_units fs) @
     le32 (fsz_sectors_per_allocation_unit fs) @ le32 (fsz_bytes_per_sector fs)"
  by unfold_locales (simp_all add: smb2_encode_file_fs_size_info_def smb2_decode_file_fs_size_info_def field_io)

interpretation fs_device: info_codec 8 8 "\<lambda>_. True" smb2_encode_file_fs_device_info smb2_decode_file_fs_device_info 0
  "\<lambda>fs. le32 (fdv_device_type fs) @ le32 (fdv_characteristics fs)"
  by unfold_locales (simp_all add: smb2_encode_file_fs_device_info_def smb2_decode_file_fs_device_info_def field_io)

text \<open>Control information needs room for 48 bytes and its decoder returns 44.\<close>

interpretation fs_control: info_codec 44 48 "\<lambda>_. True" smb2_encode_file_fs_control_info smb2_decode_file_fs_control_info 44
  "\<lambda>fs. le64 (fct_free_space_start_filtering fs) @ le64 (fct_free_space_threshold fs) @
     le64 (fct_free_space_stop_filtering fs) @ le64 (fct_default_quota_threshold fs) @ le64 (fct_default_quota_limit fs) @
     le32 (fct_file_system_control_flags fs)"
  by unfold_locales (simp_all add: smb2_encode_file_fs_control_info_def smb2_decode_file_fs_control_info_def field_io)

interpretation fs_full_size: info_codec 32 32 "\<lambda>_. True" smb2_encode_file_fs_full_size_info
  smb2_decode_file_fs_full_size_info 0
  "\<lambda>fs. le64 (ffs_total_allocation_units fs) @ le64 (ffs_caller_available_allocation_units fs) @
     le64 (ffs_actual_available_allocation_units fs) @ le32 (ffs_sectors_per_allocation_unit fs) @ le32 (ffs_bytes_per_sector fs)"
  by unfold_locales (simp_all add: smb2_encode_file_fs_full_size_info_def smb2_decode_file_fs_full_size_info_def field_io)

interpretation fs_object_id: info_codec 64 64
  "\<lambda>fs. length (foi_object_id fs) = 16 \<and> length (foi_extended_info fs) = 48"
  smb2_encode_file_fs_object_id_info smb2_decode_file_fs_object_id_info 0
  "\<lambda>fs. foi_object_id fs @ foi_extended_info fs"
  by unfold_locales (simp_all add: smb2_encode_file_fs_object_id_info_def smb2_decode_file_fs_object_id_info_def field_io get_at_def)

interpretation fs_sector_size: info_codec 28 28 "\<lambda>_. True" smb2_encode_file_fs_sector_size_info
  smb2_decode_file_fs_sector_size_info 0
  "\<lambda>fs. le32 (fss_logical_bytes_per_sector fs) @ le32 (fss_physical_bytes_per_sector_for_atomicity fs) @
     le32 (fss_physical_bytes_per_sector_for_performance fs) @ le32 (fss_effective_physical_bytes_per_sector_for_atomicity fs) @
     le32 (fss_flags fs) @ le32 (fss_byte_offset_for_sector_alignment fs) @ le32 (fss_byte_offset_for_partition_alignment fs)"
  by unfold_locales (simp_all add: smb2_encode_file_fs_sector_size_info_def smb2_decode_file_fs_sector_size_info_def field_io)

subsection \<open>Names come back\<close>

lemma length_le_units [simp]: "length (le_units us) = 2 * length us"
  by (induction us) (simp_all add: le_units_def)

lemma units_of_append: "n * 2 \<le> length a \<Longrightarrow> units_of n (a @ b) = units_of n a"
proof (induction n arbitrary: a)
  case (Suc n)
  then have "units_of n (drop 2 a @ b) = units_of n (drop 2 a)" by (intro Suc.IH) simp
  with Suc.prems show ?case by simp
qed simp

lemma utf16_name:
  assumes "smb2_utf8_to_utf16 mem s = Some u" "0 \<notin> set s"
  shows "length (u_val u) = 2 * u_len u" "utf16_to_utf8_loop (units_of (u_len u) (u_val u)) = s"
proof -
  obtain cps where "list_all scalar cps" "s = utf8_string cps"
    "u = \<lparr>u_len = length (utf16_string cps), u_val = le_units (utf16_string cps)\<rparr>"
    using utf8_to_utf16_SomeD [OF assms] by blast
  then show "length (u_val u) = 2 * u_len u" "utf16_to_utf8_loop (units_of (u_len u) (u_val u)) = s"
    by (simp_all add: utf16_loop_code_points code_points_string)
qed

lemma name_received:
  assumes "smb2_utf8_to_utf16 mem s = Some u" "0 \<notin> set s" "has_memory c" "drop off b = u_val u @ post"
  shows "raw_name c b off (u_len u) = Some (s @ [0])" "keep_name c (s @ [0]) = (c, Some s)"
proof -
  have "copy_bytes c (2 * u_len u) (Some (drop off b)) = u_val u"
    using utf16_name [OF assms(1,2)] by (simp add: copy_bytes_def assms(4))
  then show "raw_name c b off (u_len u) = Some (s @ [0])"
    using assms(3) utf16_name [OF assms(1,2)] by (simp add: raw_name_def utf16_to_utf8_eq)
  have "takeWhile (\<lambda>x. x \<noteq> 0) (s @ [0]) = s" using assms(2) by (subst takeWhile_append2) auto
  then show "keep_name c (s @ [0]) = (c, Some s)" using assms(3) by (simp add: keep_name_def c_string_def smb2_alloc_data_def)
qed

lemma name_length_word: "2 * n < 2 ^ 32 \<Longrightarrow> unat (of_nat (2 * n) :: u32) = 2 * n"
  by (simp only: unat_of_nat) simp

lemma memcpy_at_fits: "off + length bs \<le> length b \<Longrightarrow> memcpy_at off bs b = put_at off bs b"
  by (simp add: memcpy_at_def)

lemma name_not_empty:
  assumes "smb2_utf8_to_utf16 mem s = Some u" "0 \<notin> set s" "s \<noteq> []"
  shows "u_len u \<noteq> 0"
  using utf16_name(2) [OF assms(1,2)] assms(3) by (intro notI) simp

lemma set8_pair:
  assumes "6 \<le> length d"
  shows "set8 5 y (set8 4 x d) = take 4 d @ [x, y] @ drop 6 d"
proof -
  have "set8 5 y (set8 4 x (p @ q)) = p @ [x, y] @ drop 2 q" if "length p = 4" "2 \<le> length q" for p q
    using that by (simp add: field_io numeral_2_eq_2)
  from this [of "take 4 d" "drop 4 d"] assms show ?thesis by simp
qed

lemma normalized_name_back:
  assumes u: "smb2_utf8_to_utf16 (c_mem_ok d) s = Some u" and s: "0 \<notin> set s" "s \<noteq> []"
    and fs: "fni_name fs = Some s" "unat (fni_file_name_length fs) \<le> 2 * u_len u"
    and room: "2 * u_len u + 4 \<le> length b" "length b < 2 ^ 31" and c: "has_memory c"
  shows "\<exists>fs' b'. smb2_encode_file_normalized_name_info d fs b = (4 + 2 * int (u_len u), fs', b') \<and>
    smb2_decode_file_normalized_name_info c y b' = (0, c, \<lparr>fni_file_name_length = of_nat (2 * u_len u), fni_name = Some s\<rparr>)"
proof -
  let ?n = "of_nat (2 * u_len u) :: u32"
  have n: "unat ?n = 2 * u_len u" "unat (?n + 4) = 2 * u_len u + 4" "unat (4 + fni_file_name_length fs) \<le> length b"
    using room fs(2) name_length_word [of "u_len u"] by (simp_all add: unat_word_ariths)
  have "sint (4 + ?n) = int (unat (4 + ?n))" using n(2) room by (intro sint_small) (simp add: add.commute)
  moreover have "int (unat (4 + ?n)) = int (2 * u_len u + 4)" using n(2) by (simp only: add.commute)
  ultimately have sn: "sint (4 + ?n) = 4 + 2 * int (u_len u)" by simp
  have len: "(if fni_file_name_length fs < ?n then fs\<lparr>fni_file_name_length := ?n\<rparr> else fs) = fs\<lparr>fni_file_name_length := ?n\<rparr>"
    using fs(2) n(1) by (cases fs) (auto simp: word_less_nat_alt word_unat_eq_iff)
  let ?b = "le32 ?n @ u_val u @ drop (4 + 2 * u_len u) b"
  have b: "set32 0 ?n (put_at 4 (u_val u) b) = ?b"
    using room utf16_name(1) [OF u s(1)] by (simp add: put_at_def field_io)
  have enc: "smb2_encode_file_normalized_name_info d fs b = (4 + 2 * int (u_len u), fs\<lparr>fni_file_name_length := ?n\<rparr>, ?b)"
    using n(1,3) u fs(1) room(1) sn b len by (simp add: smb2_encode_file_normalized_name_info_def Let_def)
  have "drop 4 ?b = u_val u @ drop (4 + 2 * u_len u) b" by simp
  note name = name_received [OF u s(1) c this]
  have "get32 ?b 0 0 = ?n" "4 \<le> length ?b" "\<not> length ?b < unat (?n + 4)" "?n \<noteq> 0"
    using n(1,2) room utf16_name(1) [OF u s(1)] name_not_empty [OF u s] by (auto simp: field_io)
  then have "smb2_decode_file_normalized_name_info c y ?b = (0, c, \<lparr>fni_file_name_length = ?n, fni_name = Some s\<rparr>)"
    using name n(1) name_not_empty [OF u s] by (simp add: smb2_decode_file_normalized_name_info_def Let_def)
  with enc show ?thesis by blast
qed

lemma volume_back:
  assumes u: "smb2_utf8_to_utf16 (c_mem_ok d) s = Some u" and s: "0 \<notin> set s"
    and fs: "fvi_volume_label fs = Some s" "valid_time (fvi_creation_time fs)"
    and room: "18 + 2 * u_len u \<le> length b" "length b < 2 ^ 32" and c: "has_memory c"
  shows "\<exists>b'. smb2_encode_file_fs_volume_info d fs b = Some (18 + 2 * int (u_len u), b') \<and>
    smb2_decode_file_fs_volume_info c y b' = Some (0, c, fs\<lparr>fvi_volume_label_length := of_nat (2 * u_len u)\<rparr>)"
proof -
  let ?n = "of_nat (2 * u_len u) :: u32"
  have n: "unat ?n = 2 * u_len u" using room name_length_word by simp
  let ?a = "le64 (smb2_timeval_to_win (fvi_creation_time fs)) @ le32 (fvi_volume_serial_number fs) @ le32 ?n @
     [fvi_supports_objects fs, fvi_reserved fs]"
  let ?b = "?a @ u_val u @ drop (18 + 2 * u_len u) b"
  have len: "length (u_val u) = 2 * u_len u" by (rule utf16_name(1) [OF u s])
  have enc: "smb2_encode_file_fs_volume_info d fs b = Some (18 + 2 * int (u_len u), ?b)"
    using u fs(1) room(1) len by (simp add: smb2_encode_file_fs_volume_info_def memcpy_at_fits set8_pair put_at_def field_io add.commute)
  have "drop 18 ?b = u_val u @ drop (18 + 2 * u_len u) b" by simp
  note name = name_received [OF u s(1) c this]
  have "smb2_decode_file_fs_volume_info c y ?b = Some (0, c, fs\<lparr>fvi_volume_label_length := ?n\<rparr>)"
    using name n fs win_to_timeval_inverse [OF fs(2)] unfolding smb2_decode_file_fs_volume_info_def
    by (cases fs; cases y) (simp add: get_time_def field_io)
  with enc show ?thesis by blast
qed

lemma attribute_back:
  assumes u: "smb2_utf8_to_utf16 (c_mem_ok d) s = Some u" and s: "0 \<notin> set s" "s \<noteq> []"
    and fs: "fat_filesystem_name fs = Some s"
    and room: "12 + 2 * u_len u \<le> length b" "20 \<le> length b" "length b < 2 ^ 32" and c: "has_memory c"
  shows "\<exists>b'. smb2_encode_file_fs_attribute_info d fs b = Some (12 + 2 * int (u_len u), b') \<and>
    smb2_decode_file_fs_attribute_info c y b' = (0, c, fs\<lparr>fat_filesystem_name_length := fat_filesystem_name_length y\<rparr>)"
proof -
  let ?n = "of_nat (2 * u_len u) :: u32"
  have n: "unat ?n = 2 * u_len u" using room name_length_word by simp
  let ?b = "(le32 (fat_filesystem_attributes fs) @ le32 (fat_maximum_component_name_length fs) @ le32 ?n) @
     u_val u @ drop (12 + 2 * u_len u) b"
  have len: "length (u_val u) = 2 * u_len u" by (rule utf16_name(1) [OF u s(1)])
  have enc: "smb2_encode_file_fs_attribute_info d fs b = Some (12 + 2 * int (u_len u), ?b)"
    using u fs(1) room len by (simp add: smb2_encode_file_fs_attribute_info_def memcpy_at_fits put_at_def field_io add.commute)
  have "drop 12 ?b = u_val u @ drop (12 + 2 * u_len u) b" by simp
  note name = name_received [OF u s(1) c this]
  have "\<not> length ?b < 20" using room len by simp
  then have "smb2_decode_file_fs_attribute_info c y ?b =
     (0, c, fs\<lparr>fat_filesystem_name_length := fat_filesystem_name_length y\<rparr>)"
    using name n fs name_not_empty [OF u s] unfolding smb2_decode_file_fs_attribute_info_def
    by (cases fs; cases y) (simp add: field_io)
  with enc show ?thesis by blast
qed

lemma all_info_back:
  assumes u: "smb2_utf8_to_utf16 (c_mem_ok d) s = Some u" and s: "0 \<notin> set s" "s \<noteq> []"
    and fs: "fai_name fs = Some s" "valid_basic (fai_basic fs)"
    and room: "100 + 2 * u_len u \<le> length b" "length b < 2 ^ 32" and c: "has_memory c"
  shows "\<exists>b'. smb2_encode_file_all_info d fs b = (100 + 2 * int (u_len u), b') \<and>
    smb2_decode_file_all_info c y b' = (0, c, fs)"
proof -
  let ?n = "of_nat (2 * u_len u) :: u32"
  have n: "unat ?n = 2 * u_len u" using room name_length_word by simp
  let ?bw = "basic_wire (fai_basic fs)" and ?sw = "standard_wire (fai_standard fs)"
  let ?f = "le64 (fai_index_number fs) @ le32 (fai_ea_size fs) @ le32 (fai_access_flags fs) @
     le64 (fai_current_byte_offset fs) @ le32 (fai_mode fs) @ le32 (fai_alignment_requirement fs) @ le32 ?n"
  let ?b = "?bw @ ?sw @ ?f @ u_val u @ drop (2 * u_len u + 100) b"
  have len: "length (u_val u) = 2 * u_len u" "length ?bw = 40" "length ?sw = 24"
    using utf16_name(1) [OF u s(1)] basic.wire_length [OF fs(2)] standard.wire_length by simp_all
  have parts: "snd (smb2_encode_file_basic_info (fai_basic fs) (take 40 b)) = ?bw"
    "snd (smb2_encode_file_standard_info (fai_standard fs) (get_at 0 24 (drop 40 b))) = ?sw"
    using basic.encode_wire [OF fs(2), of "take 40 b"] standard.encode_wire [OF TrueI, of "get_at 0 24 (drop 40 b)" "fai_standard fs"] room
    by (simp_all add: get_at_def)
  have "get_at 40 24 (?bw @ drop 40 b) = get_at 0 24 (drop 40 b)" using len by (simp add: get_at_def)
  then have enc: "smb2_encode_file_all_info d fs b = (100 + 2 * int (u_len u), ?b)"
    using u fs(1) room len parts
    by (simp add: smb2_encode_file_all_info_def Let_def memcpy_at_fits put_at_def field_io add.commute)
  have "drop 100 ?b = u_val u @ drop (2 * u_len u + 100) b" using len by simp
  note name = name_received [OF u s(1) c this]
  have l: "\<not> length ?b < 100" "\<not> length ?b < 64" "\<not> length ?b < 40" "2 * u_len u \<le> length ?b - 100" using room len by simp_all
  have dec: "snd (smb2_decode_file_basic_info c x (take 40 ?b)) = fai_basic fs"
    "snd (smb2_decode_file_standard_info c z (get_at 40 24 ?b)) = fai_standard fs" for x z
    using basic.decode_wire [OF fs(2), of c x "[]"] standard.decode_wire [OF TrueI, of c z "fai_standard fs" "[]"] len
    by (simp_all add: get_at_def)
  have get: "get64 ?b 64 o1 = fai_index_number fs" "get32 ?b 72 o2 = fai_ea_size fs" "get32 ?b 76 o2 = fai_access_flags fs"
    "get64 ?b 80 o1 = fai_current_byte_offset fs" "get32 ?b 88 o2 = fai_mode fs" "get32 ?b 92 o2 = fai_alignment_requirement fs"
    "get32 ?b 96 o2 = ?n" for o1 o2
    using len by (simp_all add: field_io)
  have "smb2_decode_file_all_info c y ?b = (0, c, fs)"
    using name n l fs(1) name_not_empty [OF u s] unfolding smb2_decode_file_all_info_def get dec
    by (cases fs; cases y) (simp add: Let_def min_absorb1)
  with enc show ?thesis by blast
qed

subsection \<open>Reading inside the vector\<close>

text \<open>\<open>c_junk\<close> is what the code finds outside the vector; a decoder whose result does not depend on it read
  nothing there.\<close>

definition with_junk :: "u64 \<Rightarrow> int \<times> smb2_context \<times> 'a \<Rightarrow> int \<times> smb2_context \<times> 'a" where
  "with_junk j r = (case r of (rc, c, x) \<Rightarrow> (rc, c\<lparr>c_junk := j\<rparr>, x))"

lemma with_junk_simps [simp]: "with_junk j (rc, c, x) = (rc, c\<lparr>c_junk := j\<rparr>, x)"
  by (simp add: with_junk_def)

lemma raw_name_inside: "off + 2 * n \<le> length b \<Longrightarrow> raw_name (c\<lparr>c_junk := j\<rparr>) b off n = raw_name c b off n"
  by (simp add: raw_name_def copy_bytes_def utf16_to_utf8_eq)

lemma keep_name_junk: "keep_name (c\<lparr>c_junk := j\<rparr>) s = (case keep_name c s of (c, r) \<Rightarrow> (c\<lparr>c_junk := j\<rparr>, r))"
  by (simp add: keep_name_def smb2_alloc_data_def smb2_set_error_def)

lemma get_inside:
  "off + 8 \<le> length b \<Longrightarrow> get64 b off x = get64 b off y" "off + 4 \<le> length b \<Longrightarrow> get32 b off x' = get32 b off y'"
  "off + 2 \<le> length b \<Longrightarrow> get16 b off x'' = get16 b off y''"
  by (simp_all add: get_defs)

lemma reparse_name_inside:
  assumes "unat (rpb_reparse_data_length rp) + 8 \<le> length b"
  shows "reparse_name (c\<lparr>c_junk := j\<rparr>) rp b at = map_option (\<lambda>(c, r). (c\<lparr>c_junk := j\<rparr>, r)) (reparse_name c rp b at)"
proof -
  have "raw_name (c\<lparr>c_junk := j\<rparr>) b (off + 20) (len div 2) = raw_name c b (off + 20) (len div 2)"
    if "\<not> off + len + 12 > unat (rpb_reparse_data_length rp)" for off len
    using that assms by (intro raw_name_inside) linarith
  moreover have "keep_name (c\<lparr>c_junk := j\<rparr>) = (\<lambda>s. case keep_name c s of (c, r) \<Rightarrow> (c\<lparr>c_junk := j\<rparr>, r))"
    by (rule ext) (rule keep_name_junk)
  ultimately show ?thesis by (auto simp: reparse_name_def Let_def option.map_comp comp_def)
qed

lemma basic_inside:
  "40 \<le> length b \<Longrightarrow> smb2_decode_file_basic_info (c\<lparr>c_junk := j\<rparr>) fs b = smb2_decode_file_basic_info c fs b"
  by (simp add: smb2_decode_file_basic_info_def get_time_def get_inside(1) [where x = j and y = "c_junk c"])

lemma all_info_inside: "smb2_decode_file_all_info (c\<lparr>c_junk := j\<rparr>) fs b = with_junk j (smb2_decode_file_all_info c fs b)"
proof -
  have n: "raw_name (c\<lparr>c_junk := j\<rparr>) b 100 (min k (length b - 100) div 2) = raw_name c b 100 (min k (length b - 100) div 2)"
    if "\<not> length b < 100" for k
    using that by (intro raw_name_inside) linarith
  have b: "smb2_decode_file_basic_info (c\<lparr>c_junk := j\<rparr>) x (take 40 b) = smb2_decode_file_basic_info c x (take 40 b)"
    if "\<not> length b < 40" for x
    using that by (intro basic_inside) simp
  have s: "smb2_decode_file_standard_info (c\<lparr>c_junk := j\<rparr>) = smb2_decode_file_standard_info c"
    by (simp add: smb2_decode_file_standard_info_def fun_eq_iff)
  show ?thesis using n b
    by (auto simp: smb2_decode_file_all_info_def Let_def s keep_name_junk split: option.split prod.split)
qed

lemma reparse_inside:
  "smb2_decode_reparse_data_buffer (c\<lparr>c_junk := j\<rparr>) rp b = map_option (with_junk j) (smb2_decode_reparse_data_buffer c rp b)"
proof -
  have m: "unat l + 8 \<le> length b" if "\<not> length b mod 65536 < unat l + 8" for l :: u16
    using that mod_less_eq_dividend [of "length b" 65536] by linarith
  show ?thesis
    by (auto simp: smb2_decode_reparse_data_buffer_def Let_def reparse_name_inside m split: option.split prod.split)
qed

subsection \<open>Properties\<close>

text \<open>Time stamps survive the conversion to Windows time and back for every second from 1970 to the last
  one that 64 bits can hold, and the conversion keeps the order of times.\<close>

theorem timestamp_roundtrip:
  assumes "valid_time tv" "valid_time tv'"
  shows "smb2_win_to_timeval (smb2_timeval_to_win tv) = tv \<and>
    (smb2_timeval_to_win tv \<le> smb2_timeval_to_win tv' \<longleftrightarrow>
       tv_sec tv < tv_sec tv' \<or> tv_sec tv = tv_sec tv' \<and> tv_usec tv \<le> tv_usec tv')"
proof
  show "smb2_win_to_timeval (smb2_timeval_to_win tv) = tv" by (rule win_to_timeval_inverse [OF assms(1)])
  have b: "0 \<le> tv_usec tv" "tv_usec tv < 1000000" "0 \<le> tv_usec tv'" "tv_usec tv' < 1000000"
    using assms by (simp_all add: valid_time_def)
  show "smb2_timeval_to_win tv \<le> smb2_timeval_to_win tv' \<longleftrightarrow>
       tv_sec tv < tv_sec tv' \<or> tv_sec tv = tv_sec tv' \<and> tv_usec tv \<le> tv_usec tv'"
    unfolding word_le_def uint_timeval [OF assms(1)] uint_timeval [OF assms(2)] using b by auto
qed

theorem timestamp_roundtrip_witness:
  "smb2_win_to_timeval (smb2_timeval_to_win \<lparr>tv_sec = 1700000000, tv_usec = 5\<rparr>) = \<lparr>tv_sec = 1700000000, tv_usec = 5\<rparr>"
  using timestamp_roundtrip [of "\<lparr>tv_sec = 1700000000, tv_usec = 5\<rparr>" "\<lparr>tv_sec = 1700000000, tv_usec = 5\<rparr>"]
  by (simp add: valid_time_def)


text \<open>C21. Information with a name: normalized names, all information about a file, volume and attribute information
  come back with the name that was encoded, when the name is a non-empty UTF-8 string and the vector has
  room for it; the length fields become the length of the name in UTF-16.\<close>

theorem named_info_roundtrip:
  assumes "smb2_utf8_to_utf16 (c_mem_ok d) s = Some u" "0 \<notin> set s" "s \<noteq> []" "has_memory c"
    "100 + 2 * u_len u \<le> length b" "length b < 2 ^ 31"
    "fni_name ni = Some s" "unat (fni_file_name_length ni) \<le> 2 * u_len u"
    "fai_name all = Some s" "valid_basic (fai_basic all)"
    "fvi_volume_label vol = Some s" "valid_time (fvi_creation_time vol)" "fat_filesystem_name att = Some s"
  shows "(\<exists>ni' b'. smb2_encode_file_normalized_name_info d ni b = (4 + 2 * int (u_len u), ni', b') \<and>
        smb2_decode_file_normalized_name_info c y1 b' =
          (0, c, \<lparr>fni_file_name_length = of_nat (2 * u_len u), fni_name = Some s\<rparr>)) \<and>
    (\<exists>b'. smb2_encode_file_all_info d all b = (100 + 2 * int (u_len u), b') \<and>
        smb2_decode_file_all_info c y2 b' = (0, c, all)) \<and>
    (\<exists>b'. smb2_encode_file_fs_volume_info d vol b = Some (18 + 2 * int (u_len u), b') \<and>
        smb2_decode_file_fs_volume_info c y3 b' = Some (0, c, vol\<lparr>fvi_volume_label_length := of_nat (2 * u_len u)\<rparr>)) \<and>
    (\<exists>b'. smb2_encode_file_fs_attribute_info d att b = Some (12 + 2 * int (u_len u), b') \<and>
        smb2_decode_file_fs_attribute_info c y4 b' =
          (0, c, att\<lparr>fat_filesystem_name_length := fat_filesystem_name_length y4\<rparr>))"
  using normalized_name_back [OF assms(1-3,7,8), of b c y1] all_info_back [OF assms(1-3,9,10), of b c y2]
    volume_back [OF assms(1,2,11,12), of b c y3] attribute_back [OF assms(1-3,13), of b c y4] assms(4-6)
  by (intro conjI) simp_all

text \<open>C23. The decoders of reparse points and of all information about a file read nothing outside the vector
  they are given, whatever the lengths in it say: their result is the same for every content of the memory
  around it.\<close>

theorem names_within_vector:
  "smb2_decode_reparse_data_buffer (c\<lparr>c_junk := j\<rparr>) rp b = map_option (with_junk j) (smb2_decode_reparse_data_buffer c rp b) \<and>
   smb2_decode_file_all_info (c\<lparr>c_junk := j\<rparr>) fs b = with_junk j (smb2_decode_file_all_info c fs b)"
  using reparse_inside all_info_inside by (rule conjI)

definition sample_time :: smb2_timeval where
  "sample_time = \<lparr>tv_sec = 1, tv_usec = 0\<rparr>"

definition sample_basic :: smb2_file_basic_info where
  "sample_basic = \<lparr>fbi_creation_time = sample_time, fbi_last_access_time = sample_time, fbi_last_write_time = sample_time,
     fbi_change_time = sample_time, fbi_file_attributes = 16\<rparr>"

lemma sample_times [simp]: "valid_time sample_time" "tv_sec sample_time = 1" "valid_basic sample_basic"
  by (simp_all add: sample_time_def valid_time_def sample_basic_def valid_basic_def)


lemma sample_name: "smb2_utf8_to_utf16 (c_mem_ok zero_context) [0x61] = Some \<lparr>u_len = 1, u_val = [0x61, 0]\<rparr>"
proof -
  have c: "list_all scalar [0x61]" "utf8_string [0x61] = [0x61]" "utf16_string [0x61] = [0x61]" "le_units [0x61] = [0x61, 0]"
    by code_simp+
  show ?thesis using utf8_to_utf16_string [of "[0x61]" "c_mem_ok zero_context"] c by simp
qed

definition sample_volume :: smb2_file_fs_volume_info where
  "sample_volume = \<lparr>fvi_creation_time = sample_time, fvi_volume_serial_number = 7, fvi_volume_label_length = 0,
     fvi_supports_objects = 0, fvi_reserved = 0, fvi_volume_label = Some [0x61]\<rparr>"

theorem named_info_roundtrip_witness:
  "\<exists>b'. smb2_encode_file_fs_volume_info zero_context sample_volume (replicate 128 0) = Some (20, b') \<and>
    smb2_decode_file_fs_volume_info zero_context sample_volume b' =
      Some (0, zero_context, sample_volume\<lparr>fvi_volume_label_length := 2\<rparr>)"
  using named_info_roundtrip [OF sample_name, of zero_context "replicate 128 0" "\<lparr>fni_file_name_length = 0, fni_name = Some [0x61]\<rparr>"
     "\<lparr>fai_basic = sample_basic, fai_standard = \<lparr>fsi_allocation_size = 0, fsi_end_of_file = 0, fsi_number_of_links = 0,
        fsi_delete_pending = 0, fsi_directory = 0\<rparr>, fai_index_number = 0, fai_ea_size = 0, fai_access_flags = 0,
        fai_current_byte_offset = 0, fai_mode = 0, fai_alignment_requirement = 0, fai_name = Some [0x61]\<rparr>" sample_volume
     "\<lparr>fat_filesystem_attributes = 0, fat_maximum_component_name_length = 0, fat_filesystem_name_length = 0,
        fat_filesystem_name = Some [0x61]\<rparr>"]
  by (simp add: sample_volume_def)

subsection \<open>What the decoders get wrong\<close>

text \<open>A time before 1970 becomes one far in the future.\<close>

lemma win_time_before_1970: "tv_sec (smb2_win_to_timeval 116444735999999999) = 1844674407370"
  by (simp add: smb2_win_to_timeval_def uint_div)

text \<open>A volume label is read from behind the end of the vector.\<close>

definition short_volume :: bytes where
  "short_volume = replicate 12 0 @ le32 2 @ [0, 0]"

lemma volume_label_overread:
  "length short_volume = 18" "unat (get32 short_volume 12 0) div 2 = 1"
  "raw_name (zero_context\<lparr>c_junk := j\<rparr>) short_volume 18 1 = Some (utf16_to_utf8_loop [rd_le [ucast j, ucast j]] @ [0])"
proof -
  show l: "length short_volume = 18" "unat (get32 short_volume 12 0) div 2 = 1" by (simp_all add: short_volume_def field_io)
  have "units_of 1 (copy_bytes (zero_context\<lparr>c_junk := j\<rparr>) (2 * 1) (Some (drop 18 short_volume))) = [rd_le [ucast j, ucast j]]"
    using l(1) by (simp add: copy_bytes_def numeral_2_eq_2)
  then show "raw_name (zero_context\<lparr>c_junk := j\<rparr>) short_volume 18 1 = Some (utf16_to_utf8_loop [rd_le [ucast j, ucast j]] @ [0])"
    by (simp only: raw_name_def utf16_to_utf8_eq) (simp add: zero_context_def)
qed

text \<open>A chain of stream entries whose second entry points back to the first is followed for ever: the decoder
  runs over the end of every array it is given.\<close>

definition stream_cycle :: bytes where
  "stream_cycle = le32 24 @ replicate 20 0 @ le32 (- 24) @ replicate 20 0"

lemma stream_info_cycle: "smb2_decode_file_stream_info room c stream_cycle = None"
proof -
  have g: "get32 stream_cycle 0 o1 = 24" "get32 stream_cycle 24 o1 = - 24" "get32 stream_cycle 4 o1 = 0" "get32 stream_cycle 28 o1 = 0" for o1
    by (simp_all add: stream_cycle_def field_io get_defs get_at_def)
  have l: "length stream_cycle = 48" by (simp add: stream_cycle_def)
  have e: "\<exists>x. decode_stream_entry c 0 fs stream_cycle = (0, c, x)" "\<exists>x. decode_stream_entry c 24 fs stream_cycle = (0, c, x)" for c fs
    by (simp_all add: decode_stream_entry_def Let_def g)
  have "decode_stream_loop room 0 o1 n c stream_cycle = None \<and> decode_stream_loop room 24 o1 n c stream_cycle = None" for o1 n c
  proof (induction room arbitrary: o1 n c)
    case (Suc room)
    obtain x y where "decode_stream_entry c 0 no_stream stream_cycle = (0, c, x)" "decode_stream_entry c 24 no_stream stream_cycle = (0, c, y)"
      using e [of c no_stream] by blast
    then show ?case by (simp add: g l Suc.IH Let_def)
  qed simp
  then show ?thesis by (simp add: smb2_decode_file_stream_info_def)
qed

text \<open>Entries that overlap are more than the caller made room for.\<close>

definition stream_overlap :: bytes where
  "stream_overlap = le32 8 @ replicate 4 0 @ le32 8 @ replicate 4 0 @ le32 8 @ replicate 28 0"

lemma stream_info_overflow: "smb2_decode_file_stream_info (1 + length stream_overlap div 24) c stream_overlap = None"
proof -
  have g: "get32 stream_overlap 0 o1 = 8" "get32 stream_overlap 8 o1 = 8" "get32 stream_overlap 16 o1 = 8"
    "get32 stream_overlap 4 o1 = 0" "get32 stream_overlap 12 o1 = 0" "get32 stream_overlap 20 o1 = 0" for o1
    by (simp_all add: stream_overlap_def field_io get_defs get_at_def)
  have l: "length stream_overlap = 48" by (simp add: stream_overlap_def)
  have e: "\<exists>x. decode_stream_entry c (int n) no_stream stream_overlap = (0, c, x)" if "n = 0 \<or> n = 8 \<or> n = 16" for n
    using that by (auto simp: decode_stream_entry_def Let_def g)
  obtain x y z where "decode_stream_entry c 0 no_stream stream_overlap = (0, c, x)"
    "decode_stream_entry c 8 no_stream stream_overlap = (0, c, y)" "decode_stream_entry c 16 no_stream stream_overlap = (0, c, z)"
    using e [of 0] e [of 8] e [of 16] by auto
  then have "decode_stream_loop (Suc (Suc (Suc 0))) 0 0 (ucast (c_junk c)) c stream_overlap = None" by (simp add: g l Let_def)
  moreover have "1 + length stream_overlap div 24 = Suc (Suc (Suc 0))" by (simp add: l)
  ultimately show ?thesis by (simp only: smb2_decode_file_stream_info_def)
qed

end
