(* ===== verification/Smb2_Security.thy ===== *)
theory Smb2_Security
  imports Smb2_Data "HOL-Library.Monad_Syntax"
begin

text \<open>
  Security descriptors: \<^verbatim>\<open>lib/smb2-data-security-descriptor.c\<close>. The code walks the received vector with a
  pointer and a \<open>size_t\<close> that says how much is left. The model keeps both: \<open>w_buf\<close> is the memory from
  the pointer to the real end of the vector, \<open>w_len\<close> what the code believes to be left, which subtraction
  can wrap. An access that the code allows but that is outside the vector is \<open>None\<close>; a decoder that
  returns \<open>NULL\<close> gives \<open>Some (c, None)\<close>.
\<close>

subsection \<open>A window on the vector\<close>

record window =
  w_buf :: bytes
  w_len :: nat

definition whole :: "bytes \<Rightarrow> window" where
  "whole b = \<lparr>w_buf = b, w_len = length b\<rparr>"

definition advance :: "nat \<Rightarrow> window \<Rightarrow> window" where
  "advance n v = \<lparr>w_buf = drop n (w_buf v), w_len = (if n \<le> w_len v then w_len v - n else 2 ^ 64 + w_len v - n)\<rparr>"

definition may_read :: "window \<Rightarrow> nat \<Rightarrow> unit option" where
  "may_read v n = (if n \<le> length (w_buf v) then Some () else None)"

definition read8 :: "window \<Rightarrow> nat \<Rightarrow> u8 \<Rightarrow> u8 option" where
  "read8 v off old = (if off + 1 > w_len v then Some old else do { may_read v (off + 1); Some (w_buf v ! off) })"

definition read16 :: "window \<Rightarrow> nat \<Rightarrow> u16 \<Rightarrow> u16 option" where
  "read16 v off old = (if off + 2 > w_len v then Some old else do { may_read v (off + 2); Some (rd_le (get_at off 2 (w_buf v))) })"

definition read32 :: "window \<Rightarrow> nat \<Rightarrow> u32 \<Rightarrow> u32 option" where
  "read32 v off old = (if off + 4 > w_len v then Some old else do { may_read v (off + 4); Some (rd_le (get_at off 4 (w_buf v))) })"

definition copy_from :: "window \<Rightarrow> nat \<Rightarrow> nat \<Rightarrow> bytes option" where
  "copy_from v off n = do { may_read v (off + n); Some (get_at off n (w_buf v)) }"

definition returns_NULL :: "string \<Rightarrow> smb2_context \<Rightarrow> (smb2_context \<times> 'a option) option" where
  "returns_NULL e c = Some (smb2_set_error e c, None)"

subsection \<open>SIDs\<close>

fun read_sub_auths :: "window \<Rightarrow> nat \<Rightarrow> nat \<Rightarrow> u32 list option" where
  "read_sub_auths v i 0 = Some []"
| "read_sub_auths v i (Suc n) = do { x \<leftarrow> read32 v (8 + i * 4) 0; xs \<leftarrow> read_sub_auths v (i + 1) n; Some (x # xs) }"

definition decode_sid :: "smb2_context \<Rightarrow> window \<Rightarrow> (smb2_context \<times> (smb2_sid \<times> window) option) option" where
  "decode_sid c v =
     (if w_len v < 8 then returns_NULL ''SID must be at least 8 bytes'' c
      else do {
        revision \<leftarrow> read8 v 0 0;
        if revision \<noteq> 1 then returns_NULL ''can not decode sid with revision %d'' c
        else do {
          count \<leftarrow> read8 v 1 0;
          let n = 8 + unat count * 4;
          if w_len v < n then returns_NULL ''SID is bigger than the buffer'' c
          else (case smb2_alloc_data c n of
                  (c, False) \<Rightarrow> returns_NULL ''failed to allocate sid.'' c
                | (c, True) \<Rightarrow> do {
                    id_auth \<leftarrow> copy_from v 2 6;
                    sub_auth \<leftarrow> read_sub_auths v 0 (unat count);
                    Some (c, Some (\<lparr>sid_revision = revision, sid_sub_auth_count = count, sid_id_auth = id_auth,
                                    sid_sub_auth = sub_auth\<rparr>, advance n v))
                  })
        }
      })"

subsection \<open>ACEs\<close>

definition mask_ace :: "u8 \<Rightarrow> bool" where
  "mask_ace t \<longleftrightarrow> t = 0x00 \<or> t = 0x01 \<or> t = 0x02 \<or> t = 0x11 \<or> t = 0x13"

definition object_ace :: "u8 \<Rightarrow> bool" where
  "object_ace t \<longleftrightarrow> t = 0x05 \<or> t = 0x06 \<or> t = 0x07"

definition callback_ace :: "u8 \<Rightarrow> bool" where
  "callback_ace t \<longleftrightarrow> t = 0x09 \<or> t = 0x10 \<or> t = 0x12"

definition sid_of :: "(smb2_sid \<times> window) option \<Rightarrow> smb2_sid option" where
  "sid_of r = map_option fst r"

definition decode_mask_ace ::
  "smb2_context \<Rightarrow> smb2_ace \<Rightarrow> window \<Rightarrow> (smb2_context \<times> smb2_ace option) option" where
  "decode_mask_ace c ace v = do {
     mask \<leftarrow> read32 v 0 (ace_mask ace);
     if w_len v < 4 then returns_NULL ''not enough data for ace data.'' c
     else do {
       (c, r) \<leftarrow> decode_sid c (advance 4 v);
       Some (c, Some (ace\<lparr>ace_mask := mask, ace_sid := sid_of r\<rparr>))
     }
   }"

definition decode_object_ace ::
  "smb2_context \<Rightarrow> smb2_ace \<Rightarrow> window \<Rightarrow> (smb2_context \<times> smb2_ace option) option" where
  "decode_object_ace c ace v =
     (if w_len v < 40 then returns_NULL ''not enough data for ace data.'' c
      else do {
        mask \<leftarrow> read32 v 0 (ace_mask ace);
        let v = advance 4 v;
        flags \<leftarrow> read32 v 0 (ace_flags ace);
        let v = advance 4 v;
        object_type \<leftarrow> copy_from v 0 16;
        let v = advance 16 v;
        inherited \<leftarrow> copy_from v 0 16;
        (c, r) \<leftarrow> decode_sid c (advance 16 v);
        Some (c, Some (ace\<lparr>ace_mask := mask, ace_flags := flags, ace_object_type := object_type,
                           ace_inherited_object_type := inherited, ace_sid := sid_of r\<rparr>))
      })"

definition decode_callback_ace ::
  "smb2_context \<Rightarrow> smb2_ace \<Rightarrow> window \<Rightarrow> (smb2_context \<times> smb2_ace option) option" where
  "decode_callback_ace c ace v = do {
     mask \<leftarrow> read32 v 0 (ace_mask ace);
     if w_len v < 4 then returns_NULL ''not enough data for ace data.'' c
     else do {
       (c, r) \<leftarrow> decode_sid c (advance 4 v);
       let v = (case r of None \<Rightarrow> advance 4 v | Some (_, v) \<Rightarrow> v);
       (case smb2_alloc_data c (w_len v) of
          (c, False) \<Rightarrow> Some (c, None)
        | (c, True) \<Rightarrow> do {
            ad \<leftarrow> copy_from v 0 (w_len v);
            Some (c, Some (ace\<lparr>ace_mask := mask, ace_sid := sid_of r, ace_ad_data := ad\<rparr>))
          })
     }
   }"

definition decode_raw_ace ::
  "smb2_context \<Rightarrow> smb2_ace \<Rightarrow> window \<Rightarrow> (smb2_context \<times> smb2_ace option) option" where
  "decode_raw_ace c ace v =
     (case smb2_alloc_data c (w_len v) of
        (c, False) \<Rightarrow> Some (c, None)
      | (c, True) \<Rightarrow> do { raw \<leftarrow> copy_from v 0 (w_len v); Some (c, Some (ace\<lparr>ace_raw_data := raw\<rparr>)) })"

abbreviation (input) SIZEOF_SMB2_ACE :: nat where "SIZEOF_SMB2_ACE \<equiv> 96"

definition decode_ace :: "smb2_context \<Rightarrow> window \<Rightarrow> (smb2_context \<times> smb2_ace option) option" where
  "decode_ace c v =
     (if w_len v < 4 then returns_NULL ''not enough data for ace header.'' c
      else do {
        ace_type \<leftarrow> read8 v 0 0;
        flags \<leftarrow> read8 v 1 0;
        ace_size \<leftarrow> read16 v 2 0;
        (case smb2_alloc_data c SIZEOF_SMB2_ACE of
           (c, False) \<Rightarrow> returns_NULL ''failed to allocate ace.'' c
         | (c, True) \<Rightarrow>
           (let ace = \<lparr>ace_ace_type = ace_type, ace_ace_flags = flags, ace_ace_size = ace_size, ace_mask = 0, ace_flags = 0,
                       ace_sid = None, ace_object_type = replicate 16 0, ace_inherited_object_type = replicate 16 0,
                       ace_ad_data = [], ace_raw_data = []\<rparr>
            in if ace_size < 4 \<or> w_len v < unat ace_size then returns_NULL ''not enough data for ace data.'' c
               else if mask_ace ace_type then decode_mask_ace c ace (advance 4 v)
               else if object_ace ace_type then decode_object_ace c ace (advance 4 v)
               else if callback_ace ace_type then decode_callback_ace c ace (advance 4 v)
               else decode_raw_ace c ace (advance 4 v)))
      })"

subsection \<open>ACLs\<close>

fun decode_aces :: "smb2_context \<Rightarrow> window \<Rightarrow> nat \<Rightarrow> (smb2_context \<times> smb2_ace list option) option" where
  "decode_aces c v 0 = Some (c, Some [])"
| "decode_aces c v (Suc n) = do {
     (c, r) \<leftarrow> decode_ace c v;
     (case r of
        None \<Rightarrow> returns_NULL ''failed to decode ace # %d: %s'' c
      | Some ace \<Rightarrow>
        if unat (ace_ace_size ace) > w_len v then returns_NULL ''not enough data for ace %s'' c
        else do {
          (c, rest) \<leftarrow> decode_aces c (advance (unat (ace_ace_size ace)) v) n;
          Some (c, map_option ((#) ace) rest)
        })
   }"

abbreviation (input) SIZEOF_SMB2_ACL :: nat where "SIZEOF_SMB2_ACL \<equiv> 16"

definition decode_acl :: "smb2_context \<Rightarrow> window \<Rightarrow> (smb2_context \<times> smb2_acl option) option" where
  "decode_acl c v =
     (if w_len v < 8 then returns_NULL ''not enough data for acl header.'' c
      else do {
        revision \<leftarrow> read8 v 0 0;
        acl_size \<leftarrow> read16 v 2 0;
        ace_count \<leftarrow> read16 v 4 0;
        if revision \<noteq> 0x02 \<and> revision \<noteq> 0x04 then returns_NULL ''can not decode acl with revision %d'' c
        else if w_len v < unat acl_size then returns_NULL ''not enough data for acl'' c
        else (let v = v\<lparr>w_len := unat acl_size\<rparr> in
              case smb2_alloc_data c SIZEOF_SMB2_ACL of
                (c, False) \<Rightarrow> returns_NULL ''failed to allocate acl.'' c
              | (c, True) \<Rightarrow> do {
                  (c, aces) \<leftarrow> decode_aces c (advance 8 v) (unat ace_count);
                  Some (c, map_option (\<lambda>aces. \<lparr>acl_revision = revision, acl_ace_count = ace_count, acl_aces = aces\<rparr>) aces)
                })
      })"

subsection \<open>Security descriptors\<close>

text \<open>One of the parts: it is decoded when its offset lies in the vector, and left out otherwise. The test of
  the offset is made in 32 bits.\<close>

definition decode_part ::
  "bool \<Rightarrow> string \<Rightarrow> (smb2_context \<Rightarrow> window \<Rightarrow> (smb2_context \<times> 'a option) option) \<Rightarrow> smb2_context \<Rightarrow> bytes \<Rightarrow> u32 \<Rightarrow>
   (smb2_context \<times> 'a option option) option" where
  "decode_part present e decode c b off =
     (if present
      then do {
        (c, r) \<leftarrow> decode c (advance (unat off) (whole b));
        Some (case r of None \<Rightarrow> (smb2_set_error e c, None) | Some x \<Rightarrow> (c, Some (Some x)))
      }
      else Some (c, Some None))"

definition decode_owner :: "smb2_context \<Rightarrow> window \<Rightarrow> (smb2_context \<times> smb2_sid option) option" where
  "decode_owner c v = map_option (\<lambda>(c, r). (c, sid_of r)) (decode_sid c v)"

definition sid_part :: "string \<Rightarrow> smb2_context \<Rightarrow> bytes \<Rightarrow> u32 \<Rightarrow> (smb2_context \<times> smb2_sid option option) option" where
  "sid_part e c b off = decode_part (off > 0 \<and> unat (off + 2 + 6) < length b) e decode_owner c b off"

definition dacl_part :: "smb2_context \<Rightarrow> bytes \<Rightarrow> u32 \<Rightarrow> (smb2_context \<times> smb2_acl option option) option" where
  "dacl_part c b off = decode_part (off > 0 \<and> unat (off + 8) \<le> length b) ''failed to decode dacl: %s'' decode_acl c b off"

definition smb2_decode_security_descriptor ::
  "smb2_context \<Rightarrow> smb2_security_descriptor \<Rightarrow> bytes \<Rightarrow> (int \<times> smb2_context \<times> smb2_security_descriptor) option" where
  "smb2_decode_security_descriptor c sd b =
     (if length b < 20 then Some (-1, c, sd)
      else
        (let sd = sd\<lparr>sd_revision := get8 b 0 0\<rparr>;
             owner = get32 b 4 0; grp = get32 b 8 0; dacl = get32 b 16 0
         in if sd_revision sd \<noteq> 1
            then Some (-1, smb2_set_error ''can not decode security descriptor with revision %d'' c, sd)
            else
              (let sd = sd\<lparr>sd_control := get16 b 2 0\<rparr> in do {
                (c, o1) \<leftarrow> sid_part ''failed to decode owner sid: %s'' c b owner;
                (case o1 of
                   None \<Rightarrow> Some (-1, c, sd)
                 | Some o1 \<Rightarrow> do {
                     let sd = (if o1 = None then sd else sd\<lparr>sd_owner := o1\<rparr>);
                     (c, g1) \<leftarrow> sid_part ''failed to decode group sid: %s'' c b grp;
                     (case g1 of
                        None \<Rightarrow> Some (-1, c, sd)
                      | Some g1 \<Rightarrow> do {
                          let sd = (if g1 = None then sd else sd\<lparr>sd_group := g1\<rparr>);
                          (c, d1) \<leftarrow> dacl_part c b dacl;
                          (case d1 of
                             None \<Rightarrow> Some (-1, c, sd)
                           | Some d1 \<Rightarrow> Some (0, c, if d1 = None then sd else sd\<lparr>sd_dacl := d1\<rparr>))
                        })
                   })
              })))"

subsection \<open>Staying inside the vector\<close>

definition sound :: "window \<Rightarrow> bool" where
  "sound v \<longleftrightarrow> w_len v \<le> length (w_buf v)"

lemma sound_whole [simp]: "sound (whole b)"
  by (simp add: sound_def whole_def)

lemma sound_advance [simp]: "sound v \<Longrightarrow> n \<le> w_len v \<Longrightarrow> sound (advance n v)"
  by (auto simp: sound_def advance_def)

lemma sound_cut: "sound v \<Longrightarrow> n \<le> w_len v \<Longrightarrow> sound (v\<lparr>w_len := n\<rparr>)"
  by (simp add: sound_def)

lemma len_advance [simp]: "n \<le> w_len v \<Longrightarrow> w_len (advance n v) = w_len v - n"
  by (simp add: advance_def)

lemma read_sound:
  assumes "sound v"
  shows "\<exists>x. read8 v off o8 = Some x" "\<exists>x. read16 v off o16 = Some x" "\<exists>x. read32 v off o32 = Some x"
    "off + n \<le> w_len v \<Longrightarrow> \<exists>x. copy_from v off n = Some x"
  using assms by (auto simp: read8_def read16_def read32_def copy_from_def may_read_def sound_def)

lemma read_sub_auths_sound: "sound v \<Longrightarrow> \<exists>xs. read_sub_auths v i n = Some xs"
proof (induction n arbitrary: i)
  case (Suc n)
  then obtain x xs where "read32 v (8 + i * 4) 0 = Some x" "read_sub_auths v (i + 1) n = Some xs"
    using read_sound(3) by blast
  then show ?case by simp
qed simp

lemma decode_sid_sound:
  assumes "sound v"
  shows "\<exists>c' r. decode_sid c v = Some (c', r) \<and> (\<forall>s v'. r = Some (s, v') \<longrightarrow> sound v')"
proof -
  obtain a b where r: "read8 v 0 0 = Some a" "read8 v 1 0 = Some b" using read_sound(1) [OF assms] by metis
  obtain xs where xs: "read_sub_auths v 0 (unat b) = Some xs" using read_sub_auths_sound [OF assms] by blast
  have "\<exists>x. copy_from v 2 6 = Some x" if "\<not> w_len v < 8" using that by (intro read_sound(4) [OF assms]) simp
  with r xs assms show ?thesis
    by (cases "smb2_alloc_data c (8 + unat b * 4)") (auto simp: decode_sid_def returns_NULL_def Let_def split: bool.split)
qed

lemma decode_sid_returns:
  assumes "sound v"
  obtains c' r where "decode_sid c v = Some (c', r)" "\<And>s v'. r = Some (s, v') \<Longrightarrow> sound v'"
  using decode_sid_sound [OF assms, of c] by blast

lemma ace_kinds_sound:
  assumes s: "sound v"
  shows "decode_mask_ace c ace v \<noteq> None" "decode_object_ace c ace v \<noteq> None"
    "decode_callback_ace c ace v \<noteq> None" "decode_raw_ace c ace v \<noteq> None"
proof -
  obtain m where m: "read32 v 0 (ace_mask ace) = Some m" using read_sound(3) [OF s] by blast
  have s4: "sound (advance 4 v)" if "\<not> w_len v < 4" using that s by simp
  show "decode_mask_ace c ace v \<noteq> None"
  proof (cases "w_len v < 4")
    case False
    from decode_sid_returns [OF s4 [OF False], of c] obtain c' r where "decode_sid c (advance 4 v) = Some (c', r)" by metis
    with m False show ?thesis by (simp add: decode_mask_ace_def)
  qed (simp add: decode_mask_ace_def m returns_NULL_def)
  show "decode_raw_ace c ace v \<noteq> None"
    using read_sound(4) [OF s, of 0 "w_len v"] by (auto simp: decode_raw_ace_def split: prod.split bool.split)
  show "decode_callback_ace c ace v \<noteq> None"
  proof (cases "w_len v < 4")
    case False
    from decode_sid_returns [OF s4 [OF False], of c] obtain c' r where
      r: "decode_sid c (advance 4 v) = Some (c', r)" "\<And>s v'. r = Some (s, v') \<Longrightarrow> sound v'" by metis
    define x where "x = (case r of None \<Rightarrow> advance 4 v | Some (_, v) \<Rightarrow> v)"
    have "sound x" using r(2) s4 [OF False] by (auto simp: x_def split: option.split)
    then obtain y where "copy_from x 0 (w_len x) = Some y" using read_sound(4) [of x 0 "w_len x"] by auto
    with m r(1) False show ?thesis
      by (auto simp: decode_callback_ace_def Let_def x_def [symmetric] split: prod.split bool.split)
  qed (simp add: decode_callback_ace_def m returns_NULL_def)
  show "decode_object_ace c ace v \<noteq> None"
  proof (cases "w_len v < 40")
    case False
    let ?v4 = "advance 4 v" let ?v8 = "advance 4 ?v4" let ?v24 = "advance 16 ?v8" let ?v40 = "advance 16 ?v24"
    have l: "sound ?v4" "sound ?v8" "sound ?v24" "sound ?v40" "16 \<le> w_len ?v8" "16 \<le> w_len ?v24"
      using False s by simp_all
    obtain f where "read32 ?v4 0 (ace_flags ace) = Some f" using read_sound(3) [OF l(1)] by blast
    moreover obtain x where "copy_from ?v8 0 16 = Some x" using read_sound(4) [OF l(2), of 0 16] l(5) by auto
    moreover obtain y where "copy_from ?v24 0 16 = Some y" using read_sound(4) [OF l(3), of 0 16] l(6) by auto
    moreover obtain c' r where "decode_sid c ?v40 = Some (c', r)" using decode_sid_returns [OF l(4)] by metis
    ultimately show ?thesis using m False by (simp add: decode_object_ace_def Let_def)
  qed (simp add: decode_object_ace_def returns_NULL_def)
qed

lemma decode_ace_sound:
  assumes s: "sound v"
  shows "\<exists>c' r. decode_ace c v = Some (c', r)"
proof (cases "w_len v < 4")
  case False
  obtain t f z where "read8 v 0 0 = Some t" "read8 v 1 0 = Some f" "read16 v 2 0 = Some z"
    using read_sound(1,2) [OF s] by metis
  moreover have "sound (advance 4 v)" using False s by simp
  ultimately show ?thesis using False ace_kinds_sound [of "advance 4 v"]
    by (auto simp: decode_ace_def Let_def returns_NULL_def split: prod.split bool.split)
qed (simp add: decode_ace_def returns_NULL_def)

lemma decode_aces_sound: "sound v \<Longrightarrow> \<exists>c' r. decode_aces c v n = Some (c', r)"
proof (induction n arbitrary: c v)
  case (Suc n)
  obtain c1 r where r: "decode_ace c v = Some (c1, r)" using decode_ace_sound [OF Suc.prems] by metis
  show ?case
  proof (cases r)
    case (Some ace)
    show ?thesis
    proof (cases "unat (ace_ace_size ace) > w_len v")
      case False
      then have "sound (advance (unat (ace_ace_size ace)) v)" using Suc.prems by simp
      from Suc.IH [OF this, of c1] obtain c2 r2 where "decode_aces c1 (advance (unat (ace_ace_size ace)) v) n = Some (c2, r2)" by blast
      with r Some False show ?thesis by simp
    qed (simp add: r Some returns_NULL_def)
  qed (simp add: r returns_NULL_def)
qed simp

lemma decode_acl_sound:
  assumes s: "sound v" and z: "8 \<le> w_len v \<Longrightarrow> 8 \<le> unat (rd_le (get_at 2 2 (w_buf v)) :: u16)"
  shows "\<exists>c' r. decode_acl c v = Some (c', r)"
proof (cases "w_len v < 8")
  case False
  let ?z = "rd_le (get_at 2 2 (w_buf v)) :: u16"
  obtain t n where r: "read8 v 0 0 = Some t" "read16 v 4 0 = Some n" using read_sound(1,2) [OF s] by metis
  have z': "read16 v 2 0 = Some ?z" using False s by (simp add: read16_def may_read_def sound_def)
  have a: "sound (advance 8 (v\<lparr>w_len := unat ?z\<rparr>))" if "\<not> w_len v < unat ?z"
    using z False that s by (intro sound_advance sound_cut) auto
  show ?thesis
  proof (cases "w_len v < unat ?z")
    case z'': False
    obtain c1 r1 where "decode_aces (fst (smb2_alloc_data c SIZEOF_SMB2_ACL)) (advance 8 (v\<lparr>w_len := unat ?z\<rparr>)) (unat n) = Some (c1, r1)"
      using decode_aces_sound [OF a [OF z'']] by blast
    then show ?thesis using False r z' z''
      by (cases "smb2_alloc_data c SIZEOF_SMB2_ACL") (simp add: decode_acl_def Let_def returns_NULL_def split: bool.split)
  qed (use False r z' in \<open>simp add: decode_acl_def returns_NULL_def\<close>)
qed (simp add: decode_acl_def returns_NULL_def)

lemma decode_part_sound:
  assumes "present \<Longrightarrow> \<exists>c' r. decode c (advance (unat off) (whole b)) = Some (c', r)"
  shows "\<exists>c' r. decode_part present e decode c b off = Some (c', r)"
  using assms by (cases present) (auto simp: decode_part_def)

lemma window_at:
  assumes "unat off \<le> length b"
  shows "sound (advance (unat off) (whole b))" "w_buf (advance (unat off) (whole b)) = drop (unat off) b"
    "w_len (advance (unat off) (whole b)) = length b - unat off"
  using assms by (simp_all add: sound_def advance_def whole_def)

lemma owner_part_sound:
  assumes "unat off < 2 ^ 32 - 8"
  shows "\<exists>c' r. sid_part e c b off = Some (c', r)"
  unfolding sid_part_def
proof (rule decode_part_sound)
  assume "off > 0 \<and> unat (off + 2 + 6) < length b"
  moreover have "unat (off + 2 + 6) = unat off + 8" using assms by (simp add: unat_word_ariths add.assoc)
  ultimately have "sound (advance (unat off) (whole b))" by (intro window_at) simp
  from decode_sid_returns [OF this, of c] obtain c' r where "decode_sid c (advance (unat off) (whole b)) = Some (c', r)" by metis
  then show "\<exists>c' r. decode_owner c (advance (unat off) (whole b)) = Some (c', r)" by (simp add: decode_owner_def)
qed

lemma dacl_part_sound:
  assumes "unat off < 2 ^ 32 - 8" "off > 0 \<Longrightarrow> unat off + 8 \<le> length b \<Longrightarrow> 8 \<le> unat (get16 b (unat off + 2) 0)"
  shows "\<exists>c' r. dacl_part c b off = Some (c', r)"
  unfolding dacl_part_def
proof (rule decode_part_sound)
  assume p: "off > 0 \<and> unat (off + 8) \<le> length b"
  have u: "unat (off + 8) = unat off + 8" using assms(1) by (simp add: unat_word_ariths)
  then have l: "unat off \<le> length b" "unat off + 8 \<le> length b" using p by simp_all
  have "get16 b (unat off + 2) 0 = rd_le (get_at 2 2 (drop (unat off) b))"
    using l by (simp add: get_defs get_at_def add.commute)
  then show "\<exists>c' r. decode_acl c (advance (unat off) (whole b)) = Some (c', r)"
    using assms(2) p l window_at [OF l(1)] by (intro decode_acl_sound) auto
qed

subsection \<open>The wire format\<close>

text \<open>The self-relative format of MS-DTYP, for ACLs whose ACEs have a mask and a SID.\<close>

definition sid_bytes :: "smb2_sid \<Rightarrow> bytes" where
  "sid_bytes s = [sid_revision s, sid_sub_auth_count s] @ sid_id_auth s @ concat (map le32 (sid_sub_auth s))"

definition wf_sid :: "smb2_sid \<Rightarrow> bool" where
  "wf_sid s \<longleftrightarrow> sid_revision s = 1 \<and> unat (sid_sub_auth_count s) = length (sid_sub_auth s) \<and> length (sid_id_auth s) = 6"

definition ace_bytes :: "smb2_ace \<Rightarrow> bytes" where
  "ace_bytes a = [ace_ace_type a, ace_ace_flags a] @ le16 (ace_ace_size a) @ le32 (ace_mask a) @
     (case ace_sid a of None \<Rightarrow> [] | Some s \<Rightarrow> sid_bytes s)"

definition wf_ace :: "smb2_ace \<Rightarrow> bool" where
  "wf_ace a \<longleftrightarrow> mask_ace (ace_ace_type a) \<and> (\<exists>s. ace_sid a = Some s \<and> wf_sid s) \<and> unat (ace_ace_size a) = length (ace_bytes a) \<and>
     ace_flags a = 0 \<and> ace_object_type a = replicate 16 0 \<and> ace_inherited_object_type a = replicate 16 0 \<and>
     ace_ad_data a = [] \<and> ace_raw_data a = []"

definition aces_bytes :: "smb2_acl \<Rightarrow> bytes" where
  "aces_bytes l = concat (map ace_bytes (acl_aces l))"

definition acl_bytes :: "smb2_acl \<Rightarrow> bytes" where
  "acl_bytes l = [acl_revision l, 0] @ le16 (of_nat (8 + length (aces_bytes l))) @ le16 (acl_ace_count l) @ le16 0 @ aces_bytes l"

definition wf_acl :: "smb2_acl \<Rightarrow> bool" where
  "wf_acl l \<longleftrightarrow> (acl_revision l = 2 \<or> acl_revision l = 4) \<and> unat (acl_ace_count l) = length (acl_aces l) \<and>
     list_all wf_ace (acl_aces l) \<and> 8 + length (aces_bytes l) < 2 ^ 16"

definition sd_bytes :: "u16 \<Rightarrow> smb2_sid \<Rightarrow> smb2_sid \<Rightarrow> smb2_acl \<Rightarrow> bytes" where
  "sd_bytes control owner grp dacl =
     (let g = 20 + length (sid_bytes owner); d = g + length (sid_bytes grp) in
      [1, 0] @ le16 control @ le32 20 @ le32 (of_nat g) @ le32 0 @ le32 (of_nat d) @
      sid_bytes owner @ sid_bytes grp @ acl_bytes dacl)"

lemma length_le32s [simp]: "length (concat (map le32 xs)) = 4 * length xs"
  by (induction xs) simp_all

lemma length_sid_bytes: "wf_sid s \<Longrightarrow> length (sid_bytes s) = 8 + length (sid_sub_auth s) * 4"
  by (simp add: sid_bytes_def wf_sid_def)

text \<open>Reading a window that begins with known bytes.\<close>

lemma read_known:
  assumes "w_buf v = a @ x @ b" "length a = off" "off + length x \<le> w_len v"
  shows "x = [n8] \<Longrightarrow> read8 v off o8 = Some n8" "x = le16 n16 \<Longrightarrow> read16 v off o16 = Some n16"
    "x = le32 n32 \<Longrightarrow> read32 v off o32 = Some n32" "length x = n \<Longrightarrow> copy_from v off n = Some x"
  using assms by (auto simp: read8_def read16_def read32_def copy_from_def may_read_def get_at_def)

lemma advance_known: "w_buf v = a @ b \<Longrightarrow> length a = n \<Longrightarrow> w_buf (advance n v) = b"
  by (simp add: advance_def)

lemma read_sub_auths_known:
  assumes "w_buf v = pre @ concat (map le32 xs) @ post" "length pre = 8 + i * 4" "length pre + 4 * length xs \<le> w_len v"
  shows "read_sub_auths v i (length xs) = Some xs"
  using assms
proof (induction xs arbitrary: i pre)
  case (Cons x xs)
  have "read32 v (8 + i * 4) 0 = Some x"
    by (rule read_known(3) [of v pre "le32 x" "concat (map le32 xs) @ post"]) (use Cons.prems in simp_all)
  moreover have "read_sub_auths v (i + 1) (length xs) = Some xs"
    by (rule Cons.IH [of "pre @ le32 x"]) (use Cons.prems in simp_all)
  ultimately show ?case by simp
qed simp

lemma decode_sid_known:
  assumes wf: "wf_sid s" and v: "w_buf v = sid_bytes s @ post" "length (sid_bytes s) \<le> w_len v" and c: "has_memory c"
  shows "decode_sid c v = Some (c, Some (s, advance (length (sid_bytes s)) v))"
proof -
  let ?xs = "sid_sub_auth s"
  have b: "w_buf v = [] @ [sid_revision s] @ ([sid_sub_auth_count s] @ sid_id_auth s @ concat (map le32 ?xs) @ post)"
    using v(1) by (simp add: sid_bytes_def)
  have l: "8 + length ?xs * 4 \<le> w_len v" using v(2) length_sid_bytes [OF wf] by simp
  have "read8 v 0 0 = Some (sid_revision s)" by (rule read_known(1) [OF b]) (use l in simp_all)
  moreover have "read8 v 1 0 = Some (sid_sub_auth_count s)"
    by (rule read_known(1) [of v "[sid_revision s]" _ "sid_id_auth s @ concat (map le32 ?xs) @ post"]) (use b l in simp_all)
  moreover have "copy_from v 2 6 = Some (sid_id_auth s)"
    by (rule read_known(4) [of v "[sid_revision s, sid_sub_auth_count s]" _ "concat (map le32 ?xs) @ post"])
       (use b l wf in \<open>simp_all add: wf_sid_def\<close>)
  moreover have "read_sub_auths v 0 (length ?xs) = Some ?xs"
    by (rule read_sub_auths_known [of v "[sid_revision s, sid_sub_auth_count s] @ sid_id_auth s" _ post])
       (use b l wf in \<open>simp_all add: wf_sid_def\<close>)
  ultimately show ?thesis using wf l c length_sid_bytes [OF wf]
    by (cases s) (simp add: decode_sid_def wf_sid_def smb2_alloc_data_def)
qed

lemma decode_ace_known:
  assumes wf: "wf_ace a" and v: "w_buf v = ace_bytes a @ post" "length (ace_bytes a) \<le> w_len v" and c: "has_memory c"
  shows "decode_ace c v = Some (c, Some a)"
proof -
  obtain s where s: "ace_sid a = Some s" "wf_sid s" using wf by (auto simp: wf_ace_def)
  let ?v = "advance 4 v"
  have b: "w_buf v = [ace_ace_type a] @ [ace_ace_flags a] @ le16 (ace_ace_size a) @ le32 (ace_mask a) @ sid_bytes s @ post"
    using v(1) s(1) by (simp add: ace_bytes_def)
  have l: "8 + length (sid_bytes s) \<le> w_len v" "unat (ace_ace_size a) = 8 + length (sid_bytes s)"
    using v(2) s(1) wf by (simp_all add: ace_bytes_def wf_ace_def)
  have "read8 v 0 0 = Some (ace_ace_type a)"
    by (rule read_known(1) [of v "[]" _ "[ace_ace_flags a] @ le16 (ace_ace_size a) @ le32 (ace_mask a) @ sid_bytes s @ post"])
       (use b l in simp_all)
  moreover have "read8 v 1 0 = Some (ace_ace_flags a)"
    by (rule read_known(1) [of v "[ace_ace_type a]" _ "le16 (ace_ace_size a) @ le32 (ace_mask a) @ sid_bytes s @ post"])
       (use b l in simp_all)
  moreover have "read16 v 2 0 = Some (ace_ace_size a)"
    by (rule read_known(2) [of v "[ace_ace_type a, ace_ace_flags a]" "le16 (ace_ace_size a)" "le32 (ace_mask a) @ sid_bytes s @ post"])
       (use b l in simp_all)
  moreover have w: "w_buf ?v = le32 (ace_mask a) @ sid_bytes s @ post"
    by (rule advance_known [of v "[ace_ace_type a] @ [ace_ace_flags a] @ le16 (ace_ace_size a)"]) (use b in simp_all)
  moreover have "read32 ?v 0 0 = Some (ace_mask a)"
    by (rule read_known(3) [of ?v "[]" "le32 (ace_mask a)" "sid_bytes s @ post"]) (use w l in simp_all)
  moreover have "w_buf (advance 4 ?v) = sid_bytes s @ post" by (rule advance_known [OF w]) simp
  then have "decode_sid c (advance 4 ?v) = Some (c, Some (s, advance (length (sid_bytes s)) (advance 4 ?v)))"
    by (rule decode_sid_known [OF s(2) _ _ c]) (use l in simp)
  moreover have "\<not> w_len v - 4 < 4" using l by linarith
  ultimately show ?thesis using wf s l c
    by (cases a) (simp add: decode_ace_def decode_mask_ace_def smb2_alloc_data_def wf_ace_def sid_of_def word_less_nat_alt)
qed

lemma decode_aces_known:
  assumes "list_all wf_ace as" "w_buf v = concat (map ace_bytes as) @ post" "length (concat (map ace_bytes as)) \<le> w_len v" "has_memory c"
  shows "decode_aces c v (length as) = Some (c, Some as)"
  using assms
proof (induction as arbitrary: v)
  case (Cons a as)
  have n: "unat (ace_ace_size a) = length (ace_bytes a)" using Cons.prems by (simp add: wf_ace_def)
  have "decode_ace c v = Some (c, Some a)"
    by (rule decode_ace_known [where post = "concat (map ace_bytes as) @ post"]) (use Cons.prems in simp_all)
  moreover have "decode_aces c (advance (unat (ace_ace_size a)) v) (length as) = Some (c, Some as)"
    unfolding n by (rule Cons.IH) (use Cons.prems in \<open>simp_all add: advance_def\<close>)
  ultimately show ?case using Cons.prems n by simp
qed simp

lemma decode_acl_known:
  assumes wf: "wf_acl l" and v: "w_buf v = acl_bytes l @ post" "length (acl_bytes l) \<le> w_len v" and c: "has_memory c"
  shows "decode_acl c v = Some (c, Some l)"
proof -
  let ?n = "of_nat (8 + length (aces_bytes l)) :: u16"
  have b: "w_buf v = [acl_revision l] @ [0] @ le16 ?n @ le16 (acl_ace_count l) @ le16 0 @ aces_bytes l @ post"
    using v(1) by (simp add: acl_bytes_def)
  have n: "unat ?n = 8 + length (aces_bytes l)" using wf unfolding wf_acl_def by (subst unat_of_nat) simp
  have l: "8 + length (aces_bytes l) \<le> w_len v" using v(2) by (simp add: acl_bytes_def)
  have "read8 v 0 0 = Some (acl_revision l)"
    by (rule read_known(1) [of v "[]" _ "[0] @ le16 ?n @ le16 (acl_ace_count l) @ le16 0 @ aces_bytes l @ post"]) (use b l in simp_all)
  moreover have "read16 v 2 0 = Some ?n"
    by (rule read_known(2) [of v "[acl_revision l] @ [0]" "le16 ?n" "le16 (acl_ace_count l) @ le16 0 @ aces_bytes l @ post"])
       (use b l in simp_all)
  moreover have "read16 v 4 0 = Some (acl_ace_count l)"
    by (rule read_known(2) [of v "[acl_revision l] @ [0] @ le16 ?n" "le16 (acl_ace_count l)" "le16 0 @ aces_bytes l @ post"])
       (use b l in simp_all)
  moreover have "decode_aces c (advance 8 (v\<lparr>w_len := unat ?n\<rparr>)) (length (acl_aces l)) = Some (c, Some (acl_aces l))"
    by (rule decode_aces_known [where post = post]) (use b n wf c in \<open>simp_all add: wf_acl_def advance_def aces_bytes_def\<close>)
  ultimately show ?thesis using wf l n c by (cases l) (auto simp: decode_acl_def wf_acl_def smb2_alloc_data_def)
qed

subsection \<open>Properties\<close>

text \<open>C19. Decoding a security descriptor never leaves the received vector, whatever the lengths and counts in its
  SIDs, ACEs and ACL say, provided the three offsets do not wrap around when 8 is added and the size field
  of the ACL covers the ACL's own header.\<close>

theorem security_descriptor_in_bounds:
  assumes "unat (get32 b 4 0) < 2 ^ 32 - 8" "unat (get32 b 8 0) < 2 ^ 32 - 8" "unat (get32 b 16 0) < 2 ^ 32 - 8"
    and "0 < get32 b 16 0 \<Longrightarrow> unat (get32 b 16 0) + 8 \<le> length b \<Longrightarrow> 8 \<le> unat (get16 b (unat (get32 b 16 0) + 2) 0)"
  shows "\<exists>r. smb2_decode_security_descriptor c sd b = Some r"
proof -
  obtain c1 r1 where 1: "sid_part ''failed to decode owner sid: %s'' c b (get32 b 4 0) = Some (c1, r1)"
    using owner_part_sound [OF assms(1)] by metis
  obtain c2 r2 where 2: "sid_part ''failed to decode group sid: %s'' c1 b (get32 b 8 0) = Some (c2, r2)"
    using owner_part_sound [OF assms(2)] by metis
  obtain c3 r3 where 3: "dacl_part c2 b (get32 b 16 0) = Some (c3, r3)" using dacl_part_sound [OF assms(3,4)] by metis
  show ?thesis by (cases r1; cases r2; cases r3) (simp_all add: smb2_decode_security_descriptor_def Let_def 1 2 3)
qed

text \<open>An ACL whose size field is smaller than its header makes the code read behind the vector.\<close>

definition tiny_acl :: bytes where
  "tiny_acl = [2, 0] @ le16 0 @ le16 1 @ le16 0"

lemma tiny_acl_overread: "decode_acl zero_context (whole tiny_acl) = None"
proof -
  have b: "tiny_acl = [2, 0, 0, 0, 1, 0, 0, 0]" by (simp add: tiny_acl_def le16_def eval_nat_numeral)
  have r: "read8 (whole tiny_acl) 0 0 = Some 2" "read16 (whole tiny_acl) 2 0 = Some 0" "read16 (whole tiny_acl) 4 0 = Some 1"
    by (simp_all add: b whole_def read8_def read16_def may_read_def get_at_def numeral_2_eq_2)
  have v: "advance 8 ((whole tiny_acl)\<lparr>w_len := 0\<rparr>) = \<lparr>w_buf = [], w_len = 18446744073709551608\<rparr>"
    by (simp add: b whole_def advance_def)
  have "decode_ace c \<lparr>w_buf = [], w_len = 18446744073709551608\<rparr> = None" for c
    by (simp add: decode_ace_def read8_def may_read_def)
  moreover have "\<not> w_len (whole tiny_acl) < 8" by (simp add: b whole_def)
  ultimately show ?thesis by (simp add: decode_acl_def r v smb2_alloc_data_def)
qed

text \<open>C20. A security descriptor in the self-relative format, with an owner, a group and a DACL of ACEs that have a
  mask and a SID, is decoded to exactly these.\<close>

theorem security_descriptor_decodes:
  assumes "wf_sid owner" "wf_sid grp" "wf_acl dacl" "has_memory c"
  shows "smb2_decode_security_descriptor c sd (sd_bytes control owner grp dacl) =
    Some (0, c, \<lparr>sd_revision = 1, sd_control = control, sd_owner = Some owner, sd_group = Some grp, sd_dacl = Some dacl\<rparr>)"
proof -
  define b where "b = sd_bytes control owner grp dacl"
  define g d where "g = 20 + length (sid_bytes owner)" and "d = g + length (sid_bytes grp)"
  have b: "b = [1, 0] @ le16 control @ le32 20 @ le32 (of_nat g) @ le32 0 @ le32 (of_nat d) @
      sid_bytes owner @ sid_bytes grp @ acl_bytes dacl"
    by (simp add: b_def sd_bytes_def g_def d_def Let_def)
  have lens: "length (sid_bytes owner) \<le> 8 + 255 * 4" "length (sid_bytes grp) \<le> 8 + 255 * 4" "8 \<le> length (sid_bytes owner)"
      "8 \<le> length (sid_bytes grp)" "8 \<le> length (acl_bytes dacl)"
    using length_sid_bytes [OF assms(1)] length_sid_bytes [OF assms(2)] assms(1,2) unat_bound(1) [of "sid_sub_auth_count owner"]
      unat_bound(1) [of "sid_sub_auth_count grp"] by (simp_all add: wf_sid_def acl_bytes_def del: unat_bound)
  have u: "unat (of_nat g :: u32) = g" "unat (of_nat d :: u32) = d" "unat (of_nat g + 2 + 6 :: u32) = g + 8"
      "unat (of_nat d + 8 :: u32) = d + 8"
    using lens by (simp_all add: g_def d_def unat_word_ariths unat_of_nat)
  have fields: "get8 b 0 0 = 1" "get16 b 2 0 = control" "get32 b 4 0 = 20" "get32 b 8 0 = of_nat g" "get32 b 16 0 = of_nat d"
    by (simp_all add: b field_io)
  have len: "length b = d + length (acl_bytes dacl)" by (simp add: b d_def g_def)
  define h where "h = [1, 0] @ le16 control @ le32 20 @ le32 (of_nat g) @ le32 0 @ le32 (of_nat d)"
  have h: "length h = 20" "b = h @ sid_bytes owner @ sid_bytes grp @ acl_bytes dacl" by (simp_all add: h_def b)
  have at: "drop n x = z" if "x = y @ z" "length y = n" for n and x y z :: bytes using that by simp
  have drops: "drop 20 b = sid_bytes owner @ sid_bytes grp @ acl_bytes dacl" "drop g b = sid_bytes grp @ acl_bytes dacl"
      "drop d b = acl_bytes dacl @ []"
    by (rule at [where y = h] at [where y = "h @ sid_bytes owner"] at [where y = "h @ sid_bytes owner @ sid_bytes grp"];
        use h in \<open>simp add: g_def d_def\<close>)+
  have own: "sid_part ''failed to decode owner sid: %s'' c b 20 = Some (c, Some (Some owner))"
    using decode_sid_known [OF assms(1) _ _ assms(4), of "advance 20 (whole b)" "sid_bytes grp @ acl_bytes dacl"] drops(1) len lens
    by (simp add: sid_part_def decode_part_def decode_owner_def sid_of_def whole_def advance_def d_def g_def)
  have grp: "sid_part ''failed to decode group sid: %s'' c b (of_nat g) = Some (c, Some (Some grp))"
    using decode_sid_known [OF assms(2) _ _ assms(4), of "advance g (whole b)" "acl_bytes dacl"] drops(2) len lens u
    by (simp add: sid_part_def decode_part_def decode_owner_def sid_of_def whole_def advance_def d_def g_def word_less_nat_alt)
  have dacl: "dacl_part c b (of_nat d) = Some (c, Some (Some dacl))"
    using decode_acl_known [OF assms(3) _ _ assms(4), of "advance d (whole b)" "[]"] drops(3) len lens u
    by (simp add: dacl_part_def decode_part_def whole_def advance_def d_def g_def word_less_nat_alt)
  have "\<not> length b < 20" using len by (simp add: d_def g_def)
  then show ?thesis unfolding b_def [symmetric]
    by (cases sd) (simp add: smb2_decode_security_descriptor_def Let_def fields own grp dacl)
qed

definition sample_sid :: smb2_sid where
  "sample_sid = \<lparr>sid_revision = 1, sid_sub_auth_count = 1, sid_id_auth = replicate 6 0, sid_sub_auth = [18]\<rparr>"

definition sample_acl :: smb2_acl where
  "sample_acl = \<lparr>acl_revision = 2, acl_ace_count = 1, acl_aces =
     [\<lparr>ace_ace_type = 0, ace_ace_flags = 0, ace_ace_size = 20, ace_mask = 1, ace_flags = 0, ace_sid = Some sample_sid,
       ace_object_type = replicate 16 0, ace_inherited_object_type = replicate 16 0, ace_ad_data = [], ace_raw_data = []\<rparr>]\<rparr>"

definition no_descriptor :: smb2_security_descriptor where
  "no_descriptor = \<lparr>sd_revision = 0, sd_control = 0, sd_owner = None, sd_group = None, sd_dacl = None\<rparr>"

lemma sample_wf: "wf_sid sample_sid" "wf_acl sample_acl"
  by (simp_all add: wf_sid_def sample_sid_def wf_acl_def sample_acl_def wf_ace_def ace_bytes_def sid_bytes_def mask_ace_def aces_bytes_def)

theorem security_descriptor_decodes_witness:
  "smb2_decode_security_descriptor zero_context no_descriptor (sd_bytes 0x8004 sample_sid sample_sid sample_acl) =
    Some (0, zero_context, \<lparr>sd_revision = 1, sd_control = 0x8004, sd_owner = Some sample_sid, sd_group = Some sample_sid,
      sd_dacl = Some sample_acl\<rparr>)"
  by (rule security_descriptor_decodes) (simp_all add: sample_wf)

theorem security_descriptor_in_bounds_witness:
  "\<exists>r. smb2_decode_security_descriptor zero_context no_descriptor (replicate 20 0) = Some r"
  by (rule security_descriptor_in_bounds) (simp_all add: get_defs get_at_def)

end
