(* ===== verification/Smb2_Cmd_File.thy ===== *)
theory Smb2_Cmd_File
  imports Smb2_Data
begin

text \<open>
  Opening files, setting their information and controlling them: \<^verbatim>\<open>lib/smb2-cmd-create.c\<close>,
  \<^verbatim>\<open>lib/smb2-cmd-set-info.c\<close> and \<^verbatim>\<open>lib/smb2-cmd-ioctl.c\<close>. A name member is a C string
  without its terminator. What an encoder stores back into the caller's structure (name lengths and
  offsets) is not modelled; the values are those on the wire.

  Where a decoder keeps a pointer into the received vector, the model keeps the bytes from there to the end
  of the vector.
\<close>

subsection \<open>Create\<close>

definition create_name :: "smb2_context \<Rightarrow> bytes option \<Rightarrow> smb2_utf16 option option" where
  "create_name c name =
     (case name of
        Some s \<Rightarrow> if s = [] then Some None else map_option Some (smb2_utf8_to_utf16 (c_mem_ok c) s)
      | None \<Rightarrow> Some None)"

definition create_context_offset :: "smb2_create_request \<Rightarrow> u32" where
  "create_context_offset req =
     (if crq_create_context_length req \<noteq> 0
      then if crq_name_length req = 0 then PAD_TO_64BIT (4 + 120) else PAD_TO_64BIT (ucast (crq_name_length req) + 120)
      else 0)"

definition create_request_fields :: "bool \<Rightarrow> smb2_create_request \<Rightarrow> bytes \<Rightarrow> bytes" where
  "create_request_fields named req =
     set32 52 (crq_create_context_length req) \<circ> set32 48 (create_context_offset req) \<circ> set16 44 120 \<circ>
     set32 40 (crq_create_options req) \<circ> set32 36 (crq_create_disposition req) \<circ> set32 32 (crq_share_access req) \<circ>
     set32 28 (crq_file_attributes req) \<circ> set32 24 (crq_desired_access req) \<circ> set64 8 (crq_smb_create_flags req) \<circ>
     set32 4 (crq_impersonation_level req) \<circ> set8 3 (crq_requested_oplock_level req) \<circ> set8 2 (crq_security_flags req) \<circ>
     set16 0 57 \<circ> (if named then set16 46 (crq_name_length req) else id)"

text \<open>The loop that converts slashes to backslashes in a vector of UTF-16 units.\<close>

definition backslash_unit :: "nat \<Rightarrow> bytes \<Rightarrow> bytes" where
  "backslash_unit i b = (if get16 b (i * 2) 0 = 0x002f then set16 (i * 2) 0x005c b else b)"

definition backslashes :: "nat \<Rightarrow> bytes \<Rightarrow> bytes" where
  "backslashes n b = fold backslash_unit [0..<n] b"

definition padded64 :: "smb2_context \<Rightarrow> u32 \<Rightarrow> bytes option \<Rightarrow> bytes" where
  "padded64 c n src = copy_bytes c (unat n) src @ replicate (unat (PAD_TO_64BIT n) - unat n) 0"

definition encode_create_context ::
  "string \<Rightarrow> u32 \<Rightarrow> bytes option \<Rightarrow> smb2_context \<Rightarrow> smb2_pdu \<Rightarrow> int \<times> smb2_context \<times> smb2_pdu" where
  "encode_create_context no_vec n ctx c pdu =
     (if n = 0 then (0, c, pdu)
      else encode_buffer ''Failed to allocate create context'' no_vec (unat (PAD_TO_64BIT n)) (padded64 c n ctx) c pdu)"

definition smb2_encode_create_request ::
  "smb2_context \<Rightarrow> smb2_pdu \<Rightarrow> smb2_create_request \<Rightarrow> int \<times> smb2_context \<times> smb2_pdu" where
  "smb2_encode_create_request c pdu req =
     (let name = create_name c (crq_name req);
          n = (case name of Some (Some u) \<Rightarrow> 2 * u_len u | _ \<Rightarrow> 0);
          req = (case name of Some (Some u) \<Rightarrow> req\<lparr>crq_name_length := of_nat n\<rparr> | _ \<Rightarrow> req)
      in and_then (encode_fixed ''Failed to allocate create buffer'' ''Failed to add iovector for create request'' 56
           (if name = None then id else create_request_fields (name \<noteq> Some None) req) c pdu)
         (\<lambda>c pdu.
            case name of
              None \<Rightarrow> (-1, smb2_set_error ''Could not convert name into UTF-16'' c, pdu)
            | Some name \<Rightarrow>
              and_then
                (case name of
                   None \<Rightarrow> encode_static ''Failed to add iovector for create empty name padding'' (replicate 8 0) NoFree c pdu
                 | Some u \<Rightarrow>
                   (let len = unat (PAD_TO_64BIT (of_nat n)) in
                    encode_buffer ''Failed to allocate create name'' ''Failed to add iovector for create name'' len
                      (backslashes (u_len u) (u_val u @ replicate (len - n) 0)) c pdu))
                (encode_create_context ''Failed to add iovector for create context'' (crq_create_context_length req)
                   (crq_create_context req))))"

definition smb2_cmd_create_async ::
  "smb2_context \<Rightarrow> smb2_create_request \<Rightarrow> nat \<Rightarrow> nat \<Rightarrow> smb2_context \<times> smb2_pdu option" where
  "smb2_cmd_create_async c req = cmd_pdu SMB2_CREATE (\<lambda>c pdu. smb2_encode_create_request c pdu req) c"

definition create_reply_fields :: "smb2_create_reply \<Rightarrow> bytes \<Rightarrow> bytes" where
  "create_reply_fields rep =
     set32 84 (crr_create_context_length rep) \<circ> set32 80 (PAD_TO_64BIT (88 + 64)) \<circ> put_at 64 (crr_file_id rep) \<circ>
     set32 56 (crr_file_attributes rep) \<circ> set64 48 (crr_end_of_file rep) \<circ> set64 40 (crr_allocation_size rep) \<circ>
     set64 32 (crr_change_time rep) \<circ> set64 24 (crr_last_write_time rep) \<circ> set64 16 (crr_last_access_time rep) \<circ>
     set64 8 (crr_creation_time rep) \<circ> set32 4 (crr_create_action rep) \<circ> set8 3 (crr_flags rep) \<circ>
     set8 2 (crr_oplock_level rep) \<circ> set16 0 89"

definition smb2_encode_create_reply ::
  "smb2_context \<Rightarrow> smb2_pdu \<Rightarrow> smb2_create_reply \<Rightarrow> int \<times> smb2_context \<times> smb2_pdu" where
  "smb2_encode_create_reply c pdu rep =
     and_then (encode_fixed ''Failed to allocate create buffer'' ''Failed to add iovector for create reply'' 88
                 (create_reply_fields rep) c pdu)
       (encode_create_context ''Failed to add iovector for create reply context'' (crr_create_context_length rep)
          (crr_create_context rep))"

definition smb2_cmd_create_reply_async ::
  "smb2_context \<Rightarrow> smb2_create_reply \<Rightarrow> nat \<Rightarrow> nat \<Rightarrow> smb2_context \<times> smb2_pdu option" where
  "smb2_cmd_create_reply_async c rep = cmd_pdu SMB2_CREATE (\<lambda>c pdu. smb2_encode_create_reply c pdu rep) c"

text \<open>\<open>IOV_OFFSET_CREATE\<close>, in unsigned arithmetic.\<close>

definition create_reply_offset :: "smb2_create_reply \<Rightarrow> u32" where
  "create_reply_offset rep = crr_create_context_offset rep - 152"

definition smb2_process_create_fixed :: decoder where
  "smb2_process_create_fixed =
     process_fixed ''Unexpected size of Create. Expected %d, got %d'' ''Failed to allocate create reply'' 89 96
       (\<lambda>c pdu.
          let b = in_buf c; j = c_junk c;
              rep = \<lparr>crr_oplock_level = get8 b 2 (ucast j), crr_flags = get8 b 3 (ucast j),
                     crr_create_action = get32 b 4 (ucast j), crr_creation_time = get64 b 8 j,
                     crr_last_access_time = get64 b 16 j, crr_last_write_time = get64 b 24 j, crr_change_time = get64 b 32 j,
                     crr_allocation_size = get64 b 40 j, crr_end_of_file = get64 b 48 j,
                     crr_file_attributes = get32 b 56 (ucast j), crr_file_id = get_at 64 SMB2_FD_SIZE b,
                     crr_create_context_length = get32 b 84 (ucast j), crr_create_context_offset = get32 b 80 (ucast j),
                     crr_create_context = None\<rparr>
          in if crr_create_context_length rep = 0 then (0, c, set_payload (P_create_reply rep) pdu)
             else if crr_create_context_offset rep < 152
             then (-1, smb2_set_error ''Create context overlaps with reply header'' c, pdu\<lparr>p_payload := None\<rparr>)
             else (sint (create_reply_offset rep + crr_create_context_length rep), c, set_payload (P_create_reply rep) pdu))"

definition smb2_process_create_variable :: decoder where
  "smb2_process_create_variable c pdu =
     (case p_payload pdu of
        Some (P_create_reply rep) \<Rightarrow>
          (0, c, set_payload (P_create_reply (rep\<lparr>crr_create_context :=
             (if crr_create_context_length rep \<noteq> 0 then Some (drop (unat (create_reply_offset rep)) (in_buf c)) else None)\<rparr>)) pdu)
      | _ \<Rightarrow> (0, c, pdu))"

text \<open>What follows the fixed part of a request: padding, the name, and the create contexts.\<close>

definition create_remaining :: "smb2_create_request \<Rightarrow> int" where
  "create_remaining req =
     (let remaining = ucast (crq_name_offset req) - 120 :: u32;
          remaining = remaining +
            (if crq_create_context_offset req > ucast (crq_name_offset req)
             then PAD_TO_64BIT (crq_create_context_offset req - ucast (crq_name_offset req))
             else ucast (crq_name_length req))
      in sint (remaining + crq_create_context_length req))"

definition smb2_process_create_request_fixed :: decoder where
  "smb2_process_create_request_fixed =
     process_fixed ''Unexpected size of Create Request. Expected %d, got %d'' ''Failed to allocate create request'' 57 64
       (\<lambda>c pdu.
          let b = in_buf c; j = c_junk c;
              req = \<lparr>crq_security_flags = get8 b 2 (ucast j), crq_requested_oplock_level = get8 b 3 (ucast j),
                     crq_impersonation_level = get32 b 4 (ucast j), crq_smb_create_flags = get64 b 8 j,
                     crq_desired_access = get32 b 24 (ucast j), crq_file_attributes = get32 b 28 (ucast j),
                     crq_share_access = get32 b 32 (ucast j), crq_create_disposition = get32 b 36 (ucast j),
                     crq_create_options = get32 b 40 (ucast j), crq_name_offset = get16 b 44 (ucast j),
                     crq_name_length = get16 b 46 (ucast j), crq_name = None,
                     crq_create_context_offset = get32 b 48 (ucast j), crq_create_context_length = get32 b 52 (ucast j),
                     crq_create_context = None\<rparr>
          in if crq_create_context_length req = 0 \<and> crq_name_length req = 0
             then (0, c, set_payload (P_create_request req) pdu)
             else if crq_name_length req > 0 \<and> crq_name_offset req < 120
             then (-1, smb2_set_error ''name overlaps with request header'' c, pdu\<lparr>p_payload := None\<rparr>)
             else if crq_create_context_length req > 0 \<and> crq_create_context_offset req < 120
             then (-1, smb2_set_error ''Create context overlaps with request header'' c, pdu\<lparr>p_payload := None\<rparr>)
             else (create_remaining req, c, set_payload (P_create_request req) pdu))"

text \<open>The copy of a received name in a block of its own. \<open>smb2_alloc_init\<close> adds 8 bytes.\<close>

definition received_name :: "smb2_context \<Rightarrow> bytes \<Rightarrow> nat \<Rightarrow> string + bytes" where
  "received_name c b n =
     (case raw_name c b 0 n of
        None \<Rightarrow> Inl ''can not convert name to utf8''
      | Some s \<Rightarrow> if c_mem_ok c (length (c_string s) + 1 + 8) then Inr (c_string s) else Inl ''can not alloc name buffer'')"

definition smb2_process_create_request_variable :: decoder where
  "smb2_process_create_request_variable c pdu =
     (case p_payload pdu of
        Some (P_create_request req) \<Rightarrow>
          (let b = in_buf c;
               r = (if crq_name_length req > 0 then map_sum id Some (received_name c b (unat (crq_name_length req) div 2)) else Inr None)
           in case r of
                Inl e \<Rightarrow> (-1, smb2_set_error e c, set_payload (P_create_request (req\<lparr>crq_name := None\<rparr>)) pdu)
              | Inr name \<Rightarrow>
                (0, c, set_payload (P_create_request (req\<lparr>crq_name := name, crq_create_context :=
                   (if crq_create_context_length req \<noteq> 0 \<and> crq_create_context_offset req \<noteq> 0
                    then Some (drop (unat (crq_create_context_offset req - 120)) b) else None)\<rparr>)) pdu))
      | _ \<Rightarrow> (0, c, pdu))"

subsection \<open>Set info\<close>

text \<open>A caller whose \<open>input_data\<close> does not point to the structure that its information class names has undefined
  behaviour in C; the model reads junk there.\<close>

definition si_raw :: "set_info_data \<Rightarrow> bytes option" where
  "si_raw d = (case d of Si_raw b \<Rightarrow> Some b | _ \<Rightarrow> None)"

definition si_basic :: "smb2_context \<Rightarrow> set_info_data \<Rightarrow> smb2_file_basic_info" where
  "si_basic c d =
     (case d of Si_basic i \<Rightarrow> i
      | _ \<Rightarrow> (let t = smb2_win_to_timeval (c_junk c) in
             \<lparr>fbi_creation_time = t, fbi_last_access_time = t, fbi_last_write_time = t, fbi_change_time = t,
              fbi_file_attributes = ucast (c_junk c)\<rparr>))"

definition si_end_of_file :: "smb2_context \<Rightarrow> set_info_data \<Rightarrow> u64" where
  "si_end_of_file c d = (case d of Si_end_of_file n \<Rightarrow> n | _ \<Rightarrow> c_junk c)"

definition si_rename :: "smb2_context \<Rightarrow> set_info_data \<Rightarrow> u8 \<times> bytes" where
  "si_rename c d = (case d of Si_rename r s \<Rightarrow> (r, s) | _ \<Rightarrow> (ucast (c_junk c), []))"

definition si_disposition :: "smb2_context \<Rightarrow> set_info_data \<Rightarrow> u8" where
  "si_disposition c d = (case d of Si_disposition f \<Rightarrow> f | _ \<Rightarrow> ucast (c_junk c))"

text \<open>The data of each class outside passthrough, or the error; the first string is the error when no vector
  is left.\<close>

definition rename_data :: "u8 \<Rightarrow> smb2_utf16 \<Rightarrow> bytes" where
  "rename_data replace name =
     (let n = 2 * u_len name in
      put_at 20 (backslashes (u_len name) (u_val name))
        (set32 16 (of_nat n) (set64 8 0 (set8 0 replace (replicate (28 + n) 0)))))"

definition set_info_wire :: "smb2_context \<Rightarrow> smb2_set_info_request \<Rightarrow> string + string \<times> bytes" where
  "set_info_wire c req =
     (let d = siq_input_data req; cls = siq_file_info_class req in
      if siq_info_type req \<noteq> 1 then Inl ''Can not encode file info_type %d yet''
      else if cls = 4
      then Inr (''Failed to add iovector for set-info basic data'', snd (smb2_encode_file_basic_info (si_basic c d) (replicate 40 0)))
      else if cls = 0x14
      then Inr (''Failed to add iovector for set-info EOF data'', set64 0 (si_end_of_file c d) (replicate 8 0))
      else if cls = 0x0a
      then (case si_rename c d of
              (replace, s) \<Rightarrow>
                (case smb2_utf8_to_utf16 (c_mem_ok c) s of
                   None \<Rightarrow> Inl ''Could not convert name into UTF-16''
                 | Some name \<Rightarrow> Inr (''Failed to add iovector for set-info rename data'', rename_data replace name)))
      else if cls = 0x0d
      then Inr (''Failed to add iovector for set-info disposition data'', set8 0 (si_disposition c d) (replicate 1 0))
      else Inl ''Can not enccode info_type/info_class %d/%d yet'')"

definition set_info_request_fields :: "smb2_set_info_request \<Rightarrow> bytes \<Rightarrow> bytes" where
  "set_info_request_fields req =
     put_at 16 (siq_file_id req) \<circ> set32 12 (siq_additional_information req) \<circ> set16 8 (64 + 32) \<circ>
     set8 3 (siq_file_info_class req) \<circ> set8 2 (siq_info_type req) \<circ> set16 0 33"

text \<open>With \<open>passthrough\<close> the length and the offset go into the vector that was added last.\<close>

definition smb2_encode_set_info_request ::
  "smb2_context \<Rightarrow> smb2_pdu \<Rightarrow> smb2_set_info_request \<Rightarrow> int \<times> smb2_context \<times> smb2_pdu" where
  "smb2_encode_set_info_request c pdu req =
     (let n = siq_buffer_length req;
          where_to = set16 8 (siq_buffer_offset req) \<circ> set32 4 n;
          wire = set_info_wire c req;
          header = (if c_passthrough c then if n = 0 then where_to else id
                    else case wire of Inl _ \<Rightarrow> id | Inr (_, b) \<Rightarrow> set32 4 (of_nat (length b)))
      in and_then (encode_fixed ''Failed to allocate set info buffer'' ''Failed to add iovector for set-info request header'' 32
                     (header \<circ> set_info_request_fields req) c pdu)
           (\<lambda>c pdu.
              if c_passthrough c then
                if n = 0 then (0, c, pdu)
                else if \<not> c_mem_ok c (unat (PAD_TO_32BIT n))
                then (-1, smb2_set_error ''Failed to allocate set info data buffer'' c, pdu)
                else encode_static ''Failed to add iovector for set-info passthrough buffer''
                       (where_to (copy_bytes c (unat n) (si_raw (siq_input_data req)))) Free c pdu
              else
                (case wire of
                   Inl e \<Rightarrow> (-1, smb2_set_error e c, pdu)
                 | Inr (no_vec, b) \<Rightarrow> encode_buffer ''Failed to allocate set info data buffer'' no_vec (length b) b c pdu)))"

definition smb2_cmd_set_info_async ::
  "smb2_context \<Rightarrow> smb2_set_info_request \<Rightarrow> nat \<Rightarrow> nat \<Rightarrow> smb2_context \<times> smb2_pdu option" where
  "smb2_cmd_set_info_async c req = cmd_pdu SMB2_SET_INFO (\<lambda>c pdu. smb2_encode_set_info_request c pdu req) c"

definition smb2_encode_set_info_reply :: "smb2_context \<Rightarrow> smb2_pdu \<Rightarrow> int \<times> smb2_context \<times> smb2_pdu" where
  "smb2_encode_set_info_reply =
     encode_fixed ''Failed to allocate set info buffer'' ''Failed to add iovector for set-info reply header'' 2 (set16 0 2)"

definition smb2_cmd_set_info_reply_async :: "smb2_context \<Rightarrow> nat \<Rightarrow> nat \<Rightarrow> smb2_context \<times> smb2_pdu option" where
  "smb2_cmd_set_info_reply_async = cmd_pdu SMB2_SET_INFO smb2_encode_set_info_reply"

definition smb2_process_set_info_fixed :: decoder where
  "smb2_process_set_info_fixed c pdu = (0, c, pdu)"

definition smb2_process_set_info_request_fixed :: decoder where
  "smb2_process_set_info_request_fixed =
     process_fixed ''Unexpected size of set info request. Expected %d, got %d'' ''Failed to allocate set-info request'' 33 40
       (\<lambda>c pdu.
          let b = in_buf c; j = c_junk c;
              req = \<lparr>siq_info_type = get8 b 2 (ucast j), siq_file_info_class = get8 b 3 (ucast j),
                     siq_buffer_length = get32 b 4 (ucast j), siq_buffer_offset = get16 b 8 (ucast j),
                     siq_additional_information = get32 b 12 (ucast j), siq_file_id = get_at 16 SMB2_FD_SIZE b,
                     siq_input_data = Si_null\<rparr>
          in (sint (siq_buffer_length req), c, set_payload (P_set_info_request req) pdu))"

definition smb2_process_set_info_request_variable :: decoder where
  "smb2_process_set_info_request_variable c pdu =
     (if \<not> c_passthrough c then (-1, smb2_set_error ''can not interpret set-info buffers yet'' c, pdu)
      else
        (case p_payload pdu of
           Some (P_set_info_request req) \<Rightarrow>
             (0, c, set_payload (P_set_info_request (req\<lparr>siq_input_data := Si_raw (in_buf c)\<rparr>)) pdu)
         | _ \<Rightarrow> (0, c, pdu)))"

subsection \<open>Ioctl\<close>

abbreviation (input) SMB2_FSCTL_GET_REPARSE_POINT :: u32 where "SMB2_FSCTL_GET_REPARSE_POINT \<equiv> 0x000900A8"
abbreviation (input) SMB2_FSCTL_VALIDATE_NEGOTIATE_INFO :: u32 where "SMB2_FSCTL_VALIDATE_NEGOTIATE_INFO \<equiv> 0x00140204"

definition io_raw :: "ioctl_data \<Rightarrow> bytes option" where
  "io_raw d = (case d of Io_raw b \<Rightarrow> Some b | _ \<Rightarrow> None)"

definition ioctl_request_fields :: "smb2_ioctl_request \<Rightarrow> bytes \<Rightarrow> bytes" where
  "ioctl_request_fields req =
     set32 48 (ioq_flags req) \<circ> set32 44 65535 \<circ> set32 32 0 \<circ> set32 28 (ioq_input_count req) \<circ>
     set32 24 (64 + 56) \<circ> put_at 8 (ioq_file_id req) \<circ> set32 4 (ioq_ctl_code req) \<circ> set16 0 57"

definition smb2_encode_ioctl_request ::
  "smb2_context \<Rightarrow> smb2_pdu \<Rightarrow> smb2_ioctl_request \<Rightarrow> int \<times> smb2_context \<times> smb2_pdu" where
  "smb2_encode_ioctl_request c pdu req =
     and_then (encode_fixed ''Failed to allocate ioctl buffer'' [] 56 (ioctl_request_fields req) c pdu)
       (\<lambda>c pdu.
          if ioq_input_count req \<noteq> 0
          then encode_static [] (copy_bytes c (unat (ioq_input_count req)) (io_raw (ioq_input req))) NoFree c pdu
          else (0, c, pdu))"

definition smb2_cmd_ioctl_async ::
  "smb2_context \<Rightarrow> smb2_ioctl_request \<Rightarrow> nat \<Rightarrow> nat \<Rightarrow> smb2_context \<times> smb2_pdu option" where
  "smb2_cmd_ioctl_async c req = cmd_pdu SMB2_IOCTL (\<lambda>c pdu. smb2_encode_ioctl_request c pdu req) c"

text \<open>The answer to a negotiation check. The \<open>memset\<close> of \<open>output_count\<close> bytes before it may go beyond the 24
  bytes of the block; that is not modelled.\<close>

definition io_negotiate :: "smb2_context \<Rightarrow> ioctl_data \<Rightarrow> smb2_ioctl_validate_negotiate_info" where
  "io_negotiate c d =
     (case d of Io_negotiate i \<Rightarrow> i
      | _ \<Rightarrow> \<lparr>vni_capabilities = ucast (c_junk c), vni_guid = copy_bytes c 16 None, vni_security_mode = ucast (c_junk c),
              vni_dialect = ucast (c_junk c)\<rparr>)"

definition negotiate_info_fields :: "smb2_ioctl_validate_negotiate_info \<Rightarrow> bytes \<Rightarrow> bytes" where
  "negotiate_info_fields info =
     set16 22 (vni_dialect info) \<circ> set16 20 (vni_security_mode info) \<circ> put_at 4 (vni_guid info) \<circ> set32 0 (vni_capabilities info)"

definition ioctl_output :: "smb2_context \<Rightarrow> smb2_ioctl_reply \<Rightarrow> smb2_pdu \<Rightarrow> int \<times> smb2_context \<times> smb2_pdu" where
  "ioctl_output c rep pdu =
     (if ior_output_count rep = 0 then (0, c, pdu)
      else if ior_ctl_code rep = SMB2_FSCTL_VALIDATE_NEGOTIATE_INFO
      then encode_buffer ''Failed to allocate ioctl output'' [] 24
             (negotiate_info_fields (io_negotiate c (ior_output rep)) (replicate 24 0)) c pdu
      else if \<not> c_passthrough c then (-1, smb2_set_error ''No handling of code %d'' c, pdu)
      else if \<not> c_mem_ok c (unat (PAD_TO_64BIT (ior_output_count rep)))
      then (-1, smb2_set_error ''Failed to allocate ioctl output'' c, pdu)
      else encode_static [] (copy_bytes c (unat (ior_output_count rep)) (io_raw (ior_output rep))) Free c pdu)"

text \<open>\<open>len\<close>, which still holds the size of the fixed part when there is no output.\<close>

definition ioctl_output_length :: "smb2_ioctl_reply \<Rightarrow> u32" where
  "ioctl_output_length rep =
     (if ior_output_count rep = 0 then 48
      else if ior_ctl_code rep = SMB2_FSCTL_VALIDATE_NEGOTIATE_INFO then 24 else ior_output_count rep)"

definition ioctl_reply_fields :: "smb2_ioctl_reply \<Rightarrow> bytes \<Rightarrow> bytes" where
  "ioctl_reply_fields rep =
     set32 40 (ior_flags rep) \<circ> set32 36 (ioctl_output_length rep) \<circ> set32 32 (64 + 48 + PAD_TO_64BIT (ior_input_count rep)) \<circ>
     set32 28 (ior_input_count rep) \<circ> set32 24 (64 + 48) \<circ> put_at 8 (ior_file_id rep) \<circ> set32 4 (ior_ctl_code rep) \<circ> set16 0 49"

text \<open>A store into a vector that was added earlier.\<close>

definition store_in :: "nat \<Rightarrow> (bytes \<Rightarrow> bytes) \<Rightarrow> smb2_pdu \<Rightarrow> smb2_pdu" where
  "store_in k fill pdu =
     (let v = p_out pdu; i = v_iov v ! k in pdu\<lparr>p_out := v\<lparr>v_iov := (v_iov v)[k := i\<lparr>iov_buf := fill (iov_buf i)\<rparr>]\<rparr>\<rparr>)"

definition smb2_encode_ioctl_reply ::
  "smb2_context \<Rightarrow> smb2_pdu \<Rightarrow> smb2_ioctl_reply \<Rightarrow> int \<times> smb2_context \<times> smb2_pdu" where
  "smb2_encode_ioctl_reply c pdu rep =
     (let k = length (v_iov (p_out pdu)) in
      and_then (and_then (encode_fixed ''Failed to allocate ioctl reply buffer'' [] 48 id c pdu) (\<lambda>c. ioctl_output c rep))
        (\<lambda>c pdu. (0, c, store_in k (ioctl_reply_fields rep) pdu)))"

definition smb2_cmd_ioctl_reply_async ::
  "smb2_context \<Rightarrow> smb2_ioctl_reply \<Rightarrow> nat \<Rightarrow> nat \<Rightarrow> smb2_context \<times> smb2_pdu option" where
  "smb2_cmd_ioctl_reply_async c rep = cmd_pdu SMB2_IOCTL (\<lambda>c pdu. smb2_encode_ioctl_reply c pdu rep) c"

text \<open>\<open>IOV_OFFSET_IOCTL\<close> and \<open>IOVREQ_OFFSET_IOCTL\<close>, in unsigned arithmetic.\<close>

definition ioctl_reply_offset :: "smb2_ioctl_reply \<Rightarrow> u32" where
  "ioctl_reply_offset rep = ior_output_offset rep - 112"

definition ioctl_request_offset :: "smb2_ioctl_request \<Rightarrow> u32" where
  "ioctl_request_offset req = ioq_input_offset req - 120"

definition smb2_process_ioctl_fixed :: decoder where
  "smb2_process_ioctl_fixed =
     process_fixed ''Unexpected size of Ioctl reply. Expected %d, got %d'' ''Failed to allocate ioctl reply'' 49 48
       (\<lambda>c pdu.
          let b = in_buf c; j = ucast (c_junk c);
              rep = \<lparr>ior_ctl_code = get32 b 4 j, ior_file_id = get_at 8 SMB2_FD_SIZE b, ior_input_offset = get32 b 24 j,
                     ior_input_count = get32 b 28 j, ior_output_offset = get32 b 32 j, ior_output_count = get32 b 36 j,
                     ior_flags = get32 b 40 j, ior_output = Io_null\<rparr>
          in if ior_output_count rep = 0 then (0, c, set_payload (P_ioctl_reply rep) pdu)
             else if ior_output_offset rep < 112
             then (-1, smb2_set_error ''Output buffer overlaps with Ioctl reply header'' c, pdu\<lparr>p_payload := None\<rparr>)
             else (sint (ioctl_reply_offset rep + PAD_TO_64BIT (ior_input_count rep) + ior_output_count rep), c,
                   set_payload (P_ioctl_reply rep) pdu))"

text \<open>
  The bytes behind an offset in a vector. There are none when the offset is beyond its end: the code then
  computes with a length that has wrapped around and reads outside the vector. That, a \<open>NULL\<close> block and a
  copy beyond the end of a block or vector are the result \<open>None\<close> of the variable decoders.
\<close>

definition bytes_behind :: "u32 \<Rightarrow> bytes \<Rightarrow> bytes option" where
  "bytes_behind off b = (if unat off \<le> length b then Some (drop (unat off) b) else None)"

abbreviation (input) EINVAL :: int where "EINVAL \<equiv> 22"
abbreviation (input) ENOMEM :: int where "ENOMEM \<equiv> 12"

type_synonym faulting_decoder = "smb2_context \<Rightarrow> smb2_pdu \<Rightarrow> (int \<times> smb2_context \<times> smb2_pdu) option"

definition smb2_process_ioctl_variable :: faulting_decoder where
  "smb2_process_ioctl_variable c pdu =
     (case p_payload pdu of
        Some (P_ioctl_reply rep) \<Rightarrow>
          (case bytes_behind (ioctl_reply_offset rep) (in_buf c) of
             None \<Rightarrow> None
           | Some vec \<Rightarrow>
             if unat (ior_output_count rep) > length vec then Some (- EINVAL, c, pdu)
             else if ior_ctl_code rep = SMB2_FSCTL_GET_REPARSE_POINT
             then if \<not> c_mem_ok c (8 + 32) then None
                  else (case smb2_decode_reparse_data_buffer c \<lparr>rpb_reparse_tag = 0, rpb_reparse_data_length = 0, rpb_flags = 0,
                               rpb_subname = None, rpb_printname = None\<rparr> vec of
                          None \<Rightarrow> None
                        | Some (rc, c, rp) \<Rightarrow>
                          if rc \<noteq> 0 then Some (-1, smb2_set_error ''could not decode reparse data buffer. %s'' c, pdu)
                          else Some (0, c, set_payload (P_ioctl_reply (rep\<lparr>ior_output := Io_reparse rp\<rparr>)) pdu))
             else if \<not> c_mem_ok c (8 + unat (ior_output_count rep)) then Some (- ENOMEM, c, pdu)
             else if length vec > unat (ior_output_count rep) then None
             else Some (0, c, set_payload (P_ioctl_reply (rep\<lparr>ior_output := Io_raw vec\<rparr>)) pdu))
      | _ \<Rightarrow> None)"

definition smb2_process_ioctl_request_fixed :: decoder where
  "smb2_process_ioctl_request_fixed =
     process_fixed ''Unexpected size of Ioctl request. Expected %d, got %d'' ''Failed to allocate ioctl request'' 57 56
       (\<lambda>c pdu.
          let b = in_buf c; j = ucast (c_junk c);
              req = \<lparr>ioq_ctl_code = get32 b 4 j, ioq_file_id = get_at 8 SMB2_FD_SIZE b, ioq_input_offset = get32 b 24 j,
                     ioq_input_count = get32 b 28 j, ioq_max_input_response = get32 b 32 j, ioq_output_offset = get32 b 36 j,
                     ioq_output_count = get32 b 40 j, ioq_max_output_response = get32 b 44 j, ioq_flags = get32 b 48 j,
                     ioq_input = Io_null\<rparr>
          in if ioq_input_count req = 0 then (0, c, set_payload (P_ioctl_request req) pdu)
             else if ioq_input_offset req < 120
             then (-1, smb2_set_error ''Output buffer overlaps with Ioctl request header'' c, pdu\<lparr>p_payload := None\<rparr>)
             else (sint (ioctl_request_offset req + ioq_input_count req), c, set_payload (P_ioctl_request req) pdu))"

definition smb2_process_ioctl_request_variable :: faulting_decoder where
  "smb2_process_ioctl_request_variable c pdu =
     (case p_payload pdu of
        Some (P_ioctl_request req) \<Rightarrow>
          (case bytes_behind (ioctl_request_offset req) (in_buf c) of
             None \<Rightarrow> None
           | Some vec \<Rightarrow>
             if unat (ioq_input_count req) > length vec then Some (- EINVAL, c, pdu)
             else if ioq_ctl_code req = SMB2_FSCTL_VALIDATE_NEGOTIATE_INFO
             then if \<not> c_mem_ok c (8 + 24) \<or> length vec < 20 then None
                  else Some (0, c, set_payload (P_ioctl_request (req\<lparr>ioq_input_count := 24, ioq_input :=
                    Io_negotiate \<lparr>vni_capabilities = get32 vec 0 0, vni_guid = get_at 4 16 vec, vni_security_mode = get16 vec 20 0,
                      vni_dialect = get16 vec 22 0\<rparr>\<rparr>)) pdu)
             else if c_passthrough c
             then Some (0, c, set_payload (P_ioctl_request (req\<lparr>ioq_input_count := of_nat (length vec), ioq_input := Io_raw vec\<rparr>)) pdu)
             else Some (0, smb2_set_error ''No handling for ioctl req %x'' c,
                        set_payload (P_ioctl_request (req\<lparr>ioq_input := Io_null\<rparr>)) pdu))
      | _ \<Rightarrow> None)"

subsection \<open>Names with slashes\<close>

text \<open>The name that the receiver of a path sees.\<close>

definition backslashed :: "bytes \<Rightarrow> bytes" where
  "backslashed s = map (\<lambda>x. if x = 0x2f then 0x5c else x) s"

definition backslash_cp :: "u32 \<Rightarrow> u32" where
  "backslash_cp cp = (if cp = 0x2f then 0x5c else cp)"

lemma no_slash_byte: "bit (x :: u32) 7 \<Longrightarrow> (ucast x :: u8) \<noteq> 0x2f"
proof
  have "bit (ucast x :: u8) 7 = bit x 7" by (simp add: bit_simps)
  moreover assume "bit x 7" "(ucast x :: u8) = 0x2f"
  ultimately have "bit (0x2f :: u8) 7" by (simp only: simp_thms)
  then show False by simp
qed

lemma no_slash_bytes:
  "(ucast (0xc0 OR x :: u32) :: u8) \<noteq> 0x2f" "(ucast (0xe0 OR x :: u32) :: u8) \<noteq> 0x2f"
  "(ucast (0xf0 OR x :: u32) :: u8) \<noteq> 0x2f" "(ucast (0x80 OR x :: u32) :: u8) \<noteq> 0x2f"
  by (rule no_slash_byte, simp add: bit_or_iff)+

lemma ascii_slash: "cp < 0x80 \<Longrightarrow> (ucast (cp :: u32) :: u8) = 0x2f \<longleftrightarrow> cp = 0x2f"
  unfolding word_unat_eq_iff by (simp add: unsigned_ucast_eq take_bit_nat_eq_self word_less_nat_alt)

lemma scalar_backslash: "scalar cp \<Longrightarrow> scalar (backslash_cp cp)"
  by (simp add: backslash_cp_def scalar_def)

lemma utf8_backslash: "utf8_of (backslash_cp cp) = backslashed (utf8_of cp)"
  by (simp add: utf8_of_def backslash_cp_def backslashed_def utf8_1_def utf8_2_def utf8_3_def utf8_4_def no_slash_bytes ascii_slash)

lemma units_backslash:
  assumes "scalar cp"
  shows "units_of_cp (backslash_cp cp) = map (\<lambda>u. if u = 0x2f then 0x5c else u) (units_of_cp cp)"
proof (cases "cp < 0x10000")
  case True
  then have "(ucast cp :: u16) = 0x2f \<longleftrightarrow> cp = 0x2f"
    unfolding word_unat_eq_iff by (simp add: unat_u32_u16)
  with True show ?thesis by (simp add: units_of_cp_def backslash_cp_def)
next
  case False
  define y where "y = cp - 0x10000"
  have y: "y < 0x100000" using False assms by (auto simp: y_def scalar_def word_nat)
  note sp = surrogate_parts [OF y]
  have "unat (ucast (0xd800 + drop_bit 10 y) :: u16) \<ge> 0xd800" "unat (ucast (0xdc00 + (y AND 0x3ff)) :: u16) \<ge> 0xdc00"
    using sp(1,2) by (simp_all add: unat_u32_u16 word_nat)
  then have "(ucast (0xd800 + drop_bit 10 y) :: u16) \<noteq> 0x2f" "(ucast (0xdc00 + (y AND 0x3ff)) :: u16) \<noteq> 0x2f"
    by (auto simp del: unat_bound)
  moreover have "cp \<noteq> 0x2f" using False by auto
  ultimately show ?thesis using False by (simp add: units_of_cp_def backslash_cp_def y_def)
qed

lemma strings_backslash:
  "list_all scalar cps \<Longrightarrow> list_all scalar (map backslash_cp cps)"
  "utf8_string (map backslash_cp cps) = backslashed (utf8_string cps)"
  "list_all scalar cps \<Longrightarrow>
     utf16_string (map backslash_cp cps) = map (\<lambda>u. if u = 0x2f then 0x5c else u) (utf16_string cps)"
  by (induction cps)
     (simp_all add: scalar_backslash utf8_backslash units_backslash, simp_all add: utf8_string_def backslashed_def utf16_string_def)

lemma le_units_Cons: "le_units (x # us) = le16 x @ le_units us"
  by (simp add: le_units_def)

lemma backslash_unit_at:
  "length a = i * 2 \<Longrightarrow> backslash_unit i (a @ le16 x @ b) = a @ le16 (if x = 0x2f then 0x5c else x) @ b"
  by (simp add: backslash_unit_def field_io)

lemma backslashes_units:
  "backslashes (length us) (le_units us @ rest) = le_units (map (\<lambda>u. if u = 0x2f then 0x5c else u) us) @ rest"
proof -
  have "fold backslash_unit [i..<i + length us] (a @ le_units us @ rest) =
      a @ le_units (map (\<lambda>u. if u = 0x2f then 0x5c else u) us) @ rest" if "length a = i * 2" for a i
    using that
  proof (induction us arbitrary: a i)
    case (Cons x us)
    have "[i..<i + length (x # us)] = i # [Suc i..<Suc i + length us]" by (simp add: upt_rec)
    then show ?case using Cons.prems Cons.IH [of "a @ le16 (if x = 0x2f then 0x5c else x)" "Suc i"]
      by (simp add: le_units_Cons backslash_unit_at)
  qed (simp add: le_units_def)
  from this [of "[]" 0] show ?thesis by (simp add: backslashes_def)
qed

lemma backslashed_name:
  assumes "smb2_utf8_to_utf16 mem s = Some u" "0 \<notin> set s"
  obtains u' where "backslashes (u_len u) (u_val u @ rest) = u_val u' @ rest"
    "smb2_utf8_to_utf16 (\<lambda>_. True) (backslashed s) = Some u'" "u_len u' = u_len u" "0 \<notin> set (backslashed s)"
proof -
  obtain cps where cps: "list_all scalar cps" "s = utf8_string cps"
    "u = \<lparr>u_len = length (utf16_string cps), u_val = le_units (utf16_string cps)\<rparr>"
    using utf8_to_utf16_SomeD [OF assms] by blast
  let ?cps = "map backslash_cp cps"
  have z: "0 \<notin> set (backslashed s)" using assms(2) by (auto simp: backslashed_def)
  have "smb2_utf8_to_utf16 (\<lambda>_. True) (utf8_string ?cps) =
      Some \<lparr>u_len = length (utf16_string ?cps), u_val = le_units (utf16_string ?cps)\<rparr>"
    by (rule utf8_to_utf16_string) (use cps z in \<open>simp_all add: strings_backslash\<close>)
  then have "smb2_utf8_to_utf16 (\<lambda>_. True) (backslashed s) =
      Some \<lparr>u_len = length (utf16_string ?cps), u_val = le_units (utf16_string ?cps)\<rparr>"
    using cps(2) by (simp add: strings_backslash)
  then show thesis
    by (rule that [rotated]) (use cps z in \<open>simp_all add: strings_backslash backslashes_units\<close>)
qed

subsection \<open>The fields on the wire\<close>

text \<open>A setter into bytes that are still zero, before fields that are set already.\<close>

lemma set_gap_before [field_io]:
  "0 < off \<Longrightarrow> off + 1 \<le> n \<Longrightarrow> set8 off v8 (replicate n z @ b) = replicate off z @ set8 0 v8 (replicate (n - off) z @ b)"
  "0 < off \<Longrightarrow> off + 2 \<le> n \<Longrightarrow> set16 off v16 (replicate n z @ b) = replicate off z @ set16 0 v16 (replicate (n - off) z @ b)"
  "0 < off \<Longrightarrow> off + 4 \<le> n \<Longrightarrow> set32 off v32 (replicate n z @ b) = replicate off z @ set32 0 v32 (replicate (n - off) z @ b)"
  "0 < off \<Longrightarrow> off + 8 \<le> n \<Longrightarrow> set64 off v64 (replicate n z @ b) = replicate off z @ set64 0 v64 (replicate (n - off) z @ b)"
  using set_skip [of "replicate off z" off _ "replicate (n - off) z @ b"] by (simp_all flip: replicate_add append_assoc)

lemma create_request_bytes:
  "create_request_fields True r (replicate 56 0) =
     le16 57 @ [crq_security_flags r, crq_requested_oplock_level r] @ le32 (crq_impersonation_level r) @
     le64 (crq_smb_create_flags r) @ replicate 8 0 @ le32 (crq_desired_access r) @ le32 (crq_file_attributes r) @
     le32 (crq_share_access r) @ le32 (crq_create_disposition r) @ le32 (crq_create_options r) @ le16 120 @
     le16 (crq_name_length r) @ le32 (create_context_offset r) @ le32 (crq_create_context_length r)"
  by (simp add: create_request_fields_def field_io)

lemma create_reply_bytes:
  "length (crr_file_id r) = 16 \<Longrightarrow> create_reply_fields r (replicate 88 0) =
     le16 89 @ [crr_oplock_level r, crr_flags r] @ le32 (crr_create_action r) @ le64 (crr_creation_time r) @
     le64 (crr_last_access_time r) @ le64 (crr_last_write_time r) @ le64 (crr_change_time r) @ le64 (crr_allocation_size r) @
     le64 (crr_end_of_file r) @ le32 (crr_file_attributes r) @ replicate 4 0 @ crr_file_id r @
     le32 (PAD_TO_64BIT 152) @ le32 (crr_create_context_length r)"
  by (simp add: create_reply_fields_def field_io)

lemma set_info_request_bytes:
  "length (siq_file_id r) = 16 \<Longrightarrow> set32 4 n (set_info_request_fields r (replicate 32 0)) =
     le16 33 @ [siq_info_type r, siq_file_info_class r] @ le32 n @ le16 96 @ replicate 2 0 @
     le32 (siq_additional_information r) @ siq_file_id r"
  by (simp add: set_info_request_fields_def field_io)

lemma ioctl_request_bytes:
  "length (ioq_file_id r) = 16 \<Longrightarrow> ioctl_request_fields r (replicate 56 0) =
     le16 57 @ replicate 2 0 @ le32 (ioq_ctl_code r) @ ioq_file_id r @ le32 120 @ le32 (ioq_input_count r) @ le32 0 @ replicate 8 0 @
     le32 65535 @ le32 (ioq_flags r) @ replicate 4 0"
  by (simp add: ioctl_request_fields_def field_io)

lemma ioctl_reply_bytes:
  "length (ior_file_id r) = 16 \<Longrightarrow> ioctl_reply_fields r (replicate 48 0) =
     le16 49 @ replicate 2 0 @ le32 (ior_ctl_code r) @ ior_file_id r @ le32 112 @ le32 (ior_input_count r) @
     le32 (112 + PAD_TO_64BIT (ior_input_count r)) @ le32 (ioctl_output_length r) @ le32 (ior_flags r) @ replicate 4 0"
  by (simp add: ioctl_reply_fields_def field_io)

subsection \<open>Requests and replies on the wire\<close>

lemma create_request_sent:
  assumes "has_memory c" "smb2_utf8_to_utf16 (c_mem_ok c) s = Some u" "0 \<notin> set s" "s \<noteq> []" "2 * u_len u < 2 ^ 16"
    "crq_name req = Some s" "crq_create_context req = Some ctx" "length ctx = unat (crq_create_context_length req)"
    "length ctx < 2 ^ 30"
  defines "m \<equiv> if ctx = [] then 2 * u_len u else (2 * u_len u + 7) div 8 * 8 + length ctx"
  shows "delivers_both (smb2_cmd_create_async c req cb cb_data) 56 smb2_process_create_request_fixed m
      smb2_process_create_request_variable
      (P_create_request (req\<lparr>crq_name_offset := 120, crq_name_length := of_nat (2 * u_len u), crq_name := Some (backslashed s),
         crq_create_context_offset := (if ctx = [] then 0 else of_nat (120 + (2 * u_len u + 7) div 8 * 8)),
         crq_create_context := (if ctx = [] then None else Some ctx)\<rparr>))"
proof -
  let ?n = "2 * u_len u"
  define k where "k = (?n + 7) div 8 * 8 - ?n"
  have n0: "0 < ?n" using name_not_empty [OF assms(2-4)] by simp
  have pad: "unat (PAD_TO_64BIT (of_nat ?n)) = ?n + k"
    using assms(5) by (subst PAD_TO_64BIT_of_nat) (auto simp: k_def)
  obtain u' where u': "backslashes (u_len u) (u_val u @ replicate k 0) = u_val u' @ replicate k 0"
    "smb2_utf8_to_utf16 (\<lambda>_. True) (backslashed s) = Some u'" "u_len u' = u_len u" "0 \<notin> set (backslashed s)"
    using backslashed_name [OF assms(2,3)] by blast
  have len': "length (u_val u') = ?n" using utf16_name(1) [OF u'(2,4)] u'(3) by simp
  define w where "w = (of_nat ?n :: u16)"
  have w: "unat w = ?n" using assms(5) by (simp only: w_def unat_of_nat) simp
  then have w0: "w \<noteq> 0" "0 < w" using n0 by (auto simp: word_less_nat_alt simp del: unat_bound)
  have clen: "crq_create_context_length req = 0 \<longleftrightarrow> ctx = []" "0 < crq_create_context_length req \<longleftrightarrow> ctx \<noteq> []"
    using assms(8) unfolding word_less_nat_alt word_unat_eq_iff by (simp_all flip: assms(8))
  define off where "off = (if ctx = [] then 0 else of_nat (120 + (?n + k)) :: u32)"
  have off: "create_context_offset (req\<lparr>crq_name_length := w\<rparr>) = off"
    "ctx \<noteq> [] \<Longrightarrow> unat off = 120 + (?n + k)"
  proof -
    have eight: "(127 + x) div 8 * 8 = 120 + (x + 7) div 8 * 8" for x :: nat by presburger
    have "unat (ucast w + 120 :: u32) = ?n + 120" using w assms(5) by (simp add: unat_word_ariths)
    then have p: "unat (PAD_TO_64BIT (ucast w + 120)) = 120 + (?n + k)"
      using assms(5) eight by (subst unat_PAD_TO_64BIT) (auto simp: k_def add.commute)
    have r: "unat (of_nat (120 + (?n + k)) :: u32) = 120 + (?n + k)"
      using assms(5) by (simp only: unat_of_nat k_def) auto
    from r show "ctx \<noteq> [] \<Longrightarrow> unat off = 120 + (?n + k)" by (simp add: off_def)
    from p r w0 clen show "create_context_offset (req\<lparr>crq_name_length := w\<rparr>) = off"
      by (simp add: create_context_offset_def off_def word_unat_eq_iff)
  qed
  let ?a = "create_request_fields True (req\<lparr>crq_name_length := w\<rparr>) (replicate 56 0)"
  let ?y = "req\<lparr>crq_name_offset := 120, crq_name_length := w, crq_name := None, crq_create_context_offset := off,
    crq_create_context := None\<rparr>"
  let ?b = "if ctx = [] then u_val u' else u_val u' @ replicate k 0 @ ctx"
  define t where "t = unat (PAD_TO_64BIT (crq_create_context_length req)) - length ctx"
  let ?t = "if ctx = [] then replicate k 0 else replicate t (0 :: u8)"
  have m: "m = (if ctx = [] then ?n else ?n + k + length ctx)" using assms(10) by (simp add: k_def)
  show ?thesis unfolding smb2_cmd_create_async_def
  proof (rule delivers_both_cmdI [where a = ?a and b = ?b and trail = ?t and y = "P_create_request ?y"])
    show "length ?b = m" using len' m by simp
    show "\<exists>p'. smb2_encode_create_request (c\<lparr>c_next_ptr := c_next_ptr c + 1\<rparr>) p req = (0, c\<lparr>c_next_ptr := c_next_ptr c + 1\<rparr>, p') \<and>
        out_room 1 p' \<and> vec_bytes (p_out p') = vec_bytes (p_out p) @ ?a @ ?b @ ?t" if "fresh_pdu p" for p
    proof -
      let ?c = "c\<lparr>c_next_ptr := c_next_ptr c + 1\<rparr>"
      have name: "create_name ?c (crq_name req) = Some (Some u)" using assms(2,4,6) by (simp add: create_name_def)
      show ?thesis
      proof (cases "ctx = []")
        case True
        then show ?thesis using clen that assms(1) name u'(1) w_def pad
          by (simp add: smb2_encode_create_request_def Let_def encode_steps fresh_room encode_create_context_def)
      next
        case False
        then show ?thesis using clen that assms(1,7,8) name u'(1) w_def pad
          by (simp add: smb2_encode_create_request_def Let_def encode_steps fresh_room encode_create_context_def padded64_def t_def)
      qed
    qed
    show "smb2_process_create_request_fixed (receiving ?a d) q = (int m, receiving ?a d, set_payload (P_create_request ?y) q)"
      if "has_memory d" for d q
    proof -
      have rem: "create_remaining (?y\<lparr>crq_name := x\<rparr>) = int m" for x
      proof -
        have "sint (PAD_TO_64BIT (off - 120) + crq_create_context_length req) = int (?n + k + length ctx)" if "ctx \<noteq> []"
        proof -
          have "unat (off - 120) = ?n + k" using off(2) [OF that] by (subst unat_sub) (simp_all add: word_le_nat_alt)
          moreover have "(?n + k + 7) div 8 * 8 = ?n + k" unfolding k_def by presburger
          ultimately have "unat (PAD_TO_64BIT (off - 120)) = ?n + k"
            using assms(5) by (subst unat_PAD_TO_64BIT) (simp_all add: k_def)
          then have "unat (PAD_TO_64BIT (off - 120) + crq_create_context_length req) = ?n + k + length ctx"
            using assms(5,8,9) by (simp add: unat_word_ariths k_def)
          then show ?thesis using assms(5,9) by (subst sint_small) (simp_all add: k_def)
        qed
        moreover have "sint (ucast w :: u32) = int ?n" using w assms(5) by (subst sint_small) simp_all
        moreover have "ctx \<noteq> [] \<Longrightarrow> 120 < off" using off(2) n0 by (simp add: word_less_nat_alt)
        ultimately show ?thesis using m clen by (auto simp: create_remaining_def off_def)
      qed
      have far: "ctx = [] \<or> \<not> off < 120" using off(2) by (cases "ctx = []") (simp_all add: word_less_nat_alt)
      show ?thesis unfolding create_request_bytes
        using that rem [of None] clen w0 off(1) far
        by (cases req) (simp add: smb2_process_create_request_fixed_def process_fixed_ok in_size_def field_io Let_def)
    qed
    show "smb2_process_create_request_variable (receiving ?b d) (set_payload (P_create_request ?y) q) =
        (0, receiving ?b d, set_payload (P_create_request (req\<lparr>crq_name_offset := 120, crq_name_length := of_nat ?n,
         crq_name := Some (backslashed s), crq_create_context_offset := (if ctx = [] then 0 else of_nat (120 + (?n + 7) div 8 * 8)),
         crq_create_context := (if ctx = [] then None else Some ctx)\<rparr>)) q)" if "has_memory d" for d q
    proof -
      have pos: "0 < off" if "ctx \<noteq> []" using off(2) [OF that] by (simp add: word_less_nat_alt)
      have "unat (off - 120) = ?n + k" if "ctx \<noteq> []"
        using off(2) [OF that] by (subst unat_sub) (simp_all add: word_le_nat_alt)
      then have d: "drop (unat (off - 120)) ?b = ctx" if "ctx \<noteq> []" using that len' by simp
      have "raw_name (receiving ?b d) ?b 0 (u_len u') = Some (backslashed s @ [0])"
        by (rule name_received [OF u'(2,4), where post = "if ctx = [] then [] else replicate k 0 @ ctx"]) (use that in simp_all)
      moreover have "c_string (backslashed s @ [0]) = backslashed s"
        unfolding c_string_def using u'(4) by (subst takeWhile_append2) auto
      ultimately have "received_name (receiving ?b d) ?b (unat w div 2) = Inr (backslashed s)"
        using that w u'(3) by (simp add: received_name_def)
      moreover have "of_nat ?n = w" "(if ctx = [] then 0 else of_nat (120 + (?n + 7) div 8 * 8)) = off"
        by (auto simp: w_def off_def k_def)
      ultimately show ?thesis using w0 clen d pos
        by (cases "ctx = []") (simp_all add: smb2_process_create_request_variable_def set_payload_def Let_def)
    qed
  qed (use assms(1) in \<open>simp_all add: create_request_bytes\<close>)
qed

lemma receiving_passthrough [simp]: "c_passthrough (receiving b c) = c_passthrough c"
  by (simp add: receiving_def)

lemma create_reply_sent:
  assumes "has_memory c" "length (crr_file_id rep) = 16" "crr_create_context rep = Some ctx"
    "length ctx = unat (crr_create_context_length rep)" "length ctx < 2 ^ 30"
  shows "delivers_both (smb2_cmd_create_reply_async c rep cb cb_data) 88 smb2_process_create_fixed (length ctx)
      smb2_process_create_variable
      (P_create_reply (rep\<lparr>crr_create_context_offset := 152, crr_create_context := (if ctx = [] then None else Some ctx)\<rparr>))"
proof -
  have clen: "crr_create_context_length rep = 0 \<longleftrightarrow> ctx = []"
    using assms(4) unfolding word_unat_eq_iff by (simp flip: assms(4))
  have pad: "PAD_TO_64BIT 152 = 152" by code_simp
  let ?a = "create_reply_fields rep (replicate 88 0)"
  define t where "t = unat (PAD_TO_64BIT (crr_create_context_length rep)) - length ctx"
  let ?t = "if ctx = [] then [] else replicate t (0 :: u8)"
  let ?y = "rep\<lparr>crr_create_context_offset := 152, crr_create_context := None\<rparr>"
  have n: "sint (crr_create_context_length rep) = int (length ctx)"
    using assms(4,5) by (subst sint_small) simp_all
  show ?thesis unfolding smb2_cmd_create_reply_async_def
  proof (rule delivers_both_cmdI [where a = ?a and b = ctx and trail = ?t and y = "P_create_reply ?y"])
    show "\<exists>p'. smb2_encode_create_reply (c\<lparr>c_next_ptr := c_next_ptr c + 1\<rparr>) p rep = (0, c\<lparr>c_next_ptr := c_next_ptr c + 1\<rparr>, p') \<and>
        out_room 1 p' \<and> vec_bytes (p_out p') = vec_bytes (p_out p) @ ?a @ ctx @ ?t" if "fresh_pdu p" for p
      using that assms clen
      by (cases "ctx = []")
         (simp_all add: smb2_encode_create_reply_def encode_steps fresh_room encode_create_context_def padded64_def t_def)
    show "smb2_process_create_fixed (receiving ?a d) q = (int (length ctx), receiving ?a d, set_payload (P_create_reply ?y) q)"
      if "has_memory d" for d q
      unfolding create_reply_bytes [OF assms(2)] using that assms(2,3) clen n
      by (cases rep) (simp add: smb2_process_create_fixed_def process_fixed_ok in_size_def field_io Let_def pad create_reply_offset_def)
    show "smb2_process_create_variable (receiving ctx d) (set_payload (P_create_reply ?y) q) = (0, receiving ctx d,
        set_payload (P_create_reply (rep\<lparr>crr_create_context_offset := 152, crr_create_context := (if ctx = [] then None else Some ctx)\<rparr>)) q)"
      if "has_memory d" for d q
      using clen by (cases "ctx = []") (simp_all add: smb2_process_create_variable_def set_payload_def create_reply_offset_def)
  qed (use assms(1,2) in \<open>simp_all add: create_reply_bytes\<close>)
qed

text \<open>A request outside passthrough, as a server in passthrough receives it.\<close>

lemma set_info_request_sent:
  assumes "has_memory c" "\<not> c_passthrough c" "length (siq_file_id req) = 16" "set_info_wire c req = Inr (e, b)" "length b < 2 ^ 31"
  shows "\<exists>c' p. smb2_cmd_set_info_async c req cb cb_data = (c', Some p) \<and>
    get_at 64 32 (vec_bytes (p_out p)) = set32 4 (of_nat (length b)) (set_info_request_fields req (replicate 32 0)) \<and>
    get_at (64 + 32) (length b) (vec_bytes (p_out p)) = b \<and> 64 + 32 + length b \<le> iov_len (p_out p)"
proof -
  have eqs: "c_mem_ok (c\<lparr>c_next_ptr := k\<rparr>) = c_mem_ok c" "si_basic (c\<lparr>c_next_ptr := k\<rparr>) = si_basic c" "si_end_of_file (c\<lparr>c_next_ptr := k\<rparr>) = si_end_of_file c"
    "si_rename (c\<lparr>c_next_ptr := k\<rparr>) = si_rename c" "si_disposition (c\<lparr>c_next_ptr := k\<rparr>) = si_disposition c" for k
    by (auto simp: fun_eq_iff si_basic_def si_end_of_file_def si_rename_def si_disposition_def split: set_info_data.split)
  have "set_info_wire (c\<lparr>c_next_ptr := k\<rparr>) req = Inr (e, b)" for k
    using assms(4) unfolding set_info_wire_def eqs .
  then show ?thesis unfolding smb2_cmd_set_info_async_def
    by (intro cmd_pdu_slices [where trail = "[]"])
       (use assms in \<open>simp_all add: smb2_encode_set_info_request_def encode_steps fresh_room set_info_request_bytes Let_def\<close>)
qed

lemma set_info_received:
  assumes "length (siq_file_id req) = 16" "length b < 2 ^ 31" "has_memory d" "c_passthrough d"
  shows "smb2_process_set_info_request_fixed
      (receiving (set32 4 (of_nat (length b)) (set_info_request_fields req (replicate 32 0))) d) q =
      (int (length b), receiving (set32 4 (of_nat (length b)) (set_info_request_fields req (replicate 32 0))) d,
       set_payload (P_set_info_request (req\<lparr>siq_buffer_length := of_nat (length b), siq_buffer_offset := 96, siq_input_data := Si_null\<rparr>)) q)"
proof -
  have u: "unat (of_nat (length b) :: u32) = length b" using assms(2) by (simp only: unat_of_nat) simp
  then have "sint (of_nat (length b) :: u32) = int (length b)" using assms(2) by (subst sint_small) simp_all
  then show ?thesis unfolding set_info_request_bytes [OF assms(1)] using assms
    by (cases req) (simp add: smb2_process_set_info_request_fixed_def process_fixed_ok in_size_def field_io Let_def)
qed

lemma ioctl_request_sent:
  assumes "has_memory c" "length (ioq_file_id req) = 16" "ioq_input req = Io_raw data"
    "length data = unat (ioq_input_count req)" "data \<noteq> []" "length data < 2 ^ 31"
  shows "\<exists>c' p. smb2_cmd_ioctl_async c req cb cb_data = (c', Some p) \<and>
    get_at 64 56 (vec_bytes (p_out p)) = ioctl_request_fields req (replicate 56 0) \<and>
    get_at (64 + 56) (length data) (vec_bytes (p_out p)) = data \<and> 64 + 56 + length data \<le> iov_len (p_out p)"
proof -
  have "ioq_input_count req \<noteq> 0" using assms(4,5) unfolding word_unat_eq_iff by (simp flip: assms(4))
  then show ?thesis unfolding smb2_cmd_ioctl_async_def
    by (intro cmd_pdu_slices [where trail = "[]"])
       (use assms in \<open>simp_all add: smb2_encode_ioctl_request_def encode_steps fresh_room ioctl_request_bytes io_raw_def Let_def\<close>)
qed

lemma ioctl_request_received:
  assumes "length (ioq_file_id req) = 16" "length data = unat (ioq_input_count req)" "data \<noteq> []" "length data < 2 ^ 31"
    "ioq_ctl_code req \<noteq> SMB2_FSCTL_VALIDATE_NEGOTIATE_INFO" "has_memory d"
  defines "a \<equiv> ioctl_request_fields req (replicate 56 0)"
    and "y \<equiv> req\<lparr>ioq_input_offset := 120, ioq_max_input_response := 0, ioq_output_offset := 0, ioq_output_count := 0,
               ioq_max_output_response := 65535\<rparr>"
  shows "smb2_process_ioctl_request_fixed (receiving a d) q =
      (int (length data), receiving a d, set_payload (P_ioctl_request (y\<lparr>ioq_input := Io_null\<rparr>)) q)"
    "c_passthrough d1 \<Longrightarrow> smb2_process_ioctl_request_variable (receiving data d1) (set_payload (P_ioctl_request (y\<lparr>ioq_input := Io_null\<rparr>)) q) =
      Some (0, receiving data d1, set_payload (P_ioctl_request (y\<lparr>ioq_input := Io_raw data\<rparr>)) q)"
proof -
  have n: "ioq_input_count req \<noteq> 0" using assms(2,3) unfolding word_unat_eq_iff by (simp flip: assms(2))
  have zeros: "replicate 8 (0 :: u8) @ x = replicate 4 0 @ replicate 4 0 @ x" for x by (simp flip: replicate_add append_assoc)
  have s: "sint (ioq_input_count req) = int (length data)" using assms(2,4) by (subst sint_small) simp_all
  show "smb2_process_ioctl_request_fixed (receiving a d) q =
      (int (length data), receiving a d, set_payload (P_ioctl_request (y\<lparr>ioq_input := Io_null\<rparr>)) q)"
    unfolding a_def y_def ioctl_request_bytes [OF assms(1)] using n s assms(1,6)
    by (cases req) (simp add: zeros smb2_process_ioctl_request_fixed_def process_fixed_ok in_size_def field_io Let_def ioctl_request_offset_def)
  show "c_passthrough d1 \<Longrightarrow> smb2_process_ioctl_request_variable (receiving data d1) (set_payload (P_ioctl_request (y\<lparr>ioq_input := Io_null\<rparr>)) q) =
      Some (0, receiving data d1, set_payload (P_ioctl_request (y\<lparr>ioq_input := Io_raw data\<rparr>)) q)"
    using assms(2,5) by (simp add: smb2_process_ioctl_request_variable_def set_payload_def y_def bytes_behind_def ioctl_request_offset_def)
qed

text \<open>The output of a reply as it is sent, where the encoder accepts it.\<close>

definition ioctl_wire :: "smb2_context \<Rightarrow> smb2_ioctl_reply \<Rightarrow> bytes option" where
  "ioctl_wire c rep =
     (case ior_output rep of
        Io_negotiate i \<Rightarrow>
          if ior_ctl_code rep = SMB2_FSCTL_VALIDATE_NEGOTIATE_INFO \<and> length (vni_guid i) = 16 \<and> ior_output_count rep = 24
          then Some (le32 (vni_capabilities i) @ vni_guid i @ le16 (vni_security_mode i) @ le16 (vni_dialect i)) else None
      | Io_raw b \<Rightarrow>
          if ior_ctl_code rep \<noteq> SMB2_FSCTL_VALIDATE_NEGOTIATE_INFO \<and> ior_ctl_code rep \<noteq> SMB2_FSCTL_GET_REPARSE_POINT \<and>
            c_passthrough c \<and> length b = unat (ior_output_count rep) then Some b else None
      | _ \<Rightarrow> None)"

lemma ioctl_output_wire:
  assumes "ioctl_wire c rep = Some data" "has_memory c" "out_room 1 p" "data \<noteq> []"
  shows "ioctl_output (c\<lparr>c_next_ptr := k\<rparr>) rep p = (0, c\<lparr>c_next_ptr := k\<rparr>, add_out data Free p)"
    "ior_ctl_code rep \<noteq> SMB2_FSCTL_GET_REPARSE_POINT" "ioctl_output_length rep = ior_output_count rep"
    "length data = unat (ior_output_count rep)" "ior_output_count rep \<noteq> 0"
proof -
  show l: "length data = unat (ior_output_count rep)" and "ior_ctl_code rep \<noteq> SMB2_FSCTL_GET_REPARSE_POINT"
    using assms(1) by (auto simp: ioctl_wire_def split: ioctl_data.splits if_splits)
  show n: "ior_output_count rep \<noteq> 0" using l assms(4) unfolding word_unat_eq_iff by (simp flip: l)
  show "ioctl_output_length rep = ior_output_count rep"
    using assms(1) n by (auto simp: ioctl_wire_def ioctl_output_length_def split: ioctl_data.splits if_splits)
  show "ioctl_output (c\<lparr>c_next_ptr := k\<rparr>) rep p = (0, c\<lparr>c_next_ptr := k\<rparr>, add_out data Free p)"
    using assms n l
    by (cases "ior_output rep")
       (simp_all add: ioctl_wire_def ioctl_output_def encode_steps io_negotiate_def io_raw_def negotiate_info_fields_def field_io
         split: if_splits)
qed

lemma store_in_first:
  "length (fill b) = length b \<Longrightarrow>
   store_in (length (v_iov (p_out p))) fill (add_out b2 f2 (add_out b f p)) = add_out b2 f2 (add_out (fill b) f p)"
  by (simp add: store_in_def add_out_def Let_def nth_append list_update_append)

lemma ioctl_reply_sent:
  assumes "has_memory c" "length (ior_file_id rep) = 16" "ioctl_wire c rep = Some data" "data \<noteq> []"
  shows "\<exists>c' p. smb2_cmd_ioctl_reply_async c rep cb cb_data = (c', Some p) \<and>
    get_at 64 48 (vec_bytes (p_out p)) = ioctl_reply_fields rep (replicate 48 0) \<and>
    get_at (64 + 48) (length data) (vec_bytes (p_out p)) = data \<and> 64 + 48 + length data \<le> iov_len (p_out p)"
proof -
  have l: "length (ioctl_reply_fields rep (replicate 48 0)) = 48" by (simp add: ioctl_reply_bytes assms(2))
  show ?thesis unfolding smb2_cmd_ioctl_reply_async_def
  proof (rule cmd_pdu_slices [where trail = "[]"])
    fix p assume p: "fresh_pdu p"
    let ?c = "c\<lparr>c_next_ptr := c_next_ptr c + 1\<rparr>"
    have "ioctl_output ?c rep (add_out (replicate 48 0) Free p) = (0, ?c, add_out data Free (add_out (replicate 48 0) Free p))"
      by (rule ioctl_output_wire(1) [OF assms(3,1)]) (use p assms(4) in \<open>simp_all add: fresh_room\<close>)
    then show "\<exists>p'. smb2_encode_ioctl_reply ?c p rep = (0, ?c, p') \<and> out_room 1 p' \<and>
        vec_bytes (p_out p') = vec_bytes (p_out p) @ ioctl_reply_fields rep (replicate 48 0) @ data @ []"
      using assms(1) p l by (simp add: smb2_encode_ioctl_reply_def Let_def encode_steps fresh_room store_in_first)
  qed (use assms(1) l in simp_all)
qed

lemma ioctl_reply_received:
  assumes "length (ior_file_id rep) = 16" "length data = unat (ior_output_count rep)" "data \<noteq> []" "length data < 2 ^ 31"
    "ior_ctl_code rep \<noteq> SMB2_FSCTL_GET_REPARSE_POINT" "ior_input_count rep = 0"
    "ioctl_output_length rep = ior_output_count rep" "has_memory d"
  defines "a \<equiv> ioctl_reply_fields rep (replicate 48 0)"
    and "y \<equiv> rep\<lparr>ior_input_offset := 112, ior_output_offset := 112\<rparr>"
  shows "smb2_process_ioctl_fixed (receiving a d) q =
      (int (length data), receiving a d, set_payload (P_ioctl_reply (y\<lparr>ior_output := Io_null\<rparr>)) q)"
    "has_memory d1 \<Longrightarrow> smb2_process_ioctl_variable (receiving data d1) (set_payload (P_ioctl_reply (y\<lparr>ior_output := Io_null\<rparr>)) q) =
      Some (0, receiving data d1, set_payload (P_ioctl_reply (y\<lparr>ior_output := Io_raw data\<rparr>)) q)"
proof -
  have n: "ior_output_count rep \<noteq> 0" using assms(2,3) unfolding word_unat_eq_iff by (simp flip: assms(2))
  have s: "sint (ior_output_count rep) = int (length data)" using assms(2,4) by (subst sint_small) simp_all
  have pad: "PAD_TO_64BIT 0 = 0" by code_simp
  show "smb2_process_ioctl_fixed (receiving a d) q =
      (int (length data), receiving a d, set_payload (P_ioctl_reply (y\<lparr>ior_output := Io_null\<rparr>)) q)"
    unfolding a_def y_def ioctl_reply_bytes [OF assms(1)] using n s assms(1,6-8)
    by (cases rep) (simp add: smb2_process_ioctl_fixed_def process_fixed_ok in_size_def field_io Let_def ioctl_reply_offset_def pad)
  show "has_memory d1 \<Longrightarrow> smb2_process_ioctl_variable (receiving data d1) (set_payload (P_ioctl_reply (y\<lparr>ior_output := Io_null\<rparr>)) q) =
      Some (0, receiving data d1, set_payload (P_ioctl_reply (y\<lparr>ior_output := Io_raw data\<rparr>)) q)"
    using assms(2,5) by (simp add: smb2_process_ioctl_variable_def set_payload_def y_def bytes_behind_def ioctl_reply_offset_def)
qed

subsection \<open>Properties\<close>

text \<open>C25. Create: a request for a non-empty UTF-8 name, with or without create contexts, reaches the server with every
  member, the name with its slashes turned into backslashes and the contexts whole, although both are padded; so does a
  reply with its contexts.\<close>

theorem create_roundtrip:
  assumes "has_memory c" "smb2_utf8_to_utf16 (c_mem_ok c) s = Some u" "0 \<notin> set s" "s \<noteq> []" "2 * u_len u < 2 ^ 16"
    "crq_name req = Some s" "crq_create_context req = Some ctx" "length ctx = unat (crq_create_context_length req)"
    "length ctx < 2 ^ 30" "length (crr_file_id rep) = 16" "crr_create_context rep = Some ctx'"
    "length ctx' = unat (crr_create_context_length rep)" "length ctx' < 2 ^ 30"
  shows "delivers_both (smb2_cmd_create_async c req cb cb_data) 56 smb2_process_create_request_fixed
      (if ctx = [] then 2 * u_len u else (2 * u_len u + 7) div 8 * 8 + length ctx) smb2_process_create_request_variable
      (P_create_request (req\<lparr>crq_name_offset := 120, crq_name_length := of_nat (2 * u_len u), crq_name := Some (backslashed s),
         crq_create_context_offset := (if ctx = [] then 0 else of_nat (120 + (2 * u_len u + 7) div 8 * 8)),
         crq_create_context := (if ctx = [] then None else Some ctx)\<rparr>)) \<and>
    delivers_both (smb2_cmd_create_reply_async c rep cb cb_data) 88 smb2_process_create_fixed (length ctx')
      smb2_process_create_variable
      (P_create_reply (rep\<lparr>crr_create_context_offset := 152, crr_create_context := (if ctx' = [] then None else Some ctx')\<rparr>))"
  using create_request_sent [OF assms(1-9)] create_reply_sent [OF assms(1,10-13)] by (rule conjI)

text \<open>C26. Set-info outside passthrough: whatever class the encoder accepts, the message carries the members of the
  request and exactly the data of the class, and a server in passthrough reads both back.\<close>

theorem set_info_roundtrip:
  assumes "has_memory c" "\<not> c_passthrough c" "length (siq_file_id req) = 16" "set_info_wire c req = Inr (e, b)" "length b < 2 ^ 31"
    "has_memory d" "c_passthrough d"
  shows "\<exists>c' p d1 q1. smb2_cmd_set_info_async c req cb cb_data = (c', Some p) \<and>
    smb2_process_set_info_request_fixed (receiving (get_at 64 32 (vec_bytes (p_out p))) d) q = (int (length b), d1, q1) \<and>
    snd (snd (smb2_process_set_info_request_variable (receiving (get_at 96 (length b) (vec_bytes (p_out p))) d1) q1)) =
      set_payload (P_set_info_request (req\<lparr>siq_buffer_length := of_nat (length b), siq_buffer_offset := 96,
        siq_input_data := Si_raw b\<rparr>)) q"
proof -
  obtain c' p where p: "smb2_cmd_set_info_async c req cb cb_data = (c', Some p)"
    "get_at 64 32 (vec_bytes (p_out p)) = set32 4 (of_nat (length b)) (set_info_request_fields req (replicate 32 0))"
    "get_at 96 (length b) (vec_bytes (p_out p)) = b"
    using set_info_request_sent [OF assms(1-5), of cb cb_data] by auto
  from set_info_received [where q = q, OF assms(3,5-7)] p assms(7) show ?thesis
    by (simp add: smb2_process_set_info_request_variable_def set_payload_def)
qed

text \<open>C27. Ioctl: a request's input reaches a server in passthrough with every member that is sent, and a reply's output,
  raw or the answer to a negotiation check, reaches the client whole when the reply has no input.\<close>

theorem ioctl_roundtrip:
  assumes "has_memory c" "has_memory d" "c_passthrough d" "length (ioq_file_id req) = 16" "ioq_input req = Io_raw data"
    "length data = unat (ioq_input_count req)" "data \<noteq> []" "length data < 2 ^ 31"
    "ioq_ctl_code req \<noteq> SMB2_FSCTL_VALIDATE_NEGOTIATE_INFO" "length (ior_file_id rep) = 16" "ioctl_wire c rep = Some data'"
    "data' \<noteq> []" "length data' < 2 ^ 31" "ior_input_count rep = 0"
  shows "(\<exists>c' p d1 q1. smb2_cmd_ioctl_async c req cb cb_data = (c', Some p) \<and>
      smb2_process_ioctl_request_fixed (receiving (get_at 64 56 (vec_bytes (p_out p))) d) q = (int (length data), d1, q1) \<and>
      map_option (snd \<circ> snd)
          (smb2_process_ioctl_request_variable (receiving (get_at 120 (length data) (vec_bytes (p_out p))) d1) q1) =
        Some (set_payload (P_ioctl_request (req\<lparr>ioq_input_offset := 120, ioq_max_input_response := 0, ioq_output_offset := 0,
          ioq_output_count := 0, ioq_max_output_response := 65535\<rparr>)) q)) \<and>
    (\<exists>c' p d1 q1. smb2_cmd_ioctl_reply_async c rep cb cb_data = (c', Some p) \<and>
      smb2_process_ioctl_fixed (receiving (get_at 64 48 (vec_bytes (p_out p))) d) q = (int (length data'), d1, q1) \<and>
      map_option (snd \<circ> snd) (smb2_process_ioctl_variable (receiving (get_at 112 (length data') (vec_bytes (p_out p))) d1) q1) =
        Some (set_payload (P_ioctl_reply (rep\<lparr>ior_input_offset := 112, ior_output_offset := 112, ior_output := Io_raw data'\<rparr>)) q))"
proof
  obtain c' p where p: "smb2_cmd_ioctl_async c req cb cb_data = (c', Some p)"
    "get_at 64 56 (vec_bytes (p_out p)) = ioctl_request_fields req (replicate 56 0)"
    "get_at 120 (length data) (vec_bytes (p_out p)) = data"
    using ioctl_request_sent [OF assms(1,4-8), of cb cb_data] by auto
  have "req\<lparr>ioq_input := Io_raw data\<rparr> = req" using assms(5) by (cases req) simp
  then show "\<exists>c' p d1 q1. smb2_cmd_ioctl_async c req cb cb_data = (c', Some p) \<and>
      smb2_process_ioctl_request_fixed (receiving (get_at 64 56 (vec_bytes (p_out p))) d) q = (int (length data), d1, q1) \<and>
      map_option (snd \<circ> snd)
          (smb2_process_ioctl_request_variable (receiving (get_at 120 (length data) (vec_bytes (p_out p))) d1) q1) =
        Some (set_payload (P_ioctl_request (req\<lparr>ioq_input_offset := 120, ioq_max_input_response := 0, ioq_output_offset := 0,
          ioq_output_count := 0, ioq_max_output_response := 65535\<rparr>)) q)"
    using ioctl_request_received [where q = q, OF assms(4,6-9,2)] assms(3) p by (cases req) simp
next
  obtain c' p where p: "smb2_cmd_ioctl_reply_async c rep cb cb_data = (c', Some p)"
    "get_at 64 48 (vec_bytes (p_out p)) = ioctl_reply_fields rep (replicate 48 0)"
    "get_at 112 (length data') (vec_bytes (p_out p)) = data'"
    using ioctl_reply_sent [OF assms(1,10-12), of cb cb_data] by auto
  note w = ioctl_output_wire(2-4) [OF assms(11,1) _ assms(12), of zero_pdu]
  have z: "out_room 1 zero_pdu" by (simp add: out_room_def zero_pdu_def no_vectors_def)
  note r = ioctl_reply_received [where q = q, OF assms(10) w(3) [OF z] assms(12,13) w(1) [OF z] assms(14) w(2) [OF z] assms(2)]
  have m: "has_memory (receiving b d)" for b using assms(2) by simp
  show "\<exists>c' p d1 q1. smb2_cmd_ioctl_reply_async c rep cb cb_data = (c', Some p) \<and>
      smb2_process_ioctl_fixed (receiving (get_at 64 48 (vec_bytes (p_out p))) d) q = (int (length data'), d1, q1) \<and>
      map_option (snd \<circ> snd) (smb2_process_ioctl_variable (receiving (get_at 112 (length data') (vec_bytes (p_out p))) d1) q1) =
        Some (set_payload (P_ioctl_reply (rep\<lparr>ior_input_offset := 112, ior_output_offset := 112, ior_output := Io_raw data'\<rparr>)) q)"
    using p r(1) r(2) [OF m] by simp
qed

definition sample_create :: smb2_create_request where
  "sample_create = \<lparr>crq_security_flags = 0, crq_requested_oplock_level = 0, crq_impersonation_level = 2, crq_smb_create_flags = 0,
     crq_desired_access = 1, crq_file_attributes = 0, crq_share_access = 7, crq_create_disposition = 1, crq_create_options = 0,
     crq_name_offset = 0, crq_name_length = 0, crq_name = Some [0x61, 0x2f], crq_create_context_offset = 0,
     crq_create_context_length = 1, crq_create_context = Some [9]\<rparr>"

definition sample_create_reply :: smb2_create_reply where
  "sample_create_reply = \<lparr>crr_oplock_level = 0, crr_flags = 0, crr_create_action = 1, crr_creation_time = 0,
     crr_last_access_time = 0, crr_last_write_time = 0, crr_change_time = 0, crr_allocation_size = 0, crr_end_of_file = 0,
     crr_file_attributes = 16, crr_file_id = replicate 16 1, crr_create_context_length = 0, crr_create_context_offset = 0,
     crr_create_context = Some []\<rparr>"

lemma sample_path: "smb2_utf8_to_utf16 (c_mem_ok zero_context) [0x61, 0x2f] = Some \<lparr>u_len = 2, u_val = [0x61, 0, 0x2f, 0]\<rparr>"
proof -
  have "list_all scalar [0x61, 0x2f]" "utf16_string [0x61, 0x2f] = [0x61, 0x2f]" "utf8_string [0x61, 0x2f] = [0x61, 0x2f]"
    "le_units [0x61, 0x2f] = [0x61, 0, 0x2f, 0]" "0 \<notin> set [0x61, 0x2f :: u8]" "length [0x61, 0x2f :: u16] = 2" by code_simp+
  then show ?thesis using utf8_to_utf16_string [of "[0x61, 0x2f]" "c_mem_ok zero_context"] by (simp only: zero_context_memory simp_thms)
qed

theorem create_roundtrip_witness:
  "delivers_both (smb2_cmd_create_async zero_context sample_create 1 2) 56 smb2_process_create_request_fixed 9
     smb2_process_create_request_variable
     (P_create_request (sample_create\<lparr>crq_name_offset := 120, crq_name_length := 4, crq_name := Some [0x61, 0x5c],
        crq_create_context_offset := 128, crq_create_context := Some [9]\<rparr>))"
  using create_roundtrip [OF _ sample_path, of sample_create "[9]" sample_create_reply "[]" 1 2]
  by (simp add: sample_create_def sample_create_reply_def backslashed_def)

definition sample_set_info :: smb2_set_info_request where
  "sample_set_info = \<lparr>siq_info_type = 1, siq_file_info_class = 0x14, siq_buffer_length = 0, siq_buffer_offset = 0,
     siq_additional_information = 0, siq_file_id = replicate 16 1, siq_input_data = Si_end_of_file 5\<rparr>"

theorem set_info_roundtrip_witness:
  "\<exists>c' p d1 q1. smb2_cmd_set_info_async zero_context sample_set_info 1 2 = (c', Some p) \<and>
    smb2_process_set_info_request_fixed (receiving (get_at 64 32 (vec_bytes (p_out p))) (zero_context\<lparr>c_passthrough := True\<rparr>)) zero_pdu =
      (8, d1, q1) \<and>
    snd (snd (smb2_process_set_info_request_variable (receiving (get_at 96 8 (vec_bytes (p_out p))) d1) q1)) =
      set_payload (P_set_info_request (sample_set_info\<lparr>siq_buffer_length := 8, siq_buffer_offset := 96,
        siq_input_data := Si_raw [5, 0, 0, 0, 0, 0, 0, 0]\<rparr>)) zero_pdu"
proof -
  define b where "b = set64 0 5 (replicate 8 0)"
  have b: "[5, 0, 0, 0, 0, 0, 0, 0] = b" "length b = 8" unfolding b_def by code_simp+
  have "set_info_wire zero_context sample_set_info = Inr (''Failed to add iovector for set-info EOF data'', b)"
    by (simp add: set_info_wire_def sample_set_info_def si_end_of_file_def b_def)
  moreover have "\<not> c_passthrough zero_context" "length (siq_file_id sample_set_info) = 16"
    by (simp_all add: zero_context_def sample_set_info_def)
  ultimately show ?thesis unfolding b(1)
    using set_info_roundtrip [of zero_context sample_set_info _ b "zero_context\<lparr>c_passthrough := True\<rparr>" 1 2 zero_pdu] b(2) by simp
qed

definition sample_ioctl :: smb2_ioctl_request where
  "sample_ioctl = \<lparr>ioq_ctl_code = 7, ioq_file_id = replicate 16 1, ioq_input_offset = 0, ioq_input_count = 1,
     ioq_max_input_response = 0, ioq_output_offset = 0, ioq_output_count = 0, ioq_max_output_response = 0, ioq_flags = 1,
     ioq_input = Io_raw [6]\<rparr>"

definition sample_ioctl_reply :: smb2_ioctl_reply where
  "sample_ioctl_reply = \<lparr>ior_ctl_code = 7, ior_file_id = replicate 16 1, ior_input_offset = 0, ior_input_count = 0,
     ior_output_offset = 0, ior_output_count = 1, ior_flags = 0, ior_output = Io_raw [8]\<rparr>"

theorem ioctl_roundtrip_witness:
  "\<exists>c' p. smb2_cmd_ioctl_async (zero_context\<lparr>c_passthrough := True\<rparr>) sample_ioctl 1 2 = (c', Some p)"
  using ioctl_roundtrip [of "zero_context\<lparr>c_passthrough := True\<rparr>" "zero_context\<lparr>c_passthrough := True\<rparr>" sample_ioctl "[6]"
    sample_ioctl_reply "[8]" 1 2 zero_pdu]
  by (auto simp: sample_ioctl_def sample_ioctl_reply_def ioctl_wire_def zero_context_def)

subsection \<open>Where the peers disagree\<close>

text \<open>A passthrough request keeps the length of its data out of the header and stores it over the data instead.\<close>

lemma set_info_passthrough_overwrites:
  "smb2_encode_set_info_request (zero_context\<lparr>c_passthrough := True\<rparr>) zero_pdu
     (sample_set_info\<lparr>siq_buffer_length := 10, siq_buffer_offset := 96, siq_input_data := Si_raw (replicate 10 7)\<rparr>) =
   (0, zero_context\<lparr>c_passthrough := True\<rparr>,
    add_out [7, 7, 7, 7, 10, 0, 0, 0, 96, 0] Free
      (add_out (set_info_request_fields sample_set_info (replicate 32 0)) Free zero_pdu)) \<and>
   get32 (set_info_request_fields sample_set_info (replicate 32 0)) 4 1 = 0"
proof
  have b: "set16 8 96 (set32 4 10 (replicate 10 7)) = [7, 7, 7, 7, 10, 0, 0, 0, 96, 0]" by code_simp
  have "copy_bytes c 10 (Some (replicate 10 7)) = replicate 10 7" for c by (simp add: copy_bytes_def)
  moreover have "out_room k zero_pdu" if "k \<le> 256" for k using that by (simp add: out_room_def zero_pdu_def no_vectors_def)
  ultimately show "smb2_encode_set_info_request (zero_context\<lparr>c_passthrough := True\<rparr>) zero_pdu
     (sample_set_info\<lparr>siq_buffer_length := 10, siq_buffer_offset := 96, siq_input_data := Si_raw (replicate 10 7)\<rparr>) =
   (0, zero_context\<lparr>c_passthrough := True\<rparr>,
    add_out [7, 7, 7, 7, 10, 0, 0, 0, 96, 0] Free
      (add_out (set_info_request_fields sample_set_info (replicate 32 0)) Free zero_pdu))"
    using b by (simp add: smb2_encode_set_info_request_def Let_def encode_steps si_raw_def set_info_request_fields_def)
  show "get32 (set_info_request_fields sample_set_info (replicate 32 0)) 4 1 = 0"
    by code_simp
qed

text \<open>A reply without output announces 48 bytes of it.\<close>

lemma ioctl_no_output_announced:
  assumes "ior_output_count rep = 0" "length (ior_file_id rep) = 16"
  shows "get32 (ioctl_reply_fields rep (replicate 48 0)) 36 y = 48"
  using assms by (simp add: ioctl_reply_bytes ioctl_output_length_def field_io)

text \<open>A reply with input as well: the client waits for both, and then copies both into a block for the output alone.\<close>

lemma ioctl_reply_overflow:
  assumes "has_memory d" "ior_output_offset rep = 112" "0 < unat (PAD_TO_64BIT (ior_input_count rep))"
    "ior_ctl_code rep \<noteq> SMB2_FSCTL_GET_REPARSE_POINT"
    "length vec = unat (PAD_TO_64BIT (ior_input_count rep)) + unat (ior_output_count rep)"
  shows "smb2_process_ioctl_variable (receiving vec d) (set_payload (P_ioctl_reply rep) q) = None"
  using assms by (simp add: smb2_process_ioctl_variable_def set_payload_def bytes_behind_def ioctl_reply_offset_def)

end
