(* ===== verification/Smb2_Cmd_Negotiate.thy ===== *)
theory Smb2_Cmd_Negotiate
  imports Smb2_Cmd_File
begin

text \<open>
  Negotiating the dialect: \<^verbatim>\<open>lib/smb2-cmd-negotiate.c\<close>, with the two negotiate contexts that the library
  sends (preauthentication integrity and encryption) and the loops over received contexts. Dialect numbers are
  those of \<open>enum smb2_negotiate_version\<close>. The counters and offsets that an encoder stores back into the
  caller's structure are the values on the wire; the caller's structure itself is not modelled further.

  The offset of a context is a natural number; the code keeps it in an \<open>int\<close>, which it stays within for
  vectors that are a little shorter than \<open>2 ^ 31\<close>.
\<close>

subsection \<open>Negotiate contexts\<close>

abbreviation (input) SMB2_VERSION_ANY :: nat where "SMB2_VERSION_ANY \<equiv> 0"
abbreviation (input) SMB2_VERSION_ANY3 :: nat where "SMB2_VERSION_ANY3 \<equiv> 3"
abbreviation (input) SMB2_VERSION_0311 :: nat where "SMB2_VERSION_0311 \<equiv> 0x0311"

definition has_contexts :: "nat \<Rightarrow> bool" where
  "has_contexts v \<longleftrightarrow> v = SMB2_VERSION_ANY \<or> v = SMB2_VERSION_ANY3 \<or> v = SMB2_VERSION_0311"

definition preauth_context_fields :: "bytes \<Rightarrow> bytes \<Rightarrow> bytes" where
  "preauth_context_fields salt buf =
     fold (\<lambda>i. set8 (14 + i) (salt ! i)) [0..<32]
       ((set16 12 1 \<circ> set16 10 32 \<circ> set16 8 1 \<circ> set16 2 38 \<circ> set16 0 1) buf)"

definition smb2_encode_preauth_context :: "smb2_context \<Rightarrow> smb2_pdu \<Rightarrow> int \<times> smb2_context \<times> smb2_pdu" where
  "smb2_encode_preauth_context c pdu =
     encode_fixed ''Failed to allocate preauth context'' [] (8 + 40) (preauth_context_fields (c_salt c)) c pdu"

definition smb2_encode_encryption_context :: "smb2_context \<Rightarrow> smb2_pdu \<Rightarrow> int \<times> smb2_context \<times> smb2_pdu" where
  "smb2_encode_encryption_context c pdu =
     encode_fixed ''Failed to allocate encryption context'' [] 16
       (set16 10 1 \<circ> set16 8 1 \<circ> set16 2 8 \<circ> set16 0 2) c pdu"

definition encode_contexts :: "nat \<Rightarrow> smb2_context \<Rightarrow> smb2_pdu \<Rightarrow> int \<times> smb2_context \<times> smb2_pdu" where
  "encode_contexts v c pdu =
     (if has_contexts v then and_then (smb2_encode_preauth_context c pdu) smb2_encode_encryption_context else (0, c, pdu))"

subsection \<open>The request\<close>

definition negotiate_request_size :: "smb2_context \<Rightarrow> smb2_negotiate_request \<Rightarrow> nat" where
  "negotiate_request_size c req =
     (let len = (36 + unat (ngq_dialect_count req) * 2 + 3) div 4 * 4 in
      if has_contexts (c_version c) \<and> len div 4 mod 2 = 1 then len + 4 else len)"

text \<open>The caller's array of ten dialects, whatever follows it in memory included.\<close>

definition dialect_at :: "smb2_context \<Rightarrow> u16 list \<Rightarrow> nat \<Rightarrow> u16" where
  "dialect_at c ds i = (if i < length ds then ds ! i else ucast (c_junk c))"

definition put_dialects :: "smb2_context \<Rightarrow> smb2_negotiate_request \<Rightarrow> bytes \<Rightarrow> bytes" where
  "put_dialects c req buf =
     fold (\<lambda>i. set16 (36 + i * 2) (dialect_at c (ngq_dialects req) i)) [0..<unat (ngq_dialect_count req)] buf"

definition negotiate_request_fields :: "smb2_context \<Rightarrow> smb2_negotiate_request \<Rightarrow> bytes \<Rightarrow> bytes" where
  "negotiate_request_fields c req =
     put_dialects c req \<circ> set16 32 (ngq_negotiate_context_count req) \<circ> set32 28 (ngq_negotiate_context_offset req) \<circ>
     put_at 12 (ngq_client_guid req) \<circ> set32 8 (ngq_capabilities req) \<circ> set16 4 (ngq_security_mode req) \<circ>
     set16 2 (ngq_dialect_count req) \<circ> set16 0 36"

definition with_request_contexts :: "smb2_context \<Rightarrow> smb2_negotiate_request \<Rightarrow> smb2_negotiate_request" where
  "with_request_contexts c req =
     (if has_contexts (c_version c)
      then req\<lparr>ngq_negotiate_context_offset := of_nat (negotiate_request_size c req + 64),
               ngq_negotiate_context_count := ngq_negotiate_context_count req + 2\<rparr>
      else req)"

definition smb2_encode_negotiate_request ::
  "smb2_context \<Rightarrow> smb2_pdu \<Rightarrow> smb2_negotiate_request \<Rightarrow> int \<times> smb2_context \<times> smb2_pdu" where
  "smb2_encode_negotiate_request c pdu req =
     (let k = length (v_iov (p_out pdu)) in
      and_then (and_then (encode_fixed ''Failed to allocate negotiate buffer'' ''Failed to add iovector for negotiate request''
                            (negotiate_request_size c req) id c pdu)
                  (encode_contexts (c_version c)))
        (\<lambda>c pdu. (0, c, store_in k (negotiate_request_fields c (with_request_contexts c req)) pdu)))"

definition smb2_cmd_negotiate_async ::
  "smb2_context \<Rightarrow> smb2_negotiate_request \<Rightarrow> nat \<Rightarrow> nat \<Rightarrow> smb2_context \<times> smb2_pdu option" where
  "smb2_cmd_negotiate_async c req = cmd_pdu SMB2_NEGOTIATE (\<lambda>c pdu. smb2_encode_negotiate_request c pdu req) c"

subsection \<open>The reply\<close>

text \<open>
  The block for the security buffer has 64 bytes whatever the length of the buffer (the padded length of the
  fixed part is used in place of it). A longer buffer is copied over the end of the block: the result \<open>None\<close>.
  Without a security buffer \<open>seclen\<close> is not initialised.
\<close>

definition security_block :: "smb2_context \<Rightarrow> smb2_negotiate_reply \<Rightarrow> bytes" where
  "security_block c rep =
     (let n = unat (ngr_security_buffer_length rep) in copy_bytes c n (ngr_security_buffer rep) @ replicate (64 - n) 0)"

definition reply_seclen :: "smb2_context \<Rightarrow> smb2_negotiate_reply \<Rightarrow> u32" where
  "reply_seclen c rep = (if ngr_security_buffer_length rep \<noteq> 0 then 64 else ucast (c_junk c))"

definition negotiate_reply_fields :: "smb2_context \<Rightarrow> smb2_negotiate_reply \<Rightarrow> bytes \<Rightarrow> bytes" where
  "negotiate_reply_fields c rep =
     set32 60 (64 + reply_seclen c rep + 64) \<circ> set16 58 (ngr_security_buffer_length rep) \<circ> set16 56 (64 + 64) \<circ>
     set64 48 (ngr_server_start_time rep) \<circ> set64 40 (ngr_system_time rep) \<circ> set32 36 (ngr_max_write_size rep) \<circ>
     set32 32 (ngr_max_read_size rep) \<circ> set32 28 (ngr_max_transact_size rep) \<circ> set32 24 (ngr_capabilities rep) \<circ>
     put_at 8 (ngr_server_guid rep) \<circ> set16 6 (ngr_negotiate_context_count rep) \<circ> set16 4 (ngr_dialect_revision rep) \<circ>
     set16 2 (ngr_security_mode rep) \<circ> set16 0 65"

definition with_reply_contexts :: "smb2_context \<Rightarrow> smb2_negotiate_reply \<Rightarrow> smb2_negotiate_reply" where
  "with_reply_contexts c rep =
     (if has_contexts (unat (c_dialect c))
      then rep\<lparr>ngr_negotiate_context_count := ngr_negotiate_context_count rep + 2\<rparr> else rep)"

definition encode_security_block :: "smb2_negotiate_reply \<Rightarrow> smb2_context \<Rightarrow> smb2_pdu \<Rightarrow> int \<times> smb2_context \<times> smb2_pdu" where
  "encode_security_block rep c pdu =
     (if ngr_security_buffer_length rep = 0 then (0, c, pdu)
      else encode_buffer ''Failed to allocate secbuf'' [] 64 (security_block c rep) c pdu)"

definition smb2_encode_negotiate_reply ::
  "smb2_context \<Rightarrow> smb2_pdu \<Rightarrow> smb2_negotiate_reply \<Rightarrow> (int \<times> smb2_context \<times> smb2_pdu) option" where
  "smb2_encode_negotiate_reply c pdu rep =
     (let k = length (v_iov (p_out pdu));
          fixed = encode_fixed ''Failed to allocate negotiate reply buffer'' ''Failed to add iovector for negotiate reply'' 64 id c pdu
      in if fst fixed = 0 \<and> c_mem_ok c 64 \<and> unat (ngr_security_buffer_length rep) > 64 then None
         else Some
           (and_then (and_then (and_then fixed (encode_security_block rep)) (\<lambda>c. encode_contexts (unat (c_dialect c)) c))
              (\<lambda>c pdu. (0, c, store_in k (negotiate_reply_fields c (with_reply_contexts c rep)) pdu))))"

text \<open>The body of an async function whose encoder may run over a block.\<close>

definition cmd_pdu_faulting ::
  "u16 \<Rightarrow> (smb2_context \<Rightarrow> smb2_pdu \<Rightarrow> (int \<times> smb2_context \<times> smb2_pdu) option) \<Rightarrow> smb2_context \<Rightarrow> nat \<Rightarrow> nat \<Rightarrow>
   (smb2_context \<times> smb2_pdu option) option" where
  "cmd_pdu_faulting command encode c cb cb_data =
     (case smb2_allocate_pdu c command cb cb_data of
        (c', None) \<Rightarrow> Some (c', None)
      | (c', Some pdu) \<Rightarrow> map_option (\<lambda>r. cmd_pdu command (\<lambda>_ _. r) c cb cb_data) (encode c' pdu))"

definition smb2_cmd_negotiate_reply_async ::
  "smb2_context \<Rightarrow> smb2_negotiate_reply \<Rightarrow> nat \<Rightarrow> nat \<Rightarrow> (smb2_context \<times> smb2_pdu option) option" where
  "smb2_cmd_negotiate_reply_async c rep = cmd_pdu_faulting SMB2_NEGOTIATE (\<lambda>c pdu. smb2_encode_negotiate_reply c pdu rep) c"

subsection \<open>Receiving a reply\<close>

text \<open>\<open>IOV_OFFSET_NEGOTIATE\<close>\<close>

definition negotiate_offset :: "smb2_negotiate_reply \<Rightarrow> int" where
  "negotiate_offset rep = int (unat (ngr_security_buffer_offset rep)) - 128"

definition smb2_parse_encryption_context :: "smb2_negotiate_reply \<Rightarrow> bytes \<Rightarrow> nat \<Rightarrow> smb2_negotiate_reply" where
  "smb2_parse_encryption_context rep b offset = rep\<lparr>ngr_cypher := get16 b offset (ngr_cypher rep)\<rparr>"

text \<open>The distance to the next context.\<close>

definition context_stride :: "u16 \<Rightarrow> nat" where
  "context_stride len = (unat len + 8 + 7) div 8 * 8"

text \<open>Signing, compression, network name, transport and RDMA transform contexts.\<close>

definition ignored_context :: "u16 \<Rightarrow> bool" where
  "ignored_context type \<longleftrightarrow> type \<in> {8, 3, 5, 6, 7}"

primrec smb2_parse_negotiate_contexts ::
  "nat \<Rightarrow> smb2_context \<Rightarrow> smb2_negotiate_reply \<Rightarrow> bytes \<Rightarrow> nat \<Rightarrow> int \<times> smb2_context \<times> smb2_negotiate_reply" where
  "smb2_parse_negotiate_contexts 0 c rep b offset = (0, c, rep)"
| "smb2_parse_negotiate_contexts (Suc count) c rep b offset =
     (if offset > length b then (-1, smb2_set_error (''Bad len in negotiate context'' @ [CHR 0x0A]) c, rep)
      else
        (let type = get16 b offset (ucast (c_junk c)); len = get16 b (offset + 2) (ucast (c_junk c)) in
         if type = 2
         then smb2_parse_negotiate_contexts count c (smb2_parse_encryption_context rep b (offset + 8)) b (offset + context_stride len)
         else if type = 1 \<or> ignored_context type
         then smb2_parse_negotiate_contexts count c rep b (offset + context_stride len)
         else (-1, smb2_set_error ''Unknown negotiate context type 0x%04x'' c, rep)))"

definition smb2_process_negotiate_fixed :: decoder where
  "smb2_process_negotiate_fixed =
     process_fixed ''Unexpected size of Negotiate reply. Expected %d, got %d'' ''Failed to allocate negotiate reply'' 65 80
       (\<lambda>c pdu.
          let b = in_buf c; j = c_junk c;
              rep = \<lparr>ngr_security_mode = get16 b 2 (ucast j), ngr_dialect_revision = get16 b 4 (ucast j),
                     ngr_cypher = ucast j, ngr_server_guid = get_at 8 16 b, ngr_capabilities = get32 b 24 (ucast j),
                     ngr_max_transact_size = get32 b 28 (ucast j), ngr_max_read_size = get32 b 32 (ucast j),
                     ngr_max_write_size = get32 b 36 (ucast j), ngr_system_time = get64 b 40 j,
                     ngr_server_start_time = get64 b 48 j, ngr_negotiate_context_offset = get32 b 60 (ucast j),
                     ngr_negotiate_context_count = get16 b 6 (ucast j), ngr_security_buffer_length = get16 b 58 (ucast j),
                     ngr_security_buffer_offset = get16 b 56 (ucast j), ngr_security_buffer = None\<rparr>;
              len = unat (ngr_security_buffer_length rep)
          in if len \<noteq> 0 \<and> unat (ngr_security_buffer_offset rep) + len > unat (ucast (c_spl c) :: u16)
             then (-1, smb2_set_error ''Security buffer extends beyond end of PDU'' c, pdu\<lparr>p_payload := None\<rparr>)
             else if len = 0 then (0, c, set_payload (P_negotiate_reply rep) pdu)
             else if ngr_security_buffer_offset rep < 128
             then (-1, smb2_set_error ''Security buffer overlaps with negotiate reply header'' c, pdu\<lparr>p_payload := None\<rparr>)
             else (if unat (ngr_dialect_revision rep) \<ge> SMB2_VERSION_0311 then sint (c_spl c - 128)
                   else negotiate_offset rep + int len, c, set_payload (P_negotiate_reply rep) pdu))"

definition smb2_process_negotiate_variable :: decoder where
  "smb2_process_negotiate_variable c pdu =
     (case p_payload pdu of
        Some (P_negotiate_reply rep) \<Rightarrow>
          (let b = in_buf c;
               rep = rep\<lparr>ngr_security_buffer := Some (drop (nat (negotiate_offset rep)) b)\<rparr>;
               offset = sint (ngr_negotiate_context_offset rep - 128)
           in if unat (ngr_dialect_revision rep) < SMB2_VERSION_0311 \<or> ngr_negotiate_context_count rep = 0
              then (0, c, set_payload (P_negotiate_reply rep) pdu)
              else if offset < 0 \<or> offset > int (length b) then (-1, c, set_payload (P_negotiate_reply rep) pdu)
              else (case smb2_parse_negotiate_contexts (unat (ngr_negotiate_context_count rep)) c rep b (nat offset) of
                      (rc, c, rep) \<Rightarrow> (if rc \<noteq> 0 then -1 else 0, c, set_payload (P_negotiate_reply rep) pdu)))
      | _ \<Rightarrow> (0, c, pdu))"

subsection \<open>Receiving a request\<close>

definition smb2_process_negotiate_request_fixed :: decoder where
  "smb2_process_negotiate_request_fixed =
     process_fixed ''Unexpected size of Negotiate request. Expected %d, got %d'' ''Failed to allocate negotiate request'' 36 52
       (\<lambda>c pdu.
          let b = in_buf c; j = c_junk c;
              req = \<lparr>ngq_dialect_count = get16 b 2 (ucast j), ngq_security_mode = get16 b 4 (ucast j),
                     ngq_capabilities = get32 b 8 (ucast j), ngq_client_guid = get_at 12 16 b,
                     ngq_negotiate_context_offset = get32 b 28 (ucast j), ngq_negotiate_context_count = get16 b 32 (ucast j),
                     ngq_dialects = []\<rparr>
          in (if ngq_negotiate_context_count req > 0 then sint (c_spl c - 100) else 2 * int (unat (ngq_dialect_count req)), c,
              set_payload (P_negotiate_request req) pdu))"

text \<open>A network name is converted to UTF-8 and dropped again; encryption contexts are not looked at.\<close>

definition ignored_request_context :: "u16 \<Rightarrow> bool" where
  "ignored_request_context type \<longleftrightarrow> type \<in> {1, 2, 5, 8, 3, 6, 7, 0x0100}"

primrec smb2_parse_negotiate_request_contexts :: "nat \<Rightarrow> smb2_context \<Rightarrow> bytes \<Rightarrow> nat \<Rightarrow> int \<times> smb2_context" where
  "smb2_parse_negotiate_request_contexts 0 c b offset = (0, c)"
| "smb2_parse_negotiate_request_contexts (Suc count) c b offset =
     (let type = get16 b offset (ucast (c_junk c)); len = get16 b (offset + 2) (ucast (c_junk c)) in
      if offset > length b then (-1, smb2_set_error ''Bad len in negotiate context'' c)
      else if ignored_request_context type
      then smb2_parse_negotiate_request_contexts count c b (offset + context_stride len)
      else (-1, smb2_set_error ''Unknown negotiate context type 0x%04x'' c))"

definition smb2_process_negotiate_request_variable :: decoder where
  "smb2_process_negotiate_request_variable c pdu =
     (case p_payload pdu of
        Some (P_negotiate_request req) \<Rightarrow>
          (let b = in_buf c;
               ds = map (\<lambda>d. get16 b (d * 2) (ucast (c_junk c))) [0..<min (unat (ngq_dialect_count req)) 10];
               req = req\<lparr>ngq_dialects := ds\<rparr>;
               pdu = set_payload (P_negotiate_request req) pdu;
               offset = sint (ngq_negotiate_context_offset req - 100)
           in if ngq_negotiate_context_count req = 0 then (0, c, pdu)
              else if 0x0311 \<notin> set ds then (0, c, pdu)
              else if offset < 0 \<or> offset > int (length b) then (-1, c, pdu)
              else (case smb2_parse_negotiate_request_contexts (unat (ngq_negotiate_context_count req)) c b (nat offset) of
                      (rc, c) \<Rightarrow> (if rc \<noteq> 0 then -1 else 0, c, pdu)))
      | _ \<Rightarrow> (0, c, pdu))"

subsection \<open>The fields on the wire\<close>

lemma fold_set8:
  "length pre = k \<Longrightarrow> fold (\<lambda>i. set8 (k + i) (xs ! i)) [0..<length xs] (pre @ replicate (length xs + r) 0) = pre @ xs @ replicate r 0"
proof (induction xs arbitrary: r rule: rev_induct)
  case (snoc x xs)
  have "fold (\<lambda>i. set8 (k + i) ((xs @ [x]) ! i)) [0..<length xs] b = fold (\<lambda>i. set8 (k + i) (xs ! i)) [0..<length xs] b" for b
    by (intro fold_cong) (simp_all add: nth_append)
  with snoc.IH [of "Suc r"] snoc.prems show ?case by (simp add: field_io)
qed simp

lemma le_units_snoc: "le_units (us @ [u]) = le_units us @ le16 u"
  by (simp add: le_units_def)

lemma fold_set16:
  "length pre = k \<Longrightarrow>
   fold (\<lambda>i. set16 (k + i * 2) (f i)) [0..<n] (pre @ replicate (2 * n + r) 0) = pre @ le_units (map f [0..<n]) @ replicate r 0"
proof (induction n arbitrary: r)
  case (Suc n)
  from Suc.IH [of "r + 2"] Suc.prems show ?case by (simp add: field_io le_units_snoc)
qed (simp add: le_units_def)

lemma preauth_context_bytes:
  assumes "length salt = 32"
  shows "preauth_context_fields salt (replicate 48 0) =
    le16 1 @ le16 38 @ replicate 4 0 @ le16 1 @ le16 32 @ le16 1 @ salt @ replicate 2 0"
proof -
  have h: "(set16 12 1 \<circ> set16 10 32 \<circ> set16 8 1 \<circ> set16 2 38 \<circ> set16 0 1) (replicate 48 0) =
      (le16 1 @ le16 38 @ replicate 4 0 @ le16 1 @ le16 32 @ le16 1) @ replicate (length salt + 2) 0"
    by (simp add: field_io assms)
  show ?thesis unfolding preauth_context_fields_def h
    using fold_set8 [of "le16 1 @ le16 38 @ replicate 4 0 @ le16 1 @ le16 32 @ le16 1" 14 salt 2] by (simp add: assms)
qed

lemma encryption_context_bytes:
  "(set16 10 1 \<circ> set16 8 1 \<circ> set16 2 8 \<circ> set16 0 2) (replicate 16 0) =
     le16 2 @ le16 8 @ replicate 4 0 @ le16 1 @ le16 1 @ replicate 4 0"
  by (simp add: field_io)

lemma negotiate_request_bytes:
  assumes "length (ngq_client_guid r) = 16" "36 + 2 * unat (ngq_dialect_count r) \<le> n"
  shows "negotiate_request_fields c r (replicate n 0) = le16 36 @ le16 (ngq_dialect_count r) @ le16 (ngq_security_mode r) @
    replicate 2 0 @ le32 (ngq_capabilities r) @ ngq_client_guid r @ le32 (ngq_negotiate_context_offset r) @
    le16 (ngq_negotiate_context_count r) @ replicate 2 0 @
    le_units (map (dialect_at c (ngq_dialects r)) [0..<unat (ngq_dialect_count r)]) @
    replicate (n - 36 - 2 * unat (ngq_dialect_count r)) 0"
proof -
  define m where "m = n - 36 - 2 * unat (ngq_dialect_count r)"
  have n: "n = 36 + (2 * unat (ngq_dialect_count r) + m)" using assms(2) by (simp add: m_def)
  define pre where "pre = le16 36 @ le16 (ngq_dialect_count r) @ le16 (ngq_security_mode r) @
    replicate 2 0 @ le32 (ngq_capabilities r) @ ngq_client_guid r @ le32 (ngq_negotiate_context_offset r) @
    le16 (ngq_negotiate_context_count r) @ replicate 2 0"
  have "(set16 32 (ngq_negotiate_context_count r) \<circ> set32 28 (ngq_negotiate_context_offset r) \<circ>
     put_at 12 (ngq_client_guid r) \<circ> set32 8 (ngq_capabilities r) \<circ> set16 4 (ngq_security_mode r) \<circ>
     set16 2 (ngq_dialect_count r) \<circ> set16 0 36) (replicate n 0) = pre @ replicate (2 * unat (ngq_dialect_count r) + m) 0"
    unfolding n pre_def by (simp add: field_io assms(1) flip: replicate_add)
  moreover have "length pre = 36" by (simp add: pre_def assms(1))
  ultimately show ?thesis
    using fold_set16 [of pre 36 "dialect_at c (ngq_dialects r)" "unat (ngq_dialect_count r)" m]
    by (simp add: negotiate_request_fields_def put_dialects_def pre_def m_def)
qed

lemma negotiate_reply_bytes:
  "length (ngr_server_guid r) = 16 \<Longrightarrow> negotiate_reply_fields c r (replicate 64 0) =
     le16 65 @ le16 (ngr_security_mode r) @ le16 (ngr_dialect_revision r) @ le16 (ngr_negotiate_context_count r) @
     ngr_server_guid r @ le32 (ngr_capabilities r) @ le32 (ngr_max_transact_size r) @ le32 (ngr_max_read_size r) @
     le32 (ngr_max_write_size r) @ le64 (ngr_system_time r) @ le64 (ngr_server_start_time r) @ le16 128 @
     le16 (ngr_security_buffer_length r) @ le32 (128 + reply_seclen c r)"
  by (simp add: negotiate_reply_fields_def field_io add.commute)

lemma get16_units: "i < length us \<Longrightarrow> get16 (le_units us @ b) (i * 2) y = us ! i"
proof (induction us arbitrary: i)
  case (Cons u us)
  then show ?case by (cases i) (simp_all add: le_units_Cons field_io)
qed simp

subsection \<open>Delivery of a whole message\<close>

text \<open>
  As \<open>delivers_both\<close>, to a peer that has received the length of the message: the decoders of this command take
  everything behind the fixed part.
\<close>

definition delivers_message :: "command_result \<Rightarrow> nat \<Rightarrow> decoder \<Rightarrow> nat \<Rightarrow> decoder \<Rightarrow> payload \<Rightarrow> bool" where
  "delivers_message r n fixed m variable x \<longleftrightarrow>
     (case r of
        (_, None) \<Rightarrow> False
      | (_, Some p) \<Rightarrow>
        64 + n + m \<le> iov_len (p_out p) \<and>
        (\<forall>d q. has_memory d \<longrightarrow> c_spl d = of_nat (iov_len (p_out p)) \<longrightarrow>
           (case fixed (receiving (get_at 64 n (vec_bytes (p_out p))) d) q of
              (k, d, q1) \<Rightarrow> k = int m \<and>
                (let d = receiving (get_at (64 + n) m (vec_bytes (p_out p))) d in
                 variable d q1 = (0, d, set_payload x q)))))"

lemma receiving_spl [simp]: "c_spl (receiving b c) = c_spl c"
  by (simp add: receiving_def)

lemma delivers_message_cmd:
  assumes "c_mem_ok c SIZEOF_SMB2_PDU" "length a = n" "length b = m"
    and enc: "\<And>p. fresh_pdu p \<Longrightarrow> \<exists>p'. encode (c\<lparr>c_next_ptr := c_next_ptr c + 1\<rparr>) p =
        (0, c\<lparr>c_next_ptr := c_next_ptr c + 1\<rparr>, p') \<and> out_room 1 p' \<and> vec_bytes (p_out p') = vec_bytes (p_out p) @ a @ b @ trail"
    and fixed: "\<And>d q. has_memory d \<Longrightarrow> c_spl d = of_nat ((64 + n + m + length trail + 7) div 8 * 8) \<Longrightarrow>
      fixed (receiving a d) q = (int m, receiving a d, set_payload (y (c_junk d)) q)"
    and variable: "\<And>d q. has_memory d \<Longrightarrow>
      variable (receiving b d) (set_payload (y (c_junk d)) q) = (0, receiving b d, set_payload x q)"
  shows "delivers_message (cmd_pdu command encode c cb cb_data) n fixed m variable x"
proof -
  have "\<exists>p k. cmd_pdu command encode c cb cb_data = (c\<lparr>c_next_ptr := c_next_ptr c + 1\<rparr>, Some p) \<and> k < 8 \<and>
    vec_bytes (p_out p) = replicate 64 0 @ (a @ b @ trail) @ replicate k 0 \<and> iov_len (p_out p) mod 8 = 0 \<and> out_room 0 p"
    by (rule cmd_pdu_ok [OF assms(1)], drule enc) simp
  then obtain p k where p: "cmd_pdu command encode c cb cb_data = (c\<lparr>c_next_ptr := c_next_ptr c + 1\<rparr>, Some p)" "k < 8"
    "vec_bytes (p_out p) = replicate 64 0 @ (a @ b @ trail) @ replicate k 0" "iov_len (p_out p) mod 8 = 0" by (elim exE conjE)
  have len: "iov_len (p_out p) = 64 + n + m + length trail + k" using p(3) assms(2,3) by (simp add: iov_len_vec_bytes)
  have "(w + 7) div 8 * 8 = w + k" if "(w + k) mod 8 = 0" for w using that p(2) by presburger
  from this [of "64 + n + m + length trail"] have "iov_len (p_out p) = (64 + n + m + length trail + 7) div 8 * 8"
    using p(4) unfolding len by simp
  moreover have "get_at 64 n (vec_bytes (p_out p)) = a" "get_at (64 + n) m (vec_bytes (p_out p)) = b"
    using p(3) assms(2,3) by (simp_all add: get_at_def)
  moreover have "variable (receiving b (receiving a d)) (set_payload (y (c_junk d)) q) =
      (0, receiving b (receiving a d), set_payload x q)" if "has_memory d" for d q
    using variable [of "receiving a d" q] that by simp
  ultimately show ?thesis using p(1) len fixed by (simp add: delivers_message_def)
qed

text \<open>What the two contexts add to a PDU.\<close>

definition contexts_bytes :: "nat \<Rightarrow> bytes \<Rightarrow> bytes" where
  "contexts_bytes v salt =
     (if has_contexts v then preauth_context_fields salt (replicate 48 0) @
        (set16 10 1 \<circ> set16 8 1 \<circ> set16 2 8 \<circ> set16 0 2) (replicate 16 0) else [])"

lemma length_contexts_bytes: "length salt = 32 \<Longrightarrow> length (contexts_bytes v salt) = (if has_contexts v then 64 else 0)"
  by (simp add: contexts_bytes_def preauth_context_bytes)

lemma encode_contexts_ok:
  assumes "has_memory c" "out_room (j + 2) p"
  shows "\<exists>p'. encode_contexts v c p = (0, c, p') \<and> out_room j p' \<and>
    vec_bytes (p_out p') = vec_bytes (p_out p) @ contexts_bytes v (c_salt c) \<and>
    (\<exists>vs. v_iov (p_out p') = v_iov (p_out p) @ vs)"
proof (cases "has_contexts v")
  case True
  have r: "out_room 1 p" "out_room (Suc 1) p" "out_room (Suc (Suc j)) p" using assms(2) by (simp_all add: out_room_def)
  show ?thesis using True assms(1) r
    by (simp add: encode_contexts_def smb2_encode_preauth_context_def smb2_encode_encryption_context_def encode_fixed_ok
        contexts_bytes_def) (simp add: add_out_def)
next
  case False
  then show ?thesis using assms(2) by (simp add: encode_contexts_def contexts_bytes_def out_room_def)
qed

lemma store_in_bytes:
  assumes "v_iov (p_out p) = pre @ \<lparr>iov_buf = b, iov_free = f\<rparr> # post" "length (fill b) = length b"
  shows "vec_bytes (p_out (store_in (length pre) fill p)) = concat (map iov_buf pre) @ fill b @ concat (map iov_buf post)"
    "out_room j (store_in (length pre) fill p) = out_room j p"
  using assms by (simp_all add: store_in_def Let_def vec_bytes_def nth_append list_update_append out_room_def)

lemma vec_bytes_add: "v_iov (p_out p') = v_iov (p_out p) @ is \<Longrightarrow> vec_bytes (p_out p') = vec_bytes (p_out p) @ concat (map iov_buf is)"
  by (simp add: vec_bytes_def)

lemma encode_negotiate_request_ok:
  fixes c :: smb2_context and req :: smb2_negotiate_request
  defines "n \<equiv> negotiate_request_size c req" and "r \<equiv> with_request_contexts c req"
  assumes "has_memory c" "fresh_pdu p" "length (negotiate_request_fields c r (replicate n 0)) = n"
  shows "\<exists>p'. smb2_encode_negotiate_request c p req = (0, c, p') \<and> out_room 1 p' \<and>
    vec_bytes (p_out p') = vec_bytes (p_out p) @ negotiate_request_fields c r (replicate n 0) @ contexts_bytes (c_version c) (c_salt c)"
proof -
  let ?p = "add_out (replicate n 0) Free p" and ?k = "length (v_iov (p_out p))"
  obtain p' vs where p': "encode_contexts (c_version c) c ?p = (0, c, p')" "out_room 1 p'"
      "vec_bytes (p_out p') = vec_bytes (p_out ?p) @ contexts_bytes (c_version c) (c_salt c)" "v_iov (p_out p') = v_iov (p_out ?p) @ vs"
    using encode_contexts_ok [of c 1 ?p "c_version c"] assms(3,4) by (auto simp: fresh_room)
  have vs: "concat (map iov_buf vs) = contexts_bytes (c_version c) (c_salt c)"
    using p'(3) vec_bytes_add [OF p'(4)] by simp
  have v: "v_iov (p_out p') = v_iov (p_out p) @ \<lparr>iov_buf = replicate n 0, iov_free = Free\<rparr> # vs"
    using p'(4) by (simp add: add_out_def)
  have "smb2_encode_negotiate_request c p req = (0, c, store_in ?k (negotiate_request_fields c r) p')"
    using p'(1) assms(3,4) by (simp add: smb2_encode_negotiate_request_def Let_def encode_steps fresh_room n_def r_def)
  moreover note store_in_bytes [OF v, of "negotiate_request_fields c r"]
  ultimately show ?thesis using p'(2) vs assms(5) by (simp add: vec_bytes_def)
qed

text \<open>The two contexts as a peer parses them.\<close>

lemma preauth_header: "length salt = 32 \<Longrightarrow>
    get16 (preauth_context_fields salt (replicate 48 0) @ b) 0 y = 1 \<and> get16 (preauth_context_fields salt (replicate 48 0) @ b) 2 y = 38"
  by (simp add: preauth_context_bytes field_io)

lemma own_contexts_parsed:
  assumes "length salt = 32" "has_contexts v" "length pre = off" "count = Suc (Suc 0)"
  shows "smb2_parse_negotiate_request_contexts count c (pre @ contexts_bytes v salt) off = (0, c)"
    "smb2_parse_negotiate_contexts count c rep (pre @ contexts_bytes v salt) off = (0, c, rep\<lparr>ngr_cypher := 1\<rparr>)"
proof -
  let ?p = "preauth_context_fields salt (replicate 48 0)"
  let ?e = "le16 2 @ le16 8 @ replicate 4 0 @ le16 1 @ le16 1 @ replicate 4 0"
  define b where "b = pre @ contexts_bytes v salt"
  have b: "b = pre @ ?p @ ?e"
    by (simp only: b_def contexts_bytes_def assms(2) if_True encryption_context_bytes append_assoc)
  have l: "length ?p = 48" by (simp add: preauth_context_bytes assms(1))
  have g: "get16 b off y = 1" "get16 b (off + 2) y = 38" for y
    using preauth_header [OF assms(1), of ?e y] assms(3) get_skip(2) [of pre off "?p @ ?e" y] get_skip(2) [of pre "off + 2" "?p @ ?e" y]
    by (simp_all add: b)
  have e: "get16 b (off + 48) y = 2" "get16 b (off + 48 + 2) y = 8" "get16 b (off + 48 + 8) y = 1" for y
    using assms(3) l by (simp_all add: b field_io)
  have s: "context_stride 38 = 48" "context_stride 8 = 16" "\<not> off > length b" "\<not> off + 48 > length b"
    using assms(3) l by (simp_all add: context_stride_def b)
  have i: "ignored_request_context 1" "ignored_request_context 2" by (simp_all add: ignored_request_context_def)
  show "smb2_parse_negotiate_request_contexts count c (pre @ contexts_bytes v salt) off = (0, c)"
    unfolding b_def [symmetric] assms(4) smb2_parse_negotiate_request_contexts.simps Let_def g e s i using s(3,4) i by simp
  show "smb2_parse_negotiate_contexts count c rep (pre @ contexts_bytes v salt) off = (0, c, rep\<lparr>ngr_cypher := 1\<rparr>)"
    unfolding b_def [symmetric] assms(4) smb2_parse_negotiate_contexts.simps Let_def g e s using s(3,4) e(3)
    by (simp add: smb2_parse_encryption_context_def)
qed

lemma negotiate_request_delivered:
  assumes "has_memory c" "length (ngq_client_guid req) = 16" "length (c_salt c) = 32"
    "unat (ngq_dialect_count req) = length (ngq_dialects req)" "length (ngq_dialects req) \<le> 10" "ngq_negotiate_context_count req = 0"
  defines "n \<equiv> negotiate_request_size c req" and "v \<equiv> c_version c"
  shows "delivers_message (smb2_cmd_negotiate_async c req cb cb_data) 36 smb2_process_negotiate_request_fixed
    (if has_contexts v then n + 28 else 2 * length (ngq_dialects req)) smb2_process_negotiate_request_variable
    (P_negotiate_request (with_request_contexts c req))"
proof -
  define ds where "ds = ngq_dialects req"
  define r where "r = with_request_contexts c req"
  define z where "z = n - 36 - 2 * length ds"
  let ?c = "c\<lparr>c_next_ptr := c_next_ptr c + 1\<rparr>"
  have n: "36 + 2 * length ds \<le> n" "n \<le> 64" "has_contexts v \<Longrightarrow> n mod 8 = 0"
    using assms(4,5) unfolding n_def v_def negotiate_request_size_def ds_def Let_def by (auto, presburger+)
  have same: "with_request_contexts ?c req = r" "negotiate_request_size ?c req = n"
    by (simp_all add: with_request_contexts_def negotiate_request_size_def r_def n_def)
  have r: "length (ngq_client_guid r) = 16" "ngq_dialect_count r = ngq_dialect_count req" "ngq_dialects r = ds"
    "ngq_negotiate_context_count r = (if has_contexts v then 2 else 0)"
    using assms(2,6) by (simp_all add: r_def with_request_contexts_def ds_def v_def)
  have off: "has_contexts v \<Longrightarrow> ngq_negotiate_context_offset r = of_nat (n + 64)"
    by (simp add: r_def with_request_contexts_def n_def v_def)
  have dmap: "map (dialect_at x ds) [0..<unat (ngq_dialect_count req)] = ds" for x
    using assms(4) by (intro nth_equalityI) (simp_all add: dialect_at_def ds_def)
  let ?a = "le16 36 @ le16 (ngq_dialect_count r) @ le16 (ngq_security_mode r) @ replicate 2 0 @ le32 (ngq_capabilities r) @
    ngq_client_guid r @ le32 (ngq_negotiate_context_offset r) @ le16 (ngq_negotiate_context_count r) @ replicate 2 0"
  have bytes: "negotiate_request_fields ?c r (replicate n 0) = ?a @ le_units ds @ replicate z 0"
    using negotiate_request_bytes [of r n ?c] r n(1) assms(4) dmap by (simp add: z_def ds_def)
  let ?b = "if has_contexts v then le_units ds @ replicate z 0 @ contexts_bytes v (c_salt c) else le_units ds"
  let ?m = "if has_contexts v then n + 28 else 2 * length ds"
  show ?thesis unfolding smb2_cmd_negotiate_async_def ds_def [symmetric] r_def [symmetric]
  proof (rule delivers_message_cmd [where a = ?a and b = ?b and trail = "if has_contexts v then [] else replicate z 0"
        and y = "\<lambda>_. P_negotiate_request (r\<lparr>ngq_dialects := []\<rparr>)"])
    show "length ?b = ?m" using n length_contexts_bytes [OF assms(3), of v] by (simp add: z_def)
    show "\<exists>p'. smb2_encode_negotiate_request ?c p req = (0, ?c, p') \<and> out_room 1 p' \<and>
        vec_bytes (p_out p') = vec_bytes (p_out p) @ ?a @ ?b @ (if has_contexts v then [] else replicate z 0)" if "fresh_pdu p" for p
    proof -
      have l: "length (negotiate_request_fields ?c r (replicate n 0)) = n"
        unfolding bytes using n(1) r(1) by (simp add: z_def)
      have "\<exists>p'. smb2_encode_negotiate_request ?c p req = (0, ?c, p') \<and> out_room 1 p' \<and>
          vec_bytes (p_out p') = vec_bytes (p_out p) @ negotiate_request_fields ?c r (replicate n 0) @ contexts_bytes v (c_salt c)"
        using encode_negotiate_request_ok [of ?c p req, unfolded same, OF _ that l] assms(1) by (simp add: v_def)
      then show ?thesis unfolding bytes by (cases "has_contexts v") (simp_all add: contexts_bytes_def)
    qed
    show "smb2_process_negotiate_request_fixed (receiving ?a d) q =
        (int ?m, receiving ?a d, set_payload (P_negotiate_request (r\<lparr>ngq_dialects := []\<rparr>)) q)"
      if "has_memory d" and spl: "c_spl d = of_nat ((64 + 36 + ?m + length (if has_contexts v then [] else replicate z (0 :: u8)) + 7) div 8 * 8)"
      for d q
    proof -
      have "sint (c_spl d - 100) = int (n + 28)" if v: "has_contexts v"
      proof -
        have "(64 + 36 + (n + 28) + 7) div 8 * 8 = n + 128" using n(3) [OF v] by presburger
        then have "c_spl d = of_nat (n + 128)" using spl v by simp
        then have "c_spl d - 100 = of_nat (n + 28)" by simp
        then show ?thesis using n(2) by (subst sint_small) (simp_all only: unat_of_nat, simp_all)
      qed
      then show ?thesis using that(1) r assms(4)
        by (cases r) (simp add: smb2_process_negotiate_request_fixed_def process_fixed_ok in_size_def field_io Let_def ds_def)
    qed
    show "smb2_process_negotiate_request_variable (receiving ?b d) (set_payload (P_negotiate_request (r\<lparr>ngq_dialects := []\<rparr>)) q) =
        (0, receiving ?b d, set_payload (P_negotiate_request r) q)" if "has_memory d" for d q
    proof -
      define B where "B = ?b"
      have "get16 B (i * 2) y = ds ! i" if "i < length ds" for i y
        using get16_units [OF that, of _ y] get16_units [OF that, of "[]" y] by (simp add: B_def)
      then have d: "map (\<lambda>i. get16 B (i * 2) y) [0..<min (unat (ngq_dialect_count r)) 10] = ds" for y
        using assms(4,5) r(2) by (intro nth_equalityI) (simp_all add: ds_def)
      have same: "r\<lparr>ngq_dialects := ds\<rparr> = r" using r(3) by (cases r) simp
      have cx: "smb2_parse_negotiate_request_contexts 2 (receiving B d) B (n - 36) = (0, receiving B d)"
          "sint (ngq_negotiate_context_offset r - 100) = int (n - 36)" "n - 36 \<le> length B" if v: "has_contexts v"
      proof -
        have l: "length (le_units ds @ replicate z 0) = n - 36" using n(1) by (simp add: z_def)
        show "smb2_parse_negotiate_request_contexts 2 (receiving B d) B (n - 36) = (0, receiving B d)"
          using own_contexts_parsed(1) [OF assms(3) v l, of 2 "receiving B d"] v by (simp add: B_def numeral_2_eq_2 del: smb2_parse_negotiate_request_contexts.simps)
        have "ngq_negotiate_context_offset r - 100 = of_nat (n - 36)" using off [OF v] n(1) by (simp add: of_nat_diff)
        then show "sint (ngq_negotiate_context_offset r - 100) = int (n - 36)"
          using n(2) by (subst sint_small) (simp_all only: unat_of_nat, simp_all)
        show "n - 36 \<le> length B" using v l by (simp add: B_def)
      qed
      show ?thesis unfolding B_def [symmetric]
      proof (cases "has_contexts v")
        case True
        show "smb2_process_negotiate_request_variable (receiving B d) (set_payload (P_negotiate_request (r\<lparr>ngq_dialects := []\<rparr>)) q) =
            (0, receiving B d, set_payload (P_negotiate_request r) q)"
          using cx [OF True] d same r(4) True
          by (simp add: smb2_process_negotiate_request_variable_def set_payload_def Let_def)
      next
        case False
        then show "smb2_process_negotiate_request_variable (receiving B d) (set_payload (P_negotiate_request (r\<lparr>ngq_dialects := []\<rparr>)) q) =
            (0, receiving B d, set_payload (P_negotiate_request r) q)"
          using d same r(4) by (simp add: smb2_process_negotiate_request_variable_def set_payload_def Let_def)
      qed
    qed
  qed (use assms(1) r(1) in simp_all)
qed

lemma encode_negotiate_reply_ok:
  fixes c :: smb2_context and rep :: smb2_negotiate_reply
  defines "r \<equiv> with_reply_contexts c rep"
  assumes "has_memory c" "fresh_pdu p" "ngr_security_buffer_length rep \<noteq> 0" "unat (ngr_security_buffer_length rep) \<le> 64"
    "length (ngr_server_guid rep) = 16"
  shows "\<exists>p'. smb2_encode_negotiate_reply c p rep = Some (0, c, p') \<and> out_room 1 p' \<and>
    vec_bytes (p_out p') = vec_bytes (p_out p) @ negotiate_reply_fields c r (replicate 64 0) @ security_block c rep @
      contexts_bytes (unat (c_dialect c)) (c_salt c)"
proof -
  let ?p = "add_out (security_block c rep) Free (add_out (replicate 64 0) Free p)" and ?k = "length (v_iov (p_out p))"
  let ?v = "unat (c_dialect c)"
  obtain p' vs where p': "encode_contexts ?v c ?p = (0, c, p')" "out_room 1 p'"
      "vec_bytes (p_out p') = vec_bytes (p_out ?p) @ contexts_bytes ?v (c_salt c)" "v_iov (p_out p') = v_iov (p_out ?p) @ vs"
    using encode_contexts_ok [of c 1 ?p ?v] assms(2,3) by (auto simp: fresh_room)
  have vs: "concat (map iov_buf vs) = contexts_bytes ?v (c_salt c)" using p'(3) vec_bytes_add [OF p'(4)] by simp
  have v: "v_iov (p_out p') =
      v_iov (p_out p) @ \<lparr>iov_buf = replicate 64 0, iov_free = Free\<rparr> # \<lparr>iov_buf = security_block c rep, iov_free = Free\<rparr> # vs"
    using p'(4) by (simp add: add_out_def)
  have g: "length (negotiate_reply_fields c r (replicate 64 0)) = 64"
    using assms(6) by (simp add: negotiate_reply_bytes r_def with_reply_contexts_def)
  have "smb2_encode_negotiate_reply c p rep = Some (0, c, store_in ?k (negotiate_reply_fields c r) p')"
    using p'(1) assms(2-5)
    by (simp add: smb2_encode_negotiate_reply_def Let_def encode_steps fresh_room encode_security_block_def r_def)
  moreover note store_in_bytes [OF v, of "negotiate_reply_fields c r"]
  ultimately show ?thesis using p'(2) vs g by (simp add: vec_bytes_def)
qed

lemma cmd_pdu_faulting_eq:
  assumes "has_memory c" and "\<And>p. fresh_pdu p \<Longrightarrow> \<exists>r. encode (c\<lparr>c_next_ptr := c_next_ptr c + 1\<rparr>) p = Some r"
  shows "cmd_pdu_faulting command encode c cb cb_data =
    Some (cmd_pdu command (\<lambda>c pdu. the (encode c pdu)) c cb cb_data)"
proof -
  have "c_mem_ok c SIZEOF_SMB2_PDU" using assms(1) by simp
  then obtain p where p: "smb2_allocate_pdu c command cb cb_data = (c\<lparr>c_next_ptr := c_next_ptr c + 1\<rparr>, Some p)" "fresh_pdu p"
    by (rule allocate_pdu_Some [of c command cb cb_data]) (auto simp: out_room_def fresh_pdu_def)
  with assms(2) [OF p(2)] show ?thesis by (auto simp: cmd_pdu_faulting_def cmd_pdu_def)
qed

lemma negotiate_reply_delivered:
  assumes "has_memory c" "length (ngr_server_guid rep) = 16" "length (c_salt c) = 32" "c_dialect c = 0x0311"
    "ngr_dialect_revision rep = 0x0311" "ngr_negotiate_context_count rep = 0" "ngr_security_buffer rep = Some blob"
    "length blob = unat (ngr_security_buffer_length rep)" "blob \<noteq> []" "length blob \<le> 64"
  shows "\<exists>r. smb2_cmd_negotiate_reply_async c rep cb cb_data = Some r \<and>
    delivers_message r 64 smb2_process_negotiate_fixed 128 smb2_process_negotiate_variable
      (P_negotiate_reply (rep\<lparr>ngr_cypher := 1, ngr_negotiate_context_offset := 192, ngr_negotiate_context_count := 2,
         ngr_security_buffer_offset := 128,
         ngr_security_buffer := Some (blob @ replicate (64 - length blob) 0 @ contexts_bytes 0x0311 (c_salt c))\<rparr>))"
proof -
  let ?c = "c\<lparr>c_next_ptr := c_next_ptr c + 1\<rparr>"
  have len: "ngr_security_buffer_length rep \<noteq> 0" using assms(8,9) unfolding word_unat_eq_iff by (simp flip: assms(8))
  have hc: "has_contexts 785" by (simp add: has_contexts_def)
  define r where "r = rep\<lparr>ngr_negotiate_context_count := 2\<rparr>"
  have r: "with_reply_contexts ?c rep = r" using assms(4,6) hc by (simp add: with_reply_contexts_def r_def)
  let ?a = "negotiate_reply_fields ?c r (replicate 64 0)"
  define b where "b = blob @ replicate (64 - length blob) 0 @ contexts_bytes 0x0311 (c_salt c)"
  have b: "b = security_block ?c rep @ contexts_bytes 0x0311 (c_salt c)"
    using assms(7,8) by (simp add: b_def security_block_def Let_def)
  have lb: "length b = 128" using assms(10) length_contexts_bytes [OF assms(3), of 785] hc by (simp add: b_def)
  have enc: "\<exists>p'. smb2_encode_negotiate_reply ?c p rep = Some (0, ?c, p') \<and> out_room 1 p' \<and>
      vec_bytes (p_out p') = vec_bytes (p_out p) @ ?a @ b" if "fresh_pdu p" for p
    using encode_negotiate_reply_ok [of ?c p rep, unfolded r] assms(1,2,4,8,10) len that by (simp add: b)
  have cmd: "smb2_cmd_negotiate_reply_async c rep cb cb_data =
      Some (cmd_pdu SMB2_NEGOTIATE (\<lambda>c pdu. the (smb2_encode_negotiate_reply c pdu rep)) c cb cb_data)"
    unfolding smb2_cmd_negotiate_reply_async_def by (rule cmd_pdu_faulting_eq [OF assms(1)]) (use enc in blast)
  define y where "y j = rep\<lparr>ngr_cypher := j, ngr_negotiate_context_offset := 192, ngr_negotiate_context_count := 2,
     ngr_security_buffer_offset := 128, ngr_security_buffer := None\<rparr>" for j
  have seclen: "reply_seclen ?c r = 64" using len by (simp add: reply_seclen_def r_def)
  have g: "length (ngr_server_guid r) = 16" using assms(2) by (simp add: r_def)
  have "delivers_message (cmd_pdu SMB2_NEGOTIATE (\<lambda>c pdu. the (smb2_encode_negotiate_reply c pdu rep)) c cb cb_data) 64
      smb2_process_negotiate_fixed 128 smb2_process_negotiate_variable
      (P_negotiate_reply ((y 1)\<lparr>ngr_security_buffer := Some b\<rparr>))"
  proof (rule delivers_message_cmd [where a = ?a and b = b and trail = "[]" and y = "\<lambda>j. P_negotiate_reply (y (ucast j))"])
    show "\<exists>p'. the (smb2_encode_negotiate_reply ?c p rep) = (0, ?c, p') \<and> out_room 1 p' \<and>
        vec_bytes (p_out p') = vec_bytes (p_out p) @ ?a @ b @ []" if "fresh_pdu p" for p
      using enc [OF that] by auto
    show "smb2_process_negotiate_fixed (receiving ?a d) q =
        (int 128, receiving ?a d, set_payload (P_negotiate_reply (y (ucast (c_junk d)))) q)"
      if "has_memory d" "c_spl d = of_nat ((64 + 64 + 128 + length [] + 7) div 8 * 8)" for d q
    proof -
      have spl: "c_spl d = 256" using that(2) by simp
      have "sint (128 :: u32) = 128" "unat (ucast (256 :: u32) :: u16) = 256" by (simp_all add: sint_small)
      then show ?thesis unfolding negotiate_reply_bytes [OF g] seclen using that(1) spl assms(2,5,9,10) assms(8) [symmetric] len
        by (cases rep)
           (simp add: smb2_process_negotiate_fixed_def process_fixed_ok in_size_def field_io Let_def r_def y_def negotiate_offset_def)
    qed
    show "smb2_process_negotiate_variable (receiving b d) (set_payload (P_negotiate_reply (y (ucast (c_junk d)))) q) =
        (0, receiving b d, set_payload (P_negotiate_reply ((y 1)\<lparr>ngr_security_buffer := Some b\<rparr>)) q)" if "has_memory d" for d q
    proof -
      have l: "length (blob @ replicate (64 - length blob) (0 :: u8)) = 64" using assms(10) by simp
      have "sint (64 :: u32) = 64" by (simp add: sint_small)
      moreover have "smb2_parse_negotiate_contexts 2 (receiving b d) z b 64 = (0, receiving b d, z\<lparr>ngr_cypher := 1\<rparr>)" for z
        using own_contexts_parsed(2) [OF assms(3) hc l, of 2 "receiving b d" z]
        by (simp add: b_def numeral_2_eq_2 del: smb2_parse_negotiate_contexts.simps)
      ultimately show ?thesis using assms(5) lb
        by (simp add: smb2_process_negotiate_variable_def set_payload_def Let_def y_def negotiate_offset_def)
    qed
  qed (use assms(1) g lb in \<open>simp_all add: negotiate_reply_bytes\<close>)
  then show ?thesis unfolding cmd by (simp add: y_def b_def)
qed

subsection \<open>Properties\<close>

text \<open>C28. Negotiation: a request for up to ten dialects, with the two negotiate contexts exactly when the version allows
  3.1.1, reaches a server with every member and its dialects; a 3.1.1 reply with a security blob of up to 64 bytes
  reaches the client with every member, the blob in front of what it keeps, and the cipher that the encryption context
  names.\<close>

theorem negotiate_roundtrip:
  assumes "has_memory c" "length (c_salt c) = 32" "length (ngq_client_guid req) = 16"
    "unat (ngq_dialect_count req) = length (ngq_dialects req)" "length (ngq_dialects req) \<le> 10" "ngq_negotiate_context_count req = 0"
    "length (ngr_server_guid rep) = 16" "c_dialect c = 0x0311" "ngr_dialect_revision rep = 0x0311"
    "ngr_negotiate_context_count rep = 0" "ngr_security_buffer rep = Some blob"
    "length blob = unat (ngr_security_buffer_length rep)" "blob \<noteq> []" "length blob \<le> 64"
  shows "delivers_message (smb2_cmd_negotiate_async c req cb cb_data) 36 smb2_process_negotiate_request_fixed
      (if has_contexts (c_version c) then negotiate_request_size c req + 28 else 2 * length (ngq_dialects req))
      smb2_process_negotiate_request_variable (P_negotiate_request (with_request_contexts c req)) \<and>
    (\<exists>r. smb2_cmd_negotiate_reply_async c rep cb cb_data = Some r \<and>
      delivers_message r 64 smb2_process_negotiate_fixed 128 smb2_process_negotiate_variable
        (P_negotiate_reply (rep\<lparr>ngr_cypher := 1, ngr_negotiate_context_offset := 192, ngr_negotiate_context_count := 2,
           ngr_security_buffer_offset := 128,
           ngr_security_buffer := Some (blob @ replicate (64 - length blob) 0 @ contexts_bytes 0x0311 (c_salt c))\<rparr>)))"
  using negotiate_request_delivered [OF assms(1,3,2,4-6)] negotiate_reply_delivered [OF assms(1,7,2,8-14)] by (rule conjI)

definition sample_negotiate :: smb2_negotiate_request where
  "sample_negotiate = \<lparr>ngq_dialect_count = 1, ngq_security_mode = 1, ngq_capabilities = 0, ngq_client_guid = replicate 16 3,
     ngq_negotiate_context_offset = 0, ngq_negotiate_context_count = 0, ngq_dialects = [0x0311]\<rparr>"

definition sample_negotiate_reply :: smb2_negotiate_reply where
  "sample_negotiate_reply = \<lparr>ngr_security_mode = 1, ngr_dialect_revision = 0x0311, ngr_cypher = 0,
     ngr_server_guid = replicate 16 4, ngr_capabilities = 0, ngr_max_transact_size = 65536, ngr_max_read_size = 65536,
     ngr_max_write_size = 65536, ngr_system_time = 0, ngr_server_start_time = 0, ngr_negotiate_context_offset = 0,
     ngr_negotiate_context_count = 0, ngr_security_buffer_length = 1, ngr_security_buffer_offset = 0,
     ngr_security_buffer = Some [0x60]\<rparr>"

theorem negotiate_roundtrip_witness:
  "delivers_message (smb2_cmd_negotiate_async (zero_context\<lparr>c_dialect := 0x0311\<rparr>) sample_negotiate 1 2) 36
     smb2_process_negotiate_request_fixed 68 smb2_process_negotiate_request_variable
     (P_negotiate_request (sample_negotiate\<lparr>ngq_negotiate_context_offset := 104, ngq_negotiate_context_count := 2\<rparr>))"
proof -
  define c where "c = zero_context\<lparr>c_dialect := 0x0311\<rparr>"
  have c: "has_memory c" "length (c_salt c) = 32" "c_version c = 0" "c_dialect c = 0x0311" by (simp_all add: c_def zero_context_def)
  have n: "negotiate_request_size c sample_negotiate = 40"
    by (simp add: negotiate_request_size_def sample_negotiate_def c has_contexts_def)
  then have r: "with_request_contexts c sample_negotiate =
      sample_negotiate\<lparr>ngq_negotiate_context_offset := 104, ngq_negotiate_context_count := 2\<rparr>"
    by (simp add: with_request_contexts_def c has_contexts_def) (simp add: sample_negotiate_def)
  have "length (ngq_client_guid sample_negotiate) = 16"
    "unat (ngq_dialect_count sample_negotiate) = length (ngq_dialects sample_negotiate)"
    "length (ngq_dialects sample_negotiate) \<le> 10" "ngq_negotiate_context_count sample_negotiate = 0"
    "length (ngr_server_guid sample_negotiate_reply) = 16" by (simp_all add: sample_negotiate_def sample_negotiate_reply_def)
  note negotiate_roundtrip [OF c(1,2) this c(4), of "[0x60]" 1 2]
  then show ?thesis unfolding c_def [symmetric]
    using n r c(3) by (simp add: sample_negotiate_reply_def has_contexts_def)
qed

subsection \<open>Where it goes wrong\<close>

text \<open>A security blob of more than 64 bytes is copied over the end of its block.\<close>

lemma negotiate_blob_overflow:
  assumes "has_memory c" "fresh_pdu p" "unat (ngr_security_buffer_length rep) > 64"
  shows "smb2_encode_negotiate_reply c p rep = None"
  using assms by (simp add: smb2_encode_negotiate_reply_def Let_def encode_steps fresh_room)

text \<open>Without an encryption context the cipher of a reply is whatever was in its memory.\<close>

lemma negotiate_cipher_unset:
  assumes "has_memory d" "length (ngr_server_guid rep) = 16" "ngr_security_buffer_length rep = 0"
  shows "\<exists>q1 rep'. smb2_process_negotiate_fixed (receiving (negotiate_reply_fields c rep (replicate 64 0)) d) q = (0, q1) \<and>
    p_payload (snd q1) = Some (P_negotiate_reply rep') \<and> ngr_cypher rep' = ucast (c_junk d)"
  unfolding negotiate_reply_bytes [OF assms(2)] using assms
  by (simp add: smb2_process_negotiate_fixed_def process_fixed_ok in_size_def field_io Let_def set_payload_def)

end
