(* ===== verification/Smb2_Cmd_Info.thy ===== *)
theory Smb2_Cmd_Info
  imports Smb2_Cmd_Negotiate Smb2_Security
begin

text \<open>
  Querying information about files, file systems and security: \<^verbatim>\<open>lib/smb2-cmd-query-info.c\<close>. The
  codecs of the information structures are those of \<open>Smb2_Data\<close> and \<open>Smb2_Security\<close>; here are the two
  dispatches on information type and class, the output buffer around the structure, and its truncation
  to what the client has room for. A result \<open>None\<close> is an access outside a block, a \<open>NULL\<close> block,
  or a structure of another class than the one that is encoded.
\<close>

subsection \<open>Requests\<close>

definition query_info_request_fields :: "smb2_query_info_request \<Rightarrow> bytes \<Rightarrow> bytes" where
  "query_info_request_fields req =
     put_at 24 (qiq_file_id req) \<circ> set32 20 (qiq_flags req) \<circ> set32 16 (qiq_additional_information req) \<circ>
     set32 12 (qiq_input_buffer_length req) \<circ> set16 8 (64 + 40) \<circ> set32 4 (qiq_output_buffer_length req) \<circ>
     set8 3 (qiq_file_info_class req) \<circ> set8 2 (qiq_info_type req) \<circ> set16 0 41"

text \<open>The PDU remembers what was asked for.\<close>

definition smb2_encode_query_info_request ::
  "smb2_context \<Rightarrow> smb2_pdu \<Rightarrow> smb2_query_info_request \<Rightarrow> int \<times> smb2_context \<times> smb2_pdu" where
  "smb2_encode_query_info_request c pdu req =
     (if qiq_input_buffer_length req > 0 then (-1, smb2_set_error ''No support for input buffers, yet'' c, pdu)
      else and_then (encode_fixed ''Failed to allocate query buffer'' ''Failed to add iovector for query-info request'' 40
                       (query_info_request_fields req) c pdu)
             (\<lambda>c pdu. (0, c, pdu\<lparr>p_info_type := qiq_info_type req, p_file_info_class := qiq_file_info_class req\<rparr>)))"

definition smb2_cmd_query_info_async ::
  "smb2_context \<Rightarrow> smb2_query_info_request \<Rightarrow> nat \<Rightarrow> nat \<Rightarrow> smb2_context \<times> smb2_pdu option" where
  "smb2_cmd_query_info_async c req = cmd_pdu SMB2_QUERY_INFO (\<lambda>c pdu. smb2_encode_query_info_request c pdu req) c"

text \<open>\<open>IOVREQ_OFFSET_QUERY\<close>\<close>

definition query_info_request_offset :: "smb2_query_info_request \<Rightarrow> u32" where
  "query_info_request_offset req = ucast (qiq_input_buffer_offset req) - 104"

definition smb2_process_query_info_request_fixed :: decoder where
  "smb2_process_query_info_request_fixed =
     process_fixed ''Unexpected size of Query Info request. Expected %d, got %d'' ''Failed to allocate query info request'' 41 56
       (\<lambda>c pdu.
          let b = in_buf c; j = c_junk c;
              req = \<lparr>qiq_info_type = get8 b 2 (ucast j), qiq_file_info_class = get8 b 3 (ucast j),
                     qiq_output_buffer_length = get32 b 4 (ucast j), qiq_input_buffer_offset = get16 b 8 (ucast j),
                     qiq_input_buffer_length = get32 b 12 (ucast j), qiq_additional_information = get32 b 16 (ucast j),
                     qiq_flags = get32 b 20 (ucast j), qiq_file_id = get_at 24 SMB2_FD_SIZE b, qiq_input = None\<rparr>
          in if qiq_input_buffer_length req = 0 then (0, c, set_payload (P_query_info_request req) pdu)
             else if qiq_input_buffer_offset req < 104
             then (-1, smb2_set_error ''Input buffer overlaps with Query Info request header'' c, pdu\<lparr>p_payload := None\<rparr>)
             else (sint (query_info_request_offset req + qiq_input_buffer_length req), c, set_payload (P_query_info_request req) pdu))"

definition smb2_process_query_info_request_variable :: faulting_decoder where
  "smb2_process_query_info_request_variable c pdu =
     (case p_payload pdu of
        Some (P_query_info_request req) \<Rightarrow>
          (case bytes_behind (query_info_request_offset req) (in_buf c) of
             None \<Rightarrow> None
           | Some vec \<Rightarrow> Some (0, c, set_payload (P_query_info_request (req\<lparr>qiq_input := Some vec\<rparr>)) pdu))
      | _ \<Rightarrow> None)"

subsection \<open>Encoding a reply\<close>

text \<open>The structure of each class. Classes without an encoder give 0.\<close>

definition encode_file_class :: "smb2_context \<Rightarrow> u8 \<Rightarrow> info_data \<Rightarrow> bytes \<Rightarrow> (int \<times> bytes) option" where
  "encode_file_class c cls d b =
     (if cls = 0x12 then (case d of Inf_all i \<Rightarrow> Some (smb2_encode_file_all_info c i b) | _ \<Rightarrow> None)
      else if cls = 0x04 then (case d of Inf_basic i \<Rightarrow> Some (smb2_encode_file_basic_info i b) | _ \<Rightarrow> None)
      else if cls = 0x22 then (case d of Inf_network_open i \<Rightarrow> Some (smb2_encode_file_network_open_info i b) | _ \<Rightarrow> None)
      else if cls = 0x30
      then (case d of
              Inf_name i \<Rightarrow> (case smb2_encode_file_normalized_name_info c i b of (rc, _, b) \<Rightarrow> Some (rc, b))
            | _ \<Rightarrow> None)
      else if cls = 0x0e then (case d of Inf_position i \<Rightarrow> Some (smb2_encode_file_position_info i b) | _ \<Rightarrow> None)
      else if cls = 0x05 then (case d of Inf_standard i \<Rightarrow> Some (smb2_encode_file_standard_info i b) | _ \<Rightarrow> None)
      else if cls = 0x16 then (case d of Inf_stream i \<Rightarrow> smb2_encode_file_stream_info c i b | _ \<Rightarrow> None)
      else Some (0, b))"

definition encode_filesystem_class :: "smb2_context \<Rightarrow> u8 \<Rightarrow> info_data \<Rightarrow> bytes \<Rightarrow> (int \<times> bytes) option" where
  "encode_filesystem_class c cls d b =
     (if cls = 5 then (case d of Inf_fs_attribute i \<Rightarrow> smb2_encode_file_fs_attribute_info c i b | _ \<Rightarrow> None)
      else if cls = 6 then (case d of Inf_fs_control i \<Rightarrow> Some (smb2_encode_file_fs_control_info i b) | _ \<Rightarrow> None)
      else if cls = 4 then (case d of Inf_fs_device i \<Rightarrow> Some (smb2_encode_file_fs_device_info i b) | _ \<Rightarrow> None)
      else if cls = 7 then (case d of Inf_fs_full_size i \<Rightarrow> Some (smb2_encode_file_fs_full_size_info i b) | _ \<Rightarrow> None)
      else if cls = 8 then (case d of Inf_fs_object_id i \<Rightarrow> Some (smb2_encode_file_fs_object_id_info i b) | _ \<Rightarrow> None)
      else if cls = 11 then (case d of Inf_fs_sector_size i \<Rightarrow> Some (smb2_encode_file_fs_sector_size_info i b) | _ \<Rightarrow> None)
      else if cls = 3 then (case d of Inf_fs_size i \<Rightarrow> Some (smb2_encode_file_fs_size_info i b) | _ \<Rightarrow> None)
      else if cls = 1 then (case d of Inf_fs_volume i \<Rightarrow> smb2_encode_file_fs_volume_info c i b | _ \<Rightarrow> None)
      else Some (0, b))"

definition encode_info :: "smb2_context \<Rightarrow> smb2_query_info_request \<Rightarrow> info_data \<Rightarrow> bytes \<Rightarrow> (int \<times> bytes) option" where
  "encode_info c req d b =
     (if qiq_info_type req = 1 then encode_file_class c (qiq_file_info_class req) d b
      else if qiq_info_type req = 2 then encode_filesystem_class c (qiq_file_info_class req) d b
      else Some (0, b))"

text \<open>The size of the output block: a C \<open>int\<close>, converted to \<open>size_t\<close>.\<close>

definition output_room :: "u32 \<Rightarrow> nat" where
  "output_room n = nat ((sint n + 1024) mod 2 ^ 64)"

definition info_raw :: "info_data \<Rightarrow> bytes option" where
  "info_raw d = (case d of Inf_raw b \<Rightarrow> Some b | _ \<Rightarrow> None)"

text \<open>
  What becomes of the block: its bytes up to the length that is set, and the length of the reply. The
  result of an encoder is stored in an unsigned integer, so that a failure is a very long structure.
\<close>

definition finish_output ::
  "smb2_query_info_request \<Rightarrow> smb2_query_info_reply \<Rightarrow> int \<Rightarrow> bytes \<Rightarrow> smb2_context \<Rightarrow> smb2_pdu \<Rightarrow>
   (smb2_context \<times> smb2_pdu \<times> u32) option" where
  "finish_output req rep rc b c pdu =
     (let created = word_of_int rc :: u32; n = qir_output_buffer_length rep; room = qiq_output_buffer_length req;
          shrink = (\<lambda>b pdu. pdu\<lparr>p_out := map_last_iov (\<lambda>_. b) (p_out pdu)\<rparr>)
      in if created = 0 then
           if c_passthrough c then
             if unat n > length b then None
             else Some (c, shrink (padded64 c n (info_raw (qir_output_buffer rep))) pdu, n)
           else Some (smb2_set_error ''No encoding for info_type/info_class %d/%d yet'' c, shrink [] pdu, n)
         else
           (let pdu = (if created > room then smb2_set_pdu_status pdu 0x80000005 else pdu);
                m = (if created > room then room else created)
            in if unat (PAD_TO_64BIT m) > length b then None
               else Some (c, shrink (take (unat (PAD_TO_64BIT m)) b) pdu, m)))"

definition smb2_encode_query_info_reply ::
  "smb2_context \<Rightarrow> smb2_query_info_request \<Rightarrow> smb2_pdu \<Rightarrow> smb2_query_info_reply \<Rightarrow>
   (int \<times> smb2_context \<times> smb2_pdu) option" where
  "smb2_encode_query_info_reply c req pdu rep =
     (let k = length (v_iov (p_out pdu)); n = qir_output_buffer_length rep; room = output_room n;
          block = replicate room (ucast (c_junk c))
      in case encode_fixed ''Failed to allocate query reply buffer'' ''Failed to add iovector for query-info reply header'' 8
                (set16 2 (if n > 0 then 72 else 0) \<circ> set16 0 9) c pdu of
           (rc, c, pdu) \<Rightarrow>
             if rc \<noteq> 0 then Some (rc, c, pdu)
             else if n = 0 \<or> qir_output_buffer rep = Inf_null then Some (0, c, store_in k (set32 4 n) pdu)
             else
               (case encode_buffer ''Failed to allocate output buffer'' ''Failed to add iovector for query-info output buffer'' room
                       block c pdu of
                  (rc, c, pdu) \<Rightarrow>
                    if rc \<noteq> 0 then Some (rc, c, pdu)
                    else if qiq_info_type req \<notin> {1, 2, 3, 4} then Some (0, c, pdu)
                    else
                      (case encode_info c req (qir_output_buffer rep) block of
                         None \<Rightarrow> None
                       | Some (rc, b) \<Rightarrow>
                         map_option (\<lambda>(c, pdu, m). (0, c, store_in k (set32 4 m) pdu)) (finish_output req rep rc b c pdu))))"

definition smb2_cmd_query_info_reply_async ::
  "smb2_context \<Rightarrow> smb2_query_info_request \<Rightarrow> smb2_query_info_reply \<Rightarrow> nat \<Rightarrow> nat \<Rightarrow> (smb2_context \<times> smb2_pdu option) option" where
  "smb2_cmd_query_info_reply_async c req rep =
     cmd_pdu_faulting SMB2_QUERY_INFO (\<lambda>c pdu. smb2_encode_query_info_reply c req pdu rep) c"

subsection \<open>Decoding a reply\<close>

text \<open>\<open>IOV_OFFSET_QUERY\<close>\<close>

definition query_info_offset :: "smb2_query_info_reply \<Rightarrow> u32" where
  "query_info_offset rep = ucast (qir_output_buffer_offset rep) - 72"

definition smb2_process_query_info_fixed :: decoder where
  "smb2_process_query_info_fixed =
     process_fixed ''Unexpected size of Query Info reply. Expected %d, got %d'' ''Failed to allocate query info reply'' 9 16
       (\<lambda>c pdu.
          let b = in_buf c; j = c_junk c;
              rep = \<lparr>qir_output_buffer_offset = get16 b 2 (ucast j), qir_output_buffer_length = get32 b 4 (ucast j),
                     qir_output_buffer = Inf_null\<rparr>;
              opl = ucast (qir_output_buffer_offset rep) + qir_output_buffer_length rep;
              next = h_next_command (c_hdr c);
              fail = (\<lambda>e. (-1, smb2_set_error e c, pdu\<lparr>p_payload := None\<rparr>))
          in if opl < ucast (qir_output_buffer_offset rep) then fail ''Output offset/length wrapped.''
             else if qir_output_buffer_length rep = 0 then (0, c, set_payload (P_query_info_reply rep) pdu)
             else if opl > c_spl c then fail ''Output buffer extends beyond end of PDU''
             else if next \<noteq> 0 \<and> opl > next then fail ''Current PDU extends into next chained PDU''
             else if qir_output_buffer_offset rep < 72 then fail ''Output buffer overlaps with Query Info reply header''
             else (sint (query_info_offset rep + qir_output_buffer_length rep), c, set_payload (P_query_info_reply rep) pdu))"

text \<open>
  One class: a block of \<open>n\<close> bytes is allocated and zeroed, and the decoder fills it in. A block that
  could not be allocated is only noticed by a decoder that rejects the vector before it touches the block,
  because it is shorter than \<open>least\<close>.
\<close>

definition decode_class ::
  "nat \<Rightarrow> nat \<Rightarrow> string \<Rightarrow> (int \<times> smb2_context \<times> 'a) option \<Rightarrow> ('a \<Rightarrow> info_data) \<Rightarrow> smb2_context \<Rightarrow> bytes \<Rightarrow>
   (int \<times> smb2_context \<times> info_data) option" where
  "decode_class n least e r wrap c vec =
     (if \<not> c_mem_ok c (n + 8) then if length vec < least then Some (-1, smb2_set_error e c, Inf_null) else None
      else case r of
             None \<Rightarrow> None
           | Some (rc, c, x) \<Rightarrow> if rc \<noteq> 0 then Some (-1, smb2_set_error e c, Inf_null) else Some (0, c, wrap x))"

definition in_context :: "smb2_context \<Rightarrow> int \<times> 'a \<Rightarrow> (int \<times> smb2_context \<times> 'a) option" where
  "in_context c r = (case r of (rc, x) \<Rightarrow> Some (rc, c, x))"

definition zero_basic :: smb2_file_basic_info where
  "zero_basic = \<lparr>fbi_creation_time = \<lparr>tv_sec = 0, tv_usec = 0\<rparr>, fbi_last_access_time = \<lparr>tv_sec = 0, tv_usec = 0\<rparr>,
     fbi_last_write_time = \<lparr>tv_sec = 0, tv_usec = 0\<rparr>, fbi_change_time = \<lparr>tv_sec = 0, tv_usec = 0\<rparr>, fbi_file_attributes = 0\<rparr>"

definition zero_standard :: smb2_file_standard_info where
  "zero_standard = \<lparr>fsi_allocation_size = 0, fsi_end_of_file = 0, fsi_number_of_links = 0, fsi_delete_pending = 0,
     fsi_directory = 0\<rparr>"

definition zero_all :: smb2_file_all_info where
  "zero_all = \<lparr>fai_basic = zero_basic, fai_standard = zero_standard, fai_index_number = 0, fai_ea_size = 0,
     fai_access_flags = 0, fai_current_byte_offset = 0, fai_mode = 0, fai_alignment_requirement = 0, fai_name = None\<rparr>"

definition zero_network_open :: smb2_file_network_open_info where
  "zero_network_open = \<lparr>fno_creation_time = \<lparr>tv_sec = 0, tv_usec = 0\<rparr>, fno_last_access_time = \<lparr>tv_sec = 0, tv_usec = 0\<rparr>,
     fno_last_write_time = \<lparr>tv_sec = 0, tv_usec = 0\<rparr>, fno_change_time = \<lparr>tv_sec = 0, tv_usec = 0\<rparr>, fno_allocation_size = 0,
     fno_end_of_file = 0, fno_file_attributes = 0\<rparr>"

definition decode_file_class :: "smb2_context \<Rightarrow> u8 \<Rightarrow> bytes \<Rightarrow> (int \<times> smb2_context \<times> info_data) option" where
  "decode_file_class c cls vec =
     (if cls = 0x12
      then decode_class 136 40 ''could not decode file all info. %s'' (Some (smb2_decode_file_all_info c zero_all vec)) Inf_all c vec
      else if cls = 0x04
      then decode_class 72 0 ''could not decode file basic info. %s''
             (in_context c (smb2_decode_file_basic_info c zero_basic vec)) Inf_basic c vec
      else if cls = 0x22
      then decode_class 136 56 ''could not decode file network open info. %s''
             (in_context c (smb2_decode_file_network_open_info c zero_network_open vec)) Inf_network_open c vec
      else if cls = 0x30
      then decode_class 16 4 ''could not decode file normalized name info. %s''
             (Some (smb2_decode_file_normalized_name_info c \<lparr>fni_file_name_length = 0, fni_name = None\<rparr> vec)) Inf_name c vec
      else if cls = 0x0e
      then decode_class 8 0 ''could not decode file positiion info. %s''
             (in_context c (smb2_decode_file_position_info c \<lparr>fpi_current_byte_offset = 0\<rparr> vec)) Inf_position c vec
      else if cls = 0x05
      then decode_class 24 0 ''could not decode file standard info. %s''
             (in_context c (smb2_decode_file_standard_info c zero_standard vec)) Inf_standard c vec
      else if cls = 0x16
      then decode_class ((1 + length vec div 24) * 32) 0 ''could not decode file stream info. %s''
             (smb2_decode_file_stream_info (1 + length vec div 24) c vec) Inf_stream c vec
      else Some (0, c, Inf_null))"

definition decode_filesystem_class :: "smb2_context \<Rightarrow> u8 \<Rightarrow> bytes \<Rightarrow> (int \<times> smb2_context \<times> info_data) option" where
  "decode_filesystem_class c cls vec =
     (if cls = 5
      then decode_class 24 20 ''could not decode file fs attribute info. %s''
             (Some (smb2_decode_file_fs_attribute_info c \<lparr>fat_filesystem_attributes = 0, fat_maximum_component_name_length = 0,
                fat_filesystem_name_length = 0, fat_filesystem_name = None\<rparr> vec)) Inf_fs_attribute c vec
      else if cls = 6
      then decode_class 48 44 ''could not decode file fs control info. %s''
             (in_context c (smb2_decode_file_fs_control_info c \<lparr>fct_free_space_start_filtering = 0, fct_free_space_threshold = 0,
                fct_free_space_stop_filtering = 0, fct_default_quota_threshold = 0, fct_default_quota_limit = 0,
                fct_file_system_control_flags = 0\<rparr> vec)) Inf_fs_control c vec
      else if cls = 4
      then decode_class 8 8 ''could not decode file fs device info. %s''
             (in_context c (smb2_decode_file_fs_device_info c \<lparr>fdv_device_type = 0, fdv_characteristics = 0\<rparr> vec)) Inf_fs_device c vec
      else if cls = 7
      then decode_class 32 32 ''could not decode file fs full size info. %s''
             (in_context c (smb2_decode_file_fs_full_size_info c \<lparr>ffs_total_allocation_units = 0,
                ffs_caller_available_allocation_units = 0, ffs_actual_available_allocation_units = 0,
                ffs_sectors_per_allocation_unit = 0, ffs_bytes_per_sector = 0\<rparr> vec)) Inf_fs_full_size c vec
      else if cls = 8
      then decode_class 64 64 ''could not decode file object id info. %s''
             (in_context c (smb2_decode_file_fs_object_id_info c \<lparr>foi_object_id = replicate 16 0,
                foi_extended_info = replicate 48 0\<rparr> vec)) Inf_fs_object_id c vec
      else if cls = 11
      then decode_class 28 28 ''could not decode file fs sector size info. %s''
             (in_context c (smb2_decode_file_fs_sector_size_info c \<lparr>fss_logical_bytes_per_sector = 0,
                fss_physical_bytes_per_sector_for_atomicity = 0, fss_physical_bytes_per_sector_for_performance = 0,
                fss_effective_physical_bytes_per_sector_for_atomicity = 0, fss_flags = 0,
                fss_byte_offset_for_sector_alignment = 0, fss_byte_offset_for_partition_alignment = 0\<rparr> vec))
             Inf_fs_sector_size c vec
      else if cls = 3
      then decode_class 24 24 ''could not decode file fs size info. %s''
             (in_context c (smb2_decode_file_fs_size_info c \<lparr>fsz_total_allocation_units = 0, fsz_available_allocation_units = 0,
                fsz_sectors_per_allocation_unit = 0, fsz_bytes_per_sector = 0\<rparr> vec)) Inf_fs_size c vec
      else if cls = 1
      then decode_class 40 0 ''could not decode file fs volume info. %s''
             (smb2_decode_file_fs_volume_info c \<lparr>fvi_creation_time = \<lparr>tv_sec = 0, tv_usec = 0\<rparr>, fvi_volume_serial_number = 0,
                fvi_volume_label_length = 0, fvi_supports_objects = 0, fvi_reserved = 0, fvi_volume_label = None\<rparr> vec)
             Inf_fs_volume c vec
      else Some (0, c, Inf_null))"

definition decode_security_class :: "smb2_context \<Rightarrow> bytes \<Rightarrow> (int \<times> smb2_context \<times> info_data) option" where
  "decode_security_class c vec =
     (if c_passthrough c then Some (0, c, Inf_null)
      else decode_class 32 20 ''could not decode security descriptor. %s''
             (smb2_decode_security_descriptor c \<lparr>sd_revision = 0, sd_control = 0, sd_owner = None, sd_group = None, sd_dacl = None\<rparr>
                vec) Inf_security c vec)"

definition decode_info :: "smb2_context \<Rightarrow> smb2_pdu \<Rightarrow> bytes \<Rightarrow> (int \<times> smb2_context \<times> info_data) option" where
  "decode_info c pdu vec =
     (if p_info_type pdu = 1 then decode_file_class c (p_file_info_class pdu) vec
      else if p_info_type pdu = 2 then decode_filesystem_class c (p_file_info_class pdu) vec
      else if p_info_type pdu = 3 then decode_security_class c vec
      else if p_info_type pdu = 4 then Some (0, c, Inf_null)
      else Some (-1, smb2_set_error ''Bad info_type %d'' c, Inf_null))"

definition smb2_process_query_info_variable :: faulting_decoder where
  "smb2_process_query_info_variable c pdu =
     (case p_payload pdu of
        Some (P_query_info_reply rep) \<Rightarrow>
          (case bytes_behind (query_info_offset rep) (in_buf c) of
             None \<Rightarrow> None
           | Some vec \<Rightarrow>
             (let n = unat (qir_output_buffer_length rep);
                  finish = (\<lambda>c d. Some (0, c, set_payload (P_query_info_reply (rep\<lparr>qir_output_buffer := d\<rparr>)) pdu))
              in case decode_info c pdu vec of
                   None \<Rightarrow> None
                 | Some (rc, c, d) \<Rightarrow>
                   if rc \<noteq> 0 then Some (-1, c, pdu)
                   else if d \<noteq> Inf_null then finish c d
                   else if \<not> c_passthrough c
                   then Some (-1, smb2_set_error ''Can not decode info_type/info_class %d/%d yet'' c, pdu)
                   else if \<not> c_mem_ok c (n + 8) \<or> length vec > n then None
                   else finish c (Inf_raw (vec @ replicate (n - length vec) 0))))
      | _ \<Rightarrow> None)"

subsection \<open>Classes of fixed size on the wire\<close>

text \<open>What the contracts of \<open>Smb2_Data\<close> say of each class.\<close>

definition info_wire :: "u8 \<Rightarrow> u8 \<Rightarrow> info_data \<Rightarrow> bytes option" where
  "info_wire type cls d =
     (let when = (\<lambda>t k ok w. if type = t \<and> cls = k \<and> ok then Some w else None) in
      case d of
        Inf_basic i \<Rightarrow> when 1 0x04 (valid_basic i) (basic_wire i)
      | Inf_standard i \<Rightarrow> when 1 0x05 True (standard_wire i)
      | Inf_position i \<Rightarrow> when 1 0x0e True (le64 (fpi_current_byte_offset i))
      | Inf_network_open i \<Rightarrow>
          when 1 0x22 (set_time (fno_creation_time i) \<and> set_time (fno_last_access_time i) \<and>
            set_time (fno_last_write_time i) \<and> set_time (fno_change_time i)) (network_open_wire i)
      | Inf_fs_size i \<Rightarrow>
          when 2 3 True (le64 (fsz_total_allocation_units i) @ le64 (fsz_available_allocation_units i) @
            le32 (fsz_sectors_per_allocation_unit i) @ le32 (fsz_bytes_per_sector i))
      | Inf_fs_device i \<Rightarrow> when 2 4 True (le32 (fdv_device_type i) @ le32 (fdv_characteristics i))
      | Inf_fs_full_size i \<Rightarrow>
          when 2 7 True (le64 (ffs_total_allocation_units i) @ le64 (ffs_caller_available_allocation_units i) @
            le64 (ffs_actual_available_allocation_units i) @ le32 (ffs_sectors_per_allocation_unit i) @
            le32 (ffs_bytes_per_sector i))
      | Inf_fs_object_id i \<Rightarrow>
          when 2 8 (length (foi_object_id i) = 16 \<and> length (foi_extended_info i) = 48) (foi_object_id i @ foi_extended_info i)
      | Inf_fs_sector_size i \<Rightarrow>
          when 2 11 True (le32 (fss_logical_bytes_per_sector i) @ le32 (fss_physical_bytes_per_sector_for_atomicity i) @
            le32 (fss_physical_bytes_per_sector_for_performance i) @
            le32 (fss_effective_physical_bytes_per_sector_for_atomicity i) @ le32 (fss_flags i) @
            le32 (fss_byte_offset_for_sector_alignment i) @ le32 (fss_byte_offset_for_partition_alignment i))
      | _ \<Rightarrow> None)"

lemmas class_encoders = basic.encode_wire standard.encode_wire position.encode_wire network_open.encode_wire
  fs_size.encode_wire fs_device.encode_wire fs_full_size.encode_wire fs_object_id.encode_wire fs_sector_size.encode_wire

lemmas class_decoders = basic.decode_wire [where post = "[]", simplified] standard.decode_wire [where post = "[]", simplified]
  position.decode_wire [where post = "[]", simplified] network_open.decode_wire [where post = "[]", simplified]
  fs_size.decode_wire [where post = "[]", simplified] fs_device.decode_wire [where post = "[]", simplified]
  fs_full_size.decode_wire [where post = "[]", simplified] fs_object_id.decode_wire [where post = "[]", simplified]
  fs_sector_size.decode_wire [where post = "[]", simplified]

lemma info_wire_size:
  "info_wire type cls d = Some w \<Longrightarrow> length w \<in> {8, 24, 28, 32, 40, 56, 64} \<and> d \<noteq> Inf_null \<and> (type = 1 \<or> type = 2)"
  by (auto simp: info_wire_def Let_def basic.wire_length standard.wire_length network_open.wire_length
      split: info_data.splits if_splits)

lemma info_wire_length:
  "info_wire type cls d = Some w \<Longrightarrow> 0 < length w \<and> length w \<le> 64 \<and> d \<noteq> Inf_null \<and> (type = 1 \<or> type = 2)"
  by (drule info_wire_size) force

lemma encode_info_wire:
  assumes "info_wire (qiq_info_type req) (qiq_file_info_class req) d = Some w" "64 \<le> length b"
  shows "encode_info c req d b = Some (int (length w), w @ drop (length w) b)"
  using assms
  by (auto simp: info_wire_def Let_def encode_info_def encode_file_class_def encode_filesystem_class_def class_encoders
      basic.wire_length standard.wire_length network_open.wire_length split: info_data.splits if_splits)

lemma decode_info_wire:
  assumes "info_wire (p_info_type q) (p_file_info_class q) d = Some w" "has_memory c"
  shows "decode_info c q w = Some (0, c, d)"
  using assms
  by (auto simp: info_wire_def Let_def decode_info_def decode_file_class_def decode_filesystem_class_def decode_class_def
      in_context_def class_decoders split: info_data.splits if_splits)

lemma cmd_pdu_result:
  assumes "cmd_pdu command encode c cb cb_data = (c', Some p)"
  obtains c0 p0 c1 p1 out where "smb2_allocate_pdu c command cb cb_data = (c0, Some p0)" "encode c0 p0 = (0, c1, p1)"
    "p = p1\<lparr>p_out := out\<rparr>"
  using assms by (auto simp: cmd_pdu_def split: prod.splits option.splits if_splits)

lemma unat_of_nat_small: "n < 2 ^ 32 \<Longrightarrow> unat (of_nat n :: u32) = n"
  by (simp add: unat_of_nat)

lemma encode_query_info_reply_ok:
  assumes "fresh_pdu p" "has_memory c" "info_wire (qiq_info_type req) (qiq_file_info_class req) (qir_output_buffer rep) = Some w"
    "length w \<le> unat (qiq_output_buffer_length req)" "0 < unat (qir_output_buffer_length rep)"
    "unat (qir_output_buffer_length rep) < 2 ^ 30"
  shows "\<exists>p'. smb2_encode_query_info_reply c req p rep = Some (0, c, p') \<and> out_room 1 p' \<and>
    vec_bytes (p_out p') = vec_bytes (p_out p) @ (le16 9 @ le16 72 @ le32 (of_nat (length w))) @ w @
      replicate ((length w + 7) div 8 * 8 - length w) (ucast (c_junk c))"
proof -
  let ?n = "qir_output_buffer_length rep" and ?j = "ucast (c_junk c) :: u8"
  define room where "room = output_room ?n"
  define k where "k = (length w + 7) div 8 * 8"
  note w = info_wire_length [OF assms(3)]
  have s: "sint ?n = int (unat ?n)" using assms(6) by (subst sint_small) simp_all
  have "(int m + 1024) mod 2 ^ 64 = int (m + 1024)" if "m < 2 ^ 30" for m using that by simp
  then have room: "room = unat ?n + 1024" unfolding room_def output_room_def s using assms(6) by (simp only: nat_int)
  have k: "length w \<le> k" "k \<le> 64" using w by (auto simp: k_def)
  have b: "encode_info c req (qir_output_buffer rep) (replicate room ?j) =
      Some (int (length w), w @ replicate (room - length w) ?j)"
    using encode_info_wire [OF assms(3), of "replicate room ?j" c] room by simp
  have pos: "0 < ?n" "?n \<noteq> 0" using assms(5) by (auto simp: word_less_nat_alt simp del: unat_bound)
  have l: "unat (of_nat (length w) :: u32) = length w" using w by (intro unat_of_nat_small) simp
  then have nz: "(of_nat (length w) :: u32) \<noteq> 0" using w by (metis unat_0 less_irrefl)
  have fits: "\<not> of_nat (length w) > qiq_output_buffer_length req" using assms(4) l by (simp add: word_less_nat_alt)
  have pad: "unat (PAD_TO_64BIT (of_nat (length w))) = k" using w by (subst PAD_TO_64BIT_of_nat) (simp_all add: k_def)
  have take: "take k (w @ replicate (room - length w) ?j) = w @ replicate (k - length w) ?j" using k room by (simp add: min_absorb1)
  have h: "set16 2 72 (set16 0 9 (replicate 8 0)) = le16 9 @ le16 72 @ replicate 4 0" by (simp add: field_io)
  define p1 where "p1 = add_out (le16 9 @ le16 72 @ replicate 4 0) Free p"
  have r1: "out_room 1 p1" using assms(1) by (simp add: p1_def fresh_room)
  have kr: "\<not> length w + (room - length w) < k" using k room by simp
  define p2 where "p2 = (add_out (replicate room ?j) Free p1)
    \<lparr>p_out := map_last_iov (\<lambda>_. w @ replicate (k - length w) ?j) (p_out (add_out (replicate room ?j) Free p1))\<rparr>"
  define p' where "p' = store_in (length (v_iov (p_out p))) (set32 4 (of_nat (length w))) p2"
  have v: "v_iov (p_out p2) = v_iov (p_out p) @ \<lparr>iov_buf = le16 9 @ le16 72 @ replicate 4 0, iov_free = Free\<rparr> #
      [\<lparr>iov_buf = w @ replicate (k - length w) ?j, iov_free = Free\<rparr>]"
    by (simp add: p2_def p1_def add_out_def map_last_iov_def Let_def butlast_append)
  have r2: "out_room 1 p2" using assms(1) by (simp add: out_room_def v fresh_pdu_def)
  have f: "set32 4 x (le16 9 @ le16 72 @ replicate 4 0) = le16 9 @ le16 72 @ le32 x" for x by (simp add: field_io)
  have "smb2_encode_query_info_reply c req p rep = Some (0, c, p')"
    using assms(1,2) pos w b nz fits pad take r1 kr
    by (simp add: smb2_encode_query_info_reply_def Let_def encode_steps fresh_room h finish_output_def
        room_def [symmetric] p1_def [symmetric] p2_def [symmetric] p'_def [symmetric]) blast
  moreover have "vec_bytes (p_out p') = vec_bytes (p_out p) @ (le16 9 @ le16 72 @ le32 (of_nat (length w))) @ w @
      replicate (k - length w) ?j" "out_room 1 p'"
    using store_in_bytes [OF v, of "set32 4 (of_nat (length w))"] r2 by (simp_all add: p'_def f vec_bytes_def)
  ultimately show ?thesis by (auto simp: k_def)
qed

subsection \<open>Requests and replies arrive\<close>

lemma query_info_request_bytes:
  "length (qiq_file_id r) = 16 \<Longrightarrow> query_info_request_fields r (replicate 40 0) =
     le16 41 @ [qiq_info_type r, qiq_file_info_class r] @ le32 (qiq_output_buffer_length r) @ le16 104 @ replicate 2 0 @
     le32 (qiq_input_buffer_length r) @ le32 (qiq_additional_information r) @ le32 (qiq_flags r) @ qiq_file_id r"
  by (simp add: query_info_request_fields_def field_io)

lemma query_info_request_sent:
  assumes "has_memory c" "length (qiq_file_id req) = 16" "qiq_input_buffer_length req = 0"
  shows "\<exists>c' p. smb2_cmd_query_info_async c req cb cb_data = (c', Some p) \<and>
    p_info_type p = qiq_info_type req \<and> p_file_info_class p = qiq_file_info_class req \<and>
    get_at 64 40 (vec_bytes (p_out p)) = query_info_request_fields req (replicate 40 0)"
proof -
  let ?a = "query_info_request_fields req (replicate 40 0)" and ?c = "c\<lparr>c_next_ptr := c_next_ptr c + 1\<rparr>"
  have enc: "smb2_encode_query_info_request d p req =
      (0, d, (add_out ?a Free p)\<lparr>p_info_type := qiq_info_type req, p_file_info_class := qiq_file_info_class req\<rparr>)"
    if "c_mem_ok d 40" "out_room 1 p" for d p
    using that assms(3) by (simp add: smb2_encode_query_info_request_def encode_steps)
  have "length ?a = 40" using assms(2) by (simp add: query_info_request_bytes)
  then have "\<exists>c' p. smb2_cmd_query_info_async c req cb cb_data = (c', Some p) \<and> get_at 64 40 (vec_bytes (p_out p)) = ?a \<and>
      get_at (64 + 40) 0 (vec_bytes (p_out p)) = [] \<and> 64 + 40 + 0 \<le> iov_len (p_out p)"
    unfolding smb2_cmd_query_info_async_def
    by (intro cmd_pdu_slices [where trail = "[]"])
       (use assms(1) in \<open>simp_all add: enc fresh_room out_room_def add_out_def vec_bytes_def fresh_pdu_def\<close>)
  then obtain c' p where p: "smb2_cmd_query_info_async c req cb cb_data = (c', Some p)" "get_at 64 40 (vec_bytes (p_out p)) = ?a"
    by blast
  from p(1) obtain c0 p0 c1 p1 out where "smb2_encode_query_info_request c0 p0 req = (0, c1, p1)" "p = p1\<lparr>p_out := out\<rparr>"
    unfolding smb2_cmd_query_info_async_def by (elim cmd_pdu_result) blast
  then have "p_info_type p = qiq_info_type req" "p_file_info_class p = qiq_file_info_class req"
    by (auto simp: smb2_encode_query_info_request_def and_then_def split: prod.splits if_splits)
  with p show ?thesis by blast
qed

lemma query_info_request_received:
  assumes "length (qiq_file_id req) = 16" "qiq_input_buffer_length req = 0" "has_memory d"
  shows "smb2_process_query_info_request_fixed (receiving (query_info_request_fields req (replicate 40 0)) d) q =
    (0, receiving (query_info_request_fields req (replicate 40 0)) d,
     set_payload (P_query_info_request (req\<lparr>qiq_input_buffer_offset := 104, qiq_input := None\<rparr>)) q)"
  unfolding query_info_request_bytes [OF assms(1)] using assms
  by (cases req) (simp add: smb2_process_query_info_request_fixed_def process_fixed_ok in_size_def field_io Let_def)

lemma query_info_reply_sent:
  assumes "has_memory c" "info_wire (qiq_info_type req) (qiq_file_info_class req) (qir_output_buffer rep) = Some w"
    "length w \<le> unat (qiq_output_buffer_length req)" "0 < unat (qir_output_buffer_length rep)"
    "unat (qir_output_buffer_length rep) < 2 ^ 30"
  shows "\<exists>c' p. smb2_cmd_query_info_reply_async c req rep cb cb_data = Some (c', Some p) \<and>
    get_at 64 8 (vec_bytes (p_out p)) = le16 9 @ le16 72 @ le32 (of_nat (length w)) \<and>
    get_at 72 (length w) (vec_bytes (p_out p)) = w \<and> 72 + length w \<le> iov_len (p_out p)"
proof -
  let ?c = "c\<lparr>c_next_ptr := c_next_ptr c + 1\<rparr>" and ?a = "le16 9 @ le16 72 @ le32 (of_nat (length w))"
  let ?t = "replicate ((length w + 7) div 8 * 8 - length w) (ucast (c_junk c) :: u8)"
  have enc: "\<exists>p'. smb2_encode_query_info_reply ?c req p rep = Some (0, ?c, p') \<and> out_room 1 p' \<and>
      vec_bytes (p_out p') = vec_bytes (p_out p) @ ?a @ w @ ?t" if "fresh_pdu p" for p
    using encode_query_info_reply_ok [OF that _ assms(2-5), of ?c] assms(1) by simp
  have "smb2_cmd_query_info_reply_async c req rep cb cb_data =
      Some (cmd_pdu SMB2_QUERY_INFO (\<lambda>c pdu. the (smb2_encode_query_info_reply c req pdu rep)) c cb cb_data)"
    unfolding smb2_cmd_query_info_reply_async_def by (rule cmd_pdu_faulting_eq [OF assms(1)]) (use enc in blast)
  moreover have "\<exists>c' p. cmd_pdu SMB2_QUERY_INFO (\<lambda>c pdu. the (smb2_encode_query_info_reply c req pdu rep)) c cb cb_data = (c', Some p) \<and>
      get_at 64 8 (vec_bytes (p_out p)) = ?a \<and> get_at (64 + 8) (length w) (vec_bytes (p_out p)) = w \<and> 64 + 8 + length w \<le> iov_len (p_out p)"
    by (rule cmd_pdu_slices [where trail = ?t]) (use assms(1) enc in \<open>force+\<close>)
  ultimately show ?thesis by auto
qed

lemma query_info_reply_received:
  assumes "has_memory d" "info_wire (p_info_type q) (p_file_info_class q) (qir_output_buffer rep) = Some w"
    "72 + length w \<le> unat (c_spl d)" "h_next_command (c_hdr d) = 0 \<or> 72 + length w \<le> unat (h_next_command (c_hdr d))"
  defines "a \<equiv> le16 9 @ le16 72 @ le32 (of_nat (length w))"
    and "r \<equiv> rep\<lparr>qir_output_buffer_offset := 72, qir_output_buffer_length := of_nat (length w)\<rparr>"
  shows "smb2_process_query_info_fixed (receiving a d) q =
      (int (length w), receiving a d, set_payload (P_query_info_reply (r\<lparr>qir_output_buffer := Inf_null\<rparr>)) q)"
    and "has_memory d1 \<Longrightarrow>
      smb2_process_query_info_variable (receiving w d1) (set_payload (P_query_info_reply (r\<lparr>qir_output_buffer := Inf_null\<rparr>)) q) =
      Some (0, receiving w d1, set_payload (P_query_info_reply r) q)"
proof -
  note w = info_wire_length [OF assms(2)]
  have l: "unat (of_nat (length w) :: u32) = length w" using w by (intro unat_of_nat_small) simp
  then have nz: "(of_nat (length w) :: u32) \<noteq> 0" using w by (metis unat_0 less_irrefl)
  have s: "sint (of_nat (length w) :: u32) = int (length w)" using w l by (subst sint_small) simp_all
  have opl: "unat (72 + of_nat (length w) :: u32) = 72 + length w" using l w by (simp add: unat_word_ariths)
  have b: "\<not> (72 + of_nat (length w) :: u32) < 72" "\<not> c_spl d < 72 + of_nat (length w)"
    "h_next_command (c_hdr d) = 0 \<or> \<not> h_next_command (c_hdr d) < 72 + of_nat (length w)"
    using assms(3,4) by (auto simp: word_less_nat_alt opl simp del: unat_bound)
  show "smb2_process_query_info_fixed (receiving a d) q =
      (int (length w), receiving a d, set_payload (P_query_info_reply (r\<lparr>qir_output_buffer := Inf_null\<rparr>)) q)"
    using assms(1) nz s b unfolding a_def r_def
    by (cases rep)
       (auto simp: smb2_process_query_info_fixed_def process_fixed_ok in_size_def field_io Let_def query_info_offset_def receiving_def in_buf_def)
  show "smb2_process_query_info_variable (receiving w d1) (set_payload (P_query_info_reply (r\<lparr>qir_output_buffer := Inf_null\<rparr>)) q) =
      Some (0, receiving w d1, set_payload (P_query_info_reply r) q)" if m: "has_memory d1"
  proof -
    let ?q = "set_payload (P_query_info_reply (r\<lparr>qir_output_buffer := Inf_null\<rparr>)) q"
    have "decode_info (receiving w d1) ?q w = Some (0, receiving w d1, qir_output_buffer rep)"
      by (rule decode_info_wire) (use assms(2) m in \<open>simp_all add: set_payload_def\<close>)
    then show ?thesis using w
      by (simp add: smb2_process_query_info_variable_def set_payload_def bytes_behind_def query_info_offset_def r_def Let_def)
  qed
qed

subsection \<open>Properties\<close>


definition sample_query_info :: smb2_query_info_request where
  "sample_query_info = \<lparr>qiq_info_type = 2, qiq_file_info_class = 4, qiq_output_buffer_length = 64, qiq_input_buffer_offset = 0,
     qiq_input_buffer_length = 0, qiq_additional_information = 0, qiq_flags = 0, qiq_file_id = replicate 16 1, qiq_input = None\<rparr>"

definition sample_device :: smb2_query_info_reply where
  "sample_device = \<lparr>qir_output_buffer_offset = 0, qir_output_buffer_length = 8,
     qir_output_buffer = Inf_fs_device \<lparr>fdv_device_type = 7, fdv_characteristics = 32\<rparr>\<rparr>"


subsection \<open>Where the peers disagree\<close>

text \<open>Control information is refused by the client whatever the server sent: its decoder returns the size it has read.\<close>

lemma control_info_refused:
  assumes "has_memory c" "p_info_type q = 2" "p_file_info_class q = 6" "length vec = 44"
  shows "decode_info c q vec = Some (-1, smb2_set_error ''could not decode file fs control info. %s'' c, Inf_null)"
  using assms by (simp add: decode_info_def decode_filesystem_class_def decode_class_def in_context_def
      smb2_decode_file_fs_control_info_def)

text \<open>An encoder that fails is taken for one that has written four gigabytes: the reply is as long as the client
  allows, says that it was truncated, and carries bytes that nobody has set.\<close>

lemma failed_encoder_sends_junk:
  assumes "room = qiq_output_buffer_length req" "room \<noteq> 0xffffffff" "unat (PAD_TO_64BIT room) \<le> length b"
  shows "\<exists>pdu'. finish_output req rep (-1) b c pdu = Some (c, pdu', room) \<and> h_status (p_header pdu') = 0x80000005 \<and>
    v_iov (p_out pdu') = v_iov (map_last_iov (\<lambda>_. take (unat (PAD_TO_64BIT room)) b) (p_out pdu))"
proof -
  have "(0xffffffff :: u32) = -1" by simp
  then have "room < -1" using assms(2) by (metis word_order.not_eq_extremum)
  then show ?thesis using assms(1,3) by (simp add: finish_output_def Let_def smb2_set_pdu_status_def)
qed

end
