(* ===== verification/Smb2_Cmd_Dir.thy ===== *)
theory Smb2_Cmd_Dir
  imports Smb2_Cmd_Info Smb2_Cmd_IO
begin

text \<open>
  Listing directories: \<^verbatim>\<open>lib/smb2-cmd-query-directory.c\<close>. A request names a pattern. The server of the
  library gets an array of entries and measures it in a first loop, then allocates the output buffer and
  fills it in a second one; the client keeps the bytes of the buffer and decodes an entry at a time. The array is a
  list; an index beyond it is an access outside the block, the result \<open>None\<close>, as is a block freed twice.
\<close>

subsection \<open>Requests\<close>

definition query_directory_request_fields :: "smb2_query_directory_request \<Rightarrow> bytes \<Rightarrow> bytes" where
  "query_directory_request_fields req =
     set32 28 (qdq_output_buffer_length req) \<circ> set16 24 (64 + 32) \<circ> put_at 8 (qdq_file_id req) \<circ>
     set32 4 (qdq_file_index req) \<circ> set8 3 (qdq_flags req) \<circ> set8 2 (qdq_file_information_class req) \<circ> set16 0 33"

definition smb2_encode_query_directory_request ::
  "smb2_context \<Rightarrow> smb2_pdu \<Rightarrow> smb2_query_directory_request \<Rightarrow> int \<times> smb2_context \<times> smb2_pdu" where
  "smb2_encode_query_directory_request c pdu req =
     (let name = create_name c (qdq_name req);
          fill = (case name of
                    None \<Rightarrow> id
                  | Some None \<Rightarrow> query_directory_request_fields req
                  | Some (Some u) \<Rightarrow> query_directory_request_fields req \<circ> set16 26 (of_nat (2 * u_len u)))
      in and_then (encode_fixed ''Failed to allocate query buffer'' ''Failed to add iovector for query-directory request'' 32
                     fill c pdu)
           (\<lambda>c pdu.
              case name of
                None \<Rightarrow> (-1, smb2_set_error ''Could not convert name into UTF-16'' c, pdu)
              | Some None \<Rightarrow> (0, c, pdu)
              | Some (Some u) \<Rightarrow>
                encode_buffer ''Failed to allocate qdir name'' ''Failed to add iovector for query-directory name'' (2 * u_len u)
                  (u_val u) c pdu))"

definition smb2_cmd_query_directory_async ::
  "smb2_context \<Rightarrow> smb2_query_directory_request \<Rightarrow> nat \<Rightarrow> nat \<Rightarrow> smb2_context \<times> smb2_pdu option" where
  "smb2_cmd_query_directory_async c req cb cb_data =
     (case cmd_pdu SMB2_QUERY_DIRECTORY (\<lambda>c pdu. smb2_encode_query_directory_request c pdu req) c cb cb_data of
        (c, None) \<Rightarrow> (c, None)
      | (c, Some pdu) \<Rightarrow> (c, Some (adjust_charge c (qdq_output_buffer_length req) pdu)))"

text \<open>\<open>IOVREQ_OFFSET_DIRECTORY\<close>\<close>

definition query_directory_name_offset :: "smb2_query_directory_request \<Rightarrow> u32" where
  "query_directory_name_offset req = ucast (qdq_file_name_offset req) - 96"

text \<open>On the errors after the allocation the request is freed, and \<open>pdu->payload\<close> still points to it.\<close>

definition smb2_process_query_directory_request_fixed :: decoder where
  "smb2_process_query_directory_request_fixed =
     process_fixed ''Unexpected size of Query Dir request. Expected %d, got %d'' ''Failed to allocate query dir request'' 33 40
       (\<lambda>c pdu.
          let b = in_buf c; j = c_junk c;
              req = \<lparr>qdq_file_information_class = get8 b 2 (ucast j), qdq_flags = get8 b 3 (ucast j),
                     qdq_file_index = get32 b 4 (ucast j), qdq_file_id = get_at 8 SMB2_FD_SIZE b,
                     qdq_output_buffer_length = get32 b 28 (ucast j), qdq_file_name_offset = get16 b 24 (ucast j),
                     qdq_file_name_length = get16 b 26 (ucast j), qdq_name = None\<rparr>;
              off = unat (qdq_file_name_offset req); n = unat (qdq_file_name_length req)
          in if n \<noteq> 0 \<and> off + n > unat (ucast (c_spl c) :: u16)
             then (-1, smb2_set_error ''Filename extends beyond end of PDU'' c, set_payload P_freed pdu)
             else if n = 0 then (0, c, set_payload (P_query_directory_request req) pdu)
             else if off < 96
             then (-1, smb2_set_error ''Name buffer overlaps with Query Dir request header'' c, set_payload P_freed pdu)
             else (int off - 96 + int n, c, set_payload (P_query_directory_request req) pdu))"

definition smb2_process_query_directory_request_variable :: faulting_decoder where
  "smb2_process_query_directory_request_variable c pdu =
     (case p_payload pdu of
        Some (P_query_directory_request req) \<Rightarrow>
          if qdq_file_name_length req = 0 then Some (0, c, pdu)
          else
            (case bytes_behind (query_directory_name_offset req) (in_buf c) of
               None \<Rightarrow> None
             | Some vec \<Rightarrow>
               Some (case received_name c vec (unat (qdq_file_name_length req) div 2) of
                       Inl e \<Rightarrow> (-1, smb2_set_error e c, set_payload (P_query_directory_request (req\<lparr>qdq_name := None\<rparr>)) pdu)
                     | Inr s \<Rightarrow> (0, c, set_payload (P_query_directory_request (req\<lparr>qdq_name := Some s\<rparr>)) pdu)))
      | _ \<Rightarrow> None)"

subsection \<open>The entries of a reply\<close>

text \<open>The name of an entry in UTF-16; an entry without one or with an empty one is written without a name.\<close>

definition dir_name :: "smb2_context \<Rightarrow> smb2_fileidbothdirectoryinformation \<Rightarrow> smb2_utf16 option option" where
  "dir_name c fs = create_name c (fbd_name fs)"

definition name_size :: "smb2_utf16 option \<Rightarrow> nat" where
  "name_size name = (case name of None \<Rightarrow> 0 | Some u \<Rightarrow> 2 * u_len u)"

definition dir_entry_size :: "u8 \<Rightarrow> smb2_utf16 option \<Rightarrow> u32" where
  "dir_entry_size cls name =
     (if cls = 0x26 then PAD_TO_32BIT (80 + of_nat (name_size name))
      else if cls = 0x25 then PAD_TO_32BIT (104 + of_nat (name_size name))
      else 0)"

text \<open>What is left of the array is a C \<open>int\<close> that the loop condition compares with an unsigned \<open>sizeof\<close> of 144
  bytes: a negative rest is taken for a large one.\<close>

definition dir_more :: "int \<Rightarrow> bool" where
  "dir_more remain \<longleftrightarrow> remain mod 2 ^ 64 \<ge> 144"

text \<open>The first loop: the length of the output buffer, and whether a name has been converted.\<close>

fun dir_lengths ::
  "smb2_context \<Rightarrow> u8 \<Rightarrow> int \<Rightarrow> u32 \<Rightarrow> bool \<Rightarrow> smb2_fileidbothdirectoryinformation list \<Rightarrow> (string + u32 \<times> bool) option" where
  "dir_lengths c cls remain so_far named [] = None"
| "dir_lengths c cls remain so_far named (fs # rest) =
     (case dir_name c fs of
        None \<Rightarrow> Some (Inl ''Could not convert name into UTF-16'')
      | Some name \<Rightarrow>
        (let so_far = so_far + dir_entry_size cls name; remain = remain - 144; named = (named \<or> name \<noteq> None) in
         if dir_more remain then dir_lengths c cls remain so_far named rest else Some (Inr (so_far, named))))"

text \<open>One entry at an offset of the buffer.\<close>

definition dir_members :: "smb2_fileidbothdirectoryinformation \<Rightarrow> u32 \<Rightarrow> nat \<Rightarrow> nat \<Rightarrow> bytes \<Rightarrow> bytes" where
  "dir_members fs next n off =
     set32 (off + 64) (fbd_ea_size fs) \<circ> set32 (off + 60) (of_nat n) \<circ> set32 (off + 56) (fbd_file_attributes fs) \<circ>
     set64 (off + 48) (fbd_allocation_size fs) \<circ> set64 (off + 40) (fbd_end_of_file fs) \<circ>
     set64 (off + 32) (smb2_timeval_to_win (fbd_change_time fs)) \<circ> set64 (off + 24) (smb2_timeval_to_win (fbd_last_write_time fs)) \<circ>
     set64 (off + 16) (smb2_timeval_to_win (fbd_last_access_time fs)) \<circ>
     set64 (off + 8) (smb2_timeval_to_win (fbd_creation_time fs)) \<circ> set32 (off + 4) (fbd_file_index fs) \<circ> set32 (off + 0) next"

definition memcpy_within :: "nat \<Rightarrow> bytes \<Rightarrow> bytes \<Rightarrow> bytes option" where
  "memcpy_within off bs b = (if off + length bs \<le> length b then Some (put_at off bs b) else None)"

definition name_bytes :: "smb2_utf16 option \<Rightarrow> bytes" where
  "name_bytes name = (case name of None \<Rightarrow> [] | Some u \<Rightarrow> u_val u)"

definition full_entry ::
  "smb2_fileidbothdirectoryinformation \<Rightarrow> u32 \<Rightarrow> smb2_utf16 option \<Rightarrow> nat \<Rightarrow> bytes \<Rightarrow> bytes option" where
  "full_entry fs next name off b =
     memcpy_within (off + 80) (name_bytes name)
       (set64 (off + 72) (fbd_file_id fs) (set32 (off + 68) 0 (dir_members fs next (name_size name) off b)))"

definition both_entry ::
  "smb2_fileidbothdirectoryinformation \<Rightarrow> u32 \<Rightarrow> smb2_utf16 option \<Rightarrow> nat \<Rightarrow> bytes \<Rightarrow> bytes option" where
  "both_entry fs next name off b =
     (case memcpy_within (off + 70) (fbd_short_name fs)
             (set8 (off + 69) 0 (set8 (off + 68) (fbd_short_name_length fs) (dir_members fs next (name_size name) off b))) of
        None \<Rightarrow> None
      | Some b \<Rightarrow>
        memcpy_within (off + 104) (name_bytes name) (set64 (off + 96) (fbd_file_id fs) (set16 (off + 94) 0 b)))"

definition dir_entry ::
  "u8 \<Rightarrow> smb2_fileidbothdirectoryinformation \<Rightarrow> u32 \<Rightarrow> smb2_utf16 option \<Rightarrow> nat \<Rightarrow> bytes \<Rightarrow> bytes option" where
  "dir_entry cls fs next name off b =
     (if cls = 0x26 then full_entry fs next name off b
      else if cls = 0x25 then both_entry fs next name off b
      else Some (set32 (off + 0) next b))"

text \<open>
  The second loop. The variable \<open>name\<close> is not reset: once a name has been converted, in either loop, it points to
  freed memory, and an entry without a name frees that again. The distance to the next entry is counted from the
  start of the buffer, not of the entry.
\<close>

fun dir_fill ::
  "smb2_context \<Rightarrow> u8 \<Rightarrow> int \<Rightarrow> u32 \<Rightarrow> bool \<Rightarrow> smb2_fileidbothdirectoryinformation list \<Rightarrow> bytes \<Rightarrow> (string + bytes) option" where
  "dir_fill c cls remain offset named [] b = None"
| "dir_fill c cls remain offset named (fs # rest) b =
     (case dir_name c fs of
        None \<Rightarrow> Some (Inl ''Could not convert name into UTF-16'')
      | Some name \<Rightarrow>
        (let room = dir_entry_size cls name; remain = remain - 144; next = (if remain \<ge> 104 then offset + room else 0) in
         if 2 ^ 31 \<le> unat offset \<or> name = None \<and> named then None
         else
           (case dir_entry cls fs next name (unat offset) b of
              None \<Rightarrow> None
            | Some b \<Rightarrow>
              if dir_more remain then dir_fill c cls remain (offset + room) (named \<or> name \<noteq> None) rest b else Some (Inr b))))"

definition dir_raw :: "directory_data \<Rightarrow> bytes option" where
  "dir_raw d = (case d of Dir_raw b \<Rightarrow> Some b | _ \<Rightarrow> None)"

definition dir_list :: "directory_data \<Rightarrow> smb2_fileidbothdirectoryinformation list" where
  "dir_list d = (case d of Dir_entries es \<Rightarrow> es | _ \<Rightarrow> [])"

text \<open>A C \<open>int\<close> as the argument of \<open>malloc\<close>.\<close>

definition int_size :: "u32 \<Rightarrow> nat" where
  "int_size n = nat (sint n mod 2 ^ 64)"

definition query_directory_reply_fields :: "u32 \<Rightarrow> bytes \<Rightarrow> bytes" where
  "query_directory_reply_fields n = set32 4 n \<circ> set16 2 72 \<circ> set16 0 9"

definition directory_output ::
  "u8 \<Rightarrow> smb2_query_directory_reply \<Rightarrow> u32 \<Rightarrow> bool \<Rightarrow> nat \<Rightarrow> smb2_context \<Rightarrow> (string + bytes) option" where
  "directory_output cls rep n named room c =
     (let d = qdr_output_buffer rep in
      if c_passthrough c then if d = Dir_null \<or> unat n > room then None else Some (Inr (copy_bytes c (unat n) (dir_raw d)))
      else dir_fill c cls (sint (qdr_output_buffer_length rep)) 0 named (dir_list d) (replicate room (ucast (c_junk c))))"

text \<open>Only the second vector is checked for: without the first the fields are stored through \<open>NULL\<close>.\<close>

definition smb2_encode_query_directory_reply ::
  "smb2_context \<Rightarrow> u8 \<Rightarrow> smb2_pdu \<Rightarrow> smb2_query_directory_reply \<Rightarrow> (int \<times> smb2_context \<times> smb2_pdu) option" where
  "smb2_encode_query_directory_reply c cls pdu rep =
     (if \<not> c_mem_ok c 8 then Some (-1, smb2_set_error ''Failed to allocate query reply buffer'' c, pdu)
      else
        (let d = qdr_output_buffer rep; n0 = qdr_output_buffer_length rep;
             sized = (if d = Dir_null \<or> c_passthrough c then Some (Inr (n0, False))
                      else dir_lengths c cls (sint n0) 0 False (dir_list d))
         in case smb2_add_iovector c (p_out pdu) (replicate 8 0) Free of
              (c, out) \<Rightarrow>
                (case sized of
                   None \<Rightarrow> None
                 | Some (Inl e) \<Rightarrow> Some (-1, smb2_set_error e c, pdu\<lparr>p_out := case_option (p_out pdu) id out\<rparr>)
                 | Some (Inr (n, named)) \<Rightarrow>
                   (case out of
                      None \<Rightarrow> None
                    | Some out \<Rightarrow>
                      (let pdu = pdu\<lparr>p_out := map_last_iov (query_directory_reply_fields n) out\<rparr>; room = int_size (PAD_TO_32BIT n) in
                       if n = 0 then Some (0, c, pdu)
                       else
                         (case encode_buffer ''Failed to allocate output buf''
                                 ''Failed to add iovector for query-directory output buffer'' room
                                 (replicate room (ucast (c_junk c))) c pdu of
                            (rc, c, pdu) \<Rightarrow>
                              if rc \<noteq> 0 then Some (rc, c, pdu)
                              else
                                (case directory_output cls rep n named room c of
                                   None \<Rightarrow> None
                                 | Some (Inl e) \<Rightarrow> Some (-1, smb2_set_error e c, pdu)
                                 | Some (Inr b) \<Rightarrow> Some (0, c, pdu\<lparr>p_out := map_last_iov (\<lambda>_. b) (p_out pdu)\<rparr>))))))))"

definition smb2_cmd_query_directory_reply_async ::
  "smb2_context \<Rightarrow> smb2_query_directory_request \<Rightarrow> smb2_query_directory_reply \<Rightarrow> nat \<Rightarrow> nat \<Rightarrow>
   (smb2_context \<times> smb2_pdu option) option" where
  "smb2_cmd_query_directory_reply_async c req rep =
     cmd_pdu_faulting SMB2_QUERY_DIRECTORY
       (\<lambda>c pdu. smb2_encode_query_directory_reply c (qdq_file_information_class req) pdu rep) c"

subsection \<open>Receiving a reply\<close>

text \<open>\<open>IOV_OFFSET_DIRECTORY\<close>\<close>

definition query_directory_offset :: "smb2_query_directory_reply \<Rightarrow> u32" where
  "query_directory_offset rep = ucast (qdr_output_buffer_offset rep) - 72"

definition smb2_process_query_directory_fixed :: decoder where
  "smb2_process_query_directory_fixed =
     process_fixed ''Unexpected size of Query Dir reply. Expected %d, got %d'' ''Failed to allocate query dir reply'' 9 16
       (\<lambda>c pdu.
          let b = in_buf c; j = c_junk c;
              rep = \<lparr>qdr_output_buffer_offset = get16 b 2 (ucast j), qdr_output_buffer_length = get32 b 4 (ucast j),
                     qdr_output_buffer = Dir_null\<rparr>;
              n = qdr_output_buffer_length rep
          in if n \<noteq> 0 \<and> ucast (qdr_output_buffer_offset rep) + n > c_spl c
             then (-1, smb2_set_error ''Output buffer extends beyond end of PDU'' c, set_payload P_freed pdu)
             else if n = 0 then (0, c, set_payload (P_query_directory_reply rep) pdu)
             else if qdr_output_buffer_offset rep < 72
             then (-1, smb2_set_error ''Output buffer overlaps with Query Dir reply header'' c, set_payload P_freed pdu)
             else (sint (query_directory_offset rep + n), c, set_payload (P_query_directory_reply rep) pdu))"

definition smb2_process_query_directory_variable :: faulting_decoder where
  "smb2_process_query_directory_variable c pdu =
     (case p_payload pdu of
        Some (P_query_directory_reply rep) \<Rightarrow>
          (case bytes_behind (query_directory_offset rep) (in_buf c) of
             None \<Rightarrow> None
           | Some vec \<Rightarrow> Some (0, c, set_payload (P_query_directory_reply (rep\<lparr>qdr_output_buffer := Dir_raw vec\<rparr>)) pdu))
      | _ \<Rightarrow> None)"

text \<open>One entry of the reply, at the start of the vector.\<close>

definition smb2_decode_fileidfulldirectoryinformation ::
  "smb2_context \<Rightarrow> smb2_fileidfulldirectoryinformation \<Rightarrow> bytes \<Rightarrow> int \<times> smb2_context \<times> smb2_fileidfulldirectoryinformation" where
  "smb2_decode_fileidfulldirectoryinformation c fs b =
     (let name_len = get32 b 60 (ucast (c_junk c)) in
      if name_len > 80 + name_len \<or> unat (80 + name_len) > length b
      then (-1, smb2_set_error (''Malformed name in query.'' @ [CHR 0x0A]) c, fs)
      else (0, c, \<lparr>ffd_next_entry_offset = get32 b 0 0, ffd_file_index = get32 b 4 0, ffd_creation_time = get_time b 8 0,
                   ffd_last_access_time = get_time b 16 0, ffd_last_write_time = get_time b 24 0,
                   ffd_change_time = get_time b 32 0, ffd_end_of_file = get64 b 40 0, ffd_allocation_size = get64 b 48 0,
                   ffd_file_attributes = get32 b 56 0, ffd_ea_size = get32 b 64 0, ffd_file_id = get64 b 72 0,
                   ffd_name = map_option c_string (raw_name c b 80 (unat name_len div 2))\<rparr>))"

subsection \<open>Entries on the wire\<close>

definition full_wire :: "smb2_fileidbothdirectoryinformation \<Rightarrow> u32 \<Rightarrow> smb2_utf16 option \<Rightarrow> bytes" where
  "full_wire fs next name =
     le32 next @ le32 (fbd_file_index fs) @ le64 (smb2_timeval_to_win (fbd_creation_time fs)) @
     le64 (smb2_timeval_to_win (fbd_last_access_time fs)) @ le64 (smb2_timeval_to_win (fbd_last_write_time fs)) @
     le64 (smb2_timeval_to_win (fbd_change_time fs)) @ le64 (fbd_end_of_file fs) @ le64 (fbd_allocation_size fs) @
     le32 (fbd_file_attributes fs) @ le32 (of_nat (name_size name)) @ le32 (fbd_ea_size fs) @ le32 0 @
     le64 (fbd_file_id fs) @ name_bytes name"

lemma full_entry_bytes:
  assumes "length (name_bytes name) = name_size name" "80 + name_size name \<le> length b"
  shows "full_entry fs next name (length pre) (pre @ b) =
    Some (pre @ full_wire fs next name @ drop (80 + name_size name) b)"
proof -
  have "length pre + 80 + name_size name \<le> length (pre @ b)" using assms(2) by simp
  then show ?thesis using assms
    by (simp add: full_entry_def dir_members_def memcpy_within_def full_wire_def field_io drop_drop add.commute)
qed

text \<open>The client's view of an entry.\<close>

definition client_entry :: "smb2_fileidbothdirectoryinformation \<Rightarrow> u32 \<Rightarrow> bytes \<Rightarrow> smb2_fileidfulldirectoryinformation" where
  "client_entry fs next s =
     \<lparr>ffd_next_entry_offset = next, ffd_file_index = fbd_file_index fs, ffd_creation_time = fbd_creation_time fs,
      ffd_last_access_time = fbd_last_access_time fs, ffd_last_write_time = fbd_last_write_time fs,
      ffd_change_time = fbd_change_time fs, ffd_end_of_file = fbd_end_of_file fs,
      ffd_allocation_size = fbd_allocation_size fs, ffd_file_attributes = fbd_file_attributes fs,
      ffd_ea_size = fbd_ea_size fs, ffd_file_id = fbd_file_id fs, ffd_name = Some s\<rparr>"

text \<open>An entry with a name that the server can send.\<close>

definition listed :: "smb2_fileidbothdirectoryinformation \<Rightarrow> bytes \<Rightarrow> smb2_utf16 \<Rightarrow> bool" where
  "listed fs s u \<longleftrightarrow> fbd_name fs = Some s \<and> s \<noteq> [] \<and> 0 \<notin> set s \<and> smb2_utf8_to_utf16 (\<lambda>_. True) s = Some u \<and>
     2 * u_len u < 2 ^ 16 \<and> valid_time (fbd_creation_time fs) \<and> valid_time (fbd_last_access_time fs) \<and>
     valid_time (fbd_last_write_time fs) \<and> valid_time (fbd_change_time fs)"

lemma listed_name:
  assumes "listed fs s u"
  shows "has_memory c \<Longrightarrow> dir_name c fs = Some (Some u)" "length (name_bytes (Some u)) = name_size (Some u)"
    "name_size (Some u) < 2 ^ 16"
proof -
  show "length (name_bytes (Some u)) = name_size (Some u)" "name_size (Some u) < 2 ^ 16"
    using assms utf16_name(1) [of "\<lambda>_. True" s u] by (simp_all add: listed_def name_bytes_def name_size_def)
  assume "has_memory c"
  then have "c_mem_ok c = (\<lambda>_. True)" by blast
  then show "dir_name c fs = Some (Some u)" using assms by (simp add: dir_name_def create_name_def listed_def)
qed

lemma decode_full_wire:
  assumes "listed fs s u" "has_memory c"
  shows "smb2_decode_fileidfulldirectoryinformation c z (full_wire fs next (Some u) @ post) = (0, c, client_entry fs next s)"
proof -
  note l = listed_name(2,3) [OF assms(1)]
  define b where "b = full_wire fs next (Some u) @ post"
  have n: "unat (of_nat (name_size (Some u)) :: u32) = name_size (Some u)" using l(2) by (simp add: unat_of_nat_small)
  then have n80: "unat (80 + of_nat (name_size (Some u)) :: u32) = 80 + name_size (Some u)" using l(2) by (simp add: unat_word_ariths)
  then have nw: "\<not> of_nat (name_size (Some u)) > (80 + of_nat (name_size (Some u)) :: u32)" using n by (simp add: word_less_nat_alt)
  have len: "80 + name_size (Some u) \<le> length b" using l(1) by (simp add: b_def full_wire_def)
  have h: "name_size (Some u) div 2 = u_len u" by (simp add: name_size_def)
  have "drop 80 b = u_val u @ post" by (simp add: b_def full_wire_def name_bytes_def)
  then have "raw_name c b 80 (u_len u) = Some (s @ [0])"
    using name_received(1) [of "\<lambda>_. True" s u c 80 b post] assms by (simp add: listed_def)
  moreover have "c_string (s @ [0]) = s"
    using assms(1) unfolding c_string_def listed_def by (subst takeWhile_append2) auto
  moreover have "get32 b 60 y = of_nat (name_size (Some u))" for y by (simp add: b_def full_wire_def field_io)
  moreover have "get32 b 0 0 = next" "get32 b 4 0 = fbd_file_index fs" "get64 b 40 0 = fbd_end_of_file fs"
    "get64 b 48 0 = fbd_allocation_size fs" "get32 b 56 0 = fbd_file_attributes fs" "get32 b 64 0 = fbd_ea_size fs"
    "get64 b 72 0 = fbd_file_id fs" by (simp_all add: b_def full_wire_def field_io)
  moreover have "get_time b 8 0 = fbd_creation_time fs" "get_time b 16 0 = fbd_last_access_time fs"
    "get_time b 24 0 = fbd_last_write_time fs" "get_time b 32 0 = fbd_change_time fs"
    using assms(1) by (simp_all add: b_def full_wire_def get_time_def field_io listed_def win_to_timeval_inverse)
  ultimately show ?thesis using n n80 nw len h
    by (simp add: smb2_decode_fileidfulldirectoryinformation_def client_entry_def b_def [symmetric])
qed

text \<open>The output buffer: entry by entry, each padded to four bytes.\<close>

definition full_room :: "smb2_utf16 \<Rightarrow> nat" where
  "full_room u = unat (dir_entry_size 0x26 (Some u))"

fun dir_layout :: "u8 \<Rightarrow> nat \<Rightarrow> (smb2_fileidbothdirectoryinformation \<times> smb2_utf16) list \<Rightarrow> bytes" where
  "dir_layout j off [] = []"
| "dir_layout j off ((fs, u) # rest) =
     full_wire fs (if rest = [] then 0 else of_nat (off + full_room u)) (Some u) @
     replicate (full_room u - (80 + name_size (Some u))) j @ dir_layout j (off + full_room u) rest"

definition all_room :: "(smb2_fileidbothdirectoryinformation \<times> smb2_utf16) list \<Rightarrow> nat" where
  "all_room es = sum_list (map (full_room \<circ> snd) es)"

definition names_ok :: "smb2_context \<Rightarrow> (smb2_fileidbothdirectoryinformation \<times> smb2_utf16) list \<Rightarrow> bool" where
  "names_ok c es \<longleftrightarrow> (\<forall>(fs, u) \<in> set es. dir_name c fs = Some (Some u) \<and> length (u_val u) = 2 * u_len u \<and> 2 * u_len u < 2 ^ 16)"

lemma full_room:
  assumes "2 * u_len u < 2 ^ 16"
  shows "80 + name_size (Some u) \<le> full_room u" "full_room u < 2 ^ 17" "full_room u mod 4 = 0"
    "dir_entry_size 0x26 (Some u) = of_nat (full_room u)"
proof -
  have "unat (of_nat (2 * u_len u) :: u32) = 2 * u_len u" using assms by (intro unat_of_nat_small) simp
  then have "unat (80 + of_nat (2 * u_len u) :: u32) = 80 + 2 * u_len u" using assms by (simp add: unat_word_ariths)
  then have r: "full_room u = (80 + 2 * u_len u + 3) div 4 * 4"
    using assms by (simp add: full_room_def dir_entry_size_def name_size_def unat_PAD_TO_32BIT)
  then show "80 + name_size (Some u) \<le> full_room u" "full_room u < 2 ^ 17" "full_room u mod 4 = 0"
    using assms by (simp_all add: name_size_def)
  show "dir_entry_size 0x26 (Some u) = of_nat (full_room u)" by (simp add: full_room_def)
qed

lemma dir_more_multiple: "n < 2 ^ 31 \<Longrightarrow> dir_more (144 * int n) \<longleftrightarrow> n \<noteq> 0"
  by (auto simp: dir_more_def)

lemma names_okD:
  assumes "names_ok c ((fs, u) # es)"
  shows "dir_name c fs = Some (Some u)" "length (name_bytes (Some u)) = name_size (Some u)" "2 * u_len u < 2 ^ 16" "names_ok c es"
  using assms by (auto simp: names_ok_def name_bytes_def name_size_def)

lemma dir_lengths_eq:
  assumes "names_ok c es" "es \<noteq> []" "length es < 2 ^ 31"
  shows "dir_lengths c 0x26 (144 * int (length es)) so named (map fst es) = Some (Inr (so + of_nat (all_room es), True))"
  using assms
proof (induction es arbitrary: so named)
  case (Cons e es)
  obtain fs u where e: "e = (fs, u)" by (cases e)
  note n = names_okD [OF Cons.prems(1) [unfolded e]]
  have more: "dir_more (144 * int (length es)) \<longleftrightarrow> es \<noteq> []" using Cons.prems(3) by (subst dir_more_multiple) simp_all
  have r: "144 * int (length (e # es)) - 144 = 144 * int (length es)" by simp
  show ?case
  proof (cases "es = []")
    case True
    then show ?thesis using n full_room(4) [OF n(3)] by (simp add: e all_room_def dir_more_def Let_def)
  next
    case False
    have "dir_lengths c 0x26 (144 * int (length es)) (so + of_nat (full_room u)) True (map fst es) =
        Some (Inr (so + of_nat (full_room u) + of_nat (all_room es), True))"
      using Cons.IH [OF n(4) False] Cons.prems(3) by simp
    then show ?thesis using n full_room(4) [OF n(3)] more False r by (simp add: e all_room_def Let_def add.assoc)
  qed
qed simp

lemma length_dir_layout: "names_ok c es \<Longrightarrow> length (dir_layout j off es) = all_room es"
proof (induction es arbitrary: off)
  case (Cons e es)
  obtain fs u where e: "e = (fs, u)" by (cases e)
  note n = names_okD [OF Cons.prems(1) [unfolded e]]
  show ?case using Cons.IH [OF n(4)] n(2) full_room(1) [OF n(3)] by (simp add: e all_room_def full_wire_def)
qed (simp add: all_room_def)

lemma dir_fill_eq:
  assumes "names_ok c es" "es \<noteq> []" "length es < 2 ^ 31" "length pre + all_room es < 2 ^ 31"
  shows "dir_fill c 0x26 (144 * int (length es)) (of_nat (length pre)) named (map fst es) (pre @ replicate (all_room es) j) =
    Some (Inr (pre @ dir_layout j (length pre) es))"
  using assms
proof (induction es arbitrary: pre named)
  case (Cons e es)
  obtain fs u where e: "e = (fs, u)" by (cases e)
  note n = names_okD [OF Cons.prems(1) [unfolded e]]
  note fr = full_room [OF n(3)]
  have all: "all_room (e # es) = full_room u + all_room es" by (simp add: all_room_def e)
  have off: "unat (of_nat (length pre) :: u32) = length pre" using Cons.prems(4) by (intro unat_of_nat_small) simp
  have more: "dir_more (144 * int (length es)) \<longleftrightarrow> es \<noteq> []" using Cons.prems(3) by (subst dir_more_multiple) simp_all
  have r: "144 * int (length (e # es)) - 144 = 144 * int (length es)" by simp
  let ?next = "if es = [] then 0 else of_nat (length pre + full_room u) :: u32"
  let ?w = "full_wire fs ?next (Some u)" and ?pad = "replicate (full_room u - (80 + name_size (Some u))) j"
  have "full_entry fs ?next (Some u) (length pre) (pre @ replicate (all_room (e # es)) j) =
      Some (pre @ ?w @ drop (80 + name_size (Some u)) (replicate (all_room (e # es)) j))"
    by (rule full_entry_bytes) (use n fr all in simp_all)
  also have "drop (80 + name_size (Some u)) (replicate (all_room (e # es)) j) = ?pad @ replicate (all_room es) j"
    using fr(1) by (simp add: all flip: replicate_add)
  finally have step: "dir_entry 0x26 fs ?next (Some u) (length pre) (pre @ replicate (all_room (e # es)) j) =
      Some ((pre @ ?w @ ?pad) @ replicate (all_room es) j)" by (simp add: dir_entry_def)
  have lp: "length (pre @ ?w @ ?pad) = length pre + full_room u" using n(2) fr(1) by (simp add: full_wire_def)
  show ?case
  proof (cases "es = []")
    case True
    then show ?thesis using step off n(1) Cons.prems(4)
      by (simp add: e dir_more_def Let_def all_room_def)
  next
    case False
    have "dir_fill c 0x26 (144 * int (length es)) (of_nat (length (pre @ ?w @ ?pad))) True (map fst es)
        ((pre @ ?w @ ?pad) @ replicate (all_room es) j) =
        Some (Inr ((pre @ ?w @ ?pad) @ dir_layout j (length (pre @ ?w @ ?pad)) es))"
      by (rule Cons.IH) (use Cons.prems n(4) False lp all in simp_all)
    then have rec: "dir_fill c 0x26 (144 * int (length es)) (of_nat (length pre) + of_nat (full_room u)) True (map fst es)
        ((pre @ ?w @ ?pad) @ replicate (all_room es) j) =
        Some (Inr ((pre @ ?w @ ?pad) @ dir_layout j (length pre + full_room u) es))"
      unfolding lp by simp
    have "1 \<le> int (length es)" using False by (cases es) simp_all
    then have nx: "104 \<le> 144 * int (length es)" by simp
    show ?thesis using step off n(1) Cons.prems(4) False more fr(4) rec r nx
      by (simp add: e Let_def)
  qed
qed simp

lemma dir_layout_entry:
  assumes "names_ok c (xs @ (fs, u) # ys)"
  shows "\<exists>post. drop (all_room xs) (dir_layout j off (xs @ (fs, u) # ys)) =
    full_wire fs (if ys = [] then 0 else of_nat (off + all_room xs + full_room u)) (Some u) @ post"
  using assms
proof (induction xs arbitrary: off)
  case Nil
  then show ?case by (auto simp: all_room_def)
next
  case (Cons e xs)
  obtain gs v where e: "e = (gs, v)" by (cases e)
  note n = names_okD [OF Cons.prems [unfolded e append_Cons]]
  obtain post where post: "drop (all_room xs) (dir_layout j (off + full_room v) (xs @ (fs, u) # ys)) =
      full_wire fs (if ys = [] then 0 else of_nat ((off + full_room v) + all_room xs + full_room u)) (Some u) @ post"
    using Cons.IH [OF n(4), of "off + full_room v"] by blast
  have l: "length (full_wire gs x (Some v) @ replicate (full_room v - (80 + name_size (Some v))) j) = full_room v" for x
    using n(2) full_room(1) [OF n(3)] by (simp add: full_wire_def)
  have d: "drop (full_room v + k) (full_wire gs x (Some v) @ replicate (full_room v - (80 + name_size (Some v))) j @ r) = drop k r" for k x r
    using l [of x] drop_append [of "full_room v + k" "full_wire gs x (Some v) @ replicate (full_room v - (80 + name_size (Some v))) j" r]
    by simp
  have "drop (all_room (e # xs)) (dir_layout j off ((e # xs) @ (fs, u) # ys)) =
      drop (all_room xs) (dir_layout j (off + full_room v) (xs @ (fs, u) # ys))"
    by (simp add: e all_room_def d del: drop_append)
  moreover have "all_room (e # xs) = full_room v + all_room xs" by (simp add: e all_room_def)
  ultimately show ?case using post by (auto simp: add.assoc)
qed

lemma all_room_multiple: "names_ok c es \<Longrightarrow> all_room es mod 4 = 0"
proof (induction es)
  case (Cons e es)
  obtain fs u where e: "e = (fs, u)" by (cases e)
  note n = names_okD [OF Cons.prems [unfolded e]]
  have "all_room (e # es) = full_room u + all_room es" by (simp add: all_room_def e)
  then show ?case using Cons.IH [OF n(4)] full_room(3) [OF n(3)] by presburger
qed (simp add: all_room_def)

lemma encode_query_directory_reply_ok:
  assumes "fresh_pdu p" "has_memory c" "\<not> c_passthrough c" "names_ok c es" "es \<noteq> []"
    "qdr_output_buffer rep = Dir_entries (map fst es)" "unat (qdr_output_buffer_length rep) = 144 * length es"
    "144 * length es < 2 ^ 31" "all_room es < 2 ^ 30"
  shows "\<exists>p'. smb2_encode_query_directory_reply c 0x26 p rep = Some (0, c, p') \<and> out_room 1 p' \<and>
    vec_bytes (p_out p') = vec_bytes (p_out p) @ (le16 9 @ le16 72 @ le32 (of_nat (all_room es))) @
      dir_layout (ucast (c_junk c)) 0 es"
proof -
  let ?n = "of_nat (all_room es) :: u32" and ?j = "ucast (c_junk c) :: u8"
  obtain fs u es' where e: "es = (fs, u) # es'" using assms(5) by (cases es) auto
  note n1 = names_okD [OF assms(4) [unfolded e]]
  have pos: "0 < all_room es" using full_room(1) [OF n1(3)] by (simp add: e all_room_def)
  have n: "unat ?n = all_room es" using assms(9) by (intro unat_of_nat_small) simp
  have nz: "?n \<noteq> 0" using n pos by (metis unat_0 less_irrefl)
  have s0: "sint (qdr_output_buffer_length rep) = 144 * int (length es)" using assms(7,8) by (subst sint_small) simp_all
  have len: "dir_lengths c 0x26 (144 * int (length es)) 0 False (map fst es) = Some (Inr (?n, True))"
    using dir_lengths_eq [OF assms(4,5), of 0 False] assms(8) by simp
  have fill: "dir_fill c 0x26 (144 * int (length es)) 0 True (map fst es) (replicate (all_room es) ?j) =
      Some (Inr (dir_layout ?j 0 es))"
    using dir_fill_eq [OF assms(4,5), of "[]" True ?j] assms(8,9) by simp
  have "unat (PAD_TO_32BIT ?n) = (all_room es + 3) div 4 * 4" using assms(9) n by (subst unat_PAD_TO_32BIT) simp_all
  moreover have "(all_room es + 3) div 4 * 4 = all_room es" using all_room_multiple [OF assms(4)] by presburger
  ultimately have pad: "PAD_TO_32BIT ?n = ?n" using n by (simp add: word_unat_eq_iff)
  have "sint ?n = int (all_room es)" using n assms(9) by (subst sint_small) simp_all
  moreover have "int (all_room es) mod 2 ^ 64 = int (all_room es)" using assms(9) by (intro mod_pos_pos_trivial) simp_all
  ultimately have room: "int_size ?n = all_room es" by (simp only: int_size_def nat_int)
  have f: "query_directory_reply_fields ?n (replicate 8 0) = le16 9 @ le16 72 @ le32 ?n"
    by (simp add: query_directory_reply_fields_def field_io)
  have add: "smb2_add_iovector c (p_out p) (replicate 8 0) Free =
      (c, Some (p_out (add_out (replicate 8 0) Free p)))"
    using assms(1) by (simp add: smb2_add_iovector_def add_out_def fresh_pdu_def out_room_def)
  define p1 where "p1 = p\<lparr>p_out := map_last_iov (query_directory_reply_fields ?n) (p_out (add_out (replicate 8 0) Free p))\<rparr>"
  have v1: "v_iov (p_out p1) = v_iov (p_out p) @ [\<lparr>iov_buf = le16 9 @ le16 72 @ le32 ?n, iov_free = Free\<rparr>]"
    by (simp add: p1_def add_out_def map_last_iov_def Let_def f)
  have r1: "out_room 1 p1" "out_room 2 p1" using assms(1) by (simp_all add: out_room_def v1 fresh_pdu_def)
  define p2 where "p2 = (add_out (replicate (all_room es) ?j) Free p1)
    \<lparr>p_out := map_last_iov (\<lambda>_. dir_layout ?j 0 es) (p_out (add_out (replicate (all_room es) ?j) Free p1))\<rparr>"
  have v2: "v_iov (p_out p2) = v_iov (p_out p) @ [\<lparr>iov_buf = le16 9 @ le16 72 @ le32 ?n, iov_free = Free\<rparr>,
      \<lparr>iov_buf = dir_layout ?j 0 es, iov_free = Free\<rparr>]"
    by (simp add: p2_def add_out_def map_last_iov_def Let_def v1 butlast_append)
  have enc: "encode_buffer e1 e2 (all_room es) b c p1 = (0, c, add_out b Free p1)" for e1 e2 b
    using assms(2) r1 by (intro encode_buffer_ok) simp_all
  have "directory_output 0x26 rep ?n True (all_room es) c = Some (Inr (dir_layout ?j 0 es))"
    using assms(3,6) s0 fill by (simp add: directory_output_def dir_list_def)
  then have "smb2_encode_query_directory_reply c 0x26 p rep = Some (0, c, p2)"
    unfolding smb2_encode_query_directory_reply_def Let_def
    using assms(2,3,6) s0 len add nz pad room enc
    by (simp add: dir_list_def p1_def [symmetric] p2_def)
  moreover have "out_room 1 p2" using r1 by (simp add: out_room_def v1 v2)
  moreover have "vec_bytes (p_out p2) = vec_bytes (p_out p) @ (le16 9 @ le16 72 @ le32 ?n) @ dir_layout ?j 0 es"
    by (simp add: vec_bytes_def v2)
  ultimately show ?thesis by blast
qed

lemma query_directory_reply_sent:
  assumes "has_memory c" "\<not> c_passthrough c" "names_ok c es" "es \<noteq> []"
    "qdr_output_buffer rep = Dir_entries (map fst es)" "unat (qdr_output_buffer_length rep) = 144 * length es"
    "144 * length es < 2 ^ 31" "all_room es < 2 ^ 30" "qdq_file_information_class req = 0x26"
  shows "\<exists>c' p. smb2_cmd_query_directory_reply_async c req rep cb cb_data = Some (c', Some p) \<and>
    get_at 64 8 (vec_bytes (p_out p)) = le16 9 @ le16 72 @ le32 (of_nat (all_room es)) \<and>
    get_at 72 (all_room es) (vec_bytes (p_out p)) = dir_layout (ucast (c_junk c)) 0 es"
proof -
  let ?c = "c\<lparr>c_next_ptr := c_next_ptr c + 1\<rparr>" and ?a = "le16 9 @ le16 72 @ le32 (of_nat (all_room es))"
  let ?w = "dir_layout (ucast (c_junk c)) 0 es"
  have same: "c_mem_ok ?c = c_mem_ok c" by simp
  have nc: "names_ok ?c es" using assms(3) unfolding names_ok_def dir_name_def create_name_def same .
  have enc: "\<exists>p'. smb2_encode_query_directory_reply ?c (qdq_file_information_class req) p rep = Some (0, ?c, p') \<and> out_room 1 p' \<and>
      vec_bytes (p_out p') = vec_bytes (p_out p) @ ?a @ ?w @ []" if "fresh_pdu p" for p
    using encode_query_directory_reply_ok [OF that _ _ nc assms(4-8)] assms(1,2,9) by simp
  let ?enc = "\<lambda>c pdu. the (smb2_encode_query_directory_reply c (qdq_file_information_class req) pdu rep)"
  have "smb2_cmd_query_directory_reply_async c req rep cb cb_data = Some (cmd_pdu SMB2_QUERY_DIRECTORY ?enc c cb cb_data)"
    unfolding smb2_cmd_query_directory_reply_async_def by (rule cmd_pdu_faulting_eq [OF assms(1)]) (use enc in blast)
  moreover have "\<exists>c' p. cmd_pdu SMB2_QUERY_DIRECTORY ?enc c cb cb_data = (c', Some p) \<and> get_at 64 8 (vec_bytes (p_out p)) = ?a \<and>
      get_at (64 + 8) (all_room es) (vec_bytes (p_out p)) = ?w \<and> 64 + 8 + all_room es \<le> iov_len (p_out p)"
    by (rule cmd_pdu_slices [where trail = "[]"]) (use assms(1) enc length_dir_layout [OF assms(3)] in \<open>force+\<close>)
  ultimately show ?thesis by auto
qed

lemma query_directory_reply_received:
  assumes "has_memory d" "length w < 2 ^ 30" "0 < length w" "72 + length w \<le> unat (c_spl d)"
  defines "a \<equiv> le16 9 @ le16 72 @ le32 (of_nat (length w))"
    and "r \<equiv> \<lparr>qdr_output_buffer_offset = 72, qdr_output_buffer_length = of_nat (length w), qdr_output_buffer = Dir_raw w\<rparr>"
  shows "smb2_process_query_directory_fixed (receiving a d) q =
      (int (length w), receiving a d, set_payload (P_query_directory_reply (r\<lparr>qdr_output_buffer := Dir_null\<rparr>)) q)"
    and "smb2_process_query_directory_variable (receiving w d1)
        (set_payload (P_query_directory_reply (r\<lparr>qdr_output_buffer := Dir_null\<rparr>)) q) =
      Some (0, receiving w d1, set_payload (P_query_directory_reply r) q)"
proof -
  have l: "unat (of_nat (length w) :: u32) = length w" using assms(2) by (intro unat_of_nat_small) simp
  then have nz: "(of_nat (length w) :: u32) \<noteq> 0" using assms(3) by (metis unat_0 less_irrefl)
  have s: "sint (of_nat (length w) :: u32) = int (length w)" using assms(2) l by (subst sint_small) simp_all
  have "unat (72 + of_nat (length w) :: u32) = 72 + length w" using l assms(2) by (simp add: unat_word_ariths)
  then have b: "\<not> c_spl d < 72 + of_nat (length w)" using assms(4) by (auto simp: word_less_nat_alt simp del: unat_bound)
  show "smb2_process_query_directory_fixed (receiving a d) q =
      (int (length w), receiving a d, set_payload (P_query_directory_reply (r\<lparr>qdr_output_buffer := Dir_null\<rparr>)) q)"
    using assms(1) nz s b unfolding a_def r_def
    by (simp add: smb2_process_query_directory_fixed_def process_fixed_ok in_size_def field_io Let_def query_directory_offset_def)
  show "smb2_process_query_directory_variable (receiving w d1)
        (set_payload (P_query_directory_reply (r\<lparr>qdr_output_buffer := Dir_null\<rparr>)) q) =
      Some (0, receiving w d1, set_payload (P_query_directory_reply r) q)"
    by (simp add: smb2_process_query_directory_variable_def set_payload_def bytes_behind_def query_directory_offset_def r_def)
qed

lemma query_directory_request_bytes:
  "length (qdq_file_id r) = 16 \<Longrightarrow> query_directory_request_fields r (set16 26 n (replicate 32 0)) =
     le16 33 @ [qdq_file_information_class r, qdq_flags r] @ le32 (qdq_file_index r) @ qdq_file_id r @ le16 96 @ le16 n @
     le32 (qdq_output_buffer_length r)"
  by (simp add: query_directory_request_fields_def field_io)

lemma query_directory_request_sent:
  assumes "has_memory c" "length (qdq_file_id req) = 16" "qdq_name req = Some s" "s \<noteq> []"
    "smb2_utf8_to_utf16 (c_mem_ok c) s = Some u" "0 \<notin> set s"
  shows "\<exists>c' p. smb2_cmd_query_directory_async c req cb cb_data = (c', Some p) \<and>
    get_at 64 32 (vec_bytes (p_out p)) = query_directory_request_fields req (set16 26 (of_nat (2 * u_len u)) (replicate 32 0)) \<and>
    get_at 96 (2 * u_len u) (vec_bytes (p_out p)) = u_val u"
proof -
  let ?a = "query_directory_request_fields req (set16 26 (of_nat (2 * u_len u)) (replicate 32 0))"
  have l: "length ?a = 32" unfolding query_directory_request_bytes [OF assms(2)] using assms(2) by simp
  have "\<exists>c' p. cmd_pdu SMB2_QUERY_DIRECTORY (\<lambda>c pdu. smb2_encode_query_directory_request c pdu req) c cb cb_data = (c', Some p) \<and>
      get_at 64 32 (vec_bytes (p_out p)) = ?a \<and> get_at (64 + 32) (2 * u_len u) (vec_bytes (p_out p)) = u_val u \<and>
      64 + 32 + 2 * u_len u \<le> iov_len (p_out p)"
    by (rule cmd_pdu_slices [where trail = "[]"])
       (use assms(1,3-5) l utf16_name(1) [OF assms(5,6)] in
         \<open>simp_all add: smb2_encode_query_directory_request_def create_name_def encode_steps fresh_room\<close>)
  then show ?thesis
    by (auto simp: smb2_cmd_query_directory_async_def adjust_charge_def)
qed

lemma query_directory_request_received:
  assumes "length (qdq_file_id req) = 16" "qdq_name req = Some s" "s \<noteq> []" "smb2_utf8_to_utf16 mem s = Some u" "0 \<notin> set s"
    "has_memory d" "96 + 2 * u_len u \<le> unat (ucast (c_spl d) :: u16)"
  defines "a \<equiv> query_directory_request_fields req (set16 26 (of_nat (2 * u_len u)) (replicate 32 0))"
    and "r \<equiv> req\<lparr>qdq_file_name_offset := 96, qdq_file_name_length := of_nat (2 * u_len u)\<rparr>"
  shows "smb2_process_query_directory_request_fixed (receiving a d) q =
      (int (2 * u_len u), receiving a d, set_payload (P_query_directory_request (r\<lparr>qdq_name := None\<rparr>)) q)"
    and "has_memory d1 \<Longrightarrow> smb2_process_query_directory_request_variable (receiving (u_val u) d1)
        (set_payload (P_query_directory_request (r\<lparr>qdq_name := None\<rparr>)) q) =
      Some (0, receiving (u_val u) d1, set_payload (P_query_directory_request r) q)"
proof -
  define n where "n = (of_nat (2 * u_len u) :: u16)"
  have "unat (ucast (c_spl d) :: u16) < 65536" by (rule unat_bound)
  then have "2 * u_len u < 65536" using assms(7) by linarith
  then have n: "unat n = 2 * u_len u" by (simp only: n_def unat_of_nat) simp
  have pos: "0 < u_len u" using name_not_empty [OF assms(4,5,3)] by simp
  then have nz: "n \<noteq> 0" using n by auto
  show "smb2_process_query_directory_request_fixed (receiving a d) q =
      (int (2 * u_len u), receiving a d, set_payload (P_query_directory_request (r\<lparr>qdq_name := None\<rparr>)) q)"
    unfolding a_def query_directory_request_bytes [OF assms(1)] n_def [symmetric]
    using assms(1,6,7) n pos unfolding r_def n_def [symmetric]
    by (cases req) (simp add: smb2_process_query_directory_request_fixed_def process_fixed_ok in_size_def field_io Let_def)
  assume m: "has_memory d1"
  have "raw_name (receiving (u_val u) d1) (u_val u) 0 (u_len u) = Some (s @ [0])"
    by (rule name_received(1) [OF assms(4,5), where post = "[]"]) (use m in simp_all)
  moreover have "c_string (s @ [0]) = s" using assms(5) unfolding c_string_def by (subst takeWhile_append2) auto
  ultimately have "received_name (receiving (u_val u) d1) (u_val u) (unat n div 2) = Inr s"
    using m n by (simp add: received_name_def)
  moreover have "r\<lparr>qdq_name := Some s\<rparr> = r" using assms(2) by (cases req) (simp add: r_def)
  ultimately show "smb2_process_query_directory_request_variable (receiving (u_val u) d1)
        (set_payload (P_query_directory_request (r\<lparr>qdq_name := None\<rparr>)) q) =
      Some (0, receiving (u_val u) d1, set_payload (P_query_directory_request r) q)"
    using nz by (simp add: smb2_process_query_directory_request_variable_def set_payload_def bytes_behind_def
        query_directory_name_offset_def r_def n_def)
qed

subsection \<open>Properties\<close>

text \<open>C30. Listing a directory: a request reaches the server with its pattern and every member, and a reply of a server that
  lists named entries in the class the client decodes gives the client a buffer in which every entry, at the place
  where the sizes of the entries before it put it, decodes to the entry that was listed.\<close>

theorem query_directory_roundtrip:
  assumes "has_memory c" "has_memory d" "has_memory e" "length (qdq_file_id req) = 16" "qdq_name req = Some pat" "pat \<noteq> []"
    "smb2_utf8_to_utf16 (c_mem_ok c) pat = Some v" "0 \<notin> set pat" "96 + 2 * u_len v \<le> unat (ucast (c_spl d) :: u16)"
    "qdq_file_information_class req = 0x26" "\<not> c_passthrough d" "es \<noteq> []" "\<forall>(fs, u) \<in> set es. \<exists>s. listed fs s u"
    "qdr_output_buffer rep = Dir_entries (map fst es)" "unat (qdr_output_buffer_length rep) = 144 * length es"
    "144 * length es < 2 ^ 31" "all_room es < 2 ^ 30" "72 + all_room es \<le> unat (c_spl e)"
  shows "\<exists>c' p d1 q1 req'. smb2_cmd_query_directory_async c req cb cb_data = (c', Some p) \<and>
      smb2_process_query_directory_request_fixed (receiving (get_at 64 32 (vec_bytes (p_out p))) d) q = (int (2 * u_len v), d1, q1) \<and>
      map_option (snd \<circ> snd)
          (smb2_process_query_directory_request_variable (receiving (get_at 96 (2 * u_len v) (vec_bytes (p_out p))) d1) q1) =
        Some (set_payload (P_query_directory_request req') q) \<and>
      req' = req\<lparr>qdq_file_name_offset := 96, qdq_file_name_length := of_nat (2 * u_len v)\<rparr> \<and>
      (\<exists>c'' r e1 r1 rep' w.
        smb2_cmd_query_directory_reply_async d req' rep cb cb_data = Some (c'', Some r) \<and>
        smb2_process_query_directory_fixed (receiving (get_at 64 8 (vec_bytes (p_out r))) e) p = (int (all_room es), e1, r1) \<and>
        map_option (snd \<circ> snd) (smb2_process_query_directory_variable (receiving (get_at 72 (all_room es) (vec_bytes (p_out r))) e1) r1) =
          Some (set_payload (P_query_directory_reply rep') p) \<and> qdr_output_buffer rep' = Dir_raw w \<and> length w = all_room es \<and>
        (\<forall>xs fs u ys s z. es = xs @ (fs, u) # ys \<longrightarrow> listed fs s u \<longrightarrow>
           smb2_decode_fileidfulldirectoryinformation e z (drop (all_room xs) w) =
             (0, e, client_entry fs (if ys = [] then 0 else of_nat (all_room xs + full_room u)) s)))"
proof -
  obtain c' p where p: "smb2_cmd_query_directory_async c req cb cb_data = (c', Some p)"
    "get_at 64 32 (vec_bytes (p_out p)) = query_directory_request_fields req (set16 26 (of_nat (2 * u_len v)) (replicate 32 0))"
    "get_at 96 (2 * u_len v) (vec_bytes (p_out p)) = u_val v"
    using query_directory_request_sent [OF assms(1,4-8)] by blast
  define req' where "req' = req\<lparr>qdq_file_name_offset := 96, qdq_file_name_length := of_nat (2 * u_len v)\<rparr>"
  have m: "has_memory (receiving b d)" for b using assms(2) by simp
  note rq = query_directory_request_received [where q = q, OF assms(4-8,2,9), folded req'_def]
  have n: "names_ok d es" unfolding names_ok_def
    using assms(13) listed_name(1) [OF _ assms(2)] listed_name(2,3) by (fastforce simp: name_bytes_def name_size_def)
  have cls: "qdq_file_information_class req' = 0x26" using assms(10) by (simp add: req'_def)
  obtain c'' r where r: "smb2_cmd_query_directory_reply_async d req' rep cb cb_data = Some (c'', Some r)"
    "get_at 64 8 (vec_bytes (p_out r)) = le16 9 @ le16 72 @ le32 (of_nat (all_room es))"
    "get_at 72 (all_room es) (vec_bytes (p_out r)) = dir_layout (ucast (c_junk d)) 0 es"
    using query_directory_reply_sent [OF assms(2,11) n assms(12,14-17) cls, of cb cb_data] by blast
  define w where "w = get_at 72 (all_room es) (vec_bytes (p_out r))"
  have w: "w = dir_layout (ucast (c_junk d)) 0 es" by (simp add: w_def r(3))
  have l: "length w = all_room es" using length_dir_layout [OF n] by (simp add: w)
  obtain fs u es' where es: "es = (fs, u) # es'" using assms(12) by (cases es) auto
  then have "0 < full_room u" using full_room(1) [OF names_okD(3) [OF n [unfolded es]]] by simp
  then have "0 < length w" by (simp add: l es all_room_def)
  note rp = query_directory_reply_received [where q = p, OF assms(3) _ this, unfolded l, OF assms(17,18)]
  have entry: "smb2_decode_fileidfulldirectoryinformation e z (drop (all_room xs) w) =
      (0, e, client_entry fs (if ys = [] then 0 else of_nat (all_room xs + full_room u)) s)"
    if "es = xs @ (fs, u) # ys" "listed fs s u" for xs fs u ys s z
    using dir_layout_entry [of d xs fs u ys "ucast (c_junk d)" 0] n decode_full_wire [OF that(2) assms(3)] that(1)
    by (auto simp: w)
  let ?d1 = "receiving (get_at 64 32 (vec_bytes (p_out p))) d" and ?e1 = "receiving (get_at 64 8 (vec_bytes (p_out r))) e"
  let ?y = "\<lparr>qdr_output_buffer_offset = 72, qdr_output_buffer_length = of_nat (all_room es), qdr_output_buffer = Dir_raw w\<rparr>"
  note req1 = rq(1) [folded p(2)] and req2 = rq(2) [OF m, of "get_at 64 32 (vec_bytes (p_out p))", folded p(3)]
  note rep1 = rp(1) [folded r(2)] and rep2 = rp(2) [of ?e1]
  show ?thesis
    apply (rule exI [of _ c'], rule exI [of _ p], rule exI [of _ ?d1],
        rule exI [of _ "set_payload (P_query_directory_request (req'\<lparr>qdq_name := None\<rparr>)) q"], rule exI [of _ req'])
    apply (intro conjI p(1) req1 req'_def)
     apply (simp add: req2)
    apply (rule exI [of _ c''], rule exI [of _ r], rule exI [of _ ?e1],
        rule exI [of _ "set_payload (P_query_directory_reply (?y\<lparr>qdr_output_buffer := Dir_null\<rparr>)) p"],
        rule exI [of _ ?y], rule exI [of _ w])
    apply (intro conjI r(1) rep1 l allI impI entry)
       apply (use rep2 in \<open>simp_all add: w_def\<close>)
    done
qed

definition sample_listing :: smb2_query_directory_request where
  "sample_listing = \<lparr>qdq_file_information_class = 0x26, qdq_flags = 0, qdq_file_index = 0, qdq_file_id = replicate 16 1,
     qdq_output_buffer_length = 65535, qdq_file_name_offset = 0, qdq_file_name_length = 0, qdq_name = Some [0x61]\<rparr>"

definition sample_dirent :: smb2_fileidbothdirectoryinformation where
  "sample_dirent = \<lparr>fbd_file_index = 1, fbd_creation_time = sample_time, fbd_last_access_time = sample_time,
     fbd_last_write_time = sample_time, fbd_change_time = sample_time, fbd_end_of_file = 5, fbd_allocation_size = 8,
     fbd_file_attributes = 32, fbd_ea_size = 0, fbd_short_name_length = 0, fbd_short_name = replicate 24 0, fbd_file_id = 9,
     fbd_name = Some [0x61]\<rparr>"

theorem query_directory_roundtrip_witness:
  "\<exists>c'' r w. smb2_cmd_query_directory_reply_async (zero_context\<lparr>c_spl := 200\<rparr>)
      (sample_listing\<lparr>qdq_file_name_offset := 96, qdq_file_name_length := 2\<rparr>)
      \<lparr>qdr_output_buffer_offset = 0, qdr_output_buffer_length = 288,
       qdr_output_buffer = Dir_entries [sample_dirent, sample_dirent]\<rparr> 1 2 = Some (c'', Some r) \<and>
    (\<forall>z. smb2_decode_fileidfulldirectoryinformation (zero_context\<lparr>c_spl := 300\<rparr>) z (drop 84 w) =
      (0, zero_context\<lparr>c_spl := 300\<rparr>, client_entry sample_dirent 0 [0x61]))"
proof -
  define u where "u = \<lparr>u_len = 1, u_val = [0x61, 0 :: u8]\<rparr>"
  have mem: "c_mem_ok zero_context = (\<lambda>_. True)" by (simp add: zero_context_def)
  have name: "smb2_utf8_to_utf16 (\<lambda>_. True) [0x61] = Some u" using sample_name unfolding mem u_def .
  have l: "listed sample_dirent [0x61] u" using name by (simp add: listed_def sample_dirent_def u_def)
  have room: "full_room u = 84" unfolding u_def by code_simp
  define rep where "rep = \<lparr>qdr_output_buffer_offset = 0, qdr_output_buffer_length = 288,
       qdr_output_buffer = Dir_entries [sample_dirent, sample_dirent]\<rparr>"
  define es where "es = [(sample_dirent, u), (sample_dirent, u)]"
  define d where "d = zero_context\<lparr>c_spl := 200\<rparr>"
  define e where "e = zero_context\<lparr>c_spl := 300\<rparr>"
  have m: "has_memory zero_context" "has_memory d" "has_memory e" "\<not> c_passthrough d" "c_spl d = 200" "c_spl e = 300"
    by (simp_all add: d_def e_def) (simp add: zero_context_def)
  have h: "length (qdq_file_id sample_listing) = 16" "qdq_name sample_listing = Some [0x61]" "[0x61 :: u8] \<noteq> []"
    "smb2_utf8_to_utf16 (c_mem_ok zero_context) [0x61] = Some u" "0 \<notin> set [0x61 :: u8]"
    "96 + 2 * u_len u \<le> unat (ucast (c_spl d) :: u16)" "qdq_file_information_class sample_listing = 0x26"
    using name unfolding mem by (simp_all add: sample_listing_def m u_def)
  have e: "es \<noteq> []" "\<forall>(fs, u) \<in> set es. \<exists>s. listed fs s u" "qdr_output_buffer rep = Dir_entries (map fst es)"
    "unat (qdr_output_buffer_length rep) = 144 * length es" "144 * length es < 2 ^ 31" "all_room es = 168"
    using l by (auto simp: es_def rep_def all_room_def room)
  have e': "all_room es < 2 ^ 30" "72 + all_room es \<le> unat (c_spl e)" by (simp_all add: e(6) m)
  obtain req' c'' r w where r: "req' = sample_listing\<lparr>qdq_file_name_offset := 96, qdq_file_name_length := of_nat (2 * u_len u)\<rparr>"
    "smb2_cmd_query_directory_reply_async d req' rep 1 2 = Some (c'', Some r)"
    and dec: "\<forall>xs fs u ys s z. es = xs @ (fs, u) # ys \<longrightarrow> listed fs s u \<longrightarrow>
      smb2_decode_fileidfulldirectoryinformation e z (drop (all_room xs) w) =
             (0, e, client_entry fs (if ys = [] then 0 else of_nat (all_room xs + full_room u)) s)"
    using query_directory_roundtrip [OF m(1-3) h m(4) e(1-5) e', of 1 2 zero_pdu] by blast
  have "es = [(sample_dirent, u)] @ (sample_dirent, u) # []" "all_room [(sample_dirent, u)] = 84"
    by (simp_all add: es_def all_room_def room)
  then have "smb2_decode_fileidfulldirectoryinformation e z (drop 84 w) = (0, e, client_entry sample_dirent 0 [0x61])" for z
    using dec [rule_format, of "[(sample_dirent, u)]" sample_dirent u "[]", OF _ l, of z] by simp
  then show ?thesis using r unfolding d_def e_def rep_def by (auto simp: u_def)
qed

subsection \<open>What goes wrong\<close>

text \<open>The entry after the first says that the next one is further away than it is.\<close>

lemma directory_offsets_absolute:
  assumes "xs \<noteq> []" "names_ok c (xs @ (fs, u) # ys)" "ys \<noteq> []" "all_room xs + full_room u < 2 ^ 32" "listed fs s u"
  shows "unat (ffd_next_entry_offset (client_entry fs (of_nat (all_room xs + full_room u)) s)) > full_room u"
proof -
  obtain gs v xs' where xs: "xs = (gs, v) # xs'" using assms(1) by (cases xs) auto
  have "0 < full_room v" using full_room(1) [OF names_okD(3) [OF assms(2) [unfolded xs append_Cons]]] by simp
  then have "0 < all_room xs" by (simp add: xs all_room_def)
  then show ?thesis using unat_of_nat_small [OF assms(4)] by (simp add: client_entry_def)
qed

text \<open>An entry without a name, in a listing in which another one has a name, makes the server free a block twice.\<close>

lemma unnamed_entry_double_free:
  assumes "dir_name c fs = Some None"
  shows "dir_fill c cls remain offset True (fs # rest) b = None"
  using assms by simp

text \<open>A reply that a decoder refuses after it has allocated the structure leaves the PDU with a pointer to freed memory,
  which is freed again with the PDU.\<close>

lemma query_directory_payload_freed:
  assumes "has_memory d" "c_spl d < 100"
  shows "\<exists>d'. smb2_process_query_directory_fixed (receiving (le16 9 @ le16 72 @ le32 100) d) q = (-1, d', set_payload P_freed q)"
proof -
  have "c_spl d < 172" using assms(2) by (rule less_trans) simp
  then show ?thesis using assms(1)
    by (simp add: smb2_process_query_directory_fixed_def process_fixed_ok in_size_def field_io)
qed

end
