(* ===== verification/Smb2_Dispatch.thy ===== *)
theory Smb2_Dispatch
  imports Smb2_Cmd_Dir Smb2_Cmd_Session Smb2_Cmd_Basic
begin

text \<open>
  The dispatch on commands of \<^verbatim>\<open>lib/pdu.c\<close>, and what the decoders of all commands have in common: they
  leave the queues, the credits and the receiver alone. A result \<open>None\<close> is an access outside a block or through
  \<open>NULL\<close>.
\<close>

subsection \<open>Tables\<close>

definition never_faults :: "decoder \<Rightarrow> faulting_decoder" where
  "never_faults d = (\<lambda>c pdu. Some (d c pdu))"

definition no_payload :: decoder where
  "no_payload c pdu = (0, c, pdu)"

definition reply_fixed :: "(u16 \<times> decoder) list" where
  "reply_fixed =
     [(SMB2_NEGOTIATE, smb2_process_negotiate_fixed), (SMB2_SESSION_SETUP, smb2_process_session_setup_fixed),
      (SMB2_LOGOFF, smb2_process_logoff_fixed), (SMB2_TREE_CONNECT, smb2_process_tree_connect_fixed),
      (SMB2_TREE_DISCONNECT, smb2_process_tree_disconnect_fixed), (SMB2_CREATE, smb2_process_create_fixed),
      (SMB2_CLOSE, smb2_process_close_fixed), (SMB2_FLUSH, smb2_process_flush_fixed), (SMB2_READ, smb2_process_read_fixed),
      (SMB2_WRITE, smb2_process_write_fixed), (SMB2_ECHO, smb2_process_echo_fixed), (SMB2_LOCK, smb2_process_lock_fixed),
      (SMB2_QUERY_DIRECTORY, smb2_process_query_directory_fixed), (SMB2_CHANGE_NOTIFY, smb2_process_change_notify_fixed),
      (SMB2_QUERY_INFO, smb2_process_query_info_fixed), (SMB2_SET_INFO, smb2_process_set_info_fixed),
      (SMB2_IOCTL, smb2_process_ioctl_fixed), (SMB2_OPLOCK_BREAK, smb2_process_oplock_break_fixed)]"

definition reply_variable :: "(u16 \<times> faulting_decoder) list" where
  "reply_variable =
     [(SMB2_NEGOTIATE, never_faults smb2_process_negotiate_variable),
      (SMB2_SESSION_SETUP, never_faults smb2_process_session_setup_variable),
      (SMB2_CREATE, never_faults smb2_process_create_variable), (SMB2_READ, never_faults smb2_process_read_variable),
      (SMB2_QUERY_DIRECTORY, smb2_process_query_directory_variable),
      (SMB2_CHANGE_NOTIFY, never_faults smb2_process_change_notify_variable),
      (SMB2_QUERY_INFO, smb2_process_query_info_variable), (SMB2_IOCTL, smb2_process_ioctl_variable),
      (SMB2_OPLOCK_BREAK, never_faults smb2_process_oplock_break_variable)]"

definition request_fixed :: "(u16 \<times> decoder) list" where
  "request_fixed =
     [(SMB2_NEGOTIATE, smb2_process_negotiate_request_fixed), (SMB2_SESSION_SETUP, smb2_process_session_setup_request_fixed),
      (SMB2_LOGOFF, smb2_process_logoff_request_fixed), (SMB2_TREE_CONNECT, smb2_process_tree_connect_request_fixed),
      (SMB2_TREE_DISCONNECT, no_payload), (SMB2_CREATE, smb2_process_create_request_fixed),
      (SMB2_CLOSE, smb2_process_close_request_fixed), (SMB2_FLUSH, smb2_process_flush_request_fixed),
      (SMB2_READ, smb2_process_read_request_fixed), (SMB2_WRITE, smb2_process_write_request_fixed),
      (SMB2_ECHO, smb2_process_echo_request_fixed), (SMB2_LOCK, smb2_process_lock_request_fixed), (SMB2_CANCEL, no_payload),
      (SMB2_QUERY_DIRECTORY, smb2_process_query_directory_request_fixed),
      (SMB2_CHANGE_NOTIFY, smb2_process_change_notify_request_fixed), (SMB2_QUERY_INFO, smb2_process_query_info_request_fixed),
      (SMB2_SET_INFO, smb2_process_set_info_request_fixed), (SMB2_IOCTL, smb2_process_ioctl_request_fixed),
      (SMB2_OPLOCK_BREAK, smb2_process_oplock_break_request_fixed)]"

definition request_variable :: "(u16 \<times> faulting_decoder) list" where
  "request_variable =
     [(SMB2_NEGOTIATE, never_faults smb2_process_negotiate_request_variable),
      (SMB2_SESSION_SETUP, never_faults smb2_process_session_setup_request_variable),
      (SMB2_LOGOFF, never_faults no_payload), (SMB2_TREE_CONNECT, never_faults smb2_process_tree_connect_request_variable),
      (SMB2_TREE_DISCONNECT, never_faults no_payload), (SMB2_CREATE, never_faults smb2_process_create_request_variable),
      (SMB2_CLOSE, never_faults no_payload), (SMB2_FLUSH, never_faults no_payload),
      (SMB2_READ, never_faults smb2_process_read_request_variable), (SMB2_WRITE, never_faults smb2_process_write_request_variable),
      (SMB2_LOCK, never_faults smb2_process_lock_request_variable), (SMB2_CANCEL, never_faults no_payload),
      (SMB2_ECHO, never_faults no_payload), (SMB2_QUERY_DIRECTORY, smb2_process_query_directory_request_variable),
      (SMB2_CHANGE_NOTIFY, never_faults no_payload), (SMB2_QUERY_INFO, smb2_process_query_info_request_variable),
      (SMB2_SET_INFO, never_faults smb2_process_set_info_request_variable), (SMB2_IOCTL, smb2_process_ioctl_request_variable),
      (SMB2_OPLOCK_BREAK, never_faults smb2_process_oplock_break_request_variable)]"

definition smb2_process_reply_payload_fixed :: decoder where
  "smb2_process_reply_payload_fixed c pdu =
     (if smb2_is_error_response c then smb2_process_error_fixed c pdu
      else case map_of reply_fixed (h_command (p_header pdu)) of None \<Rightarrow> (0, c, pdu) | Some d \<Rightarrow> d c pdu)"

definition smb2_process_reply_payload_variable :: faulting_decoder where
  "smb2_process_reply_payload_variable c pdu =
     (if smb2_is_error_response c then Some (smb2_process_error_variable c pdu)
      else case map_of reply_variable (h_command (p_header pdu)) of None \<Rightarrow> Some (0, c, pdu) | Some d \<Rightarrow> d c pdu)"

definition smb2_process_request_payload_fixed :: decoder where
  "smb2_process_request_payload_fixed c pdu =
     (case map_of request_fixed (h_command (p_header pdu)) of
        None \<Rightarrow> (-1, smb2_set_error ''No handler for fixed request'' c, pdu)
      | Some d \<Rightarrow> d c pdu)"

definition smb2_process_request_payload_variable :: faulting_decoder where
  "smb2_process_request_payload_variable c pdu =
     (case map_of request_variable (h_command (p_header pdu)) of
        None \<Rightarrow> Some (-1, smb2_set_error ''No handler for var request'' c, pdu)
      | Some d \<Rightarrow> d c pdu)"

definition smb2_process_payload_fixed :: decoder where
  "smb2_process_payload_fixed c pdu =
     (if smb2_is_server c then smb2_process_request_payload_fixed c pdu else smb2_process_reply_payload_fixed c pdu)"

definition smb2_process_payload_variable :: faulting_decoder where
  "smb2_process_payload_variable c pdu =
     (if smb2_is_server c then smb2_process_request_payload_variable c pdu else smb2_process_reply_payload_variable c pdu)"

subsection \<open>What the decoders leave alone\<close>

text \<open>The queues, the credits, the message numbers and everything the receiver works with.\<close>

definition engine_part where
  "engine_part c =
     ((c_rd_script c, c_enc c, c_enc_pos c), (c_in c, c_recv_state c, c_spl c, c_hdr c, c_payload_offset c),
      (c_credits c, c_outqueue c, c_waitqueue c, c_pdu c, c_next_pdu c, c_message_id c, c_trace c),
      (c_is_server c, c_passthrough c, c_sign c, c_signing_key c, c_dialect c, c_mem_ok c, c_junk c))"

definition same_but_payload :: "smb2_pdu \<Rightarrow> smb2_pdu \<Rightarrow> bool" where
  "same_but_payload p q \<longleftrightarrow> q\<lparr>p_payload := None\<rparr> = p\<lparr>p_payload := None\<rparr>"

lemma same_but_payload_simps [simp]:
  "same_but_payload p p" "same_but_payload p (set_payload x p)" "same_but_payload p (p\<lparr>p_payload := y\<rparr>)"
  by (simp_all add: same_but_payload_def set_payload_def)

lemma engine_part_updates [simp]:
  "engine_part (c\<lparr>c_error := e\<rparr>) = engine_part c" "engine_part (c\<lparr>c_nterror := n\<rparr>) = engine_part c"
  "engine_part (c\<lparr>c_seal := s\<rparr>) = engine_part c"
  "engine_part (c\<lparr>c_session_id := i\<rparr>) = engine_part c" "engine_part (c\<lparr>c_tree_id := t\<rparr>) = engine_part c"
  "engine_part (c\<lparr>c_tree_id_top := m\<rparr>) = engine_part c" "engine_part (c\<lparr>c_tree_id_cur := m\<rparr>) = engine_part c"
  by (simp_all add: engine_part_def)

lemma engine_part_error [simp]: "engine_part (smb2_set_error e c) = engine_part c"
  by (simp add: smb2_set_error_def)

lemmas fixed_reply_defs = smb2_process_negotiate_fixed_def smb2_process_session_setup_fixed_def
  smb2_process_logoff_fixed_def smb2_process_tree_connect_fixed_def smb2_process_tree_disconnect_fixed_def
  smb2_process_create_fixed_def smb2_process_close_fixed_def smb2_process_flush_fixed_def
  smb2_process_read_fixed_def smb2_process_write_fixed_def smb2_process_echo_fixed_def smb2_process_lock_fixed_def
  smb2_process_query_directory_fixed_def smb2_process_change_notify_fixed_def smb2_process_query_info_fixed_def
  smb2_process_set_info_fixed_def smb2_process_ioctl_fixed_def smb2_process_oplock_break_fixed_def
  smb2_process_error_fixed_def

lemmas fixed_request_defs = smb2_process_negotiate_request_fixed_def smb2_process_session_setup_request_fixed_def
  smb2_process_logoff_request_fixed_def smb2_process_tree_connect_request_fixed_def
  smb2_process_create_request_fixed_def smb2_process_close_request_fixed_def smb2_process_flush_request_fixed_def
  smb2_process_read_request_fixed_def smb2_process_write_request_fixed_def smb2_process_echo_request_fixed_def
  smb2_process_lock_request_fixed_def smb2_process_query_directory_request_fixed_def
  smb2_process_change_notify_request_fixed_def smb2_process_query_info_request_fixed_def
  smb2_process_set_info_request_fixed_def smb2_process_ioctl_request_fixed_def
  smb2_process_oplock_break_request_fixed_def

lemmas variable_defs = smb2_process_negotiate_variable_def smb2_process_session_setup_variable_def
  smb2_process_create_variable_def smb2_process_read_variable_def smb2_process_change_notify_variable_def
  smb2_process_oplock_break_variable_def smb2_process_error_variable_def smb2_process_negotiate_request_variable_def
  smb2_process_session_setup_request_variable_def smb2_process_tree_connect_request_variable_def
  smb2_process_create_request_variable_def smb2_process_read_request_variable_def
  smb2_process_write_request_variable_def smb2_process_lock_request_variable_def
  smb2_process_set_info_request_variable_def smb2_process_oplock_break_request_variable_def

lemmas faulting_defs = smb2_process_query_directory_variable_def smb2_process_query_info_variable_def
  smb2_process_ioctl_variable_def smb2_process_query_directory_request_variable_def
  smb2_process_query_info_request_variable_def smb2_process_ioctl_request_variable_def

lemmas decoder_splits = if_splits option.splits prod.splits payload.splits sum.splits

lemma engine_part_connect [simp]: "engine_part (snd (smb2_connect_tree_id c t)) = engine_part c"
  by (simp add: smb2_connect_tree_id_def Let_def)

lemma engine_part_disconnect [simp]: "engine_part (snd (smb2_disconnect_tree_id c t)) = engine_part c"
  by (simp add: smb2_disconnect_tree_id_def Let_def)

lemma connect_keeps: "smb2_connect_tree_id c t = (rc, c') \<Longrightarrow> engine_part c' = engine_part c"
  using engine_part_connect [of c t] by simp

lemma parse_contexts_keep:
  "smb2_parse_negotiate_contexts n c rep b off = (rc, c', rep') \<Longrightarrow> engine_part c' = engine_part c"
proof (induction n arbitrary: rep off)
  case (Suc n)
  from Suc.prems show ?case by (auto simp: Let_def split: if_splits dest: Suc.IH)
qed simp

lemma parse_request_contexts_keep:
  "smb2_parse_negotiate_request_contexts n c b off = (rc, c') \<Longrightarrow> engine_part c' = engine_part c"
proof (induction n arbitrary: off)
  case (Suc n)
  from Suc.prems show ?case by (auto simp: Let_def split: if_splits dest: Suc.IH)
qed simp

subsection \<open>Decoders of information\<close>

text \<open>They touch the context only to record an error.\<close>

lemma keep_name_same: "keep_name c s = (c', r) \<Longrightarrow> engine_part c' = engine_part c"
  by (auto simp: keep_name_def smb2_alloc_data_def split: if_splits)

lemma in_context_keeps: "in_context c r = Some (rc, c', x) \<Longrightarrow> c' = c"
  by (auto simp: in_context_def split: prod.splits)

lemma named_decoders_keep:
  "smb2_decode_file_all_info c f b = (rc, c', x) \<Longrightarrow> engine_part c' = engine_part c"
  "smb2_decode_file_normalized_name_info c g b = (rc, c', y) \<Longrightarrow> engine_part c' = engine_part c"
  "smb2_decode_file_fs_attribute_info c h b = (rc, c', z) \<Longrightarrow> engine_part c' = engine_part c"
  "smb2_decode_file_fs_volume_info c k b = Some (rc, c', w) \<Longrightarrow> engine_part c' = engine_part c"
  by (auto simp: smb2_decode_file_all_info_def smb2_decode_file_normalized_name_info_def smb2_decode_file_fs_attribute_info_def
      smb2_decode_file_fs_volume_info_def Let_def split: if_splits option.splits prod.splits dest: keep_name_same)

lemma stream_entry_keeps: "decode_stream_entry c off fs b = (rc, c', x) \<Longrightarrow> engine_part c' = engine_part c"
  by (auto simp: decode_stream_entry_def Let_def split: if_splits option.splits prod.splits dest: keep_name_same)

lemma stream_loop_keeps: "decode_stream_loop room off o1 n c b = Some (rc, c', xs) \<Longrightarrow> engine_part c' = engine_part c"
proof (induction room off o1 n c b arbitrary: rc xs rule: decode_stream_loop.induct)
  case (2 room off o1 n c b)
  obtain rc1 c1 fs where e: "decode_stream_entry c off no_stream b = (rc1, c1, fs)" by (cases "decode_stream_entry c off no_stream b")
  then have "engine_part c1 = engine_part c" by (rule stream_entry_keeps)
  with e 2 show ?case by (auto simp: Let_def split: if_splits)
qed simp

lemma stream_info_keeps: "smb2_decode_file_stream_info room c b = Some (rc, c', xs) \<Longrightarrow> engine_part c' = engine_part c"
  unfolding smb2_decode_file_stream_info_def by (rule stream_loop_keeps)

lemma reparse_keeps: "smb2_decode_reparse_data_buffer c rp b = Some (rc, c', x) \<Longrightarrow> engine_part c' = engine_part c"
  by (auto simp: smb2_decode_reparse_data_buffer_def reparse_name_def Let_def split: if_splits option.splits prod.splits
      dest!: keep_name_same)

lemma returns_NULL_keeps: "returns_NULL e c = Some (c', r) \<Longrightarrow> engine_part c' = engine_part c"
  by (auto simp: returns_NULL_def)

lemma decode_sid_keeps: "decode_sid c v = Some (c', r) \<Longrightarrow> engine_part c' = engine_part c"
  by (auto simp: decode_sid_def Let_def bind_eq_Some_conv smb2_alloc_data_def split: if_splits prod.splits
      dest: returns_NULL_keeps)

lemma alloc_data_keeps: "smb2_alloc_data c n = (c', ok) \<Longrightarrow> engine_part c' = engine_part c"
  by (auto simp: smb2_alloc_data_def split: if_splits)

lemma ace_kinds_keep:
  "decode_mask_ace c ace v = Some (c', r) \<Longrightarrow> engine_part c' = engine_part c"
  "decode_object_ace c ace v = Some (c', r) \<Longrightarrow> engine_part c' = engine_part c"
  "decode_raw_ace c ace v = Some (c', r) \<Longrightarrow> engine_part c' = engine_part c"
  by (auto simp: decode_mask_ace_def decode_object_ace_def decode_raw_ace_def Let_def bind_eq_Some_conv
      split: if_splits prod.splits bool.splits dest!: returns_NULL_keeps alloc_data_keeps decode_sid_keeps)

lemma callback_ace_keeps:
  assumes "decode_callback_ace c ace v = Some (c', r)"
  shows "engine_part c' = engine_part c"
proof (cases "w_len v < 4")
  case True
  with assms show ?thesis by (auto simp: decode_callback_ace_def bind_eq_Some_conv dest: returns_NULL_keeps)
next
  case False
  with assms obtain c1 s where s: "decode_sid c (advance 4 v) = Some (c1, s)"
    by (auto simp: decode_callback_ace_def bind_eq_Some_conv)
  define x where "x = (case s of None \<Rightarrow> advance 4 v | Some (_, v) \<Rightarrow> v)"
  obtain c2 ok where "smb2_alloc_data c1 (w_len x) = (c2, ok)" by (cases "smb2_alloc_data c1 (w_len x)")
  with assms False s alloc_data_keeps [OF this] decode_sid_keeps [OF s] show ?thesis
    by (cases ok) (auto simp: decode_callback_ace_def bind_eq_Some_conv Let_def x_def [symmetric])
qed

lemma decode_ace_keeps: "decode_ace c v = Some (c', r) \<Longrightarrow> engine_part c' = engine_part c"
  by (auto simp: decode_ace_def Let_def bind_eq_Some_conv smb2_alloc_data_def split: if_splits prod.splits
      dest!: returns_NULL_keeps ace_kinds_keep callback_ace_keeps)

lemma decode_aces_keep: "decode_aces c v n = Some (c', r) \<Longrightarrow> engine_part c' = engine_part c"
proof (induction c v n arbitrary: c' r rule: decode_aces.induct)
  case (2 c v n)
  then obtain c1 r1 where e: "decode_ace c v = Some (c1, r1)" by (cases "decode_ace c v") auto
  note k = decode_ace_keeps [OF e]
  show ?case
  proof (cases r1)
    case None
    with 2(2) e k show ?thesis by (auto dest: returns_NULL_keeps)
  next
    case (Some ace)
    with 2(2) e k show ?thesis
      by (auto simp: bind_eq_Some_conv split: if_splits dest!: returns_NULL_keeps 2(1) [OF e refl])
  qed
qed simp

lemma decode_acl_keeps: "decode_acl c v = Some (c', r) \<Longrightarrow> engine_part c' = engine_part c"
  by (auto simp: decode_acl_def Let_def bind_eq_Some_conv smb2_alloc_data_def split: if_splits prod.splits
      dest!: returns_NULL_keeps decode_aces_keep)

lemma decode_part_keeps:
  assumes "decode_part p e f c b off = Some (c', r)" "\<And>c v c' r. f c v = Some (c', r) \<Longrightarrow> engine_part c' = engine_part c"
  shows "engine_part c' = engine_part c"
  using assms(1) by (auto simp: decode_part_def bind_eq_Some_conv split: if_splits option.splits dest!: assms(2))

lemma sid_part_keeps: "sid_part e c b off = Some (c', r) \<Longrightarrow> engine_part c' = engine_part c"
  unfolding sid_part_def by (erule decode_part_keeps) (auto simp: decode_owner_def dest: decode_sid_keeps)

lemma dacl_part_keeps: "dacl_part c b off = Some (c', r) \<Longrightarrow> engine_part c' = engine_part c"
  unfolding dacl_part_def by (erule decode_part_keeps) (rule decode_acl_keeps)

lemma security_descriptor_keeps:
  assumes "smb2_decode_security_descriptor c sd b = Some (rc, c', x)"
  shows "engine_part c' = engine_part c"
proof (cases "length b < 20 \<or> get8 b 0 0 \<noteq> 1")
  case True
  with assms show ?thesis by (auto simp: smb2_decode_security_descriptor_def Let_def split: if_splits)
next
  case False
  let ?e = "''failed to decode owner sid: %s''" and ?f = "''failed to decode group sid: %s''"
  from False assms obtain c1 o1 where o: "sid_part ?e c b (get32 b 4 0) = Some (c1, o1)"
    by (auto simp: smb2_decode_security_descriptor_def Let_def bind_eq_Some_conv)
  note k1 = sid_part_keeps [OF o]
  show ?thesis
  proof (cases o1)
    case None
    with False assms o k1 show ?thesis by (auto simp: smb2_decode_security_descriptor_def Let_def)
  next
    case (Some y)
    with False assms o obtain c2 g1 where g: "sid_part ?f c1 b (get32 b 8 0) = Some (c2, g1)"
      by (auto simp: smb2_decode_security_descriptor_def Let_def bind_eq_Some_conv)
    note k2 = sid_part_keeps [OF g]
    show ?thesis
    proof (cases g1)
      case None
      with False assms o Some g k1 k2 show ?thesis by (auto simp: smb2_decode_security_descriptor_def Let_def)
    next
      case (Some z)
      with False assms o \<open>o1 = Some y\<close> g obtain c3 d1 where d: "dacl_part c2 b (get32 b 16 0) = Some (c3, d1)"
        by (auto simp: smb2_decode_security_descriptor_def Let_def bind_eq_Some_conv)
      note k3 = dacl_part_keeps [OF d]
      from False assms o \<open>o1 = Some y\<close> g Some d k1 k2 k3 show ?thesis
        by (cases d1) (auto simp: smb2_decode_security_descriptor_def Let_def)
    qed
  qed
qed

lemma decode_class_keeps:
  assumes "decode_class n least e r w c b = Some (rc, c', x)" "\<And>rc d y. r = Some (rc, d, y) \<Longrightarrow> engine_part d = engine_part c"
  shows "engine_part c' = engine_part c"
  using assms by (auto simp: decode_class_def split: if_splits option.splits)

lemma decode_info_keeps: "decode_info c pdu b = Some (rc, c', x) \<Longrightarrow> engine_part c' = engine_part c"
  by (auto simp: decode_info_def decode_file_class_def decode_filesystem_class_def decode_security_class_def
      split: if_splits
      elim!: decode_class_keeps
      dest: in_context_keeps named_decoders_keep stream_info_keeps security_descriptor_keeps)

definition keeps :: "faulting_decoder \<Rightarrow> bool" where
  "keeps d \<longleftrightarrow> (\<forall>c pdu rc c' q. d c pdu = Some (rc, c', q) \<longrightarrow> engine_part c' = engine_part c \<and> same_but_payload pdu q)"

lemma keepsD: "keeps d \<Longrightarrow> d c pdu = Some (rc, c', q) \<Longrightarrow> engine_part c' = engine_part c \<and> same_but_payload pdu q"
  by (simp add: keeps_def)

lemma keeps_fixed_replies:
  "keeps (never_faults smb2_process_negotiate_fixed)"
  "keeps (never_faults smb2_process_session_setup_fixed)"
  "keeps (never_faults smb2_process_logoff_fixed)"
  "keeps (never_faults smb2_process_tree_connect_fixed)"
  "keeps (never_faults smb2_process_tree_disconnect_fixed)"
  "keeps (never_faults smb2_process_create_fixed)"
  "keeps (never_faults smb2_process_close_fixed)"
  "keeps (never_faults smb2_process_flush_fixed)"
  "keeps (never_faults smb2_process_read_fixed)"
  "keeps (never_faults smb2_process_write_fixed)"
  "keeps (never_faults smb2_process_echo_fixed)"
  "keeps (never_faults smb2_process_lock_fixed)"
  "keeps (never_faults smb2_process_query_directory_fixed)"
  "keeps (never_faults smb2_process_change_notify_fixed)"
  "keeps (never_faults smb2_process_query_info_fixed)"
  "keeps (never_faults smb2_process_set_info_fixed)"
  "keeps (never_faults smb2_process_ioctl_fixed)"
  "keeps (never_faults smb2_process_oplock_break_fixed)"
  "keeps (never_faults smb2_process_error_fixed)"
  by (auto simp: keeps_def never_faults_def fixed_reply_defs process_fixed_def Let_def split: decoder_splits dest: connect_keeps)

lemma keeps_fixed_requests:
  "keeps (never_faults smb2_process_negotiate_request_fixed)"
  "keeps (never_faults smb2_process_session_setup_request_fixed)"
  "keeps (never_faults smb2_process_logoff_request_fixed)"
  "keeps (never_faults smb2_process_tree_connect_request_fixed)"
  "keeps (never_faults smb2_process_create_request_fixed)"
  "keeps (never_faults smb2_process_close_request_fixed)"
  "keeps (never_faults smb2_process_flush_request_fixed)"
  "keeps (never_faults smb2_process_read_request_fixed)"
  "keeps (never_faults smb2_process_write_request_fixed)"
  "keeps (never_faults smb2_process_echo_request_fixed)"
  "keeps (never_faults smb2_process_lock_request_fixed)"
  "keeps (never_faults smb2_process_query_directory_request_fixed)"
  "keeps (never_faults smb2_process_change_notify_request_fixed)"
  "keeps (never_faults smb2_process_query_info_request_fixed)"
  "keeps (never_faults smb2_process_set_info_request_fixed)"
  "keeps (never_faults smb2_process_ioctl_request_fixed)"
  "keeps (never_faults smb2_process_oplock_break_request_fixed)"
  "keeps (never_faults no_payload)"
  by (auto simp: keeps_def never_faults_def fixed_request_defs no_payload_def process_fixed_def Let_def split: decoder_splits)

lemma keeps_variable:
  "keeps (never_faults smb2_process_negotiate_variable)"
  "keeps (never_faults smb2_process_session_setup_variable)"
  "keeps (never_faults smb2_process_create_variable)"
  "keeps (never_faults smb2_process_read_variable)"
  "keeps (never_faults smb2_process_change_notify_variable)"
  "keeps (never_faults smb2_process_oplock_break_variable)"
  "keeps (never_faults smb2_process_error_variable)"
  "keeps (never_faults smb2_process_negotiate_request_variable)"
  "keeps (never_faults smb2_process_session_setup_request_variable)"
  "keeps (never_faults smb2_process_tree_connect_request_variable)"
  "keeps (never_faults smb2_process_create_request_variable)"
  "keeps (never_faults smb2_process_read_request_variable)"
  "keeps (never_faults smb2_process_write_request_variable)"
  "keeps (never_faults smb2_process_lock_request_variable)"
  "keeps (never_faults smb2_process_set_info_request_variable)"
  "keeps (never_faults smb2_process_oplock_break_request_variable)"
  by (auto simp: keeps_def never_faults_def variable_defs Let_def split: decoder_splits
      dest: parse_contexts_keep parse_request_contexts_keep)

lemma keeps_faulting:
  "keeps smb2_process_query_directory_variable"
  "keeps smb2_process_query_info_variable"
  "keeps smb2_process_ioctl_variable"
  "keeps smb2_process_query_directory_request_variable"
  "keeps smb2_process_query_info_request_variable"
  "keeps smb2_process_ioctl_request_variable"
  by (auto simp: keeps_def faulting_defs Let_def split: decoder_splits dest: decode_info_keeps reparse_keeps)

lemma tables_keep:
  "\<forall>(k, d) \<in> set reply_fixed. keeps (never_faults d)" "\<forall>(k, d) \<in> set request_fixed. keeps (never_faults d)"
  "\<forall>(k, d) \<in> set reply_variable. keeps d" "\<forall>(k, d) \<in> set request_variable. keeps d"
  by (simp_all add: reply_fixed_def request_fixed_def reply_variable_def request_variable_def
      keeps_fixed_replies keeps_fixed_requests keeps_variable keeps_faulting)

lemma table_keeps:
  "map_of reply_fixed k = Some d \<Longrightarrow> keeps (never_faults d)" "map_of request_fixed k = Some d \<Longrightarrow> keeps (never_faults d)"
  "map_of reply_variable k = Some e \<Longrightarrow> keeps e" "map_of request_variable k = Some e \<Longrightarrow> keeps e"
  using tables_keep by (auto dest!: map_of_SomeD)

lemma never_faults_keepsD: "keeps (never_faults d) \<Longrightarrow> d c pdu = (rc, c', q) \<Longrightarrow> engine_part c' = engine_part c \<and> same_but_payload pdu q"
  by (simp add: keeps_def never_faults_def)

text \<open>So the dispatchers keep them too.\<close>

lemma payload_fixed_keeps:
  "smb2_process_payload_fixed c pdu = (rc, c', q) \<Longrightarrow> engine_part c' = engine_part c \<and> same_but_payload pdu q"
  by (auto simp: smb2_process_payload_fixed_def smb2_process_request_payload_fixed_def smb2_process_reply_payload_fixed_def
      split: if_splits option.splits dest: never_faults_keepsD [OF keeps_fixed_replies(19)] never_faults_keepsD [OF table_keeps(1)] never_faults_keepsD [OF table_keeps(2)])

lemma payload_variable_keeps:
  "smb2_process_payload_variable c pdu = Some (rc, c', q) \<Longrightarrow> engine_part c' = engine_part c \<and> same_but_payload pdu q"
  by (auto simp: smb2_process_payload_variable_def smb2_process_request_payload_variable_def smb2_process_reply_payload_variable_def
      split: if_splits option.splits dest: never_faults_keepsD [OF keeps_variable(7)] keepsD [OF table_keeps(3)] keepsD [OF table_keeps(4)])

subsection \<open>Types of payloads\<close>

text \<open>
  \<open>payload\<close> is a \<open>void *\<close>: the decoder of the variable part and the callback cast it to the structure of the command. Which
  structure that is for each command; the others have no payload.
\<close>

datatype c_struct =
    S_freed | S_error | S_tree_connect_request | S_tree_connect_reply | S_close_request | S_close_reply
  | S_flush_request | S_logoff_request | S_echo_request | S_read_request | S_read_reply | S_write_request
  | S_write_reply | S_lock_request | S_session_setup_request | S_session_setup_reply | S_change_notify_request | S_change_notify_reply
  | S_create_request | S_create_reply | S_break | S_ioctl_request | S_ioctl_reply | S_set_info_request
  | S_query_directory_request | S_query_directory_reply | S_query_info_request | S_query_info_reply | S_negotiate_request | S_negotiate_reply

primrec struct_of :: "payload \<Rightarrow> c_struct" where
  "struct_of P_freed = S_freed"
| "struct_of (P_error x) = S_error"
| "struct_of (P_tree_connect_request x) = S_tree_connect_request"
| "struct_of (P_tree_connect_reply x) = S_tree_connect_reply"
| "struct_of (P_close_request x) = S_close_request"
| "struct_of (P_close_reply x) = S_close_reply"
| "struct_of (P_flush_request x) = S_flush_request"
| "struct_of (P_logoff_request x) = S_logoff_request"
| "struct_of (P_echo_request x) = S_echo_request"
| "struct_of (P_read_request x) = S_read_request"
| "struct_of (P_read_reply x) = S_read_reply"
| "struct_of (P_write_request x) = S_write_request"
| "struct_of (P_write_reply x) = S_write_reply"
| "struct_of (P_lock_request x) = S_lock_request"
| "struct_of (P_session_setup_request x) = S_session_setup_request"
| "struct_of (P_session_setup_reply x) = S_session_setup_reply"
| "struct_of (P_change_notify_request x) = S_change_notify_request"
| "struct_of (P_change_notify_reply x) = S_change_notify_reply"
| "struct_of (P_create_request x) = S_create_request"
| "struct_of (P_create_reply x) = S_create_reply"
| "struct_of (P_break x) = S_break"
| "struct_of (P_ioctl_request x) = S_ioctl_request"
| "struct_of (P_ioctl_reply x) = S_ioctl_reply"
| "struct_of (P_set_info_request x) = S_set_info_request"
| "struct_of (P_query_directory_request x) = S_query_directory_request"
| "struct_of (P_query_directory_reply x) = S_query_directory_reply"
| "struct_of (P_query_info_request x) = S_query_info_request"
| "struct_of (P_query_info_reply x) = S_query_info_reply"
| "struct_of (P_negotiate_request x) = S_negotiate_request"
| "struct_of (P_negotiate_reply x) = S_negotiate_reply"

definition reply_types :: "(u16 \<times> c_struct) list" where
  "reply_types =
     [(SMB2_NEGOTIATE, S_negotiate_reply), (SMB2_SESSION_SETUP, S_session_setup_reply), (SMB2_TREE_CONNECT,
      S_tree_connect_reply), (SMB2_CREATE, S_create_reply), (SMB2_CLOSE, S_close_reply), (SMB2_READ,
      S_read_reply), (SMB2_WRITE, S_write_reply), (SMB2_QUERY_DIRECTORY, S_query_directory_reply),
      (SMB2_CHANGE_NOTIFY, S_change_notify_reply), (SMB2_QUERY_INFO, S_query_info_reply), (SMB2_IOCTL,
      S_ioctl_reply), (SMB2_OPLOCK_BREAK, S_break)]"

definition request_types :: "(u16 \<times> c_struct) list" where
  "request_types =
     [(SMB2_NEGOTIATE, S_negotiate_request), (SMB2_SESSION_SETUP, S_session_setup_request), (SMB2_LOGOFF,
      S_logoff_request), (SMB2_TREE_CONNECT, S_tree_connect_request), (SMB2_CREATE, S_create_request),
      (SMB2_CLOSE, S_close_request), (SMB2_FLUSH, S_flush_request), (SMB2_READ, S_read_request), (SMB2_WRITE,
      S_write_request), (SMB2_ECHO, S_echo_request), (SMB2_LOCK, S_lock_request), (SMB2_QUERY_DIRECTORY,
      S_query_directory_request), (SMB2_CHANGE_NOTIFY, S_change_notify_request), (SMB2_QUERY_INFO,
      S_query_info_request), (SMB2_SET_INFO, S_set_info_request), (SMB2_IOCTL, S_ioctl_request),
      (SMB2_OPLOCK_BREAK, S_break)]"

definition payload_type :: "smb2_context \<Rightarrow> u16 \<Rightarrow> c_struct option" where
  "payload_type c cmd =
     (if smb2_is_server c then map_of request_types cmd
      else if smb2_is_error_response c then Some S_error else map_of reply_types cmd)"

definition leaves_payload :: "c_struct option \<Rightarrow> decoder \<Rightarrow> bool" where
  "leaves_payload t d \<longleftrightarrow> (\<forall>c pdu rc c' q. d c pdu = (rc, c', q) \<longrightarrow> 0 \<le> rc \<longrightarrow>
     (case t of None \<Rightarrow> p_payload q = p_payload pdu | Some s \<Rightarrow> \<exists>x. p_payload q = Some x \<and> struct_of x = s))"

lemma reply_payloads:
  "leaves_payload (Some S_negotiate_reply) smb2_process_negotiate_fixed"
  "leaves_payload (Some S_session_setup_reply) smb2_process_session_setup_fixed"
  "leaves_payload None smb2_process_logoff_fixed"
  "leaves_payload (Some S_tree_connect_reply) smb2_process_tree_connect_fixed"
  "leaves_payload None smb2_process_tree_disconnect_fixed"
  "leaves_payload (Some S_create_reply) smb2_process_create_fixed"
  "leaves_payload (Some S_close_reply) smb2_process_close_fixed"
  "leaves_payload None smb2_process_flush_fixed"
  "leaves_payload (Some S_read_reply) smb2_process_read_fixed"
  "leaves_payload (Some S_write_reply) smb2_process_write_fixed"
  "leaves_payload None smb2_process_echo_fixed"
  "leaves_payload None smb2_process_lock_fixed"
  "leaves_payload (Some S_query_directory_reply) smb2_process_query_directory_fixed"
  "leaves_payload (Some S_change_notify_reply) smb2_process_change_notify_fixed"
  "leaves_payload (Some S_query_info_reply) smb2_process_query_info_fixed"
  "leaves_payload None smb2_process_set_info_fixed"
  "leaves_payload (Some S_ioctl_reply) smb2_process_ioctl_fixed"
  "leaves_payload (Some S_break) smb2_process_oplock_break_fixed"
  "leaves_payload (Some S_error) smb2_process_error_fixed"
  by (auto simp: leaves_payload_def fixed_reply_defs process_fixed_def Let_def set_payload_def split: decoder_splits)

lemma request_payloads:
  "leaves_payload (Some S_negotiate_request) smb2_process_negotiate_request_fixed"
  "leaves_payload (Some S_session_setup_request) smb2_process_session_setup_request_fixed"
  "leaves_payload (Some S_logoff_request) smb2_process_logoff_request_fixed"
  "leaves_payload (Some S_tree_connect_request) smb2_process_tree_connect_request_fixed"
  "leaves_payload (Some S_create_request) smb2_process_create_request_fixed"
  "leaves_payload (Some S_close_request) smb2_process_close_request_fixed"
  "leaves_payload (Some S_flush_request) smb2_process_flush_request_fixed"
  "leaves_payload (Some S_read_request) smb2_process_read_request_fixed"
  "leaves_payload (Some S_write_request) smb2_process_write_request_fixed"
  "leaves_payload (Some S_echo_request) smb2_process_echo_request_fixed"
  "leaves_payload (Some S_lock_request) smb2_process_lock_request_fixed"
  "leaves_payload (Some S_query_directory_request) smb2_process_query_directory_request_fixed"
  "leaves_payload (Some S_change_notify_request) smb2_process_change_notify_request_fixed"
  "leaves_payload (Some S_query_info_request) smb2_process_query_info_request_fixed"
  "leaves_payload (Some S_set_info_request) smb2_process_set_info_request_fixed"
  "leaves_payload (Some S_ioctl_request) smb2_process_ioctl_request_fixed"
  "leaves_payload (Some S_break) smb2_process_oplock_break_request_fixed"
  "leaves_payload None no_payload"
  by (auto simp: leaves_payload_def fixed_request_defs no_payload_def process_fixed_def Let_def set_payload_def split: decoder_splits)

definition keeps_type :: "faulting_decoder \<Rightarrow> bool" where
  "keeps_type d \<longleftrightarrow> (\<forall>c pdu rc c' q. d c pdu = Some (rc, c', q) \<longrightarrow> 0 \<le> rc \<longrightarrow>
     map_option struct_of (p_payload q) = map_option struct_of (p_payload pdu))"

lemma variable_types:
  "keeps_type (never_faults smb2_process_negotiate_variable)"
  "keeps_type (never_faults smb2_process_session_setup_variable)"
  "keeps_type (never_faults smb2_process_create_variable)"
  "keeps_type (never_faults smb2_process_read_variable)"
  "keeps_type (never_faults smb2_process_change_notify_variable)"
  "keeps_type (never_faults smb2_process_oplock_break_variable)"
  "keeps_type (never_faults smb2_process_error_variable)"
  "keeps_type (never_faults smb2_process_negotiate_request_variable)"
  "keeps_type (never_faults smb2_process_session_setup_request_variable)"
  "keeps_type (never_faults smb2_process_tree_connect_request_variable)"
  "keeps_type (never_faults smb2_process_create_request_variable)"
  "keeps_type (never_faults smb2_process_read_request_variable)"
  "keeps_type (never_faults smb2_process_write_request_variable)"
  "keeps_type (never_faults smb2_process_lock_request_variable)"
  "keeps_type (never_faults smb2_process_set_info_request_variable)"
  "keeps_type (never_faults smb2_process_oplock_break_request_variable)"
  "keeps_type (never_faults no_payload)"
  "keeps_type smb2_process_query_directory_variable"
  "keeps_type smb2_process_query_info_variable"
  "keeps_type smb2_process_ioctl_variable"
  "keeps_type smb2_process_query_directory_request_variable"
  "keeps_type smb2_process_query_info_request_variable"
  "keeps_type smb2_process_ioctl_request_variable"
  by (auto simp: keeps_type_def never_faults_def variable_defs faulting_defs no_payload_def Let_def set_payload_def
      split: decoder_splits)

lemma tables_typed:
  "\<forall>(k, d) \<in> set reply_fixed. leaves_payload (map_of reply_types k) d"
  "\<forall>(k, d) \<in> set request_fixed. leaves_payload (map_of request_types k) d"
  "\<forall>(k, d) \<in> set reply_variable. keeps_type d" "\<forall>(k, d) \<in> set request_variable. keeps_type d"
  by (simp_all add: reply_fixed_def request_fixed_def reply_variable_def request_variable_def reply_types_def request_types_def
      reply_payloads request_payloads variable_types)

lemma table_typed:
  "map_of reply_fixed k = Some d \<Longrightarrow> leaves_payload (map_of reply_types k) d"
  "map_of request_fixed k = Some d \<Longrightarrow> leaves_payload (map_of request_types k) d"
  "map_of reply_variable k = Some e \<Longrightarrow> keeps_type e" "map_of request_variable k = Some e \<Longrightarrow> keeps_type e"
  using tables_typed by (auto dest!: map_of_SomeD)

lemma unknown_commands: "map_of reply_fixed k = None \<Longrightarrow> map_of reply_types k = None"
  by (auto simp: reply_fixed_def reply_types_def split: if_splits)

lemma leaves_payloadD:
  "leaves_payload t d \<Longrightarrow> d c pdu = (rc, c', q) \<Longrightarrow> 0 \<le> rc \<Longrightarrow>
     (case t of None \<Rightarrow> p_payload q = p_payload pdu | Some s \<Rightarrow> \<exists>x. p_payload q = Some x \<and> struct_of x = s)"
  by (simp add: leaves_payload_def)

lemma fixed_typed:
  assumes "smb2_process_payload_fixed c pdu = (rc, c', q)" "0 \<le> rc"
  shows "case payload_type c (h_command (p_header pdu)) of
           None \<Rightarrow> p_payload q = p_payload pdu | Some s \<Rightarrow> \<exists>x. p_payload q = Some x \<and> struct_of x = s"
  using assms leaves_payloadD [OF reply_payloads(19)]
  by (auto simp: smb2_process_payload_fixed_def smb2_process_request_payload_fixed_def smb2_process_reply_payload_fixed_def
      payload_type_def unknown_commands
      split: if_splits option.splits dest: leaves_payloadD [OF table_typed(1)] leaves_payloadD [OF table_typed(2)])

lemma keeps_typeD:
  "keeps_type d \<Longrightarrow> d c pdu = Some (rc, c', q) \<Longrightarrow> 0 \<le> rc \<Longrightarrow>
     map_option struct_of (p_payload q) = map_option struct_of (p_payload pdu)"
  by (simp add: keeps_type_def)

lemma variable_typed:
  assumes "smb2_process_payload_variable c pdu = Some (rc, c', q)" "0 \<le> rc"
  shows "map_option struct_of (p_payload q) = map_option struct_of (p_payload pdu)"
  using assms keeps_typeD [OF variable_types(7)]
  by (auto simp: smb2_process_payload_variable_def smb2_process_request_payload_variable_def smb2_process_reply_payload_variable_def
      never_faults_def
      split: if_splits option.splits dest: keeps_typeD [OF table_typed(3)] keeps_typeD [OF table_typed(4)])

subsection \<open>Properties\<close>

lemma payload_type_cong: "c_is_server d = c_is_server c \<Longrightarrow> c_hdr d = c_hdr c \<Longrightarrow> payload_type d cmd = payload_type c cmd"
  by (simp add: payload_type_def smb2_is_error_response_def smb2_is_server_def)

lemma payload_type_kept: "engine_part d = engine_part c \<Longrightarrow> payload_type d cmd = payload_type c cmd"
  by (rule payload_type_cong) (auto simp: engine_part_def)

lemma same_but_payload_header: "same_but_payload p q \<Longrightarrow> p_header q = p_header p"
  by (cases p; cases q) (simp add: same_but_payload_def)


text \<open>C32. The untyped \<open>payload\<close> always points to the structure that its command means: when the fixed decoder accepts a
  message, the payload is the structure of that command, of an error reply when the status is an error, or untouched
  when the command has none; and the variable decoder, which casts it to that structure, leaves one of the same type
  to the callback.\<close>

theorem payload_types:
  assumes "smb2_process_payload_fixed c pdu = (rc, d, q)" "0 \<le> rc"
  shows "case payload_type c (h_command (p_header pdu)) of
           None \<Rightarrow> p_payload q = p_payload pdu
         | Some s \<Rightarrow> (\<exists>x. p_payload q = Some x \<and> struct_of x = s) \<and>
             (\<forall>b rv e r. smb2_process_payload_variable (receiving b d) q = Some (rv, e, r) \<longrightarrow> 0 \<le> rv \<longrightarrow>
                payload_type e (h_command (p_header r)) = Some s \<and> (\<exists>x. p_payload r = Some x \<and> struct_of x = s))"
proof -
  note f = fixed_typed [OF assms] and k = payload_fixed_keeps [OF assms(1)]
  have t: "payload_type (receiving b d) cmd = payload_type c cmd" for b cmd
    using k by (intro payload_type_cong) (auto simp: engine_part_def receiving_def)
  have v: "payload_type e (h_command (p_header r)) = payload_type c (h_command (p_header pdu)) \<and>
      map_option struct_of (p_payload r) = map_option struct_of (p_payload q)"
    if "smb2_process_payload_variable (receiving b d) q = Some (rv, e, r)" "0 \<le> rv" for b rv e r
    using variable_typed [OF that] payload_variable_keeps [OF that(1)] k t payload_type_kept [of e "receiving b d"]
      same_but_payload_header [of pdu q] same_but_payload_header [of q r]
    by simp
  show ?thesis using f v by (fastforce split: option.splits)
qed

text \<open>A close reply, received by a client.\<close>

definition close_answer :: smb2_context where
  "close_answer = receiving (le16 60 @ replicate 58 0) zero_context"

theorem payload_types_witness:
  "\<exists>d q x. smb2_process_payload_fixed close_answer (zero_pdu\<lparr>p_header := zero_header\<lparr>h_command := SMB2_CLOSE\<rparr>\<rparr>) = (0, d, q) \<and>
     p_payload q = Some x \<and> struct_of x = S_close_reply"
proof -
  let ?p = "zero_pdu\<lparr>p_header := zero_header\<lparr>h_command := SMB2_CLOSE\<rparr>\<rparr>"
  obtain rc d q where e: "smb2_process_payload_fixed close_answer ?p = (rc, d, q)"
    by (cases "smb2_process_payload_fixed close_answer ?p") auto
  have "fst (smb2_process_payload_fixed close_answer ?p) = 0" by code_simp
  with e have rc: "rc = 0" by simp
  have "payload_type close_answer SMB2_CLOSE = Some S_close_reply" by code_simp
  with payload_types [OF e] rc e show ?thesis by fastforce
qed


end
