(* ===== verification/Smb2_Recv.thy ===== *)
theory Smb2_Recv
  imports Smb2_Queue Smb2_Dispatch
begin

text \<open>
  Receiving: the state machine \<open>smb2_read_data\<close> and its
  byte sources of \<^verbatim>\<open>lib/socket.c\<close> and \<open>smb3_decrypt_pdu\<close> of \<^verbatim>\<open>lib/smb3-seal.c\<close>.

  One message is read in phases, each of which fills the vectors that have been added so far: its length, the
  header, the fixed part, the variable part and padding. A result \<open>None\<close> is an access outside a block or through
  \<open>NULL\<close>. The model differs from the code in two representations: each received header has a vector of its own,
  where the code reads every header of a chain into the same 64 bytes of the context, and what is read into a
  buffer of the application is seen in the received vectors, not in the application's.
\<close>

subsection \<open>Byte sources\<close>

text \<open>
  A read is offered the rooms of the vectors that are not yet full. \<open>readv\<close> fills as many of them as it has
  bytes for; what it does not take stays in the script. A receive callback of the application gets the first room only, and one that returns
  more than that has its answer refused. Decrypted bytes come from \<open>enc\<close>.
\<close>

datatype source = From_socket | From_ext | From_buf

datatype read_count = Got bytes | Would_block | Failed

definition smb2_readv_from_socket :: "smb2_context \<Rightarrow> nat list \<Rightarrow> read_count \<times> smb2_context" where
  "smb2_readv_from_socket c rooms =
     (case c_rd_script c of
        [] \<Rightarrow> (Would_block, c)
      | Rd_again # s \<Rightarrow> (Would_block, c\<lparr>c_rd_script := s\<rparr>)
      | Rd_closed # s \<Rightarrow> (Got [], c\<lparr>c_rd_script := s\<rparr>)
      | Rd_error # s \<Rightarrow> (Failed, c\<lparr>c_rd_script := s\<rparr>)
      | Rd_data bs # s \<Rightarrow>
          (let n = sum_list rooms in
           if length bs \<le> n then (Got bs, c\<lparr>c_rd_script := s\<rparr>)
           else (Got (take n bs), c\<lparr>c_rd_script := Rd_data (drop n bs) # s\<rparr>)))"

definition smb2_recv_from_ext :: "smb2_context \<Rightarrow> nat list \<Rightarrow> read_count \<times> smb2_context" where
  "smb2_recv_from_ext c rooms =
     (if \<not> c_ext_connected c then (Would_block, c)
      else if \<not> c_ext_recv c then (Failed, c)
      else
        (let want = min (hd rooms) (nat INT_MAX) in
         if rooms = [] \<or> want = 0 then (Got [], c)
         else case c_rd_script c of
             [] \<Rightarrow> (Would_block, c)
           | Rd_again # s \<Rightarrow> (Would_block, c\<lparr>c_rd_script := s\<rparr>)
           | Rd_closed # s \<Rightarrow> (Got [], c\<lparr>c_rd_script := s\<rparr>)
           | Rd_error # s \<Rightarrow> (Failed, c\<lparr>c_rd_script := s\<rparr>)
           | Rd_data bs # s \<Rightarrow>
             if length bs > want
             then (Failed, smb2_set_error ''external recv returned more bytes (%d) than requested (%d)'' (c\<lparr>c_rd_script := s\<rparr>))
             else (Got bs, c\<lparr>c_rd_script := s\<rparr>)))"

definition smb2_readv_from_buf :: "smb2_context \<Rightarrow> nat list \<Rightarrow> read_count \<times> smb2_context" where
  "smb2_readv_from_buf c rooms =
     (let enc = (case c_enc c of None \<Rightarrow> [] | Some b \<Rightarrow> b); bs = take (sum_list rooms) (drop (c_enc_pos c) enc) in
      (Got bs, c\<lparr>c_enc_pos := c_enc_pos c + length bs\<rparr>))"

definition read_from :: "source \<Rightarrow> smb2_context \<Rightarrow> nat list \<Rightarrow> read_count \<times> smb2_context" where
  "read_from src =
     (case src of From_socket \<Rightarrow> smb2_readv_from_socket | From_ext \<Rightarrow> smb2_recv_from_ext | From_buf \<Rightarrow> smb2_readv_from_buf)"

text \<open>The rooms left after \<open>num_done\<close> bytes. The code looks for them without counting the vectors: when they are all full it
  runs past their end.\<close>

fun rooms_left :: "nat \<Rightarrow> nat list \<Rightarrow> nat list option" where
  "rooms_left num_done [] = None"
| "rooms_left num_done (l # ls) = (if num_done \<ge> l then rooms_left (num_done - l) ls else Some ((l - num_done) # ls))"

definition vector_lengths :: "smb2_io_vectors \<Rightarrow> nat list" where
  "vector_lengths v = map (length \<circ> iov_buf) (v_iov v)"

fun store_bytes :: "nat \<Rightarrow> bytes \<Rightarrow> smb2_iovec list \<Rightarrow> smb2_iovec list" where
  "store_bytes pos bs [] = []"
| "store_bytes pos bs (i # is) =
     (let l = length (iov_buf i) in
      if pos \<ge> l then i # store_bytes (pos - l) bs is
      else i\<lparr>iov_buf := put_at pos (take (l - pos) bs) (iov_buf i)\<rparr> # store_bytes 0 (drop (l - pos) bs) is)"

definition store_input :: "bytes \<Rightarrow> smb2_context \<Rightarrow> smb2_context" where
  "store_input bs c =
     (let v = c_in c in
      c\<lparr>c_in := v\<lparr>v_iov := store_bytes (v_num_done v) bs (v_iov v), v_num_done := v_num_done v + length bs\<rparr>\<rparr>)"

text \<open>How much a source may still give: the loops below end because every turn takes some of it.\<close>

fun script_size :: "read_result list \<Rightarrow> nat" where
  "script_size [] = 0"
| "script_size (Rd_data bs # s) = Suc (length bs) + script_size s"
| "script_size (_ # s) = Suc (script_size s)"

definition source_size :: "source \<Rightarrow> smb2_context \<Rightarrow> nat" where
  "source_size src c =
     (if src = From_buf then (case c_enc c of None \<Rightarrow> 0 | Some b \<Rightarrow> length b - c_enc_pos c) else script_size (c_rd_script c))"

lemma readv_from_socket_size:
  assumes "smb2_readv_from_socket c rooms = (Got bs, c')" "bs \<noteq> []"
  shows "script_size (c_rd_script c') < script_size (c_rd_script c) \<and> c_enc c' = c_enc c"
proof -
  define n where "n = sum_list rooms"
  show ?thesis using assms
    by (auto simp: smb2_readv_from_socket_def Let_def n_def [symmetric] split: list.splits read_result.splits if_splits)
qed

lemma readv_from_buf_size:
  assumes "smb2_readv_from_buf c rooms = (Got bs, c')" "bs \<noteq> []"
  shows "source_size From_buf c' < source_size From_buf c \<and> c_enc c' = c_enc c"
proof -
  define n where "n = sum_list rooms"
  show ?thesis using assms
    by (cases "c_enc c") (auto simp: smb2_readv_from_buf_def source_size_def Let_def n_def [symmetric])
qed

lemma read_from_size:
  assumes "read_from src c rooms = (Got bs, c')" "bs \<noteq> []"
  shows "source_size src c' < source_size src c \<and> c_enc c' = c_enc c"
proof (cases src)
  case From_ext
  with assms show ?thesis
    by (auto simp: read_from_def smb2_recv_from_ext_def source_size_def Let_def split: list.splits read_result.splits if_splits)
next
  case From_buf
  with assms readv_from_buf_size show ?thesis by (simp add: read_from_def)
qed (use assms readv_from_socket_size in \<open>auto simp: read_from_def source_size_def\<close>)

subsection \<open>Phases\<close>

text \<open>
  After a phase the function returns, or there is more to read (with \<open>iov_offset\<close>, the number of vectors that belong to
  earlier messages of the chain), or an encrypted message has been opened and is read from \<open>enc\<close>.
\<close>

datatype phase = Finish int smb2_context | More nat smb2_context | Opened smb2_context

definition fail_phase :: "string \<Rightarrow> smb2_context \<Rightarrow> phase option" where
  "fail_phase e c = Some (Finish (-1) (smb2_set_error e c))"

text \<open>A C \<open>int\<close> computed from sizes, and as the argument of \<open>malloc\<close>.\<close>

definition as_int :: "int \<Rightarrow> int" where
  "as_int n = sint (word_of_int n :: u32)"

definition alloc_size :: "int \<Rightarrow> nat" where
  "alloc_size n = nat (n mod 2 ^ 64)"

definition more_input :: "recv_state \<Rightarrow> string \<Rightarrow> string \<Rightarrow> int \<Rightarrow> nat \<Rightarrow> smb2_context \<Rightarrow> phase option" where
  "more_input st no_mem no_vec len off c =
     (let c = c\<lparr>c_recv_state := st\<rparr>; n = alloc_size len in
      case new_iovector no_mem no_vec n (replicate n (ucast (c_junk c))) c (c_in c) of
        (c, None) \<Rightarrow> Some (Finish (-1) c)
      | (c, Some v) \<Rightarrow> Some (More off (c\<lparr>c_in := v\<rparr>)))"

definition add_header :: "string \<Rightarrow> nat \<Rightarrow> smb2_context \<Rightarrow> phase option" where
  "add_header e off c =
     (case smb2_add_iovector c (c_in c) (replicate 64 (ucast (c_junk c))) NoFree of
        (c, None) \<Rightarrow> fail_phase e c
      | (c, Some v) \<Rightarrow> Some (More off (c\<lparr>c_in := v\<rparr>)))"

text \<open>
  A callback of the application may change the context, but not what belongs to the receiver: it neither sees nor
  touches the transport's bytes and the message that is being read.
\<close>

type_synonym application = "event \<Rightarrow> smb2_context \<Rightarrow> smb2_context"

definition run_callback :: "application \<Rightarrow> smb2_pdu \<Rightarrow> smb2_context \<Rightarrow> smb2_context" where
  "run_callback app pdu c =
     (let e = Ev_callback (p_cb pdu) (p_cb_data pdu) (h_status (c_hdr c)) (p_payload pdu);
          c1 = app e ((log_event e c)\<lparr>c_rd_script := [], c_enc := None, c_enc_pos := 0, c_in := no_vectors\<rparr>)
      in c1\<lparr>c_rd_script := c_rd_script c, c_enc := c_enc c, c_enc_pos := c_enc_pos c, c_in := c_in c,
            c_recv_state := c_recv_state c, c_spl := c_spl c, c_hdr := c_hdr c, c_payload_offset := c_payload_offset c\<rparr>)"

definition set_num_done :: "nat \<Rightarrow> smb2_context \<Rightarrow> smb2_context" where
  "set_num_done n c = c\<lparr>c_in := (c_in c)\<lparr>v_num_done := n\<rparr>\<rparr>"

definition recv_spl :: "smb2_context \<Rightarrow> phase option" where
  "recv_spl c =
     add_header ''Too many I/O vectors when adding header'' 0
       (c\<lparr>c_spl := rd_le (rev (iov_buf (v_iov (c_in c) ! 0))), c_recv_state := SMB2_RECV_HEADER\<rparr>)"

text \<open>A transform header is 52 bytes long: the rest of the 64 bytes that have been read belongs to the encrypted message.\<close>

definition recv_transform :: "nat \<Rightarrow> smb2_context \<Rightarrow> phase option" where
  "recv_transform off c =
     (let v = c_in c; i = last (v_iov v); b = iov_buf i; len = as_int (int (unat (c_spl c)) - 52);
          v = v\<lparr>v_iov := butlast (v_iov v) @ [i\<lparr>iov_buf := take 52 b\<rparr>], v_total_size := v_total_size v - 12\<rparr>;
          n = alloc_size len; c = c\<lparr>c_in := v\<rparr>
      in case new_iovector ''malloc failed while adding TRFM payload'' ''Failed to add iovector for TRFM payload'' n
                (replicate n (ucast (c_junk c))) c v of
           (c, None) \<Rightarrow> Some (Finish (-1) c)
         | (c, Some v) \<Rightarrow>
           if n < 12 then None
           else Some (More off (c\<lparr>c_in := map_last_iov (put_at 0 (drop 52 b)) v, c_recv_state := SMB2_RECV_TRFM\<rparr>)))"

text \<open>A server drains its input before it answers an SMB1 negotiation.\<close>

function flush_input :: "source \<Rightarrow> smb2_context \<Rightarrow> smb2_context" where
  "flush_input src c =
     (case read_from src c [32] of
        (Got bs, c') \<Rightarrow> if bs = [] then c' else flush_input src c'
      | (_, c') \<Rightarrow> c')"
  by pat_completeness auto
termination
  by (relation "measure (\<lambda>(src, c). source_size src c)") (auto dest: read_from_size [OF sym])

declare flush_input.simps [simp del]

definition recv_smb1 :: "application \<Rightarrow> source \<Rightarrow> nat \<Rightarrow> smb2_context \<Rightarrow> phase option" where
  "recv_smb1 app src off c =
     (let c = flush_input src c in
      case c_pdu c of
        None \<Rightarrow> None
      | Some pdu \<Rightarrow>
        if off \<noteq> 0 then None
        else (let c = run_callback app pdu (set_num_done 0 (c\<lparr>c_waitqueue := c_waitqueue c @ [pdu]\<rparr>))
              in Some (Finish 0 (c\<lparr>c_pdu := c_next_pdu c, c_next_pdu := None\<rparr>))))"

text \<open>What is left of a message whose payload is not looked at.\<close>

definition rest_length :: "source \<Rightarrow> smb2_context \<Rightarrow> int" where
  "rest_length src c =
     as_int (int (unat (c_spl c)) - int (v_num_done (c_in c))) + (if src = From_buf then 0 else int SMB2_SPL_SIZE)"

definition expect_fixed :: "smb2_pdu \<Rightarrow> nat \<Rightarrow> smb2_context \<Rightarrow> phase option" where
  "expect_fixed pdu off c =
     (let len = smb2_get_fixed_size c pdu in
      if len < 0 then fail_phase ''can not determine fixed size'' c
      else more_input SMB2_RECV_FIXED ''malloc failed while adding FIXED payload'' [] (len div 2 * 2) off c)"

text \<open>A server: the PDU it has prepared takes over the identification of the request.\<close>

definition recv_request :: "nat \<Rightarrow> smb2_context \<Rightarrow> phase option" where
  "recv_request off c =
     (case c_pdu c of
        None \<Rightarrow> fail_phase ''no pdu for request'' c
      | Some pdu \<Rightarrow>
        (let hdr = c_hdr c;
             h = (p_header pdu)\<lparr>h_message_id := h_message_id hdr\<rparr>;
             h = (if h_flags hdr AND SMB2_FLAGS_ASYNC_COMMAND = 0 then set_tree_id (h_tree_id hdr) h else h);
             h = (if h_command hdr > SMB2_SESSION_SETUP then h\<lparr>h_command := h_command hdr\<rparr> else h);
             h = h\<lparr>h_credit_charge := h_credit_charge hdr, h_credit_request_response := h_credit_request_response hdr\<rparr>;
             pdu = pdu\<lparr>p_header := h\<rparr>
         in expect_fixed pdu off (c\<lparr>c_pdu := Some pdu\<rparr>)))"

text \<open>The library's own callback \<open>smb2_oplock_break_notify\<close>.\<close>

definition OPLOCK_BREAK_NOTIFY :: nat where "OPLOCK_BREAK_NOTIFY = 0"

definition is_break_notification :: "smb2_header \<Rightarrow> bool" where
  "is_break_notification h \<longleftrightarrow> h_command h = SMB2_OPLOCK_BREAK \<and> h_message_id h = 0xffffffffffffffff"

definition SMB2_MAX_PDU_SIZE :: int where "SMB2_MAX_PDU_SIZE = 16 * 1024 * 1024"

definition recv_reply :: "source \<Rightarrow> nat \<Rightarrow> smb2_context \<Rightarrow> phase option" where
  "recv_reply src off c =
     (if is_break_notification (c_hdr c) then
        (case c_pdu c of
           Some pdu \<Rightarrow> expect_fixed pdu off c
         | None \<Rightarrow>
           (case smb2_allocate_pdu c SMB2_OPLOCK_BREAK OPLOCK_BREAK_NOTIFY 0 of
              (c, None) \<Rightarrow> fail_phase ''can not alloc pdu'' c
            | (c, Some pdu) \<Rightarrow> expect_fixed pdu off (c\<lparr>c_pdu := Some pdu\<rparr>)))
      else
        (let c = (case c_pdu c of None \<Rightarrow> c | Some p \<Rightarrow> (smb2_free_pdu c [p])\<lparr>c_pdu := None\<rparr>) in
         case smb2_find_pdu c (h_message_id (c_hdr c)) of
           None \<Rightarrow>
             if rest_length src c > SMB2_MAX_PDU_SIZE then fail_phase ''no matching PDU found'' c
             else more_input SMB2_RECV_UNKNOWN ''malloc failed while adding UNKNOWN padding'' [] (rest_length src c) off c
         | Some pdu \<Rightarrow>
           (let c = c\<lparr>c_pdu := Some pdu\<rparr> in
            if p_prev_compound_mid pdu \<noteq> 0 \<and> smb2_find_pdu c (p_prev_compound_mid pdu) \<noteq> None
            then fail_phase ''compound reply received out of order'' c
            else expect_fixed pdu off (c\<lparr>c_waitqueue := list_remove p_ptr (p_ptr pdu) (c_waitqueue c)\<rparr>))))"

definition recv_header :: "application \<Rightarrow> source \<Rightarrow> nat \<Rightarrow> smb2_context \<Rightarrow> phase option" where
  "recv_header app src off c =
     (if take 4 (in_buf c) = xfer then recv_transform off c
      else
        (case smb2_decode_header c (in_buf c) (c_hdr c) of
           (rc, c, hdr) \<Rightarrow>
             (let c = c\<lparr>c_hdr := hdr\<rparr>; server = smb2_is_server c in
              if rc \<noteq> 0 then fail_phase ''Failed to decode smb2 header: %s'' c
              else if server \<and> h_command hdr = SMB1_NEGOTIATE then recv_smb1 app src off c
              else
                (let c = c\<lparr>c_payload_offset := v_num_done (c_in c)\<rparr>;
                     c = (if server then c else c\<lparr>c_credits := c_credits c + int (unat (h_credit_request_response hdr))\<rparr>);
                     reply = h_flags hdr AND SMB2_FLAGS_SERVER_TO_REDIR \<noteq> 0
                 in if \<not> server \<and> \<not> reply then fail_phase ''received non-reply'' c
                    else if server \<and> reply then fail_phase ''received non-request'' c
                    else if h_status hdr = SMB2_STATUS_PENDING
                    then more_input SMB2_RECV_PAD ''malloc failed while adding PENDING padding'' [] (rest_length src c) off c
                    else if server then recv_request off c else recv_reply src off c))))"

subsection \<open>The end of a message\<close>

definition recv_pending :: "application \<Rightarrow> smb2_context \<Rightarrow> phase option" where
  "recv_pending app c =
     (let c = (if c_passthrough c
               then (case smb2_find_pdu c (h_message_id (c_hdr c)) of
                       None \<Rightarrow> smb2_set_error ''no matching PDU found'' c
                     | Some pdu \<Rightarrow> run_callback app pdu c)
               else c)
      in Some (Finish 0 (set_num_done 0 c)))"

text \<open>The signature is that of the vectors from the header of this message on.\<close>

definition check_signature :: "nat \<Rightarrow> smb2_context \<Rightarrow> (int \<times> smb2_context) option" where
  "check_signature off c =
     (if c_sign c \<and> h_flags (c_hdr c) AND SMB2_FLAGS_SIGNED \<noteq> 0 \<and> h_command (c_hdr c) \<noteq> SMB2_SESSION_SETUP
      then (let v = c_in c; iov = drop (1 + off) (v_iov v) in
            if iov = [] \<or> length (iov_buf (hd iov)) < 64 then None
            else (case verify_signature c iov of
                    (rc, c, iov) \<Rightarrow> Some (rc, c\<lparr>c_in := v\<lparr>v_iov := take (1 + off) (v_iov v) @ iov\<rparr>\<rparr>)))
      else Some (0, c))"

definition complete_pdu :: "application \<Rightarrow> smb2_pdu \<Rightarrow> smb2_context \<Rightarrow> smb2_context" where
  "complete_pdu app pdu c =
     (if smb2_is_server c
      then (let c = run_callback app pdu (c\<lparr>c_waitqueue := c_waitqueue c @ [pdu]\<rparr>) in c\<lparr>c_pdu := c_next_pdu c, c_next_pdu := None\<rparr>)
      else (let c = run_callback app pdu c; c = (if p_caller_frees_pdu pdu then c else smb2_free_pdu c [pdu]) in c\<lparr>c_pdu := None\<rparr>))"

definition recv_done :: "application \<Rightarrow> nat \<Rightarrow> smb2_context \<Rightarrow> phase option" where
  "recv_done app off c =
     (if length (v_iov (c_in c)) < 2 then fail_phase ''Too few io vectors in received PDU.'' c
      else if h_status (c_hdr c) = SMB2_STATUS_PENDING then recv_pending app c
      else
        (case check_signature off c of
           None \<Rightarrow> None
         | Some (rc, c) \<Rightarrow>
           if rc < 0 then Some (Finish (-1) c)
           else
             (case c_pdu c of
                None \<Rightarrow> None
              | Some pdu \<Rightarrow>
                (let chained = h_next_command (c_hdr c) \<noteq> 0; c = complete_pdu app pdu c in
                 if chained
                 then add_header ''Too many I/O vectors when adding chained header'' (length (v_iov (c_in c)) - 1)
                        (c\<lparr>c_recv_state := SMB2_RECV_HEADER\<rparr>)
                 else Some (Finish 0 (set_num_done 0 c))))))"

subsection \<open>Payloads\<close>

definition pad_length :: "smb2_context \<Rightarrow> int" where
  "pad_length c =
     (let num_done = int (v_num_done (c_in c)); next = int (unat (h_next_command (c_hdr c))) in
      if next \<noteq> 0 then as_int (next - (64 + num_done - int (c_payload_offset c)))
      else as_int (int (unat (c_spl c)) + int SMB2_SPL_SIZE - num_done) - (if c_enc c = None then 0 else int SMB2_SPL_SIZE))"

definition recv_padding :: "string \<Rightarrow> string \<Rightarrow> application \<Rightarrow> nat \<Rightarrow> smb2_context \<Rightarrow> phase option" where
  "recv_padding negative no_vec app off c =
     (let len = pad_length c in
      if len < 0 then fail_phase negative c
      else if len > 0 then more_input SMB2_RECV_PAD ''malloc failed while adding PAD'' no_vec len off c
      else recv_done app off c)"

text \<open>The application's buffers come first: \<open>Inl\<close> when no vector is left, else what they have no room for.\<close>

fun user_vectors :: "smb2_iovec list \<Rightarrow> nat \<Rightarrow> smb2_context \<Rightarrow> smb2_context + nat \<times> smb2_context" where
  "user_vectors [] len c = Inr (len, c)"
| "user_vectors (i # is) len c =
     (let num = min (length (iov_buf i)) len in
      case smb2_add_iovector c (c_in c) (take num (iov_buf i)) NoFree of
        (c, None) \<Rightarrow> Inl c
      | (c, Some v) \<Rightarrow>
        (let c = c\<lparr>c_in := v\<rparr> in if len - num = 0 then Inr (0, c) else user_vectors is (len - num) c))"

definition recv_fixed :: "application \<Rightarrow> nat \<Rightarrow> smb2_context \<Rightarrow> phase option" where
  "recv_fixed app off c =
     (case c_pdu c of
        None \<Rightarrow> None
      | Some pdu \<Rightarrow>
        (case smb2_process_payload_fixed c pdu of
           (len, c, pdu) \<Rightarrow>
             (let c = c\<lparr>c_pdu := Some pdu\<rparr> in
              if len < 0 then fail_phase ''Failed to parse fixed part of command payload. %s'' c
              else if len = 0
              then recv_padding ''Negative number of PAD bytes encountered during PDU decode offixed payload'' [] app off c
              else
                (case user_vectors (v_iov (p_in pdu)) (nat len) c of
                   Inl c \<Rightarrow> Some (Finish (-1) c)
                 | Inr (len, c) \<Rightarrow>
                   if len = 0 then Some (More off (c\<lparr>c_recv_state := SMB2_RECV_VARIABLE\<rparr>))
                   else more_input SMB2_RECV_VARIABLE ''malloc failed while adding VARIABLE tail'' [] (int len) off c))))"

definition recv_variable :: "application \<Rightarrow> nat \<Rightarrow> smb2_context \<Rightarrow> phase option" where
  "recv_variable app off c =
     (case c_pdu c of
        None \<Rightarrow> None
      | Some pdu \<Rightarrow>
        (case smb2_process_payload_variable c pdu of
           None \<Rightarrow> None
         | Some (rc, c, pdu) \<Rightarrow>
           (let c = c\<lparr>c_pdu := Some pdu\<rparr> in
            if rc < 0 then fail_phase ''Failed to parse variable part of command payload. %s'' c
            else recv_padding ''Negative number of PAD bytes encountered during PDU decode ofvariable payload''
                   ''Failed to add iovector for PAD'' app off c)))"

subsection \<open>Encrypted messages\<close>

text \<open>\<open>smb3_decrypt_pdu\<close> up to the read from the buffer: the plaintext becomes the source of one message.\<close>

definition smb3_decrypt_pdu :: "smb2_context \<Rightarrow> phase option" where
  "smb3_decrypt_pdu c =
     (let vs = v_iov (c_in c); hdr = iov_buf (vs ! (length vs - 2)); payload = in_buf c in
      case transform_decrypt c hdr payload of
        (bad, plain) \<Rightarrow>
          if bad then Some (Finish (-1) (smb2_set_error ''Failed to decrypt PDU'' c))
          else Some (Opened (c\<lparr>c_enc := Some plain, c_enc_pos := 0, c_spl := of_nat (length plain),
                 c_recv_state := SMB2_RECV_HEADER,
                 c_in := \<lparr>v_num_done = 0, v_total_size = 64,
                          v_iov = [\<lparr>iov_buf = replicate 64 (ucast (c_junk c)), iov_free = NoFree\<rparr>]\<rparr>\<rparr>)))"

definition recv_trfm :: "smb2_context \<Rightarrow> phase option" where
  "recv_trfm c =
     (case smb3_decrypt_pdu (set_num_done 0 c) of
        Some (Finish rc c) \<Rightarrow> fail_phase ''Failed to decrypyt pdu'' c
      | r \<Rightarrow> r)"

definition recv_phase :: "application \<Rightarrow> source \<Rightarrow> nat \<Rightarrow> smb2_context \<Rightarrow> phase option" where
  "recv_phase app src off c =
     (case c_recv_state c of
        SMB2_RECV_SPL \<Rightarrow> recv_spl c
      | SMB2_RECV_HEADER \<Rightarrow> recv_header app src off c
      | SMB2_RECV_FIXED \<Rightarrow> recv_fixed app off c
      | SMB2_RECV_VARIABLE \<Rightarrow> recv_variable app off c
      | SMB2_RECV_PAD \<Rightarrow> recv_done app off c
      | SMB2_RECV_TRFM \<Rightarrow> recv_trfm c
      | SMB2_RECV_UNKNOWN \<Rightarrow> Some (Finish 0 (set_num_done 0 c)))"

subsection \<open>What the phases leave alone\<close>

text \<open>Only reading consumes the source: no phase after which there is more to read touches it, and the others at most
  drain it.\<close>

definition source_view :: "smb2_context \<Rightarrow> read_result list \<times> bytes option \<times> nat" where
  "source_view c = (c_rd_script c, c_enc c, c_enc_pos c)"

definition drains :: "source \<Rightarrow> smb2_context \<Rightarrow> smb2_context \<Rightarrow> bool" where
  "drains src c d \<longleftrightarrow> (if src = From_buf then c_rd_script d = c_rd_script c
                     else script_size (c_rd_script d) \<le> script_size (c_rd_script c))"

definition keeps_source :: "source \<Rightarrow> smb2_context \<Rightarrow> phase option \<Rightarrow> bool" where
  "keeps_source src c r \<longleftrightarrow>
     (case r of
        None \<Rightarrow> True
      | Some (More off d) \<Rightarrow> source_view d = source_view c
      | Some (Finish rc d) \<Rightarrow> drains src c d
      | Some (Opened d) \<Rightarrow> drains src c d)"

lemma source_view_drains: "source_view d = source_view c \<Longrightarrow> drains src c d"
  by (simp add: drains_def source_view_def)

lemma source_view_updates [simp]:
  "source_view (c\<lparr>c_error := e\<rparr>) = source_view c" "source_view (c\<lparr>c_recv_state := st\<rparr>) = source_view c"
  "source_view (c\<lparr>c_in := v\<rparr>) = source_view c" "source_view (c\<lparr>c_pdu := p\<rparr>) = source_view c"
  "source_view (c\<lparr>c_hdr := h\<rparr>) = source_view c" "source_view (c\<lparr>c_spl := l\<rparr>) = source_view c"
  "source_view (c\<lparr>c_waitqueue := ps\<rparr>) = source_view c" "source_view (c\<lparr>c_next_pdu := p\<rparr>) = source_view c"
  "source_view (c\<lparr>c_credits := n\<rparr>) = source_view c" "source_view (c\<lparr>c_payload_offset := k\<rparr>) = source_view c"
  "source_view (c\<lparr>c_outqueue := cs\<rparr>) = source_view c" "source_view (c\<lparr>c_trace := es\<rparr>) = source_view c" "source_view (c\<lparr>c_next_ptr := k\<rparr>) = source_view c"
  by (simp_all add: source_view_def)

lemma source_view_error [simp]: "source_view (smb2_set_error e c) = source_view c"
  by (simp add: smb2_set_error_def source_view_def)

lemma source_view_free_pdu [simp]: "source_view (smb2_free_pdu c ps) = source_view c"
  by (induction c ps rule: smb2_free_pdu.induct) (simp_all add: Let_def log_event_def)

lemma source_view_num_done [simp]: "source_view (set_num_done n c) = source_view c"
  by (simp add: set_num_done_def)

lemma source_view_callback [simp]: "source_view (run_callback app pdu c) = source_view c"
  by (simp add: run_callback_def Let_def source_view_def)

lemma source_view_complete [simp]: "source_view (complete_pdu app pdu c) = source_view c"
  by (simp add: complete_pdu_def Let_def del: smb2_free_pdu.simps)

lemma add_iovector_source: "smb2_add_iovector c v buf f = (d, r) \<Longrightarrow> source_view d = source_view c"
  by (auto simp: smb2_add_iovector_def split: if_splits)

lemma new_iovector_source: "new_iovector e1 e2 n buf c v = (d, r) \<Longrightarrow> source_view d = source_view c"
  by (auto simp: new_iovector_def split: if_splits prod.splits option.splits dest: add_iovector_source)

lemma allocate_pdu_source: "smb2_allocate_pdu c cmd cb d = (c', r) \<Longrightarrow> source_view c' = source_view c"
  by (auto simp: smb2_allocate_pdu_def Let_def split: if_splits prod.splits option.splits dest: add_iovector_source)

lemma decode_header_source: "smb2_decode_header c b h = (rc, d, h') \<Longrightarrow> source_view d = source_view c"
  by (auto simp: smb2_decode_header_def smb2_select_tree_id_def source_view_def Let_def split: if_splits)

lemma verify_signature_source: "verify_signature c iov = (rc, d, iov') \<Longrightarrow> source_view d = source_view c"
  by (auto simp: verify_signature_def smb2_calc_signature_def Let_def split: if_splits prod.splits)

lemma engine_part_source: "engine_part d = engine_part c \<Longrightarrow> source_view d = source_view c"
  by (auto simp: engine_part_def source_view_def)

lemma fail_keeps_source: "source_view d = source_view c \<Longrightarrow> keeps_source src c (fail_phase e d)"
  by (simp add: keeps_source_def fail_phase_def source_view_drains)

lemma results_keep_source [simp]:
  "keeps_source src c None" "keeps_source src c (Some (Finish rc d)) \<longleftrightarrow> drains src c d"
  "keeps_source src c (Some (Opened d)) \<longleftrightarrow> drains src c d"
  "keeps_source src c (Some (More off d)) \<longleftrightarrow> source_view d = source_view c"
  by (simp_all add: keeps_source_def)

lemma more_input_source: "source_view d = source_view c \<Longrightarrow> keeps_source src c (more_input st e1 e2 n off d)"
  by (auto simp: more_input_def Let_def split: prod.splits option.splits dest!: new_iovector_source intro!: source_view_drains)

lemma add_header_source: "source_view d = source_view c \<Longrightarrow> keeps_source src c (add_header e off d)"
  by (auto simp: add_header_def split: prod.splits option.splits dest!: add_iovector_source
      intro!: fail_keeps_source)

lemma expect_fixed_source: "source_view d = source_view c \<Longrightarrow> keeps_source src c (expect_fixed pdu off d)"
  by (auto simp: expect_fixed_def Let_def intro: more_input_source fail_keeps_source)

lemma recv_reply_source:
  assumes "source_view d = source_view c"
  shows "keeps_source s c (recv_reply src off d)"
proof (cases "is_break_notification (c_hdr d)")
  case True
  with assms show ?thesis
    by (auto simp: recv_reply_def split: prod.split option.split dest!: allocate_pdu_source intro!: expect_fixed_source fail_keeps_source)
next
  case False
  define e where "e = (case c_pdu d of None \<Rightarrow> d | Some p \<Rightarrow> (smb2_free_pdu d [p])\<lparr>c_pdu := None\<rparr>)"
  have "source_view e = source_view c"
    using assms unfolding e_def by (auto split: option.split simp del: smb2_free_pdu.simps)
  with False show ?thesis
    by (auto simp: recv_reply_def Let_def e_def [symmetric] split: option.split intro!: more_input_source expect_fixed_source fail_keeps_source)
qed

lemma recv_request_source: "source_view d = source_view c \<Longrightarrow> keeps_source src c (recv_request off d)"
  by (auto simp: recv_request_def Let_def split: option.splits intro!: expect_fixed_source fail_keeps_source)

lemma recv_transform_source: "keeps_source src c (recv_transform off c)"
  by (auto simp: recv_transform_def Let_def split: prod.splits option.splits dest!: new_iovector_source intro!: source_view_drains)

lemma drains_trans: "drains src c d \<Longrightarrow> drains src d e \<Longrightarrow> drains src c e"
  by (auto simp: drains_def split: if_splits)

lemma read_drains: "read_from src c rooms = (r, d) \<Longrightarrow> drains src c d"
  by (cases src) (auto simp: read_from_def drains_def smb2_readv_from_socket_def smb2_recv_from_ext_def smb2_readv_from_buf_def Let_def
    split: list.splits read_result.splits if_splits)

lemma flush_drains: "drains src c (flush_input src c)"
proof (induction src c rule: flush_input.induct)
  case (1 src c)
  obtain r d where r: "read_from src c [32] = (r, d)" by fastforce
  note k = read_drains [OF r]
  show ?case
  proof (cases r)
    case (Got bs)
    show ?thesis
    proof (cases "bs = []")
      case False
      with 1 r Got have "drains src d (flush_input src d)" by simp
      with k have "drains src c (flush_input src d)" by (rule drains_trans)
      with r Got False show ?thesis by (subst flush_input.simps) simp
    qed (use r Got k in \<open>subst flush_input.simps, simp\<close>)
  qed (use r k in \<open>subst flush_input.simps, simp\<close>)+
qed

lemma recv_smb1_source: "source_view d = source_view c \<Longrightarrow> keeps_source src c (recv_smb1 app src off d)"
  using drains_trans [OF source_view_drains [of d c src] flush_drains [of src d]] drains_trans source_view_drains
  by (fastforce simp: recv_smb1_def Let_def keeps_source_def split: option.splits)

lemma recv_header_source: "keeps_source src c (recv_header app src off c)"
proof (cases "take 4 (in_buf c) = xfer")
  case True
  then show ?thesis by (simp add: recv_header_def recv_transform_source)
next
  case False
  obtain rc d h where d: "smb2_decode_header c (in_buf c) (c_hdr c) = (rc, d, h)"
    by (cases "smb2_decode_header c (in_buf c) (c_hdr c)") auto
  with False decode_header_source [OF d] show ?thesis
    by (simp add: recv_header_def Let_def recv_smb1_source more_input_source recv_request_source fail_keeps_source recv_reply_source)
qed

lemma check_signature_source: "check_signature off c = Some (rc, d) \<Longrightarrow> source_view d = source_view c"
  by (auto simp: check_signature_def Let_def split: if_splits prod.splits dest!: verify_signature_source)

lemma recv_pending_source: "source_view d = source_view c \<Longrightarrow> keeps_source src c (recv_pending app d)"
  by (auto simp: recv_pending_def Let_def split: option.split intro!: source_view_drains)

lemma recv_done_source:
  assumes "source_view d = source_view c"
  shows "keeps_source src c (recv_done app off d)"
proof (cases "length (v_iov (c_in d)) < 2 \<or> h_status (c_hdr d) = SMB2_STATUS_PENDING")
  case True
  with assms show ?thesis by (auto simp: recv_done_def intro: fail_keeps_source recv_pending_source)
next
  case False
  show ?thesis
  proof (cases "check_signature off d")
    case None
    with False show ?thesis by (simp add: recv_done_def)
  next
    case (Some r)
    obtain rc e where r: "r = (rc, e)" by (cases r)
    from check_signature_source [OF Some [unfolded r]] assms have v: "source_view e = source_view c" by simp
    show ?thesis
    proof (cases "c_pdu e")
      case None
      with False Some r v show ?thesis by (simp add: recv_done_def source_view_drains)
    next
      case (Some pdu)
      have "keeps_source src c (add_header err k ((complete_pdu app pdu e)\<lparr>c_recv_state := SMB2_RECV_HEADER\<rparr>))"
        "drains src c (set_num_done 0 (complete_pdu app pdu e))" for err k
        using v by (simp_all add: add_header_source source_view_drains)
      with False Some \<open>check_signature off d = Some r\<close> r v show ?thesis by (simp add: recv_done_def Let_def source_view_drains)
    qed
  qed
qed

lemma recv_padding_source: "source_view d = source_view c \<Longrightarrow> keeps_source src c (recv_padding e1 e2 app off d)"
  by (auto simp: recv_padding_def Let_def intro!: more_input_source recv_done_source fail_keeps_source)

lemma user_vectors_view: "source_view (case user_vectors is n c of Inl d \<Rightarrow> d | Inr (k, d) \<Rightarrow> d) = source_view c"
proof (induction "is" arbitrary: n c)
  case (Cons i "is")
  let ?num = "min (length (iov_buf i)) n"
  obtain d r where a: "smb2_add_iovector c (c_in c) (take ?num (iov_buf i)) NoFree = (d, r)" by fastforce
  note v = add_iovector_source [OF a]
  show ?case
  proof (cases r)
    case None
    with a v show ?thesis by simp
  next
    case (Some w)
    have "source_view (case user_vectors is m (d\<lparr>c_in := w\<rparr>) of Inl d \<Rightarrow> d | Inr (k, d) \<Rightarrow> d) = source_view c" for m
      using v by (simp add: Cons.IH)
    with a Some v show ?thesis by (simp add: Let_def)
  qed
qed simp

lemma user_vectors_source:
  "user_vectors is n c = Inl d \<Longrightarrow> source_view d = source_view c" "user_vectors is n c = Inr (k, d) \<Longrightarrow> source_view d = source_view c"
  using user_vectors_view [of "is" n c] by simp_all

lemma recv_fixed_source: "keeps_source src c (recv_fixed app off c)"
  by (auto simp: recv_fixed_def Let_def split: option.splits prod.splits sum.splits
      dest!: payload_fixed_keeps engine_part_source user_vectors_source intro!: recv_padding_source more_input_source fail_keeps_source source_view_drains)

lemma recv_variable_source: "keeps_source src c (recv_variable app off c)"
  by (auto simp: recv_variable_def Let_def split: option.splits prod.splits
      dest!: payload_variable_keeps engine_part_source intro!: recv_padding_source fail_keeps_source)

lemma recv_trfm_source: "keeps_source src c (recv_trfm c)"
  by (auto simp: recv_trfm_def smb3_decrypt_pdu_def Let_def split: option.splits prod.splits phase.splits if_splits
      intro!: fail_keeps_source) (simp_all add: drains_def set_num_done_def)

theorem phase_keeps_source: "keeps_source src c (recv_phase app src off c)"
  by (auto simp: recv_phase_def recv_spl_def recv_header_source recv_fixed_source recv_variable_source recv_trfm_source
      split: recv_state.splits intro!: add_header_source recv_done_source source_view_drains)

subsection \<open>The loops\<close>

text \<open>
  \<open>smb2_read_data\<close>: one turn from \<open>read_more_data\<close> on reads into the vectors that are not full; when they all are, the
  phase decides. When an encrypted message has been opened, the function calls itself on the plaintext. The plaintext
  of a message inside an encrypted one is shorter than the outer one, whose bytes it came from; the loop stops with
  \<open>None\<close> where this were not so, which makes it total.
\<close>

definition EAGAIN :: int where "EAGAIN = 11"

definition still_filling :: "smb2_context \<Rightarrow> bool" where
  "still_filling c \<longleftrightarrow> v_num_done (c_in c) < v_total_size (c_in c)"

definition enc_length :: "smb2_context \<Rightarrow> nat" where
  "enc_length c = (case c_enc c of None \<Rightarrow> 0 | Some b \<Rightarrow> length b)"

definition recv_turn :: "application \<Rightarrow> source \<Rightarrow> nat \<Rightarrow> smb2_context \<Rightarrow> phase option" where
  "recv_turn app src off c =
     (case rooms_left (v_num_done (c_in c)) (vector_lengths (c_in c)) of
        None \<Rightarrow> None
      | Some rooms \<Rightarrow>
        (case read_from src c rooms of
           (Would_block, c) \<Rightarrow> Some (Finish (- EAGAIN) c)
         | (Failed, c) \<Rightarrow> fail_phase ''Read from socket failed, errno:%d. Closing socket.'' c
         | (Got bs, c) \<Rightarrow>
             if bs = [] then fail_phase ''Read from socket failed, remote closed connection.'' c
             else if still_filling (store_input bs c) then Some (More off (store_input bs c))
             else recv_phase app src off (store_input bs c)))"

definition loop_rank :: "source \<Rightarrow> smb2_context \<Rightarrow> nat \<times> nat \<times> nat" where
  "loop_rank src c = (if src = From_buf then 0 else 1, enc_length c, source_size src c)"

definition decrypted :: "int \<times> smb2_context \<Rightarrow> int \<times> smb2_context" where
  "decrypted r = (case r of (rc, c) \<Rightarrow>
     if rc \<noteq> 0 then (-1, smb2_set_error ''Failed to decrypyt pdu'' (c\<lparr>c_enc := None\<rparr>)) else (0, c\<lparr>c_enc := None\<rparr>))"

lemma store_input_source [simp]: "source_view (store_input bs c) = source_view c"
  by (simp add: store_input_def Let_def)

lemma source_view_size:
  "source_view d = source_view c \<Longrightarrow> source_size src d = source_size src c \<and> enc_length d = enc_length c"
  by (auto simp: source_view_def source_size_def enc_length_def split: option.split)

definition rank_less :: "((nat \<times> nat \<times> nat) \<times> (nat \<times> nat \<times> nat)) set" where
  "rank_less = less_than <*lex*> less_than <*lex*> less_than"

lemma wf_rank_less: "wf rank_less"
  by (simp add: rank_less_def wf_lex_prod)

lemma rank_after_read:
  assumes "read_from src c rooms = (Got bs, c1)" "bs \<noteq> []" "source_view d = source_view c1"
  shows "(loop_rank src d, loop_rank src c) \<in> rank_less"
proof -
  from read_from_size [OF assms(1,2)] have "source_size src c1 < source_size src c" "enc_length c1 = enc_length c"
    by (simp_all add: enc_length_def)
  with source_view_size [OF assms(3), of src] show ?thesis by (simp add: loop_rank_def rank_less_def)
qed

lemma rank_when_opened:
  assumes "read_from src c rooms = (Got bs, c1)" "bs \<noteq> []" "src = From_buf \<Longrightarrow> enc_length d < enc_length c"
  shows "(loop_rank From_buf d, loop_rank src c) \<in> rank_less"
  using assms by (cases "src = From_buf") (auto simp: loop_rank_def rank_less_def)

lemma turn_reads:
  assumes "recv_turn app src off c = Some r" "\<forall>rc d. r = Finish rc d \<longrightarrow> rc = 0"
  obtains rooms bs c1 where "read_from src c rooms = (Got bs, c1)" "bs \<noteq> []" "keeps_source src (store_input bs c1) (Some r)"
proof -
  from assms obtain rooms where rooms: "rooms_left (v_num_done (c_in c)) (vector_lengths (c_in c)) = Some rooms"
    by (auto simp: recv_turn_def split: option.splits)
  obtain x c1 where x: "read_from src c rooms = (x, c1)" by fastforce
  from assms rooms x obtain bs where bs: "x = Got bs" "bs \<noteq> []"
    by (cases x) (auto simp: recv_turn_def fail_phase_def EAGAIN_def split: if_splits)
  have "keeps_source src (store_input bs c1) (Some r)"
  proof (cases "still_filling (store_input bs c1)")
    case True
    with assms rooms x bs have "r = More off (store_input bs c1)" by (auto simp: recv_turn_def)
    then show ?thesis by simp
  next
    case False
    with assms rooms x bs phase_keeps_source [of src "store_input bs c1" app off] show ?thesis by (simp add: recv_turn_def)
  qed
  with that x bs show thesis by blast
qed

lemma turn_rank:
  "recv_turn app src off c = Some (More off' d) \<Longrightarrow> (loop_rank src d, loop_rank src c) \<in> rank_less"
  "recv_turn app src off c = Some (Opened e) \<Longrightarrow> (src = From_buf \<Longrightarrow> enc_length e < enc_length c) \<Longrightarrow>
     (loop_rank From_buf e, loop_rank src c) \<in> rank_less"
  by (erule turn_reads; simp add: rank_after_read rank_when_opened)+

function recv_loop :: "application \<Rightarrow> source \<Rightarrow> nat \<Rightarrow> smb2_context \<Rightarrow> (int \<times> smb2_context) option" where
  "recv_loop app src off c =
     (case recv_turn app src off c of
        None \<Rightarrow> None
      | Some (Finish rc d) \<Rightarrow> Some (rc, d)
      | Some (More off d) \<Rightarrow> recv_loop app src off d
      | Some (Opened d) \<Rightarrow>
          if src = From_buf \<and> enc_length c \<le> enc_length d then None
          else map_option decrypted (recv_loop app From_buf 0 d))"
  by pat_completeness auto
termination
proof (relation "inv_image rank_less (\<lambda>(app, src, off, c). loop_rank src c)", goal_cases)
  case 1 show ?case by (rule wf_inv_image [OF wf_rank_less])
next
  case (2 app src off c r off' d)
  then show ?case by (simp add: turn_rank)
next
  case (3 app src off c r d)
  then have "(loop_rank From_buf d, loop_rank src c) \<in> rank_less" by (intro turn_rank(2)) auto
  then show ?case by simp
qed

declare recv_loop.simps [simp del]

definition smb2_read_data :: "application \<Rightarrow> source \<Rightarrow> smb2_context \<Rightarrow> (int \<times> smb2_context) option" where
  "smb2_read_data app src c = recv_loop app src 0 c"

definition smb2_read_from_buf :: "application \<Rightarrow> smb2_context \<Rightarrow> (int \<times> smb2_context) option" where
  "smb2_read_from_buf app = smb2_read_data app From_buf"

lemma recv_loop_cases:
  assumes "recv_loop app src off c = Some r"
  obtains (Stop) rc d where "recv_turn app src off c = Some (Finish rc d)" "r = (rc, d)"
    | (Again) off' d where "recv_turn app src off c = Some (More off' d)" "recv_loop app src off' d = Some r"
    | (Inside) d r' where "recv_turn app src off c = Some (Opened d)" "\<not> (src = From_buf \<and> enc_length c \<le> enc_length d)"
      "recv_loop app From_buf 0 d = Some r'" "r = decrypted r'"
  using assms by (subst (asm) recv_loop.simps) (auto split: option.splits phase.splits if_splits)

text \<open>A turn that returns 0 has read at least one byte.\<close>

lemma read_takes:
  assumes "read_from src c rooms = (Got bs, c1)" "bs \<noteq> []" "src \<noteq> From_buf"
  shows "script_size (c_rd_script c1) < script_size (c_rd_script c)"
  using read_from_size [OF assms(1,2)] assms(3) by (simp add: source_size_def)

lemma store_input_script [simp]: "c_rd_script (store_input bs c) = c_rd_script c"
  by (simp add: store_input_def Let_def)

definition phase_context :: "phase \<Rightarrow> smb2_context" where
  "phase_context r = (case r of Finish rc d \<Rightarrow> d | More off d \<Rightarrow> d | Opened d \<Rightarrow> d)"

lemma turn_drains:
  assumes "recv_turn app src off c = Some r"
  shows "drains src c (phase_context r)"
proof -
  from assms obtain rooms where rooms: "rooms_left (v_num_done (c_in c)) (vector_lengths (c_in c)) = Some rooms"
    by (auto simp: recv_turn_def split: option.splits)
  obtain x c1 where x: "read_from src c rooms = (x, c1)" by fastforce
  note k = read_drains [OF x]
  show ?thesis
  proof (cases "\<exists>rc d. r = Finish rc d \<and> rc \<noteq> 0")
    case False
    then have "\<forall>rc d. r = Finish rc d \<longrightarrow> rc = 0" by blast
    from turn_reads [OF assms this] obtain rooms bs c1 where
      b: "read_from src c rooms = (Got bs, c1)" "keeps_source src (store_input bs c1) (Some r)" by metis
    from read_drains [OF b(1)] b(2) show ?thesis
      by (cases r) (auto simp: phase_context_def drains_def source_view_def split: if_splits)
  next
    case True
    have p: "keeps_source src (store_input bs c1) (recv_phase app src off (store_input bs c1))" for bs by (rule phase_keeps_source)
    have "drains src c (phase_context r)" if "x = Got bs" for bs
      using that assms rooms x k True p [of bs]
      by (auto simp: recv_turn_def phase_context_def fail_phase_def drains_def split: if_splits)
    moreover have "drains src c (phase_context r)" if "x = Would_block \<or> x = Failed"
      using that assms rooms x k by (auto simp: recv_turn_def phase_context_def fail_phase_def drains_def)
    ultimately show ?thesis by (cases x) auto
  qed
qed

lemma decrypted_script: "c_rd_script (snd (decrypted r)) = c_rd_script (snd r)"
  by (cases r) (simp add: decrypted_def)

lemma loop_drains: "recv_loop app src off c = Some r \<Longrightarrow> drains src c (snd r)"
proof (induction app src off c arbitrary: r rule: recv_loop.induct)
  case (1 app src off c)
  from 1(3) show ?case
  proof (cases rule: recv_loop_cases)
    case (Stop rc d)
    with turn_drains [OF Stop(1)] show ?thesis by (simp add: phase_context_def)
  next
    case (Again off' d)
    with turn_drains [OF Again(1)] 1(1) [OF Again(1) refl Again(2)] show ?thesis
      by (auto simp: phase_context_def elim: drains_trans)
  next
    case (Inside d r')
    with turn_drains [OF Inside(1)] 1(2) [OF Inside(1) refl Inside(2,3)] show ?thesis
      by (auto simp: phase_context_def drains_def decrypted_script split: if_splits)
  qed
qed

lemma loop_takes:
  assumes "recv_loop app src off c = Some (0, d)" "src \<noteq> From_buf"
  shows "script_size (c_rd_script d) < script_size (c_rd_script c)"
proof -
  from assms(1) obtain r where r: "recv_turn app src off c = Some r" "\<forall>rc d. r = Finish rc d \<longrightarrow> rc = 0"
    "drains src (phase_context r) d"
  proof (cases rule: recv_loop_cases)
    case (Stop rc e)
    with that [of "Finish rc e"] show thesis by (auto simp: phase_context_def drains_def)
  next
    case (Again off' e)
    with that [of "More off' e"] loop_drains [OF Again(2)] show thesis by (auto simp: phase_context_def)
  next
    case (Inside e r')
    have "c_rd_script d = c_rd_script e"
      using loop_drains [OF Inside(3)] Inside(4) decrypted_script [of r'] by (simp add: drains_def) (metis snd_conv)
    with that [of "Opened e"] Inside(1) show thesis by (auto simp: phase_context_def drains_def)
  qed
  from r(1,2) obtain rooms bs c1 where "read_from src c rooms = (Got bs, c1)" "bs \<noteq> []" "keeps_source src (store_input bs c1) (Some r)"
    by (rule turn_reads)
  with read_takes [OF this(1,2) assms(2)] r(3) assms(2) show ?thesis
    by (cases r) (auto simp: phase_context_def drains_def source_view_def)
qed

text \<open>
  The loops over messages. Between two of them, when nothing of the next has been read, the vectors are set up for its
  length. The backend of TCP and the one of an application's transport differ in the source only.
\<close>

definition start_message :: "string \<Rightarrow> smb2_context \<Rightarrow> smb2_context + smb2_context" where
  "start_message no_vec c =
     (if v_num_done (c_in c) = 0
      then (case smb2_add_iovector c (smb2_free_iovector (c_in c)) (replicate 4 0) NoFree of
              (c, None) \<Rightarrow> Inl (smb2_set_error no_vec c)
            | (c, Some v) \<Rightarrow> Inr (c\<lparr>c_recv_state := SMB2_RECV_SPL, c_spl := 0, c_in := v\<rparr>))
      else Inr c)"

definition transport_source :: "bool \<Rightarrow> source" where
  "transport_source ext = (if ext then From_ext else From_socket)"

lemma transport_source [simp]: "transport_source ext \<noteq> From_buf"
  by (simp add: transport_source_def)

lemma start_message_source: "start_message e c = Inr d \<Longrightarrow> source_view d = source_view c"
  by (auto simp: start_message_def split: if_splits prod.splits option.splits dest!: add_iovector_source)

function read_messages :: "application \<Rightarrow> bool \<Rightarrow> smb2_context \<Rightarrow> (int \<times> smb2_context) option" where
  "read_messages app ext c =
     (case start_message ''Too many I/O vectors when adding SPL'' c of
        Inl c \<Rightarrow> Some (-1, c)
      | Inr c \<Rightarrow>
        (case smb2_read_data app (transport_source ext) c of
           None \<Rightarrow> None
         | Some (count, c) \<Rightarrow>
             if count = - EAGAIN then Some (0, c) else if count \<noteq> 0 then Some (count, c) else read_messages app ext c))"
  by pat_completeness auto
termination
proof (relation "measure (\<lambda>(app, ext, c). script_size (c_rd_script c))", goal_cases)
  case (2 app ext c d r rc e)
  then have "script_size (c_rd_script e) < script_size (c_rd_script d)"
    by (simp add: smb2_read_data_def loop_takes)
  with start_message_source [OF 2(1)] show ?case by (simp add: source_view_def)
qed simp

declare read_messages.simps [simp del]

definition smb2_read_from_socket :: "application \<Rightarrow> smb2_context \<Rightarrow> (int \<times> smb2_context) option" where
  "smb2_read_from_socket app = read_messages app False"

definition smb2_read_from_ext :: "application \<Rightarrow> smb2_context \<Rightarrow> (int \<times> smb2_context) option" where
  "smb2_read_from_ext app = read_messages app True"

end
