(* ===== verification/Smb2_Stream.thy ===== *)
theory Smb2_Stream
  imports Smb2_Recv
begin

text \<open>
  What the receiver makes of a stream of bytes. The phases between two reads commute with a change of what the transport still
  holds; so it does not matter how the bytes of a connection are cut into reads, the drain loop stops only when it would block or
  fails, and a whole message can be followed through the phases without looking at its fragments.
\<close>

subsection \<open>The transport is out of reach of the phases\<close>

text \<open>Everything between two reads gives the same result whatever the transport still holds: it commutes with a change of
  the script.\<close>

lemma in_buf_with_script [simp]: "in_buf (c\<lparr>c_rd_script := s\<rparr>) = in_buf c" "in_size (c\<lparr>c_rd_script := s\<rparr>) = in_size c"
  by (simp_all add: in_buf_def in_size_def)

lemma wrong_size_with_script [simp]: "wrong_size n (c\<lparr>c_rd_script := s\<rparr>) = wrong_size n c"
  by (simp add: wrong_size_def)

definition commutes :: "faulting_decoder \<Rightarrow> bool" where
  "commutes d \<longleftrightarrow> (\<forall>s c pdu. d (c\<lparr>c_rd_script := s\<rparr>) pdu = map_option (\<lambda>(rc, c', q). (rc, c'\<lparr>c_rd_script := s\<rparr>, q)) (d c pdu))"

lemma error_with_script [simp]: "smb2_set_error e (c\<lparr>c_rd_script := s\<rparr>) = (smb2_set_error e c)\<lparr>c_rd_script := s\<rparr>"
  by (simp add: smb2_set_error_def)

abbreviation (input) put_script :: "read_result list \<Rightarrow> smb2_context \<Rightarrow> smb2_context" where
  "put_script s \<equiv> c_rd_script_update (\<lambda>_. s)"

abbreviation (input) in_result :: "read_result list \<Rightarrow> 'a \<times> smb2_context \<times> 'b \<Rightarrow> 'a \<times> smb2_context \<times> 'b" where
  "in_result s \<equiv> map_prod id (map_prod (put_script s) id)"

lemma data_with_script [simp]:
  "break_of_size (c\<lparr>c_rd_script := s\<rparr>) = break_of_size c" "copy_bytes (c\<lparr>c_rd_script := s\<rparr>) = copy_bytes c"
  "raw_name (c\<lparr>c_rd_script := s\<rparr>) = raw_name c" "received_name (c\<lparr>c_rd_script := s\<rparr>) = received_name c"
  by (simp_all add: break_of_size_def copy_bytes_def raw_name_def received_name_def fun_eq_iff split: option.split)

lemma alloc_with_script [simp]: "smb2_alloc_data (c\<lparr>c_rd_script := s\<rparr>) n = map_prod (put_script s) id (smb2_alloc_data c n)"
  by (simp add: smb2_alloc_data_def)

lemma keep_name_with_script [simp]: "keep_name (c\<lparr>c_rd_script := s\<rparr>) b = map_prod (put_script s) id (keep_name c b)"
  by (simp add: keep_name_def split: prod.split)

lemma named_info_with_script [simp]:
  "smb2_decode_file_all_info (c\<lparr>c_rd_script := s\<rparr>) f b = in_result s (smb2_decode_file_all_info c f b)"
  "smb2_decode_file_normalized_name_info (c\<lparr>c_rd_script := s\<rparr>) g b = in_result s (smb2_decode_file_normalized_name_info c g b)"
  "smb2_decode_file_fs_attribute_info (c\<lparr>c_rd_script := s\<rparr>) h b = in_result s (smb2_decode_file_fs_attribute_info c h b)"
  "smb2_decode_file_fs_volume_info (c\<lparr>c_rd_script := s\<rparr>) k b = map_option (in_result s) (smb2_decode_file_fs_volume_info c k b)"
  by (simp_all add: smb2_decode_file_all_info_def smb2_decode_file_normalized_name_info_def smb2_decode_file_fs_attribute_info_def
      smb2_decode_file_fs_volume_info_def smb2_decode_file_basic_info_def smb2_decode_file_standard_info_def Let_def split: prod.split option.split)

lemma plain_info_with_script [simp]:
  "smb2_decode_file_basic_info (c\<lparr>c_rd_script := s\<rparr>) = smb2_decode_file_basic_info c"
  "smb2_decode_file_standard_info (c\<lparr>c_rd_script := s\<rparr>) = smb2_decode_file_standard_info c"
  "smb2_decode_file_position_info (c\<lparr>c_rd_script := s\<rparr>) = smb2_decode_file_position_info c"
  "smb2_decode_file_network_open_info (c\<lparr>c_rd_script := s\<rparr>) = smb2_decode_file_network_open_info c"
  "smb2_decode_file_fs_size_info (c\<lparr>c_rd_script := s\<rparr>) = smb2_decode_file_fs_size_info c"
  "smb2_decode_file_fs_device_info (c\<lparr>c_rd_script := s\<rparr>) = smb2_decode_file_fs_device_info c"
  "smb2_decode_file_fs_control_info (c\<lparr>c_rd_script := s\<rparr>) = smb2_decode_file_fs_control_info c"
  "smb2_decode_file_fs_full_size_info (c\<lparr>c_rd_script := s\<rparr>) = smb2_decode_file_fs_full_size_info c"
  "smb2_decode_file_fs_object_id_info (c\<lparr>c_rd_script := s\<rparr>) = smb2_decode_file_fs_object_id_info c"
  "smb2_decode_file_fs_sector_size_info (c\<lparr>c_rd_script := s\<rparr>) = smb2_decode_file_fs_sector_size_info c"
  by (simp_all add: fun_eq_iff smb2_decode_file_basic_info_def smb2_decode_file_standard_info_def smb2_decode_file_position_info_def
      smb2_decode_file_network_open_info_def smb2_decode_file_fs_size_info_def smb2_decode_file_fs_device_info_def
      smb2_decode_file_fs_control_info_def smb2_decode_file_fs_full_size_info_def smb2_decode_file_fs_object_id_info_def
      smb2_decode_file_fs_sector_size_info_def)

lemma in_context_with_script [simp]: "in_context (c\<lparr>c_rd_script := s\<rparr>) r = map_option (in_result s) (in_context c r)"
  by (simp add: in_context_def split: prod.split)

lemma stream_entry_with_script [simp]:
  "decode_stream_entry (c\<lparr>c_rd_script := s\<rparr>) off fs b = in_result s (decode_stream_entry c off fs b)"
  by (simp add: decode_stream_entry_def Let_def split: prod.split option.split)

lemma stream_loop_with_script [simp]:
  "decode_stream_loop room off o1 n (c\<lparr>c_rd_script := s\<rparr>) b = map_option (in_result s) (decode_stream_loop room off o1 n c b)"
proof (induction room arbitrary: off o1 n c)
  case (Suc room)
  obtain rc c1 fs where e: "decode_stream_entry c off no_stream b = (rc, c1, fs)" by (cases "decode_stream_entry c off no_stream b")
  show ?case by (simp add: Let_def e Suc.IH option.map_comp comp_def split_def)
qed simp

lemma reparse_with_script [simp]:
  "smb2_decode_reparse_data_buffer (c\<lparr>c_rd_script := s\<rparr>) rp b = map_option (in_result s) (smb2_decode_reparse_data_buffer c rp b)"
  by (simp add: smb2_decode_reparse_data_buffer_def reparse_name_def Let_def option.map_comp comp_def split: prod.split option.split)

lemma parse_contexts_with_script [simp]:
  "smb2_parse_negotiate_contexts n (c\<lparr>c_rd_script := s\<rparr>) rep b off = in_result s (smb2_parse_negotiate_contexts n c rep b off)"
  "smb2_parse_negotiate_request_contexts n (c\<lparr>c_rd_script := s\<rparr>) b off =
     map_prod id (put_script s) (smb2_parse_negotiate_request_contexts n c b off)"
  by (induction n arbitrary: rep off) (simp_all add: Let_def)
lemma NULL_with_script [simp]: "returns_NULL e (c\<lparr>c_rd_script := s\<rparr>) = map_option (map_prod (put_script s) id) (returns_NULL e c)"
  by (simp add: returns_NULL_def)

lemma sid_with_script [simp]: "decode_sid (c\<lparr>c_rd_script := s\<rparr>) v = map_option (map_prod (put_script s) id) (decode_sid c v)"
  by (simp add: decode_sid_def Let_def smb2_alloc_data_def split: Option.bind_split)

lemma aces_with_script [simp]:
  "decode_mask_ace (c\<lparr>c_rd_script := s\<rparr>) ace v = map_option (map_prod (put_script s) id) (decode_mask_ace c ace v)"
  "decode_object_ace (c\<lparr>c_rd_script := s\<rparr>) ace v = map_option (map_prod (put_script s) id) (decode_object_ace c ace v)"
  "decode_callback_ace (c\<lparr>c_rd_script := s\<rparr>) ace v = map_option (map_prod (put_script s) id) (decode_callback_ace c ace v)"
  "decode_raw_ace (c\<lparr>c_rd_script := s\<rparr>) ace v = map_option (map_prod (put_script s) id) (decode_raw_ace c ace v)"
  by (auto simp: decode_mask_ace_def decode_object_ace_def decode_callback_ace_def decode_raw_ace_def Let_def smb2_alloc_data_def
      split: Option.bind_split)

lemma ace_with_script [simp]: "decode_ace (c\<lparr>c_rd_script := s\<rparr>) v = map_option (map_prod (put_script s) id) (decode_ace c v)"
  by (simp add: decode_ace_def Let_def smb2_alloc_data_def split: Option.bind_split)

lemma ace_list_with_script [simp]:
  "decode_aces (c\<lparr>c_rd_script := s\<rparr>) v n = map_option (map_prod (put_script s) id) (decode_aces c v n)"
proof (induction n arbitrary: c v)
  case (Suc n)
  show ?case
  proof (cases "decode_ace c v")
    case (Some r)
    obtain d ace where "r = (d, ace)" by (cases r)
    with Suc.IH Some show ?thesis by (cases ace) (auto simp: id_def split: Option.bind_split)
  qed simp
qed simp

lemma acl_with_script [simp]: "decode_acl (c\<lparr>c_rd_script := s\<rparr>) v = map_option (map_prod (put_script s) id) (decode_acl c v)"
  by (auto simp: decode_acl_def Let_def smb2_alloc_data_def split: Option.bind_split)

lemma parts_with_script [simp]:
  "sid_part e (c\<lparr>c_rd_script := s\<rparr>) b off = map_option (map_prod (put_script s) id) (sid_part e c b off)"
  "dacl_part (c\<lparr>c_rd_script := s\<rparr>) b off = map_option (map_prod (put_script s) id) (dacl_part c b off)"
  by (auto simp: sid_part_def dacl_part_def decode_part_def decode_owner_def split: Option.bind_split option.split)

lemma descriptor_with_script [simp]:
  "smb2_decode_security_descriptor (c\<lparr>c_rd_script := s\<rparr>) sd b = map_option (in_result s) (smb2_decode_security_descriptor c sd b)"
  by (auto simp: smb2_decode_security_descriptor_def Let_def split: Option.bind_split option.split)

lemma class_with_script:
  "decode_class n least e (map_option (in_result s) r) w (c\<lparr>c_rd_script := s\<rparr>) b =
     map_option (in_result s) (decode_class n least e r w c b)"
  by (auto simp: decode_class_def split: option.split)

lemma stream_info_with_script [simp]:
  "smb2_decode_file_stream_info room (c\<lparr>c_rd_script := s\<rparr>) b = map_option (in_result s) (smb2_decode_file_stream_info room c b)"
  by (simp add: smb2_decode_file_stream_info_def del: decode_stream_loop.simps)

lemma total_class_with_script:
  "decode_class n least e (Some (in_result s r)) w (c\<lparr>c_rd_script := s\<rparr>) b =
     map_option (in_result s) (decode_class n least e (Some r) w c b)"
  using class_with_script [of n least e s "Some r"] by simp

lemma info_with_script [simp]:
  "decode_info (c\<lparr>c_rd_script := s\<rparr>) pdu b = map_option (in_result s) (decode_info c pdu b)"
  by (simp add: decode_info_def decode_file_class_def decode_filesystem_class_def decode_security_class_def
      class_with_script total_class_with_script)

lemma connect_with_script [simp]:
  "smb2_connect_tree_id (c\<lparr>c_rd_script := s\<rparr>) t = map_prod id (put_script s) (smb2_connect_tree_id c t)"
  by (simp add: smb2_connect_tree_id_def Let_def)

lemma tree_index_with_script [simp]: "tree_index (c\<lparr>c_rd_script := s\<rparr>) t i = tree_index c t i"
  by (induction c t i rule: tree_index.induct) (subst tree_index.simps, subst (2) tree_index.simps, simp)

lemma disconnect_with_script [simp]:
  "smb2_disconnect_tree_id (c\<lparr>c_rd_script := s\<rparr>) t = map_prod id (put_script s) (smb2_disconnect_tree_id c t)"
  by (simp add: smb2_disconnect_tree_id_def Let_def)

subsection \<open>The decoders\<close>

lemma context_with_script:
  "c_mem_ok (c\<lparr>c_rd_script := s\<rparr>) = c_mem_ok c" "c_junk (c\<lparr>c_rd_script := s\<rparr>) = c_junk c"
  by simp_all

lemma create_request_commutes: "commutes (never_faults smb2_process_create_request_fixed)"
  unfolding commutes_def never_faults_def smb2_process_create_request_fixed_def process_fixed_def Let_def
  by (intro allI, simp only: wrong_size_with_script in_buf_with_script context_with_script option.map prod.case
    if_distrib [where f = "map_option _"] if_distrib [where f = "case_prod _"] if_distrib [where f = Some] error_with_script)

lemma fixed_replies_commute:
  "commutes (never_faults smb2_process_negotiate_fixed)"
  "commutes (never_faults smb2_process_session_setup_fixed)"
  "commutes (never_faults smb2_process_logoff_fixed)"
  "commutes (never_faults smb2_process_tree_connect_fixed)"
  "commutes (never_faults smb2_process_tree_disconnect_fixed)"
  "commutes (never_faults smb2_process_create_fixed)"
  "commutes (never_faults smb2_process_close_fixed)"
  "commutes (never_faults smb2_process_flush_fixed)"
  "commutes (never_faults smb2_process_read_fixed)"
  "commutes (never_faults smb2_process_write_fixed)"
  "commutes (never_faults smb2_process_echo_fixed)"
  "commutes (never_faults smb2_process_lock_fixed)"
  "commutes (never_faults smb2_process_query_directory_fixed)"
  "commutes (never_faults smb2_process_change_notify_fixed)"
  "commutes (never_faults smb2_process_query_info_fixed)"
  "commutes (never_faults smb2_process_set_info_fixed)"
  "commutes (never_faults smb2_process_ioctl_fixed)"
  "commutes (never_faults smb2_process_oplock_break_fixed)"
  "commutes (never_faults smb2_process_error_fixed)"
  by (simp_all add: commutes_def never_faults_def fixed_reply_defs process_fixed_def Let_def split: if_split option.split payload.split sum.split prod.split)

lemma fixed_requests_commute:
  "commutes (never_faults smb2_process_negotiate_request_fixed)"
  "commutes (never_faults smb2_process_session_setup_request_fixed)"
  "commutes (never_faults smb2_process_logoff_request_fixed)"
  "commutes (never_faults smb2_process_tree_connect_request_fixed)"
  "commutes (never_faults smb2_process_close_request_fixed)"
  "commutes (never_faults smb2_process_flush_request_fixed)"
  "commutes (never_faults smb2_process_read_request_fixed)"
  "commutes (never_faults smb2_process_write_request_fixed)"
  "commutes (never_faults smb2_process_echo_request_fixed)"
  "commutes (never_faults smb2_process_lock_request_fixed)"
  "commutes (never_faults smb2_process_query_directory_request_fixed)"
  "commutes (never_faults smb2_process_change_notify_request_fixed)"
  "commutes (never_faults smb2_process_query_info_request_fixed)"
  "commutes (never_faults smb2_process_set_info_request_fixed)"
  "commutes (never_faults smb2_process_ioctl_request_fixed)"
  "commutes (never_faults smb2_process_oplock_break_request_fixed)"
  "commutes (never_faults no_payload)"
  by (simp_all add: commutes_def never_faults_def fixed_request_defs no_payload_def process_fixed_def Let_def
      split: if_split option.split payload.split sum.split prod.split)

lemma variable_commute:
  "commutes (never_faults smb2_process_negotiate_variable)"
  "commutes (never_faults smb2_process_session_setup_variable)"
  "commutes (never_faults smb2_process_create_variable)"
  "commutes (never_faults smb2_process_read_variable)"
  "commutes (never_faults smb2_process_change_notify_variable)"
  "commutes (never_faults smb2_process_oplock_break_variable)"
  "commutes (never_faults smb2_process_error_variable)"
  "commutes (never_faults smb2_process_negotiate_request_variable)"
  "commutes (never_faults smb2_process_session_setup_request_variable)"
  "commutes (never_faults smb2_process_tree_connect_request_variable)"
  "commutes (never_faults smb2_process_create_request_variable)"
  "commutes (never_faults smb2_process_read_request_variable)"
  "commutes (never_faults smb2_process_write_request_variable)"
  "commutes (never_faults smb2_process_lock_request_variable)"
  "commutes (never_faults smb2_process_set_info_request_variable)"
  "commutes (never_faults smb2_process_oplock_break_request_variable)"
  by (simp_all add: commutes_def never_faults_def variable_defs Let_def split: if_split option.split payload.split sum.split prod.split)

lemma faulting_commute:
  "commutes smb2_process_query_directory_variable"
  "commutes smb2_process_query_info_variable"
  "commutes smb2_process_ioctl_variable"
  "commutes smb2_process_query_directory_request_variable"
  "commutes smb2_process_query_info_request_variable"
  "commutes smb2_process_ioctl_request_variable"
  by (auto simp: commutes_def faulting_defs Let_def split: if_splits option.splits payload.splits sum.splits prod.splits)

lemma tables_commute:
  "\<forall>(k, d) \<in> set reply_fixed. commutes (never_faults d)" "\<forall>(k, d) \<in> set request_fixed. commutes (never_faults d)"
  "\<forall>(k, d) \<in> set reply_variable. commutes d" "\<forall>(k, d) \<in> set request_variable. commutes d"
  by (simp_all add: reply_fixed_def request_fixed_def reply_variable_def request_variable_def create_request_commutes
      fixed_replies_commute fixed_requests_commute variable_commute faulting_commute)

lemma table_commutes:
  "map_of reply_fixed k = Some d \<Longrightarrow> commutes (never_faults d)" "map_of request_fixed k = Some d \<Longrightarrow> commutes (never_faults d)"
  "map_of reply_variable k = Some e \<Longrightarrow> commutes e" "map_of request_variable k = Some e \<Longrightarrow> commutes e"
  using tables_commute by (auto dest!: map_of_SomeD)

lemma commutesD: "commutes d \<Longrightarrow> d (c\<lparr>c_rd_script := s\<rparr>) pdu = map_option (in_result s) (d c pdu)"
  by (simp add: commutes_def map_prod_def comp_def split_def)

lemma total_commutesD: "commutes (never_faults d) \<Longrightarrow> d (c\<lparr>c_rd_script := s\<rparr>) pdu = in_result s (d c pdu)"
  using commutesD [of "never_faults d"] by (simp add: never_faults_def)

lemma error_response_with_script [simp]: "smb2_is_error_response (c\<lparr>c_rd_script := s\<rparr>) = smb2_is_error_response c"
  by (simp add: smb2_is_error_response_def)

lemma is_server_with_script [simp]: "smb2_is_server (c\<lparr>c_rd_script := s\<rparr>) = smb2_is_server c"
  by (simp add: smb2_is_server_def)

lemma payload_fixed_with_script [simp]:
  "smb2_process_payload_fixed (c\<lparr>c_rd_script := s\<rparr>) pdu = in_result s (smb2_process_payload_fixed c pdu)"
  by (simp add: smb2_process_payload_fixed_def smb2_process_request_payload_fixed_def smb2_process_reply_payload_fixed_def
      total_commutesD [OF table_commutes(1)] total_commutesD [OF table_commutes(2)] total_commutesD [OF fixed_replies_commute(19)]
      split: option.split)

lemma payload_variable_with_script [simp]:
  "smb2_process_payload_variable (c\<lparr>c_rd_script := s\<rparr>) pdu = map_option (in_result s) (smb2_process_payload_variable c pdu)"
  by (simp add: smb2_process_payload_variable_def smb2_process_request_payload_variable_def smb2_process_reply_payload_variable_def
      commutesD [OF table_commutes(3)] commutesD [OF table_commutes(4)] total_commutesD [OF variable_commute(7)] split: option.split)

subsection \<open>The phases\<close>

definition map_phase :: "(smb2_context \<Rightarrow> smb2_context) \<Rightarrow> phase \<Rightarrow> phase" where
  "map_phase f r = (case r of Finish rc c \<Rightarrow> Finish rc (f c) | More off c \<Rightarrow> More off (f c) | Opened c \<Rightarrow> Opened (f c))"

lemma map_phase_simps [simp]:
  "map_phase f (Finish rc c) = Finish rc (f c)" "map_phase f (More off c) = More off (f c)" "map_phase f (Opened c) = Opened (f c)"
  by (simp_all add: map_phase_def)

abbreviation (input) in_phase :: "read_result list \<Rightarrow> phase option \<Rightarrow> phase option" where
  "in_phase s \<equiv> map_option (map_phase (put_script s))"

lemma fail_with_script [simp]: "fail_phase e (c\<lparr>c_rd_script := s\<rparr>) = in_phase s (fail_phase e c)"
  by (simp add: fail_phase_def)

lemma add_iovector_with_script [simp]:
  "smb2_add_iovector (c\<lparr>c_rd_script := s\<rparr>) v b f = map_prod (put_script s) id (smb2_add_iovector c v b f)"
  by (simp add: smb2_add_iovector_def)

lemma new_iovector_with_script [simp]:
  "new_iovector e1 e2 n b (c\<lparr>c_rd_script := s\<rparr>) v = map_prod (put_script s) id (new_iovector e1 e2 n b c v)"
  by (simp add: new_iovector_def split: prod.split option.split)

text \<open>The update of the script is kept outermost.\<close>

lemma script_outermost [simp]:
  "c\<lparr>c_rd_script := s, c_recv_state := st\<rparr> = c\<lparr>c_recv_state := st, c_rd_script := s\<rparr>"
  "c\<lparr>c_rd_script := s, c_in := v\<rparr> = c\<lparr>c_in := v, c_rd_script := s\<rparr>"
  "c\<lparr>c_rd_script := s, c_pdu := p\<rparr> = c\<lparr>c_pdu := p, c_rd_script := s\<rparr>"
  "c\<lparr>c_rd_script := s, c_next_pdu := p\<rparr> = c\<lparr>c_next_pdu := p, c_rd_script := s\<rparr>"
  "c\<lparr>c_rd_script := s, c_hdr := h\<rparr> = c\<lparr>c_hdr := h, c_rd_script := s\<rparr>"
  "c\<lparr>c_rd_script := s, c_spl := l\<rparr> = c\<lparr>c_spl := l, c_rd_script := s\<rparr>"
  "c\<lparr>c_rd_script := s, c_credits := n\<rparr> = c\<lparr>c_credits := n, c_rd_script := s\<rparr>"
  "c\<lparr>c_rd_script := s, c_payload_offset := k\<rparr> = c\<lparr>c_payload_offset := k, c_rd_script := s\<rparr>"
  "c\<lparr>c_rd_script := s, c_enc := e\<rparr> = c\<lparr>c_enc := e, c_rd_script := s\<rparr>"
  "c\<lparr>c_rd_script := s, c_enc_pos := k\<rparr> = c\<lparr>c_enc_pos := k, c_rd_script := s\<rparr>"
  "c\<lparr>c_rd_script := s, c_error := z\<rparr> = c\<lparr>c_error := z, c_rd_script := s\<rparr>"
  "c\<lparr>c_rd_script := s, c_trace := es\<rparr> = c\<lparr>c_trace := es, c_rd_script := s\<rparr>"
  "c\<lparr>c_rd_script := s, c_next_ptr := k\<rparr> = c\<lparr>c_next_ptr := k, c_rd_script := s\<rparr>"
  "c\<lparr>c_rd_script := s, c_waitqueue := ps\<rparr> = c\<lparr>c_waitqueue := ps, c_rd_script := s\<rparr>"
  "c\<lparr>c_rd_script := s, c_outqueue := cs\<rparr> = c\<lparr>c_outqueue := cs, c_rd_script := s\<rparr>"
  by simp_all

lemma more_input_with_script [simp]:
  "more_input st e1 e2 n off (c\<lparr>c_rd_script := s\<rparr>) = in_phase s (more_input st e1 e2 n off c)"
  by (simp add: more_input_def Let_def split: prod.split option.split)

lemma add_header_with_script [simp]: "add_header e off (c\<lparr>c_rd_script := s\<rparr>) = in_phase s (add_header e off c)"
  by (simp add: add_header_def split: prod.split option.split)

lemma free_pdu_with_script [simp]: "smb2_free_pdu (c\<lparr>c_rd_script := s\<rparr>) ps = (smb2_free_pdu c ps)\<lparr>c_rd_script := s\<rparr>"
  by (induction ps arbitrary: c) (simp_all add: Let_def log_event_def)

declare smb2_free_pdu.simps [simp del]

lemma run_callback_with_script [simp]: "run_callback app pdu (c\<lparr>c_rd_script := s\<rparr>) = (run_callback app pdu c)\<lparr>c_rd_script := s\<rparr>"
proof -
  let ?r = "c\<lparr>c_rd_script := [], c_enc := None, c_enc_pos := 0, c_in := no_vectors\<rparr>"
  have "log_event e (c\<lparr>c_rd_script := s\<rparr>)\<lparr>c_rd_script := [], c_enc := None, c_enc_pos := 0, c_in := no_vectors\<rparr> =
        log_event e c\<lparr>c_rd_script := [], c_enc := None, c_enc_pos := 0, c_in := no_vectors\<rparr>" for e
    by (simp add: log_event_def)
  then show ?thesis by (simp add: run_callback_def Let_def)
qed

lemma queries_with_script [simp]:
  "smb2_find_pdu (c\<lparr>c_rd_script := s\<rparr>) = smb2_find_pdu c" "rest_length src (c\<lparr>c_rd_script := s\<rparr>) = rest_length src c"
  "smb2_get_fixed_size (c\<lparr>c_rd_script := s\<rparr>) = smb2_get_fixed_size c" "pad_length (c\<lparr>c_rd_script := s\<rparr>) = pad_length c"
  "still_filling (c\<lparr>c_rd_script := s\<rparr>) = still_filling c" "enc_length (c\<lparr>c_rd_script := s\<rparr>) = enc_length c"
  "set_num_done n (c\<lparr>c_rd_script := s\<rparr>) = (set_num_done n c)\<lparr>c_rd_script := s\<rparr>"
  by (simp_all add: fun_eq_iff smb2_find_pdu_def rest_length_def smb2_get_fixed_size_def pad_length_def still_filling_def enc_length_def set_num_done_def
      smb2_get_fixed_request_size_def smb2_get_fixed_reply_size_def Let_def)

lemma new_header_with_script [simp]: "new_header (c\<lparr>c_rd_script := s\<rparr>) = new_header c"
proof -
  have "smb2_tree_id (c\<lparr>c_rd_script := s\<rparr>) = smb2_tree_id c" by (simp add: smb2_tree_id_def)
  then show ?thesis by (simp add: fun_eq_iff new_header_def Let_def cong: if_cong)
qed

lemma allocate_pdu_with_script [simp]:
  "smb2_allocate_pdu (c\<lparr>c_rd_script := s\<rparr>) cmd cb d = map_prod (put_script s) id (smb2_allocate_pdu c cmd cb d)"
proof -
  obtain c1 r where a: "smb2_add_iovector (c\<lparr>c_next_ptr := c_next_ptr c + 1\<rparr>) no_vectors (replicate 64 0) NoFree = (c1, r)" by fastforce
  then show ?thesis by (cases r) (simp_all add: smb2_allocate_pdu_def Let_def)
qed

lemma select_tree_id_with_script [simp]:
  "smb2_select_tree_id (c\<lparr>c_rd_script := s\<rparr>) t = map_prod id (put_script s) (smb2_select_tree_id c t)"
proof -
  have "tree_index (c\<lparr>c_rd_script := s\<rparr>) t i = tree_index c t i" for i
    by (induction c t i rule: tree_index.induct) (subst (1 2) tree_index.simps, simp)
  then show ?thesis by (simp add: smb2_select_tree_id_def Let_def)
qed

lemma decode_header_with_script [simp]:
  "smb2_decode_header (c\<lparr>c_rd_script := s\<rparr>) b h = in_result s (smb2_decode_header c b h)"
proof (cases "length b < SMB2_HEADER_SIZE \<or> get_at 0 4 b = smb1_magic \<or> get_at 0 4 b \<noteq> smb2_magic")
  case True
  then show ?thesis by (auto simp: smb2_decode_header_def)
next
  case False
  define hdr where "hdr = h\<lparr>h_protocol_id := get_at 0 4 b, h_struct_size := get16 b 4 (h_struct_size h),
    h_credit_charge := get16 b 6 (h_credit_charge h), h_status := get32 b 8 (h_status h), h_command := get16 b 12 (h_command h),
    h_credit_request_response := get16 b 14 (h_credit_request_response h), h_flags := get32 b 16 (h_flags h),
    h_next_command := get32 b 20 (h_next_command h), h_message_id := get64 b 24 (h_message_id h)\<rparr>"
  define hdr2 where "hdr2 = (let hdr = set_process_id (get32 b 32 (h_process_id hdr)) hdr in set_tree_id (get32 b 36 (h_tree_id hdr)) hdr)"
  have r: "smb2_decode_header c b h =
    (let a = h_flags hdr AND SMB2_FLAGS_ASYNC_COMMAND \<noteq> 0;
         c = (if \<not> a \<and> h_flags hdr2 AND SMB2_FLAGS_SERVER_TO_REDIR = 0 \<and> has_tree_id (h_command hdr2)
              then snd (smb2_select_tree_id c (h_tree_id hdr2)) else c);
         hdr = (if a then set_async_id (get64 b 32 (h_async_id hdr)) hdr else hdr2);
         c = (if smb2_is_server c then c\<lparr>c_message_id := h_message_id hdr\<rparr> else c)
     in (0, c, hdr\<lparr>h_session_id := get64 b 40 (h_session_id hdr), h_signature := get_at 48 16 b\<rparr>))" for c
  proof -
    from False have f: "(length b < SMB2_HEADER_SIZE) = False" "(get_at 0 4 b = smb1_magic) = False" "(get_at 0 4 b \<noteq> smb2_magic) = False"
      by auto
    show ?thesis
      unfolding smb2_decode_header_def f if_False hdr2_def Let_def hdr_def [symmetric]
      by (cases "h_flags hdr AND SMB2_FLAGS_ASYNC_COMMAND \<noteq> 0") (simp_all only: if_True if_False prod.case simp_thms)
  qed
  show ?thesis by (simp only: r Let_def) (simp split: if_split)
qed

lemma calc_signature_with_script [simp]: "smb2_calc_signature (c\<lparr>c_rd_script := s\<rparr>) iov = in_result s (smb2_calc_signature c iov)"
proof -
  have h: "stack_sha (c\<lparr>c_rd_script := s\<rparr>) = stack_sha c" by (simp add: stack_sha_def)
  show ?thesis
  proof (cases "c_dialect c > SMB2_VERSION_0210")
    case False
    then show ?thesis unfolding smb2_calc_signature_def Let_def by (simp only: h if_False) simp
  qed (simp add: smb2_calc_signature_def Let_def)
qed

lemma verify_signature_with_script [simp]: "verify_signature (c\<lparr>c_rd_script := s\<rparr>) iov = in_result s (verify_signature c iov)"
proof -
  obtain rc d sig iov' where "smb2_calc_signature c iov = (rc, d, sig, iov')" by (metis prod_cases4)
  then show ?thesis by (simp add: verify_signature_def Let_def)
qed

lemma check_signature_with_script [simp]:
  "check_signature off (c\<lparr>c_rd_script := s\<rparr>) = map_option (map_prod id (put_script s)) (check_signature off c)"
proof -
  obtain rc d iov where "verify_signature c (drop (1 + off) (v_iov (c_in c))) = (rc, d, iov)" by (metis prod_cases3)
  then show ?thesis by (simp add: check_signature_def Let_def)
qed

lemma complete_pdu_with_script [simp]:
  "complete_pdu app pdu (c\<lparr>c_rd_script := s\<rparr>) = (complete_pdu app pdu c)\<lparr>c_rd_script := s\<rparr>"
  by (simp add: complete_pdu_def Let_def)

lemma recv_pending_with_script [simp]: "recv_pending app (c\<lparr>c_rd_script := s\<rparr>) = in_phase s (recv_pending app c)"
  by (simp add: recv_pending_def Let_def split: option.split)

lemma recv_done_with_script [simp]: "recv_done app off (c\<lparr>c_rd_script := s\<rparr>) = in_phase s (recv_done app off c)"
proof (cases "check_signature off c")
  case (Some r)
  then show ?thesis by (cases r; cases "c_pdu (snd r)") (simp_all add: recv_done_def Let_def)
qed (simp add: recv_done_def)

lemma recv_padding_with_script [simp]:
  "recv_padding e1 e2 app off (c\<lparr>c_rd_script := s\<rparr>) = in_phase s (recv_padding e1 e2 app off c)"
  by (simp add: recv_padding_def Let_def)

lemma user_vectors_with_script [simp]:
  "user_vectors is n (c\<lparr>c_rd_script := s\<rparr>) = map_sum (put_script s) (map_prod id (put_script s)) (user_vectors is n c)"
proof (induction "is" arbitrary: n c)
  case (Cons i "is")
  show ?case by (simp add: Let_def Cons.IH split: prod.split option.split)
qed simp

lemma recv_fixed_with_script [simp]: "recv_fixed app off (c\<lparr>c_rd_script := s\<rparr>) = in_phase s (recv_fixed app off c)"
proof (cases "c_pdu c")
  case (Some pdu)
  obtain len c1 q where p: "smb2_process_payload_fixed c pdu = (len, c1, q)" by (metis prod_cases3)
  show ?thesis
  proof (cases "user_vectors (v_iov (p_in q)) (nat len) (c1\<lparr>c_pdu := Some q\<rparr>)")
    case (Inl e)
    with Some p show ?thesis by (simp add: recv_fixed_def Let_def)
  next
    case (Inr r)
    with Some p show ?thesis by (cases r) (simp add: recv_fixed_def Let_def)
  qed
qed (simp add: recv_fixed_def)

lemma recv_variable_with_script [simp]: "recv_variable app off (c\<lparr>c_rd_script := s\<rparr>) = in_phase s (recv_variable app off c)"
proof (cases "c_pdu c")
  case (Some pdu)
  then show ?thesis
    by (cases "smb2_process_payload_variable c pdu") (auto simp: recv_variable_def Let_def)
qed (simp add: recv_variable_def)

lemma decrypt_with_script [simp]: "transform_decrypt (c\<lparr>c_rd_script := s\<rparr>) = transform_decrypt c"
  by (simp add: fun_eq_iff transform_decrypt_def)

lemma recv_trfm_with_script [simp]: "recv_trfm (c\<lparr>c_rd_script := s\<rparr>) = in_phase s (recv_trfm c)"
proof -
  let ?v = "v_iov (c_in c)"
  obtain bad plain where "transform_decrypt (set_num_done 0 c) (iov_buf (?v ! (length ?v - 2))) (in_buf (set_num_done 0 c)) = (bad, plain)"
    by fastforce
  then show ?thesis by (simp add: recv_trfm_def smb3_decrypt_pdu_def Let_def set_num_done_def)
qed

lemma recv_transform_with_script [simp]: "recv_transform off (c\<lparr>c_rd_script := s\<rparr>) = in_phase s (recv_transform off c)"
  by (simp add: recv_transform_def Let_def map_prod_def split: prod.split option.split)

lemma recv_spl_with_script [simp]: "recv_spl (c\<lparr>c_rd_script := s\<rparr>) = in_phase s (recv_spl c)"
  by (simp add: recv_spl_def)



lemma recv_request_with_script [simp]: "recv_request off (c\<lparr>c_rd_script := s\<rparr>) = in_phase s (recv_request off c)"
  by (cases "c_pdu c") (simp_all add: recv_request_def expect_fixed_def Let_def)

lemma expect_fixed_with_script [simp]: "expect_fixed pdu off (c\<lparr>c_rd_script := s\<rparr>) = in_phase s (expect_fixed pdu off c)"
  by (simp add: expect_fixed_def Let_def)

lemma recv_reply_with_script [simp]: "recv_reply src off (c\<lparr>c_rd_script := s\<rparr>) = in_phase s (recv_reply src off c)"
proof (cases "is_break_notification (c_hdr c)")
  case True
  obtain d r where "smb2_allocate_pdu c SMB2_OPLOCK_BREAK OPLOCK_BREAK_NOTIFY 0 = (d, r)" by fastforce
  with True show ?thesis by (cases r; cases "c_pdu c") (simp_all add: recv_reply_def)
next
  case False
  define f where "f = (\<lambda>c. case c_pdu c of None \<Rightarrow> c | Some p \<Rightarrow> (smb2_free_pdu c [p])\<lparr>c_pdu := None\<rparr>)"
  have f: "f (c\<lparr>c_rd_script := s\<rparr>) = (f c)\<lparr>c_rd_script := s\<rparr>" by (simp add: f_def split: option.split)
  have "recv_reply src off c = (case smb2_find_pdu (f c) (h_message_id (c_hdr (f c))) of
           None \<Rightarrow>
             if rest_length src (f c) > SMB2_MAX_PDU_SIZE then fail_phase ''no matching PDU found'' (f c)
             else more_input SMB2_RECV_UNKNOWN ''malloc failed while adding UNKNOWN padding'' [] (rest_length src (f c)) off (f c)
         | Some pdu \<Rightarrow>
           (let c = (f c)\<lparr>c_pdu := Some pdu\<rparr> in
            if p_prev_compound_mid pdu \<noteq> 0 \<and> smb2_find_pdu c (p_prev_compound_mid pdu) \<noteq> None
            then fail_phase ''compound reply received out of order'' c
            else expect_fixed pdu off (c\<lparr>c_waitqueue := list_remove p_ptr (p_ptr pdu) (c_waitqueue c)\<rparr>)))"
    if "\<not> is_break_notification (c_hdr c)" for c
    using that unfolding recv_reply_def by (simp only: f_def Let_def if_False)
  note r = this [OF False] this [of "c\<lparr>c_rd_script := s\<rparr>", simplified, OF False]
  show ?thesis
    by (cases "smb2_find_pdu (f c) (h_message_id (c_hdr (f c)))") (simp_all add: r f Let_def)
qed

lemma in_phase_twice [simp]: "in_phase s (in_phase t r) = in_phase s r"
  by (cases r; cases "the r") simp_all

text \<open>The SMB1 negotiation drains the source: this branch alone looks at it.\<close>

lemma recv_smb1_with_script:
  assumes "flush_input src (c\<lparr>c_rd_script := s\<rparr>) = (flush_input src c)\<lparr>c_rd_script := t\<rparr>"
  shows "recv_smb1 app src off (c\<lparr>c_rd_script := s\<rparr>) = in_phase t (recv_smb1 app src off c)"
  using assms by (cases "c_pdu (flush_input src c)") (simp_all add: recv_smb1_def Let_def)

lemma recv_header_alternatives:
  "(\<forall>s. recv_header app src off (c\<lparr>c_rd_script := s\<rparr>) = in_phase s (recv_header app src off c)) \<or>
   (\<exists>e. c_rd_script e = c_rd_script c \<and> (\<forall>s. recv_header app src off (c\<lparr>c_rd_script := s\<rparr>) = recv_smb1 app src off (e\<lparr>c_rd_script := s\<rparr>)))"
proof (cases "take 4 (in_buf c) = xfer")
  case False
  obtain rc d h where d: "smb2_decode_header c (in_buf c) (c_hdr c) = (rc, d, h)"
    by (cases "smb2_decode_header c (in_buf c) (c_hdr c)") auto
  show ?thesis
  proof (cases "rc = 0 \<and> smb2_is_server (d\<lparr>c_hdr := h\<rparr>) \<and> h_command h = SMB1_NEGOTIATE")
    case True
    with False d decode_header_source [OF d] show ?thesis
      by (intro disjI2 exI [of _ "d\<lparr>c_hdr := h\<rparr>"]) (simp add: recv_header_def Let_def source_view_def)
  next
    case other: False
    define e where "e = (let c = d\<lparr>c_hdr := h, c_payload_offset := v_num_done (c_in d)\<rparr> in
      if smb2_is_server c then c else c\<lparr>c_credits := c_credits c + int (unat (h_credit_request_response h))\<rparr>)"
    define run where "run = (\<lambda>e. let server = smb2_is_server e; reply = h_flags h AND SMB2_FLAGS_SERVER_TO_REDIR \<noteq> 0 in
       if \<not> server \<and> \<not> reply then fail_phase ''received non-reply'' e
       else if server \<and> reply then fail_phase ''received non-request'' e
       else if h_status h = SMB2_STATUS_PENDING
       then more_input SMB2_RECV_PAD ''malloc failed while adding PENDING padding'' [] (rest_length src e) off e
       else if server then recv_request off e else recv_reply src off e)"
    have r: "run (e\<lparr>c_rd_script := s\<rparr>) = in_phase s (run e)" for s
      by (simp add: run_def Let_def)
    have server: "smb2_is_server e = smb2_is_server d" by (auto simp: e_def Let_def smb2_is_server_def)
    have "recv_header app src off (c\<lparr>c_rd_script := s\<rparr>) =
        (if rc \<noteq> 0 then fail_phase ''Failed to decode smb2 header: %s'' (d\<lparr>c_hdr := h, c_rd_script := s\<rparr>) else run (e\<lparr>c_rd_script := s\<rparr>))" for s
      using False d other by (simp add: recv_header_def Let_def run_def server) (auto simp: e_def Let_def smb2_is_server_def)
    from this this [of "c_rd_script c"] show ?thesis by (intro disjI1) (simp add: r)
  qed
qed (simp add: recv_header_def)

subsection \<open>The vectors of a message\<close>

text \<open>While a message is read, its vectors are counted, and the last one of a header has 64 bytes.\<close>

definition well_counted :: "smb2_context \<Rightarrow> bool" where
  "well_counted c \<longleftrightarrow> v_total_size (c_in c) = iov_len (c_in c) \<and>
     (c_recv_state c = SMB2_RECV_HEADER \<longrightarrow> v_iov (c_in c) \<noteq> [] \<and> length (iov_buf (last (v_iov (c_in c)))) = 64)"

definition counted :: "smb2_io_vectors \<Rightarrow> bool" where
  "counted v \<longleftrightarrow> v_total_size v = iov_len v"

definition receives_more :: "phase option \<Rightarrow> bool" where
  "receives_more r \<longleftrightarrow> (case r of None \<Rightarrow> True | Some (More off d) \<Rightarrow> well_counted d | Some (Opened d) \<Rightarrow> well_counted d
     | Some (Finish rc d) \<Rightarrow> rc = 0 \<longrightarrow> v_num_done (c_in d) = 0)"

lemma receives_more_simps [simp]:
  "receives_more None" "receives_more (Some (Opened d)) \<longleftrightarrow> well_counted d" "receives_more (Some (More off d)) \<longleftrightarrow> well_counted d"
  "receives_more (Some (Finish rc d)) \<longleftrightarrow> (rc = 0 \<longrightarrow> v_num_done (c_in d) = 0)" "receives_more (fail_phase e d)"
  by (simp_all add: receives_more_def fail_phase_def)

lemma add_iovector_counted:
  "smb2_add_iovector c v b f = (d, Some w) \<Longrightarrow> counted v \<Longrightarrow> counted w \<and> v_iov w = v_iov v @ [\<lparr>iov_buf = b, iov_free = f\<rparr>] \<and> d = c"
  by (auto simp: smb2_add_iovector_def counted_def iov_len_def split: if_splits)

lemma new_iovector_counted:
  "new_iovector e1 e2 n b c v = (d, Some w) \<Longrightarrow> counted v \<Longrightarrow> counted w \<and> v_iov w = v_iov v @ [\<lparr>iov_buf = b, iov_free = Free\<rparr>] \<and> d = c"
  by (auto simp: new_iovector_def split: if_splits prod.splits option.splits dest: add_iovector_counted)

lemma more_input_receives:
  "counted (c_in c) \<Longrightarrow> st \<noteq> SMB2_RECV_HEADER \<Longrightarrow> receives_more (more_input st e1 e2 n off c)"
  by (auto simp: more_input_def Let_def well_counted_def counted_def [symmetric] split: prod.split option.split dest: new_iovector_counted)

lemma add_header_receives: "counted (c_in c) \<Longrightarrow> receives_more (add_header e off c)"
  by (auto simp: add_header_def well_counted_def counted_def [symmetric] split: prod.split option.split dest!: add_iovector_counted)

lemma num_done_in [simp]: "v_num_done (c_in (set_num_done n c)) = n"
  by (simp add: set_num_done_def)

lemma callback_in [simp]: "c_in (run_callback app pdu c) = c_in c"
  by (simp add: run_callback_def Let_def)

lemma free_pdu_in [simp]: "c_in (smb2_free_pdu c ps) = c_in c"
  by (induction ps arbitrary: c) (simp_all add: smb2_free_pdu.simps Let_def log_event_def)

lemma complete_pdu_in [simp]: "c_in (complete_pdu app pdu c) = c_in c"
  by (simp add: complete_pdu_def Let_def)

lemma signature_lengths:
  "length (iov_buf (hd iov)) \<ge> 64 \<Longrightarrow> smb2_calc_signature c iov = (rc, d, sig, iov') \<Longrightarrow>
     map (length \<circ> iov_buf) iov' = map (length \<circ> iov_buf) iov \<and> length sig \<le> 16 \<and> length (iov_buf (hd iov')) \<ge> 64 \<and> c_in d = c_in c"
  by (cases iov) (auto simp: smb2_calc_signature_def clear_signature_def Let_def split: if_splits prod.splits)

lemma check_signature_counted:
  assumes "check_signature off c = Some (rc, d)" "counted (c_in c)"
  shows "counted (c_in d)"
proof (cases "c_sign c \<and> h_flags (c_hdr c) AND SMB2_FLAGS_SIGNED \<noteq> 0 \<and> h_command (c_hdr c) \<noteq> SMB2_SESSION_SETUP")
  case True
  let ?v = "v_iov (c_in c)" and ?iov = "drop (1 + off) (v_iov (c_in c))"
  obtain rc' d1 sig iov1 where calc: "smb2_calc_signature c ?iov = (rc', d1, sig, iov1)" by (metis prod_cases4)
  from assms True have ok: "?iov \<noteq> []" "length (iov_buf (hd ?iov)) \<ge> 64" by (auto simp: check_signature_def Let_def split: if_splits)
  note l = signature_lengths [OF ok(2) calc]
  have "map (length \<circ> iov_buf) (store_signature sig iov1) = map (length \<circ> iov_buf) iov1"
    using l by (cases iov1) (auto simp: store_signature_def)
  with calc l assms(1) True ok obtain iov2 where iov2: "map (length \<circ> iov_buf) iov2 = map (length \<circ> iov_buf) ?iov"
    "c_in d = (c_in c)\<lparr>v_iov := take (1 + off) ?v @ iov2\<rparr>"
    by (auto simp: check_signature_def verify_signature_def Let_def split: if_splits)
  then have "iov_len (c_in d) = iov_len (c_in c)"
    by (simp add: iov_len_def) (metis append_take_drop_id map_append sum_list.append)
  with assms(2) iov2 show ?thesis by (simp add: counted_def)
next
  case False
  with assms show ?thesis by (auto simp: check_signature_def split: if_splits)
qed

lemma recv_done_receives:
  assumes "counted (c_in c)"
  shows "receives_more (recv_done app off c)"
proof (cases "check_signature off c")
  case (Some r)
  obtain rc d where r: "r = (rc, d)" by (cases r)
  note d = check_signature_counted [OF Some [unfolded r] assms]
  with Some r show ?thesis
    by (cases "c_pdu d") (simp_all add: recv_done_def recv_pending_def Let_def add_header_receives)
qed (simp add: recv_done_def recv_pending_def Let_def)

lemma recv_padding_receives: "counted (c_in c) \<Longrightarrow> receives_more (recv_padding e1 e2 app off c)"
  by (simp add: recv_padding_def Let_def more_input_receives recv_done_receives)

lemma user_vectors_counted: "counted (c_in c) \<Longrightarrow> user_vectors is n c = Inr (k, d) \<Longrightarrow> counted (c_in d)"
proof (induction "is" arbitrary: n c)
  case (Cons i "is")
  from Cons.prems show ?case
    by (auto simp: Let_def split: prod.splits option.splits if_splits dest!: add_iovector_counted elim!: Cons.IH [rotated])
qed simp

lemma decoder_in: "smb2_process_payload_fixed c pdu = (rc, d, q) \<Longrightarrow> c_in d = c_in c"
  "smb2_process_payload_variable c pdu = Some (rc, d, q) \<Longrightarrow> c_in d = c_in c"
  using payload_fixed_keeps [of c pdu rc d q] payload_variable_keeps [of c pdu rc d q] by (simp_all add: engine_part_def)

lemma recv_fixed_receives:
  assumes "counted (c_in c)"
  shows "receives_more (recv_fixed app off c)"
proof (cases "c_pdu c")
  case (Some pdu)
  obtain len d q where p: "smb2_process_payload_fixed c pdu = (len, d, q)" by (metis prod_cases3)
  with assms have d: "counted (c_in (d\<lparr>c_pdu := Some q\<rparr>))" by (simp add: decoder_in(1) [OF p])
  show ?thesis
  proof (cases "user_vectors (v_iov (p_in q)) (nat len) (d\<lparr>c_pdu := Some q\<rparr>)")
    case (Inr r)
    with user_vectors_counted [OF d] Some p d show ?thesis
      by (cases r) (auto simp: recv_fixed_def Let_def recv_padding_receives well_counted_def counted_def [symmetric] more_input_receives)
  qed (use Some p d in \<open>simp add: recv_fixed_def Let_def recv_padding_receives\<close>)
qed (simp add: recv_fixed_def)

lemma recv_variable_receives: "counted (c_in c) \<Longrightarrow> receives_more (recv_variable app off c)"
  by (auto simp: recv_variable_def Let_def recv_padding_receives decoder_in split: option.splits)

lemma decode_header_in: "smb2_decode_header c b h = (rc, d, h') \<Longrightarrow> c_in d = c_in c"
  by (auto simp: smb2_decode_header_def smb2_select_tree_id_def Let_def split: if_splits)

lemma allocate_pdu_in: "smb2_allocate_pdu c cmd cb x = (d, r) \<Longrightarrow> c_in d = c_in c"
  by (auto simp: smb2_allocate_pdu_def Let_def smb2_add_iovector_def split: if_splits prod.splits option.splits)

lemma expect_fixed_receives: "counted (c_in c) \<Longrightarrow> receives_more (expect_fixed pdu off c)"
  by (simp add: expect_fixed_def Let_def more_input_receives)

lemma recv_reply_receives:
  assumes "counted (c_in c)"
  shows "receives_more (recv_reply src off c)"
proof (cases "is_break_notification (c_hdr c)")
  case True
  with assms show ?thesis
    by (auto simp: recv_reply_def expect_fixed_receives allocate_pdu_in split: option.split prod.split)
next
  case False
  define d where "d = (case c_pdu c of None \<Rightarrow> c | Some p \<Rightarrow> (smb2_free_pdu c [p])\<lparr>c_pdu := None\<rparr>)"
  have d: "counted (c_in d)" using assms by (simp add: d_def split: option.split)
  then show ?thesis
    using False by (simp add: recv_reply_def Let_def d_def [symmetric] more_input_receives expect_fixed_receives split: option.split)
qed

lemma recv_request_receives: "counted (c_in c) \<Longrightarrow> receives_more (recv_request off c)"
  by (simp add: recv_request_def Let_def expect_fixed_receives split: option.split)

lemma recv_smb1_receives: "receives_more (recv_smb1 app src off c)"
  by (simp add: recv_smb1_def Let_def split: option.split)

lemma recv_transform_receives:
  assumes "well_counted c" "c_recv_state c = SMB2_RECV_HEADER"
  shows "receives_more (recv_transform off c)"
proof -
  let ?v = "c_in c" let ?i = "last (v_iov ?v)"
  define w where "w = ?v\<lparr>v_iov := butlast (v_iov ?v) @ [?i\<lparr>iov_buf := take 52 (iov_buf ?i)\<rparr>], v_total_size := v_total_size ?v - 12\<rparr>"
  define n where "n = alloc_size (as_int (int (unat (c_spl c)) - 52))"
  from assms have i: "v_iov ?v \<noteq> []" "length (iov_buf ?i) = 64" "v_total_size ?v = iov_len ?v" by (auto simp: well_counted_def)
  then have "iov_len ?v = sum_list (map (length \<circ> iov_buf) (butlast (v_iov ?v))) + 64"
    unfolding iov_len_def by (subst append_butlast_last_id [symmetric, OF i(1)], subst map_append) simp
  with i have w: "counted w" by (simp add: counted_def w_def iov_len_def)
  have last: "counted (map_last_iov (put_at 0 bs) u)" if "counted u" "v_iov u = xs @ [j]" "length bs \<le> length (iov_buf j)" for u xs j bs
    using that by (simp add: counted_def map_last_iov_def iov_len_def)
  show ?thesis
    using w i by (auto simp: recv_transform_def Let_def w_def [symmetric] n_def [symmetric] well_counted_def counted_def [symmetric]
      split: prod.split option.split dest!: new_iovector_counted intro!: last)
qed

lemma recv_header_receives:
  assumes "well_counted c" "c_recv_state c = SMB2_RECV_HEADER"
  shows "receives_more (recv_header app src off c)"
proof (cases "take 4 (in_buf c) = xfer")
  case False
  obtain rc d h where d: "smb2_decode_header c (in_buf c) (c_hdr c) = (rc, d, h)"
    by (cases "smb2_decode_header c (in_buf c) (c_hdr c)") auto
  from assms have "counted (c_in d)" by (simp add: well_counted_def counted_def decode_header_in [OF d])
  with False d show ?thesis
    by (simp add: recv_header_def Let_def recv_smb1_receives more_input_receives recv_request_receives recv_reply_receives)
qed (use assms in \<open>simp add: recv_header_def recv_transform_receives\<close>)

lemma recv_phase_receives:
  assumes "well_counted c"
  shows "receives_more (recv_phase app src off c)"
proof -
  from assms have "counted (c_in c)" by (simp add: well_counted_def counted_def)
  with assms show ?thesis
    by (cases "c_recv_state c") (auto simp: recv_phase_def recv_spl_def add_header_receives recv_header_receives recv_fixed_receives
      recv_variable_receives recv_done_receives recv_trfm_def smb3_decrypt_pdu_def Let_def well_counted_def iov_len_def split: prod.split)
qed

subsection \<open>Filling the vectors\<close>

lemma store_bytes_lengths [simp]: "map (length \<circ> iov_buf) (store_bytes pos bs is) = map (length \<circ> iov_buf) is"
  by (induction pos bs "is" rule: store_bytes.induct) (simp_all add: Let_def)

lemma store_bytes_nil [simp]: "store_bytes pos [] is = is"
  by (induction "is" arbitrary: pos) (simp_all add: Let_def put_at_def)

lemma put_at_twice: "pos + length b1 + length b2 \<le> length b \<Longrightarrow> put_at (pos + length b1) b2 (put_at pos b1 b) = put_at pos (b1 @ b2) b"
  by (simp add: put_at_def ac_simps)

lemma store_bytes_append: "store_bytes (pos + length b1) b2 (store_bytes pos b1 is) = store_bytes pos (b1 @ b2) is"
proof (induction "is" arbitrary: pos b1)
  case (Cons i "is")
  define l where "l = length (iov_buf i)"
  consider "pos \<ge> l" | "pos < l" "pos + length b1 \<ge> l" | "pos < l" "pos + length b1 < l" by linarith
  then show ?case
  proof cases
    case 1
    with Cons [of "pos - l" b1] show ?thesis by (simp add: Let_def l_def [symmetric])
  next
    case 2
    define k where "k = l - pos"
    have "length (put_at pos (take k b1) (iov_buf i)) = l" using 2 by (simp add: k_def l_def)
    with 2 Cons [of 0 "drop k b1"] show ?thesis by (simp add: Let_def l_def [symmetric] k_def add.commute)
  next
    case 3
    have "length (put_at pos b1 (iov_buf i)) = l" using 3 by (simp add: l_def)
    moreover have "put_at (pos + length b1) (take (l - (pos + length b1)) b2) (put_at pos b1 (iov_buf i)) =
        put_at pos (b1 @ take (l - (pos + length b1)) b2) (iov_buf i)"
      using 3 by (intro put_at_twice) (simp add: l_def)
    ultimately show ?thesis using 3 by (simp add: Let_def l_def [symmetric])
  qed
qed simp

lemma store_input_append: "store_input b2 (store_input b1 c) = store_input (b1 @ b2) c"
  by (simp add: store_input_def Let_def store_bytes_append add.assoc)

lemma store_input_nil [simp]: "store_input [] c = c"
  by (simp add: store_input_def)

lemma store_input_with_script [simp]: "store_input bs (c\<lparr>c_rd_script := s\<rparr>) = (store_input bs c)\<lparr>c_rd_script := s\<rparr>"
  by (simp add: store_input_def Let_def)

lemma store_input_receiving: "well_counted c \<Longrightarrow> well_counted (store_input bs c)"
proof -
  assume r: "well_counted c"
  let ?v = "v_iov (c_in c)"
  have "length (iov_buf (last (store_bytes p bs ?v))) = length (iov_buf (last ?v))" if "?v \<noteq> []" for p
  proof -
    from store_bytes_lengths [of p bs ?v] have "last (map (length \<circ> iov_buf) (store_bytes p bs ?v)) = last (map (length \<circ> iov_buf) ?v)" by metis
    moreover from store_bytes_lengths [of p bs ?v] that have "store_bytes p bs ?v \<noteq> []" by (metis map_is_Nil_conv)
    ultimately show ?thesis using that by (simp add: last_map del: store_bytes_lengths)
  qed
  moreover have "store_bytes p bs ?v = [] \<longleftrightarrow> ?v = []" for p by (metis map_is_Nil_conv store_bytes_lengths)
  ultimately show ?thesis using r by (simp add: well_counted_def store_input_def Let_def iov_len_def)
qed

subsection \<open>The loops on a stream\<close>

text \<open>A script that only has bytes to deliver, and what these are.\<close>

fun stream_of :: "read_result list \<Rightarrow> bytes option" where
  "stream_of [] = Some []"
| "stream_of (Rd_data bs # s) = (if bs = [] then None else map_option ((@) bs) (stream_of s))"
| "stream_of (_ # s) = None"

text \<open>Two contexts that differ in how the bytes of one stream are cut into reads.\<close>

definition same_stream :: "smb2_context \<Rightarrow> smb2_context \<Rightarrow> bool" where
  "same_stream c d \<longleftrightarrow> d = c\<lparr>c_rd_script := c_rd_script d\<rparr> \<and> stream_of (c_rd_script c) \<noteq> None \<and>
     stream_of (c_rd_script d) = stream_of (c_rd_script c)"

definition same_phase :: "phase option \<Rightarrow> phase option \<Rightarrow> bool" where
  "same_phase r q \<longleftrightarrow>
     (case (r, q) of
        (None, None) \<Rightarrow> True
      | (Some (Finish rc c), Some (Finish rc' d)) \<Rightarrow> rc = rc' \<and> same_stream c d
      | (Some (More off c), Some (More off' d)) \<Rightarrow> off = off' \<and> same_stream c d
      | (Some (Opened c), Some (Opened d)) \<Rightarrow> same_stream c d
      | _ \<Rightarrow> False)"

definition same_result :: "(int \<times> smb2_context) option \<Rightarrow> (int \<times> smb2_context) option \<Rightarrow> bool" where
  "same_result = rel_option (rel_prod (=) same_stream)"

lemma flush_stream: "stream_of s \<noteq> None \<Longrightarrow> flush_input From_socket (c\<lparr>c_rd_script := s\<rparr>) = c\<lparr>c_rd_script := []\<rparr>"
proof (induction "script_size s" arbitrary: s rule: less_induct)
  case less
  show ?case
  proof (cases s)
    case Nil
    then show ?thesis by (subst flush_input.simps) (simp add: read_from_def smb2_readv_from_socket_def)
  next
    case (Cons r t)
    with less.prems obtain bs where r: "r = Rd_data bs" "bs \<noteq> []" "stream_of t \<noteq> None" by (cases r) (auto split: if_splits)
    show ?thesis
    proof (cases "length bs \<le> 32")
      case True
      with r Cons less.hyps [of t] show ?thesis
        by (subst flush_input.simps) (simp add: read_from_def smb2_readv_from_socket_def)
    next
      case False
      with r Cons less.hyps [of "Rd_data (drop 32 bs) # t"] show ?thesis
        by (subst flush_input.simps) (simp add: read_from_def smb2_readv_from_socket_def)
    qed
  qed
qed

lemma same_streamI:
  "stream_of s \<noteq> None \<Longrightarrow> stream_of t = stream_of s \<Longrightarrow> same_stream (c\<lparr>c_rd_script := s\<rparr>) (c\<lparr>c_rd_script := t\<rparr>)"
  by (simp add: same_stream_def)

lemma same_streamE:
  assumes "same_stream c d"
  obtains e s t where "c = e\<lparr>c_rd_script := s\<rparr>" "d = e\<lparr>c_rd_script := t\<rparr>" "stream_of s \<noteq> None" "stream_of t = stream_of s"
proof (rule that [where e = c and s = "c_rd_script c" and t = "c_rd_script d"])
  show "d = c\<lparr>c_rd_script := c_rd_script d\<rparr>" using assms by (simp only: same_stream_def)
qed (use assms in \<open>simp_all add: same_stream_def\<close>)

lemma same_phaseI:
  "stream_of s \<noteq> None \<Longrightarrow> stream_of t = stream_of s \<Longrightarrow> same_phase (in_phase s r) (in_phase t r)"
  by (cases r; cases "the r") (simp_all add: same_phase_def same_streamI)

lemma recv_smb1_same:
  assumes "stream_of s \<noteq> None" "stream_of t = stream_of s"
  shows "same_phase (recv_smb1 app From_socket off (e\<lparr>c_rd_script := s\<rparr>)) (recv_smb1 app From_socket off (e\<lparr>c_rd_script := t\<rparr>))"
proof -
  have r: "recv_smb1 app From_socket off (e\<lparr>c_rd_script := s\<rparr>) = in_phase [] (recv_smb1 app From_socket off (e\<lparr>c_rd_script := []\<rparr>))"
    if "stream_of s \<noteq> None" for s
  proof -
    have "flush_input From_socket (e\<lparr>c_rd_script := []\<rparr>) = e\<lparr>c_rd_script := []\<rparr>" by (rule flush_stream) simp
    with that show ?thesis
      using recv_smb1_with_script [where src = From_socket and c = "e\<lparr>c_rd_script := []\<rparr>" and s = s and t = "[]"]
      by (simp add: flush_stream)
  qed
  from r [of s] r [of t] same_phaseI [of "[]" "[]"] assms show ?thesis by simp
qed

lemma phase_same:
  assumes "same_stream c d"
  shows "same_phase (recv_phase app From_socket off c) (recv_phase app From_socket off d)"
proof -
  from assms obtain e s t where e: "c = e\<lparr>c_rd_script := s\<rparr>" "d = e\<lparr>c_rd_script := t\<rparr>"
    and st: "stream_of s \<noteq> None" "stream_of t = stream_of s" by (rule same_streamE)
  have "same_phase (recv_header app From_socket off c) (recv_header app From_socket off d)"
    using recv_header_alternatives [of app From_socket off e]
  proof (elim disjE exE conjE)
    assume "\<forall>s. recv_header app From_socket off (e\<lparr>c_rd_script := s\<rparr>) = in_phase s (recv_header app From_socket off e)"
    with st show ?thesis by (simp add: e same_phaseI)
  next
    fix h assume "\<forall>s. recv_header app From_socket off (e\<lparr>c_rd_script := s\<rparr>) = recv_smb1 app From_socket off (h\<lparr>c_rd_script := s\<rparr>)"
    with st show ?thesis by (simp add: e recv_smb1_same)
  qed
  moreover have "same_phase (Some (Finish 0 (set_num_done 0 c))) (Some (Finish 0 (set_num_done 0 d)))"
    using st by (simp add: e same_phase_def same_streamI)
  ultimately show ?thesis
    using st by (cases "c_recv_state e") (simp_all add: recv_phase_def e same_phaseI del: num_done_in)
qed

text \<open>Decrypted messages are read without the transport.\<close>

lemma readv_from_buf_with_script [simp]:
  "read_from From_buf (c\<lparr>c_rd_script := s\<rparr>) rooms = map_prod id (put_script s) (read_from From_buf c rooms)"
  by (simp add: read_from_def smb2_readv_from_buf_def Let_def)

lemma flush_buf_with_script: "flush_input From_buf (c\<lparr>c_rd_script := s\<rparr>) = (flush_input From_buf c)\<lparr>c_rd_script := s\<rparr>"
proof (induction "source_size From_buf c" arbitrary: c rule: less_induct)
  case less
  obtain r d where r: "read_from From_buf c [32] = (r, d)" by fastforce
  show ?case
  proof (cases r)
    case (Got bs)
    with less [of d] read_from_size [OF r [unfolded Got]] r show ?thesis
      by (subst (1 2) flush_input.simps) simp
  qed (use r in \<open>subst (1 2) flush_input.simps, simp\<close>)+
qed

lemma recv_header_buf_with_script:
  "recv_header app From_buf off (c\<lparr>c_rd_script := s\<rparr>) = in_phase s (recv_header app From_buf off c)"
  using recv_header_alternatives [of app From_buf off c]
proof (elim disjE exE conjE)
  fix e assume "c_rd_script e = c_rd_script c"
    and e: "\<forall>s. recv_header app From_buf off (c\<lparr>c_rd_script := s\<rparr>) = recv_smb1 app From_buf off (e\<lparr>c_rd_script := s\<rparr>)"
  have "recv_smb1 app From_buf off (e\<lparr>c_rd_script := s\<rparr>) = in_phase s (recv_smb1 app From_buf off e)" for s
    by (rule recv_smb1_with_script) (rule flush_buf_with_script)
  with e spec [OF e, of "c_rd_script c"] show ?thesis by simp
qed simp

lemma recv_phase_buf_with_script:
  "recv_phase app From_buf off (c\<lparr>c_rd_script := s\<rparr>) = in_phase s (recv_phase app From_buf off c)"
  by (cases "c_recv_state c") (simp_all add: recv_phase_def recv_header_buf_with_script)

lemma recv_turn_buf_with_script [simp]:
  "recv_turn app From_buf off (c\<lparr>c_rd_script := s\<rparr>) = in_phase s (recv_turn app From_buf off c)"
proof (cases "rooms_left (v_num_done (c_in c)) (vector_lengths (c_in c))")
  case (Some rooms)
  obtain r d where "read_from From_buf c rooms = (r, d)" by fastforce
  with Some show ?thesis by (cases r) (simp_all add: recv_turn_def recv_phase_buf_with_script)
qed (simp add: recv_turn_def)

lemma recv_loop_buf_with_script:
  "src = From_buf \<Longrightarrow> recv_loop app src off (c\<lparr>c_rd_script := s\<rparr>) = map_option (map_prod id (put_script s)) (recv_loop app src off c)"
proof (induction app src off c rule: recv_loop.induct)
  case (1 app src off c)
  show ?case
  proof (cases "recv_turn app src off c")
    case None
    with 1(3) show ?thesis by (subst (1 2) recv_loop.simps) simp
  next
    case (Some r)
    then show ?thesis
    proof (cases r)
      case (More off' d)
      with 1(1) [OF Some More] 1(3) Some show ?thesis by (subst (1 2) recv_loop.simps) (simp add: id_def)
    next
      case (Opened d)
      have dec: "decrypted (map_prod id (put_script s) r) = map_prod id (put_script s) (decrypted r)" for r
        by (cases r) (simp add: decrypted_def)
      show ?thesis
      proof (cases "enc_length c \<le> enc_length d")
        case True
        with 1(3) Some Opened show ?thesis by (subst (1 2) recv_loop.simps) simp
      next
        case False
        with 1(2) [OF Some Opened] 1(3) Some Opened show ?thesis
          by (subst (1 2) recv_loop.simps) (simp add: option.map_comp comp_def dec [unfolded id_def] id_def)
      qed
    qed (use 1(3) Some in \<open>subst (1 2) recv_loop.simps, simp\<close>)
  qed
qed

text \<open>A phase begins when exactly its bytes have been taken from the stream, however they came.\<close>

lemma rooms_left_sum:
  "n < sum_list ls \<Longrightarrow> \<exists>rooms. rooms_left n ls = Some rooms \<and> sum_list rooms = sum_list ls - n"
  "n \<ge> sum_list ls \<Longrightarrow> rooms_left n ls = None"
  by (induction n ls rule: rooms_left.induct) (auto simp: add.commute)

lemma vector_rooms:
  assumes "well_counted c"
  shows "still_filling c \<Longrightarrow> \<exists>rooms. rooms_left (v_num_done (c_in c)) (vector_lengths (c_in c)) = Some rooms \<and>
      sum_list rooms = v_total_size (c_in c) - v_num_done (c_in c)"
    "\<not> still_filling c \<Longrightarrow> rooms_left (v_num_done (c_in c)) (vector_lengths (c_in c)) = None"
  using assms rooms_left_sum [where n = "v_num_done (c_in c)" and ls = "vector_lengths (c_in c)"]
  by (simp_all add: still_filling_def well_counted_def iov_len_def vector_lengths_def)

definition after_phase :: "application \<Rightarrow> phase option \<Rightarrow> (int \<times> smb2_context) option" where
  "after_phase app r =
     (case r of
        None \<Rightarrow> None
      | Some (Finish rc d) \<Rightarrow> Some (rc, d)
      | Some (More off d) \<Rightarrow> recv_loop app From_socket off d
      | Some (Opened d) \<Rightarrow> map_option decrypted (recv_loop app From_buf 0 d))"

lemma recv_loop_after: "recv_loop app From_socket off c = after_phase app (recv_turn app From_socket off c)"
  by (subst recv_loop.simps) (simp add: after_phase_def split: option.split phase.split)

definition missing :: "smb2_context \<Rightarrow> nat" where
  "missing c = v_total_size (c_in c) - v_num_done (c_in c)"

lemma store_input_counts [simp]:
  "v_num_done (c_in (store_input bs c)) = v_num_done (c_in c) + length bs" "v_total_size (c_in (store_input bs c)) = v_total_size (c_in c)"
  by (simp_all add: store_input_def Let_def)

lemma fill:
  assumes "stream_of s = Some xs" "well_counted c" "still_filling c"
  shows "length xs < missing c \<Longrightarrow> recv_loop app From_socket off (c\<lparr>c_rd_script := s\<rparr>) = Some (- EAGAIN, (store_input xs c)\<lparr>c_rd_script := []\<rparr>)"
    "length xs \<ge> missing c \<Longrightarrow> \<exists>t. stream_of t = Some (drop (missing c) xs) \<and> script_size t < script_size s \<and>
       recv_loop app From_socket off (c\<lparr>c_rd_script := s\<rparr>) =
       after_phase app (recv_phase app From_socket off ((store_input (take (missing c) xs) c)\<lparr>c_rd_script := t\<rparr>))"
  using assms
proof (induction s arbitrary: c xs)
  case Nil
  {
    case 1
    from vector_rooms(1) [OF 1(3,4)] 1(2) show ?case
    by (auto simp: recv_loop_after recv_turn_def read_from_def smb2_readv_from_socket_def after_phase_def)
  next
    case 2
    then show ?case by (simp add: missing_def still_filling_def)
  }
next
  case (Cons r s)
  have step: "\<exists>bs ys. r = Rd_data bs \<and> bs \<noteq> [] \<and> stream_of s = Some ys \<and> xs = bs @ ys" if "stream_of (r # s) = Some xs" for xs
    using that by (cases r) (auto split: if_splits)
  have short: "recv_loop app From_socket off (c\<lparr>c_rd_script := Rd_data bs # s\<rparr>) = recv_loop app From_socket off ((store_input bs c)\<lparr>c_rd_script := s\<rparr>) \<and>
      well_counted (store_input bs c) \<and> still_filling (store_input bs c) \<and> missing (store_input bs c) = missing c - length bs"
    if "length bs < missing c" "bs \<noteq> []" "well_counted c" "still_filling c" for bs c
  proof -
    have f: "still_filling (store_input bs c)" using that(1) by (simp add: still_filling_def missing_def)
    from vector_rooms(1) [OF that(3,4)] obtain rooms where
      "rooms_left (v_num_done (c_in c)) (vector_lengths (c_in c)) = Some rooms" "sum_list rooms = missing c" by (auto simp: missing_def)
    with f that(1,2) have "recv_turn app From_socket off (c\<lparr>c_rd_script := Rd_data bs # s\<rparr>) = Some (More off ((store_input bs c)\<lparr>c_rd_script := s\<rparr>))"
      by (simp add: recv_turn_def read_from_def smb2_readv_from_socket_def)
    with f store_input_receiving [OF that(3)] show ?thesis by (simp add: recv_loop_after after_phase_def missing_def)
  qed
  {
  case 1
  from step [OF 1(2)] obtain bs ys where r: "r = Rd_data bs" "bs \<noteq> []" "stream_of s = Some ys" "xs = bs @ ys" by blast
  with 1 have "length bs < missing c" by simp
  note sh = short [OF this r(2) 1(3,4)]
  with r Cons.IH(1) [where c = "store_input bs c" and xs = ys] 1(1) show ?case by (simp add: store_input_append)
next
  case 2
  from step [OF 2(2)] obtain bs ys where r: "r = Rd_data bs" "bs \<noteq> []" "stream_of s = Some ys" "xs = bs @ ys" by blast
  show ?case
  proof (cases "length bs < missing c")
    case True
    note sh = short [OF True r(2) 2(3,4)]
    from r 2(1) have "missing c - length bs \<le> length ys" by simp
    with r sh Cons.IH(2) [where c = "store_input bs c" and xs = ys] True obtain t where
      "stream_of t = Some (drop (missing c) xs)" "script_size t < script_size s"
      "recv_loop app From_socket off (c\<lparr>c_rd_script := r # s\<rparr>) =
       after_phase app (recv_phase app From_socket off ((store_input (take (missing c) xs) c)\<lparr>c_rd_script := t\<rparr>))"
      by (auto simp: store_input_append)
    with r show ?thesis by (intro exI [of _ t]) simp
  next
    case False
    from vector_rooms(1) [OF 2(3,4)] obtain rooms where
      rooms: "rooms_left (v_num_done (c_in c)) (vector_lengths (c_in c)) = Some rooms" "sum_list rooms = missing c" by (auto simp: missing_def)
    define t where "t = (if length bs = missing c then s else Rd_data (drop (missing c) bs) # s)"
    have full: "\<not> still_filling (store_input (take (missing c) bs) c)" using False by (simp add: still_filling_def missing_def)
    have exact: "\<not> still_filling (store_input bs c)" if "length bs = missing c" using that by (simp add: still_filling_def missing_def)
    have m: "0 < missing c" using 2(4) by (simp add: still_filling_def missing_def)
    have "recv_turn app From_socket off (c\<lparr>c_rd_script := r # s\<rparr>) =
        recv_phase app From_socket off ((store_input (take (missing c) xs) c)\<lparr>c_rd_script := t\<rparr>)"
      using rooms r False full exact m by (simp add: recv_turn_def read_from_def smb2_readv_from_socket_def Let_def t_def)
    moreover have "stream_of t = Some (drop (missing c) xs)" using r False by (auto simp: t_def)
    moreover have "script_size t < script_size (r # s)" using r False m by (auto simp: t_def)
    ultimately show ?thesis by (auto simp: recv_loop_after)
  qed
  }
qed

lemma same_result_simps [simp]:
  "same_result None r \<longleftrightarrow> r = None" "same_result (Some (rc, c)) (Some (rc', d)) \<longleftrightarrow> rc = rc' \<and> same_stream c d"
  by (simp_all add: same_result_def)

lemma opened_same:
  assumes "same_stream c d"
  shows "same_result (map_option decrypted (recv_loop app From_buf 0 c)) (map_option decrypted (recv_loop app From_buf 0 d))"
proof -
  from assms obtain e s t where e: "c = e\<lparr>c_rd_script := s\<rparr>" "d = e\<lparr>c_rd_script := t\<rparr>"
    and st: "stream_of s \<noteq> None" "stream_of t = stream_of s" by (rule same_streamE)
  show ?thesis
  proof (cases "recv_loop app From_buf 0 e")
    case (Some r)
    with st show ?thesis by (cases r) (simp add: e recv_loop_buf_with_script decrypted_def same_streamI)
  qed (simp add: e recv_loop_buf_with_script)
qed

lemma loop_same:
  assumes "same_stream c d" "well_counted c"
  shows "same_result (recv_loop app From_socket off c) (recv_loop app From_socket off d)"
  using assms
proof (induction "script_size (c_rd_script c)" arbitrary: off c d rule: less_induct)
  case less
  from less.prems(1) obtain e s t where e: "c = e\<lparr>c_rd_script := s\<rparr>" "d = e\<lparr>c_rd_script := t\<rparr>"
    and st: "stream_of s \<noteq> None" "stream_of t = stream_of s" by (rule same_streamE)
  from st obtain xs where xs: "stream_of s = Some xs" "stream_of t = Some xs" by auto
  from less.prems(2) e have ok: "well_counted e" by (simp add: well_counted_def)
  consider "\<not> still_filling e" | "still_filling e" "length xs < missing e" | "still_filling e" "length xs \<ge> missing e" by linarith
  then show ?case
  proof cases
    case 1
    from vector_rooms(2) [OF ok 1] show ?thesis by (simp add: e recv_loop_after recv_turn_def after_phase_def)
  next
    case 2
    show ?thesis by (simp add: e fill(1) [OF xs(1) ok 2] fill(1) [OF xs(2) ok 2] same_streamI)
  next
    case 3
    from fill(2) [OF xs(1) ok 3, of app off] obtain s' where s': "stream_of s' = Some (drop (missing e) xs)" "script_size s' < script_size s"
      "recv_loop app From_socket off c = after_phase app (recv_phase app From_socket off ((store_input (take (missing e) xs) e)\<lparr>c_rd_script := s'\<rparr>))"
      by (auto simp: e)
    from fill(2) [OF xs(2) ok 3, of app off] obtain t' where t': "stream_of t' = Some (drop (missing e) xs)"
      "recv_loop app From_socket off d = after_phase app (recv_phase app From_socket off ((store_input (take (missing e) xs) e)\<lparr>c_rd_script := t'\<rparr>))"
      by (auto simp: e)
    define c1 where "c1 = (store_input (take (missing e) xs) e)\<lparr>c_rd_script := s'\<rparr>"
    define d1 where "d1 = (store_input (take (missing e) xs) e)\<lparr>c_rd_script := t'\<rparr>"
    have r1: "well_counted c1" using store_input_receiving [OF ok] by (simp add: c1_def well_counted_def)
    have "same_phase (recv_phase app From_socket off c1) (recv_phase app From_socket off d1)"
      by (intro phase_same) (simp add: c1_def d1_def same_streamI s'(1) t'(1))
    moreover have "receives_more (recv_phase app From_socket off c1)" by (rule recv_phase_receives [OF r1])
    moreover have "keeps_source From_socket c1 (recv_phase app From_socket off c1)" by (rule phase_keeps_source)
    ultimately have "same_result (after_phase app (recv_phase app From_socket off c1)) (after_phase app (recv_phase app From_socket off d1))"
      using s'(2) e(1) less.hyps
      by (auto simp: same_phase_def after_phase_def source_view_def c1_def intro: opened_same split: option.splits phase.splits)
    then show ?thesis by (simp add: s'(3) t'(2) c1_def d1_def)
  qed
qed

lemma read_receiving: "read_from src c rooms = (r, d) \<Longrightarrow> well_counted d = well_counted c"
  by (cases src) (auto simp: read_from_def smb2_readv_from_socket_def smb2_recv_from_ext_def smb2_readv_from_buf_def well_counted_def
      smb2_set_error_def Let_def split: list.splits read_result.splits if_splits)

lemma loop_finishes: "recv_loop app src off c = Some (0, d) \<Longrightarrow> well_counted c \<Longrightarrow> v_num_done (c_in d) = 0"
proof (induction app src off c arbitrary: d rule: recv_loop.induct)
  case (1 app src off c)
  have turn: "receives_more (recv_turn app src off c)"
    using 1(4) by (auto simp: recv_turn_def recv_phase_receives store_input_receiving EAGAIN_def split: option.split prod.split read_count.split
        dest: read_receiving)
  from 1(3) show ?case
  proof (cases rule: recv_loop_cases)
    case (Stop rc e)
    with turn show ?thesis by simp
  next
    case (Again off' e)
    with turn 1(1) [OF Again(1) refl Again(2)] show ?thesis by simp
  next
    case (Inside e r)
    with turn 1(2) [OF Inside(1) refl Inside(2), of "snd r"] show ?thesis
      by (cases r) (auto simp: decrypted_def split: if_splits)
  qed
qed

lemma start_message_with_script:
  "start_message e (c\<lparr>c_rd_script := s\<rparr>) = map_sum (put_script s) (put_script s) (start_message e c)"
  by (simp add: start_message_def smb2_add_iovector_def smb2_free_iovector_def)

lemma start_message_receiving:
  "start_message e c = Inr d \<Longrightarrow> v_num_done (c_in c) = 0 \<or> well_counted c \<Longrightarrow> well_counted d"
  by (auto simp: start_message_def smb2_add_iovector_def smb2_free_iovector_def well_counted_def iov_len_def split: if_splits prod.splits option.splits)

lemma messages_same:
  assumes "same_stream c d" "v_num_done (c_in c) = 0 \<or> well_counted c"
  shows "same_result (read_messages app False c) (read_messages app False d)"
  using assms
proof (induction "script_size (c_rd_script c)" arbitrary: c d rule: less_induct)
  case less
  from less.prems(1) obtain e s t where e: "c = e\<lparr>c_rd_script := s\<rparr>" "d = e\<lparr>c_rd_script := t\<rparr>"
    and st: "stream_of s \<noteq> None" "stream_of t = stream_of s" by (rule same_streamE)
  show ?case
  proof (cases "start_message ''Too many I/O vectors when adding SPL'' e")
    case (Inl x)
    with st show ?thesis by (subst (1 2) read_messages.simps) (simp add: e start_message_with_script same_streamI)
  next
    case (Inr x)
    define c1 where "c1 = x\<lparr>c_rd_script := s\<rparr>"
    define d1 where "d1 = x\<lparr>c_rd_script := t\<rparr>"
    have start: "start_message ''Too many I/O vectors when adding SPL'' c = Inr c1" "start_message ''Too many I/O vectors when adding SPL'' d = Inr d1"
      by (simp_all add: e c1_def d1_def start_message_with_script Inr)
    from start_message_receiving [OF start(1) less.prems(2)] have r1: "well_counted c1" .
    have "same_stream c1 d1" using st by (simp add: c1_def d1_def same_streamI)
    note loop = loop_same [OF this r1, of app 0]
    show ?thesis
    proof (cases "recv_loop app From_socket 0 c1")
      case None
      with loop show ?thesis by (subst (1 2) read_messages.simps) (simp add: start smb2_read_data_def transport_source_def)
    next
      case (Some r)
      obtain rc c2 where r: "r = (rc, c2)" by (cases r)
      from loop Some r obtain d2 where d2: "recv_loop app From_socket 0 d1 = Some (rc, d2)" "same_stream c2 d2"
        by (cases "recv_loop app From_socket 0 d1") (auto simp: same_result_def)
      have "script_size (c_rd_script c2) < script_size (c_rd_script c) \<and> v_num_done (c_in c2) = 0" if "rc = 0"
        using that loop_takes [of app From_socket 0 c1 c2] loop_finishes [of app From_socket 0 c1 c2] Some r r1 by (simp add: c1_def e)
      with less.hyps [of c2 d2] Some r d2 show ?thesis
        by (subst (1 2) read_messages.simps) (simp add: start smb2_read_data_def transport_source_def)
    qed
  qed
qed

text \<open>C33. How the network cuts the bytes of a connection into reads makes no difference: from a point between two messages,
  the same bytes delivered in any two ways give the same result code, the same calls of the application's callbacks, the same queues and
  payloads, the same rest of the stream and the same faults, for plain, compound and encrypted messages alike. The
  transport must not report an interruption in between, since the place in a compound chain is then lost.\<close>

theorem reads_independent_of_fragmentation:
  assumes "v_num_done (c_in c) = 0" "stream_of s \<noteq> None" "stream_of t = stream_of s"
  shows "same_result (smb2_read_from_socket app (c\<lparr>c_rd_script := s\<rparr>)) (smb2_read_from_socket app (c\<lparr>c_rd_script := t\<rparr>))"
  unfolding smb2_read_from_socket_def by (rule messages_same) (use assms in \<open>simp_all add: same_streamI\<close>)

theorem reads_independent_of_fragmentation_witness:
  "same_result (smb2_read_from_socket (\<lambda>e c. c) (zero_context\<lparr>c_rd_script := [Rd_data [0, 0, 0, 64, 0xfe, 0x53]]\<rparr>))
     (smb2_read_from_socket (\<lambda>e c. c) (zero_context\<lparr>c_rd_script := [Rd_data [0], Rd_data [0, 0, 64, 0xfe], Rd_data [0x53]]\<rparr>))"
  by (rule reads_independent_of_fragmentation) (simp_all add: zero_context_def no_vectors_def)

subsection \<open>The loops end, and why\<close>

text \<open>What a transport still has after some reads: an end of its script, of which the first answer may have been taken in part.\<close>

definition left_of :: "read_result list \<Rightarrow> read_result list \<Rightarrow> bool" where
  "left_of s t \<longleftrightarrow> (\<exists>p. s = p @ t) \<or> (\<exists>p bs n u. s = p @ Rd_data bs # u \<and> t = Rd_data (drop n bs) # u)"

lemma left_of_refl [simp]: "left_of s s"
  by (auto simp: left_of_def)

lemma left_of_Cons: "left_of s (r # t) \<Longrightarrow> left_of s t"
  unfolding left_of_def by (metis append.assoc append_Cons append_Nil list.inject)

lemma left_of_drop: "left_of s (Rd_data bs # t) \<Longrightarrow> left_of s (Rd_data (drop n bs) # t)"
  unfolding left_of_def by (metis drop_drop list.inject read_result.inject)

lemma left_of_suffix: "left_of s (p @ t) \<Longrightarrow> left_of s t"
  by (induction p) (auto dest: left_of_Cons)

lemma left_of_trans: "left_of s t \<Longrightarrow> left_of t u \<Longrightarrow> left_of s u"
  using left_of_drop left_of_suffix by (subst (asm) (2) left_of_def) blast

text \<open>A loop that stops without an error has been told that it would block.\<close>

definition blocked :: "read_result list \<Rightarrow> read_result list \<Rightarrow> bool" where
  "blocked s t \<longleftrightarrow> (\<exists>p. s = p @ t \<and> (t = [] \<or> (\<exists>q. p = q @ [Rd_again])))"

lemma left_then_blocked: "left_of s [] \<Longrightarrow> blocked s []" "left_of s (Rd_again # t) \<Longrightarrow> blocked s t"
  by (auto simp: left_of_def blocked_def)

lemma read_leaves:
  "smb2_readv_from_socket c rooms = (r, d) \<Longrightarrow> left_of (c_rd_script c) (c_rd_script d)"
  "smb2_readv_from_socket c rooms = (Would_block, d) \<Longrightarrow> left_of s (c_rd_script c) \<Longrightarrow> blocked s (c_rd_script d)"
proof -
  define n where "n = sum_list rooms"
  show "smb2_readv_from_socket c rooms = (r, d) \<Longrightarrow> left_of (c_rd_script c) (c_rd_script d)"
    by (auto simp: smb2_readv_from_socket_def Let_def n_def [symmetric] split: list.splits read_result.splits if_splits
        intro: left_of_Cons [OF left_of_refl] left_of_drop [OF left_of_refl])
  show "smb2_readv_from_socket c rooms = (Would_block, d) \<Longrightarrow> left_of s (c_rd_script c) \<Longrightarrow> blocked s (c_rd_script d)"
    by (auto simp: smb2_readv_from_socket_def Let_def n_def [symmetric] left_then_blocked split: list.splits read_result.splits if_splits)
qed

lemma flush_leaves: "left_of (c_rd_script c) (c_rd_script (flush_input From_socket c))"
proof (induction "script_size (c_rd_script c)" arbitrary: c rule: less_induct)
  case less
  obtain r d where r: "read_from From_socket c [32] = (r, d)" by fastforce
  then have l: "left_of (c_rd_script c) (c_rd_script d)" by (auto simp: read_from_def intro: read_leaves(1))
  show ?case
  proof (cases "\<exists>bs. r = Got bs \<and> bs \<noteq> []")
    case True
    with r less [of d] read_from_size [of From_socket c "[32]" _ d] l show ?thesis
      by (subst flush_input.simps) (auto simp: source_size_def intro: left_of_trans)
  next
    case False
    with r l show ?thesis by (subst flush_input.simps) (cases r; simp)
  qed
qed

lemma in_phase_script: "in_phase s r = Some q \<Longrightarrow> c_rd_script (phase_context q) = s"
  by (cases r; cases "the r") (auto simp: phase_context_def)

lemma callback_script [simp]: "c_rd_script (run_callback app pdu c) = c_rd_script c" "c_rd_script (set_num_done n c) = c_rd_script c"
  by (simp_all add: run_callback_def set_num_done_def Let_def)

lemma phase_leaves:
  assumes "recv_phase app From_socket off c = Some r"
  shows "left_of (c_rd_script c) (c_rd_script (phase_context r))"
proof -
  have keep: "left_of (c_rd_script c) (c_rd_script (phase_context r))"
    if "X c = Some r" "\<forall>s. X (c\<lparr>c_rd_script := s\<rparr>) = in_phase s (X c)" for X
    using that(1) spec [OF that(2), of "c_rd_script c"] in_phase_script [of "c_rd_script c" "X c" r] by simp
  have smb1: "left_of (c_rd_script e) (c_rd_script (phase_context r))" if "recv_smb1 app From_socket off e = Some r" for e
    using that flush_leaves [of e] by (auto simp: recv_smb1_def Let_def phase_context_def split: option.splits if_splits)
  have header: "left_of (c_rd_script c) (c_rd_script (phase_context r))" if h: "recv_header app From_socket off c = Some r"
    using recv_header_alternatives [of app From_socket off c]
  proof (elim disjE exE conjE)
    assume "\<forall>s. recv_header app From_socket off (c\<lparr>c_rd_script := s\<rparr>) = in_phase s (recv_header app From_socket off c)"
    with keep [of "recv_header app From_socket off"] h show ?thesis by simp
  next
    fix e assume e: "c_rd_script e = c_rd_script c"
      "\<forall>s. recv_header app From_socket off (c\<lparr>c_rd_script := s\<rparr>) = recv_smb1 app From_socket off (e\<lparr>c_rd_script := s\<rparr>)"
    from spec [OF e(2), of "c_rd_script c"] h e(1) have "recv_smb1 app From_socket off e = Some r"
      by (metis (no_types, lifting) smb2_context.surjective smb2_context.update_convs)
    with smb1 e(1) show ?thesis by metis
  qed
  show ?thesis
  proof (cases "c_recv_state c")
    case SMB2_RECV_HEADER
    with assms header show ?thesis by (simp add: recv_phase_def)
  next
    case SMB2_RECV_UNKNOWN
    with assms show ?thesis by (auto simp: recv_phase_def phase_context_def)
  qed (use assms in \<open>auto simp: recv_phase_def intro: keep\<close>)
qed

text \<open>The codes of the phases: only a read can report that it would block.\<close>

definition ends :: "phase option \<Rightarrow> bool" where
  "ends r \<longleftrightarrow> (case r of Some (Finish rc d) \<Rightarrow> rc = 0 \<or> rc = -1 | _ \<Rightarrow> True)"

lemma ends_simps [simp]:
  "ends None" "ends (Some (More off d))" "ends (Some (Opened d))" "ends (Some (Finish rc d)) \<longleftrightarrow> rc = 0 \<or> rc = -1" "ends (fail_phase e d)"
  "ends (more_input st e1 e2 n off c)" "ends (add_header e off c)"
  by (simp_all add: ends_def fail_phase_def more_input_def add_header_def Let_def split: prod.split option.split)

lemma done_ends [simp]: "ends (recv_done app off c)" "ends (recv_padding e1 e2 app off c)"
proof -
  show e: "ends (recv_done app off c)" for off c
    by (simp add: recv_done_def recv_pending_def Let_def split: option.split prod.split)
  show "ends (recv_padding e1 e2 app off c)" by (simp add: recv_padding_def Let_def e)
qed

lemma requests_end [simp]: "ends (recv_reply src off c)" "ends (recv_request off c)" "ends (recv_smb1 app src off c)" "ends (recv_transform off c)"
  by (simp_all add: recv_reply_def recv_request_def recv_smb1_def recv_transform_def expect_fixed_def Let_def split: option.split prod.split)

lemma header_ends [simp]: "ends (recv_header app src off c)"
proof (cases "take 4 (in_buf c) = xfer")
  case False
  obtain rc d h where "smb2_decode_header c (in_buf c) (c_hdr c) = (rc, d, h)"
    by (cases "smb2_decode_header c (in_buf c) (c_hdr c)") auto
  with False show ?thesis by (simp add: recv_header_def Let_def)
qed (simp add: recv_header_def)

lemma phase_ends: "ends (recv_phase app src off c)"
  by (cases "c_recv_state c") (auto simp: recv_phase_def recv_spl_def recv_fixed_def recv_variable_def recv_trfm_def smb3_decrypt_pdu_def Let_def
    split: option.split prod.split sum.split)

lemma turn_leaves:
  assumes "recv_turn app From_socket off c = Some r"
  shows "left_of (c_rd_script c) (c_rd_script (phase_context r))"
    "r = Finish rc d \<Longrightarrow> rc = 0 \<or> rc = -1 \<or> rc = - EAGAIN \<and> (\<forall>s. left_of s (c_rd_script c) \<longrightarrow> blocked s (c_rd_script d))"
proof -
  from assms obtain rooms where rooms: "rooms_left (v_num_done (c_in c)) (vector_lengths (c_in c)) = Some rooms"
    by (auto simp: recv_turn_def split: option.splits)
  obtain x c1 where x: "smb2_readv_from_socket c rooms = (x, c1)" by fastforce
  note l = read_leaves(1) [OF x]
  have phase: "left_of (c_rd_script c1) (c_rd_script (phase_context r))" if "recv_phase app From_socket off (store_input bs c1) = Some r" for bs
    using phase_leaves [OF that] by simp
  show "left_of (c_rd_script c) (c_rd_script (phase_context r))"
    using assms rooms x l by (cases x) (auto simp: recv_turn_def read_from_def phase_context_def fail_phase_def split: if_splits
      intro: left_of_trans [OF l] dest!: phase)
  show "rc = 0 \<or> rc = -1 \<or> rc = - EAGAIN \<and> (\<forall>s. left_of s (c_rd_script c) \<longrightarrow> blocked s (c_rd_script d))" if "r = Finish rc d"
  proof (cases x)
    case (Got bs)
    with assms rooms x that phase_ends [of app From_socket off "store_input bs c1"] show ?thesis
      by (auto simp: recv_turn_def read_from_def fail_phase_def split: if_splits)
  qed (use assms rooms x that read_leaves(2) in \<open>auto simp: recv_turn_def read_from_def fail_phase_def\<close>)
qed

lemma loop_leaves:
  assumes "recv_loop app src off c = Some (rc, d)" "src = From_socket"
  shows "left_of (c_rd_script c) (c_rd_script d) \<and>
    (rc = 0 \<or> rc = -1 \<or> rc = - EAGAIN \<and> (\<forall>s. left_of s (c_rd_script c) \<longrightarrow> blocked s (c_rd_script d)))"
  using assms
proof (induction app src off c arbitrary: rc d rule: recv_loop.induct)
  case (1 app src off c)
  from 1(3) show ?case
  proof (cases rule: recv_loop_cases)
    case (Stop rc' e)
    with 1(4) turn_leaves [of app off c] show ?thesis by (auto simp: phase_context_def)
  next
    case (Again off' e)
    from turn_leaves(1) [OF Again(1) [unfolded 1(4)]] have l: "left_of (c_rd_script c) (c_rd_script e)" by (simp add: phase_context_def)
    with 1(1) [OF Again(1) refl Again(2) 1(4)] show ?thesis by (meson left_of_trans)
  next
    case (Inside e r)
    from turn_leaves(1) [OF Inside(1) [unfolded 1(4)]] have l: "left_of (c_rd_script c) (c_rd_script e)" by (simp add: phase_context_def)
    moreover have "c_rd_script d = c_rd_script e"
      using loop_drains [OF Inside(3)] Inside(4) decrypted_script [of r] by (simp add: drains_def) (metis snd_conv)
    ultimately show ?thesis using Inside(4) by (cases r) (auto simp: decrypted_def split: if_splits)
  qed
qed

lemma messages_leave:
  "read_messages app False c = Some (rc, d) \<Longrightarrow> left_of s (c_rd_script c) \<Longrightarrow> rc = -1 \<or> rc = 0 \<and> blocked s (c_rd_script d)"
proof (induction "script_size (c_rd_script c)" arbitrary: c rule: less_induct)
  case less
  show ?case
  proof (cases "start_message ''Too many I/O vectors when adding SPL'' c")
    case (Inl e)
    with less.prems(1) show ?thesis by (subst (asm) read_messages.simps) simp
  next
    case (Inr e)
    have e: "c_rd_script e = c_rd_script c" using start_message_source [OF Inr] by (simp add: source_view_def)
    from less.prems(1) Inr obtain n f where f: "recv_loop app From_socket 0 e = Some (n, f)"
      by (subst (asm) read_messages.simps) (auto simp: smb2_read_data_def transport_source_def split: option.splits)
    note l = loop_leaves [OF f refl]
    show ?thesis
    proof (cases "n = 0")
      case True
      with f less.prems(1) Inr have "read_messages app False f = Some (rc, d)"
        by (subst (asm) read_messages.simps) (simp add: smb2_read_data_def transport_source_def EAGAIN_def)
      moreover have "script_size (c_rd_script f) < script_size (c_rd_script c)" using loop_takes [of app From_socket 0 e f] f True e by simp
      ultimately show ?thesis using less.hyps [of f] l less.prems(2) e left_of_trans by auto
    next
      case False
      with f less.prems Inr l e show ?thesis
        by (subst (asm) read_messages.simps) (auto simp: smb2_read_data_def transport_source_def EAGAIN_def split: if_splits)
    qed
  qed
qed


subsection \<open>Whole messages\<close>

text \<open>The context when the header of a message has been read.\<close>

definition with_header :: "bytes \<Rightarrow> bytes \<Rightarrow> smb2_context \<Rightarrow> smb2_context" where
  "with_header spl hdr c =
     c\<lparr>c_recv_state := SMB2_RECV_HEADER, c_spl := rd_le (rev spl),
       c_in := \<lparr>v_num_done = 68, v_total_size = 68, v_iov = [\<lparr>iov_buf = spl, iov_free = NoFree\<rparr>, \<lparr>iov_buf = hdr, iov_free = NoFree\<rparr>]\<rparr>\<rparr>"

lemma header_arrives:
  assumes "v_num_done (c_in c) = 0" "length spl = 4" "length hdr = 64" "stream_of s = Some (spl @ hdr @ xs)"
  obtains t where "stream_of t = Some xs"
    "smb2_read_from_socket app (c\<lparr>c_rd_script := s\<rparr>) =
     (case after_phase app (recv_header app From_socket 0 ((with_header spl hdr c)\<lparr>c_rd_script := t\<rparr>)) of
        None \<Rightarrow> None
      | Some (count, d) \<Rightarrow> if count = - EAGAIN then Some (0, d) else if count \<noteq> 0 then Some (count, d) else smb2_read_from_socket app d)"
proof -
  define c1 where "c1 = c\<lparr>c_recv_state := SMB2_RECV_SPL, c_spl := 0,
    c_in := \<lparr>v_num_done = 0, v_total_size = 4, v_iov = [\<lparr>iov_buf = replicate 4 0, iov_free = NoFree\<rparr>]\<rparr>\<rparr>"
  have start: "start_message e (c\<lparr>c_rd_script := s\<rparr>) = Inr (c1\<lparr>c_rd_script := s\<rparr>)" for e
    using assms(1) by (simp add: start_message_def smb2_add_iovector_def smb2_free_iovector_def c1_def)
  have r1: "well_counted c1" "still_filling c1" "missing c1 = 4"
    by (simp_all add: c1_def well_counted_def still_filling_def missing_def iov_len_def)
  define c2 where "c2 = (store_input spl c1)\<lparr>c_spl := rd_le (rev spl), c_recv_state := SMB2_RECV_HEADER,
    c_in := \<lparr>v_num_done = 4, v_total_size = 68, v_iov = [\<lparr>iov_buf = spl, iov_free = NoFree\<rparr>, \<lparr>iov_buf = replicate 64 (ucast (c_junk c)), iov_free = NoFree\<rparr>]\<rparr>\<rparr>"
  have spl: "recv_phase app From_socket 0 ((store_input spl c1)\<lparr>c_rd_script := t\<rparr>) = Some (More 0 (c2\<lparr>c_rd_script := t\<rparr>))" for t
    using assms(2) by (simp add: recv_phase_def c1_def c2_def store_input_def recv_spl_def add_header_def smb2_add_iovector_def put_at_def)
  from fill(2) [OF assms(4) r1(1,2), of app 0] r1(3) assms(2) obtain t1 where t1: "stream_of t1 = Some (hdr @ xs)"
    "recv_loop app From_socket 0 (c1\<lparr>c_rd_script := s\<rparr>) = recv_loop app From_socket 0 (c2\<lparr>c_rd_script := t1\<rparr>)"
    by (auto simp: spl after_phase_def)
  have r2: "well_counted c2" "still_filling c2" "missing c2 = 64"
    using assms(2) by (simp_all add: c2_def well_counted_def still_filling_def missing_def iov_len_def)
  have hdr: "store_input hdr c2 = with_header spl hdr c"
    using assms(2,3) by (simp add: c2_def c1_def with_header_def store_input_def Let_def put_at_def)
  have state: "recv_phase app From_socket 0 ((with_header spl hdr c)\<lparr>c_rd_script := t\<rparr>) =
      recv_header app From_socket 0 ((with_header spl hdr c)\<lparr>c_rd_script := t\<rparr>)" for t
    by (simp add: recv_phase_def with_header_def)
  from fill(2) [OF t1(1) r2(1,2), of app 0] r2(3) assms(3) obtain t where t: "stream_of t = Some xs"
    "recv_loop app From_socket 0 (c2\<lparr>c_rd_script := t1\<rparr>) = after_phase app (recv_header app From_socket 0 ((with_header spl hdr c)\<lparr>c_rd_script := t\<rparr>))"
    by (auto simp: hdr state)
  show thesis
    by (rule that [OF t(1)], unfold smb2_read_from_socket_def, subst read_messages.simps)
      (simp add: start smb2_read_data_def transport_source_def t1(2) t(2))
qed

lemma as_int_id: "- (2 ^ 31) \<le> n \<Longrightarrow> n < 2 ^ 31 \<Longrightarrow> as_int n = n"
  by (simp add: as_int_def sint_sbintrunc' signed_take_bit_int_eq_self)

lemma header_of_reply:
  assumes "smb2_decode_header c b h0 = (0, c', h)" "h_flags h AND SMB2_FLAGS_SERVER_TO_REDIR \<noteq> 0" "\<not> c_is_server d"
  shows "smb2_decode_header d b h0 = (0, d, h)" "take 4 b \<noteq> xfer"
proof -
  have ok: "\<not> length b < SMB2_HEADER_SIZE" "get_at 0 4 b = smb2_magic" "get_at 0 4 b \<noteq> smb1_magic"
    using assms by (auto simp: smb2_decode_header_def smb1_magic_def smb2_magic_def zero_header_def split: if_splits)
  then show "take 4 b \<noteq> xfer" by (auto simp: get_at_def xfer_def smb2_magic_def)
  define hdr where "hdr = h0\<lparr>h_protocol_id := get_at 0 4 b, h_struct_size := get16 b 4 (h_struct_size h0),
    h_credit_charge := get16 b 6 (h_credit_charge h0), h_status := get32 b 8 (h_status h0), h_command := get16 b 12 (h_command h0),
    h_credit_request_response := get16 b 14 (h_credit_request_response h0), h_flags := get32 b 16 (h_flags h0),
    h_next_command := get32 b 20 (h_next_command h0), h_message_id := get64 b 24 (h_message_id h0)\<rparr>"
  define hdr2 where "hdr2 = (let hdr = set_process_id (get32 b 32 (h_process_id hdr)) hdr in set_tree_id (get32 b 36 (h_tree_id hdr)) hdr)"
  define fin where "fin = (let hdr = (if h_flags hdr AND SMB2_FLAGS_ASYNC_COMMAND \<noteq> 0 then set_async_id (get64 b 32 (h_async_id hdr)) hdr else hdr2)
    in hdr\<lparr>h_session_id := get64 b 40 (h_session_id hdr), h_signature := get_at 48 16 b\<rparr>)"
  have flags: "h_flags hdr2 = h_flags hdr" by (simp add: hdr2_def Let_def set_process_id_def set_tree_id_def)
  have r: "smb2_decode_header c b h0 =
    (let a = h_flags hdr AND SMB2_FLAGS_ASYNC_COMMAND \<noteq> 0;
         c = (if \<not> a \<and> h_flags hdr2 AND SMB2_FLAGS_SERVER_TO_REDIR = 0 \<and> has_tree_id (h_command hdr2)
              then snd (smb2_select_tree_id c (h_tree_id hdr2)) else c)
     in (0, if smb2_is_server c then c\<lparr>c_message_id := h_message_id (if a then set_async_id (get64 b 32 (h_async_id hdr)) hdr else hdr2)\<rparr> else c, fin))" for c
  proof -
    from ok have f: "(length b < SMB2_HEADER_SIZE) = False" "(get_at 0 4 b = smb1_magic) = False" "(get_at 0 4 b \<noteq> smb2_magic) = False"
      by auto
    show ?thesis
      unfolding smb2_decode_header_def f if_False fin_def hdr2_def Let_def hdr_def [symmetric]
      by (cases "h_flags hdr AND SMB2_FLAGS_ASYNC_COMMAND \<noteq> 0") (simp_all only: if_True if_False prod.case simp_thms)
  qed
  from assms(1) have h: "h = fin" unfolding r by (simp add: Let_def)
  have "h_flags fin = h_flags hdr"
    by (simp add: fin_def flags Let_def set_async_id_def)
  with assms(2) h have "h_flags hdr AND SMB2_FLAGS_SERVER_TO_REDIR \<noteq> 0" by simp
  with assms(3) show "smb2_decode_header d b h0 = (0, d, h)"
    unfolding r h by (simp add: Let_def flags smb2_is_server_def)
qed

text \<open>The context while the rest of a reply that nothing matches is skipped: \<open>n\<close> bytes of it.\<close>

definition skipping :: "bytes \<Rightarrow> bytes \<Rightarrow> smb2_header \<Rightarrow> nat \<Rightarrow> smb2_context \<Rightarrow> smb2_context" where
  "skipping spl hdr h n c = c\<lparr>c_recv_state := SMB2_RECV_UNKNOWN, c_spl := rd_le (rev spl), c_hdr := h, c_payload_offset := 68,
     c_credits := c_credits c + int (unat (h_credit_request_response h)),
     c_in := \<lparr>v_num_done = 68, v_total_size = 68 + n,
       v_iov = [\<lparr>iov_buf = spl, iov_free = NoFree\<rparr>, \<lparr>iov_buf = hdr, iov_free = NoFree\<rparr>,
                \<lparr>iov_buf = replicate n (ucast (c_junk c)), iov_free = Free\<rparr>]\<rparr>\<rparr>"

lemma unknown_reply_arrives:
  assumes client: "\<not> c_is_server c" "c_pdu c = None" "v_num_done (c_in c) = 0"
    and header: "length hdr = 64" "smb2_decode_header c hdr (c_hdr c) = (0, c, h)" "h_flags h AND SMB2_FLAGS_SERVER_TO_REDIR \<noteq> 0"
      "h_status h \<noteq> SMB2_STATUS_PENDING" "\<not> is_break_notification h"
    and unknown: "smb2_find_pdu c (h_message_id h) = None"
    and size: "int n \<le> SMB2_MAX_PDU_SIZE" "c_mem_ok c n" "length spl = 4" "unat (rd_le (rev spl) :: u32) = 64 + n"
    and stream: "stream_of s = Some (spl @ hdr @ xs)"
  obtains t where "stream_of t = Some xs" "smb2_read_from_socket app (c\<lparr>c_rd_script := s\<rparr>) =
     (case recv_loop app From_socket 0 ((skipping spl hdr h n c)\<lparr>c_rd_script := t\<rparr>) of
        None \<Rightarrow> None
      | Some (count, d) \<Rightarrow> if count = - EAGAIN then Some (0, d) else if count \<noteq> 0 then Some (count, d) else smb2_read_from_socket app d)"
proof -
  obtain t where t: "stream_of t = Some xs" and run: "smb2_read_from_socket app (c\<lparr>c_rd_script := s\<rparr>) =
     (case after_phase app (recv_header app From_socket 0 ((with_header spl hdr c)\<lparr>c_rd_script := t\<rparr>)) of
        None \<Rightarrow> None
      | Some (count, d) \<Rightarrow> if count = - EAGAIN then Some (0, d) else if count \<noteq> 0 then Some (count, d) else smb2_read_from_socket app d)"
    using header_arrives [OF client(3) size(3) header(1) stream] by blast
  define c1 where "c1 = (with_header spl hdr c)\<lparr>c_hdr := h, c_payload_offset := 68,
    c_credits := c_credits c + int (unat (h_credit_request_response h))\<rparr>"
  define c2 where "c2 = skipping spl hdr h n c"
  have n: "rest_length From_socket c1 = int n"
    using size by (simp add: rest_length_def c1_def with_header_def as_int_id SMB2_MAX_PDU_SIZE_def)
  have "\<not> c_is_server (with_header spl hdr c)" using client(1) by (simp add: with_header_def)
  note decode = header_of_reply [OF header(2,3) this]
  have "recv_header app From_socket 0 ((with_header spl hdr c)\<lparr>c_rd_script := t\<rparr>) = recv_reply From_socket 0 (c1\<lparr>c_rd_script := t\<rparr>)"
    using client header decode
    by (simp add: recv_header_def with_header_def in_buf_def smb2_is_server_def c1_def Let_def)
  also have "\<dots> = Some (More 0 (c2\<lparr>c_rd_script := t\<rparr>))"
  proof -
    have f: "smb2_find_pdu c1 (h_message_id h) = None" "c_pdu c1 = None" "c_hdr c1 = h" "\<not> SMB2_MAX_PDU_SIZE < rest_length From_socket c1"
      using unknown client(2) size(1) n by (simp_all add: c1_def with_header_def smb2_find_pdu_def)
    have a: "alloc_size (rest_length From_socket c1) = n"
      using n size(1) by (simp add: alloc_size_def SMB2_MAX_PDU_SIZE_def)
    have "new_iovector e1 e2 n (replicate n (ucast (c_junk c))) (c1\<lparr>c_recv_state := SMB2_RECV_UNKNOWN\<rparr>) (c_in c1) =
        (c1\<lparr>c_recv_state := SMB2_RECV_UNKNOWN\<rparr>, Some (c_in c2))" for e1 e2
      using size(2) by (simp add: new_iovector_def smb2_add_iovector_def c1_def c2_def skipping_def with_header_def)
    moreover have "c_junk c1 = c_junk c" by (simp add: c1_def with_header_def)
    moreover have "c1\<lparr>c_recv_state := SMB2_RECV_UNKNOWN, c_in := c_in c2\<rparr> = c2" by (simp add: c1_def c2_def with_header_def skipping_def)
    ultimately show ?thesis using f header(5) by (simp add: recv_reply_def more_input_def a Let_def)
  qed
  finally show thesis using that [OF t] run by (simp add: after_phase_def c2_def)
qed

text \<open>A reply that is nothing but a header, for a message id that is not waited for: no room is left in the vectors,
  and the search for it runs past them.\<close>

lemma unknown_reply_without_payload:
  assumes "\<not> c_is_server c" "c_pdu c = None" "v_num_done (c_in c) = 0"
    "length hdr = 64" "smb2_decode_header c hdr (c_hdr c) = (0, c, h)" "h_flags h AND SMB2_FLAGS_SERVER_TO_REDIR \<noteq> 0"
    "h_status h \<noteq> SMB2_STATUS_PENDING" "\<not> is_break_notification h" "smb2_find_pdu c (h_message_id h) = None"
    "c_mem_ok c 0" "length spl = 4" "unat (rd_le (rev spl) :: u32) = 64" "stream_of s = Some (spl @ hdr @ xs)"
  shows "smb2_read_from_socket app (c\<lparr>c_rd_script := s\<rparr>) = None"
proof (rule unknown_reply_arrives [OF assms(1-9), of 0 spl s xs app])
  have "recv_turn app From_socket 0 (skipping spl hdr h 0 c) = None"
    using assms(4,11) by (simp add: recv_turn_def skipping_def vector_lengths_def)
  then have "recv_loop app From_socket 0 ((skipping spl hdr h 0 c)\<lparr>c_rd_script := t\<rparr>) = None" for t
    using assms(4,11) by (simp add: recv_loop_after after_phase_def recv_turn_def skipping_def vector_lengths_def)
  then show "smb2_read_from_socket app (c\<lparr>c_rd_script := s\<rparr>) = (case recv_loop app From_socket 0 ((skipping spl hdr h 0 c)\<lparr>c_rd_script := t\<rparr>) of
        None \<Rightarrow> None
      | Some (count, d) \<Rightarrow> if count = - EAGAIN then Some (0, d) else if count \<noteq> 0 then Some (count, d) else smb2_read_from_socket app d) \<Longrightarrow>
    smb2_read_from_socket app (c\<lparr>c_rd_script := s\<rparr>) = None" for t by simp
qed (use assms in \<open>simp_all add: SMB2_MAX_PDU_SIZE_def\<close>)


text \<open>A reply to an echo request that nobody waits for, with its four bytes of payload.\<close>

definition stale_reply :: bytes where
  "stale_reply = smb2_magic @ [64, 0, 0, 0, 0, 0, 0, 0, 13, 0, 3, 0, 1, 0, 0, 0, 0, 0, 0, 0, 7] @ replicate 39 0"


end
