(* ===== verification/Smb2_Files.thy ===== *)
theory Smb2_Files
  imports Smb2_Queue Smb2_Cmd_Basic Smb2_Cmd_File Smb2_Cmd_IO Smb2_Cmd_Info
begin

text \<open>
  The application's interface to files: \<^verbatim>\<open>lib/libsmb2.c\<close> from \<open>open_cb\<close> to \<open>readlink\<close>, and \<open>nterror_to_errno\<close> of
  \<^verbatim>\<open>lib/errors.c\<close>.

  The structures that the library allocates for an operation live in a heap, at addresses that are not used again; looking
  at one that has been freed, or taking it for another structure, is the result \<open>None\<close>. The calls of the application's callbacks
  are recorded, with what they are given; what the application does in them comes after the callback that calls them.
\<close>

subsection \<open>Error numbers\<close>

abbreviation (input) EPERM :: int where "EPERM \<equiv> 1"
abbreviation (input) ENOENT :: int where "ENOENT \<equiv> 2"
abbreviation (input) EIO :: int where "EIO \<equiv> 5"
abbreviation (input) ENOEXEC :: int where "ENOEXEC \<equiv> 8"
abbreviation (input) EBADF :: int where "EBADF \<equiv> 9"
abbreviation (input) EAGAIN :: int where "EAGAIN \<equiv> 11"
abbreviation (input) ENOMEM :: int where "ENOMEM \<equiv> 12"
abbreviation (input) EACCES :: int where "EACCES \<equiv> 13"
abbreviation (input) EBUSY :: int where "EBUSY \<equiv> 16"
abbreviation (input) EEXIST :: int where "EEXIST \<equiv> 17"
abbreviation (input) EXDEV :: int where "EXDEV \<equiv> 18"
abbreviation (input) ENODEV :: int where "ENODEV \<equiv> 19"
abbreviation (input) ENOTDIR :: int where "ENOTDIR \<equiv> 20"
abbreviation (input) EINVAL :: int where "EINVAL \<equiv> 22"
abbreviation (input) EMFILE :: int where "EMFILE \<equiv> 24"
abbreviation (input) ETXTBSY :: int where "ETXTBSY \<equiv> 26"
abbreviation (input) ENOSPC :: int where "ENOSPC \<equiv> 28"
abbreviation (input) EROFS :: int where "EROFS \<equiv> 30"
abbreviation (input) EPIPE :: int where "EPIPE \<equiv> 32"
abbreviation (input) EDEADLK :: int where "EDEADLK \<equiv> 35"
abbreviation (input) ENOTEMPTY :: int where "ENOTEMPTY \<equiv> 39"
abbreviation (input) ENODATA :: int where "ENODATA \<equiv> 61"
abbreviation (input) ENOLINK :: int where "ENOLINK \<equiv> 67"
abbreviation (input) ENETRESET :: int where "ENETRESET \<equiv> 102"
abbreviation (input) ETIMEDOUT :: int where "ETIMEDOUT \<equiv> 110"
abbreviation (input) ECONNREFUSED :: int where "ECONNREFUSED \<equiv> 111"

definition errno_table :: "(u32 list \<times> int) list" where
  "errno_table = [
     ([0x00000000, 0xC0000011], 0),
     ([0x00000103], EAGAIN),
     ([0xffffffff], 1),
     ([0xC000000F, 0xC000000E, 0xC00000CC, 0xC0000034, 0xC0000039, 0xC000003A, 0xC000003B, 0xC000009B, 0xC0000056, 0xC00000FB, 0xC0000225], ENOENT),
     ([0x00060001, 0xC0000008, 0xC0000024, 0xC0000037, 0xC0000042, 0xC0000235], EBADF),
     ([0xC0000016], EAGAIN),
     ([0xC0000022, 0xC00000CA, 0xC000006E, 0xC000006F, 0xC0000071, 0xC0000072], EACCES),
     ([0xC000001E, 0xC000001F, 0xC0000021, 0xC0000041, 0xC000004B, 0xC0000061, 0xC00000BA, 0xC00000D5, 0xC000010A, 0xC0000121, 0xC0000123], EPERM),
     ([0xC0000101], ENOTEMPTY),
     ([0x80000006], ENODATA),
     ([0xC000006D], ECONNREFUSED),
     ([0xC0000103], ENOTDIR),
     ([0xC0000002, 0xC0000010, 0xC00000AF, 0xC000000D, 0xC00000BB, 0xC0000275], EINVAL),
     ([0x8000002D], ENOLINK),
     ([0xC000011F], EMFILE),
     ([0xC0000040, 0xC0000097, 0xC0000205], ENOMEM),
     ([0xC00000D4], EXDEV),
     ([0xC0000043], ETXTBSY),
     ([0xC0000054, 0xC0000055], EDEADLK),
     ([0xC0000035], EEXIST),
     ([0xC00000B0], EPIPE),
     ([0xC00000A2], EROFS),
     ([0xC0000013], ENODEV),
     ([0xC000003E, 0xC000003F, 0xC000009C, 0xC0000185], EIO),
     ([0xC000007F], ENOSPC),
     ([0xC0000120, 0xC0000128, 0xC000026E, 0xC000020C, 0xC000020D, 0xC000023A, 0xC0000241, 0xC00000C9, 0xC00000C3], ENETRESET),
     ([0xC0000257], ENOEXEC),
     ([0xC00000B5], ETIMEDOUT),
     ([0xC000009A], EBUSY),
     ([0xC00000E5], EIO)]"

definition nterror_to_errno :: "u32 \<Rightarrow> int" where
  "nterror_to_errno status = (case find (\<lambda>(ss, e). status \<in> set ss) errno_table of Some (ss, e) \<Rightarrow> e | None \<Rightarrow> EIO)"

subsection \<open>Structures\<close>

abbreviation (input) SMB2_STATUS_SUCCESS :: u32 where "SMB2_STATUS_SUCCESS \<equiv> 0"
abbreviation (input) SMB2_STATUS_END_OF_FILE :: u32 where "SMB2_STATUS_END_OF_FILE \<equiv> 0xC0000011"
abbreviation (input) SMB2_STATUS_NOT_A_REPARSE_POINT :: u32 where "SMB2_STATUS_NOT_A_REPARSE_POINT \<equiv> 0xC0000275"

text \<open>A file handle; its offsets are \<open>int64_t\<close>.\<close>

record smb2fh =
  fh_cb :: nat
  fh_cb_data :: nat
  fh_file_id :: bytes
  fh_offset :: int
  fh_end_of_file :: int

record smb2_stat_64 =
  smb2_type :: u32
  smb2_nlink :: u32
  smb2_ino :: u64
  smb2_size :: u64
  smb2_atime :: u64
  smb2_atime_nsec :: u64
  smb2_mtime :: u64
  smb2_mtime_nsec :: u64
  smb2_ctime :: u64
  smb2_ctime_nsec :: u64
  smb2_btime :: u64
  smb2_btime_nsec :: u64

record smb2_statvfs =
  f_bsize :: u32
  f_frsize :: u32
  f_blocks :: u64
  f_bfree :: u64
  f_bavail :: u64
  f_files :: u32
  f_ffree :: u32
  f_favail :: u32
  f_fsid :: u32
  f_flag :: u32
  f_namemax :: u32

text \<open>What the callbacks of one operation share. Reads and writes keep what was asked for.\<close>

record io_cb_data =
  io_cb :: nat
  io_cb_data :: nat
  io_fh :: nat
  io_buf :: "bytes option"
  io_count :: u32
  io_offset :: u64

record create_cb_data =
  cd_cb :: nat
  cd_cb_data :: nat

record stat_cb_data =
  sc_cb :: nat
  sc_cb_data :: nat
  sc_status :: u32
  sc_info_type :: u8
  sc_file_info_class :: u8
  sc_st :: nat

record trunc_cb_data =
  tc_cb :: nat
  tc_cb_data :: nat
  tc_status :: u32
  tc_length :: u64

record rename_cb_data =
  rn_newpath :: bytes
  rn_cb :: nat
  rn_cb_data :: nat
  rn_status :: u32

record readlink_cb_data =
  rl_cb :: nat
  rl_cb_data :: nat
  rl_status :: u32
  rl_reparse :: ioctl_data

datatype private_data =
    Pr_fh smb2fh
  | Pr_read io_cb_data
  | Pr_write io_cb_data
  | Pr_create create_cb_data
  | Pr_stat stat_cb_data
  | Pr_trunc trunc_cb_data
  | Pr_rename rename_cb_data
  | Pr_readlink readlink_cb_data

text \<open>What the application is given: nothing, a handle, what it asked to read or write, its own buffer, or a text.\<close>

datatype call_data = Cd_null | Cd_fh nat | Cd_io io_cb_data | Cd_stat nat | Cd_text string | Cd_name "bytes option"

datatype call = Call nat int call_data nat

text \<open>The buffers of the application for \<open>stat\<close> and \<open>statvfs\<close>.\<close>

datatype stat_buffer = St_file smb2_stat_64 | St_filesystem smb2_statvfs

record api =
  a_ctx :: smb2_context
  a_heap :: "nat \<Rightarrow> private_data option"
  a_stat :: "nat \<Rightarrow> stat_buffer option"
  a_calls :: "call list"

definition on_context :: "(smb2_context \<Rightarrow> smb2_context) \<Rightarrow> api \<Rightarrow> api" where
  "on_context f a = a\<lparr>a_ctx := f (a_ctx a)\<rparr>"

definition api_error :: "string \<Rightarrow> api \<Rightarrow> api" where
  "api_error e = on_context (smb2_set_error e)"

definition api_nterror :: "u32 \<Rightarrow> string \<Rightarrow> api \<Rightarrow> api" where
  "api_nterror status e = on_context (smb2_set_nterror (sint status) e)"

definition call_user :: "nat \<Rightarrow> int \<Rightarrow> call_data \<Rightarrow> nat \<Rightarrow> api \<Rightarrow> api" where
  "call_user cb status d cb_data a = a\<lparr>a_calls := a_calls a @ [Call cb status d cb_data]\<rparr>"

definition free_private :: "nat \<Rightarrow> api \<Rightarrow> api" where
  "free_private p a = a\<lparr>a_heap := (a_heap a)(p := None)\<rparr>"

definition put_private :: "nat \<Rightarrow> private_data \<Rightarrow> api \<Rightarrow> api" where
  "put_private p b a = a\<lparr>a_heap := (a_heap a)(p \<mapsto> b)\<rparr>"

text \<open>\<open>calloc\<close> of such a structure.\<close>

definition new_private :: "nat \<Rightarrow> private_data \<Rightarrow> api \<Rightarrow> api \<times> nat option" where
  "new_private n b a =
     (let p = c_next_ptr (a_ctx a) in
      if \<not> c_mem_ok (a_ctx a) n then (a, None)
      else (put_private p b (on_context (\<lambda>c. c\<lparr>c_next_ptr := p + 1\<rparr>) a), Some p))"

abbreviation (input) SIZEOF_SMB2FH :: nat where "SIZEOF_SMB2FH \<equiv> 48"
abbreviation (input) SIZEOF_READ_DATA :: nat where "SIZEOF_READ_DATA \<equiv> 48"
abbreviation (input) SIZEOF_CREATE_CB_DATA :: nat where "SIZEOF_CREATE_CB_DATA \<equiv> 16"
abbreviation (input) SIZEOF_STAT_CB_DATA :: nat where "SIZEOF_STAT_CB_DATA \<equiv> 32"
abbreviation (input) SIZEOF_TRUNC_CB_DATA :: nat where "SIZEOF_TRUNC_CB_DATA \<equiv> 32"
abbreviation (input) SIZEOF_RENAME_CB_DATA :: nat where "SIZEOF_RENAME_CB_DATA \<equiv> 32"
abbreviation (input) SIZEOF_READLINK_CB_DATA :: nat where "SIZEOF_READLINK_CB_DATA \<equiv> 32"

text \<open>The library's own callbacks, by number; \<open>OPLOCK_BREAK_NOTIFY\<close> is 0.\<close>

abbreviation (input) OPEN_CB :: nat where "OPEN_CB \<equiv> 1"
abbreviation (input) CLOSE_CB :: nat where "CLOSE_CB \<equiv> 2"
abbreviation (input) FSYNC_CB :: nat where "FSYNC_CB \<equiv> 3"
abbreviation (input) READ_CB :: nat where "READ_CB \<equiv> 4"
abbreviation (input) WRITE_CB :: nat where "WRITE_CB \<equiv> 5"
abbreviation (input) CREATE_CB_1 :: nat where "CREATE_CB_1 \<equiv> 6"
abbreviation (input) CREATE_CB_2 :: nat where "CREATE_CB_2 \<equiv> 7"
abbreviation (input) FSTAT_CB_1 :: nat where "FSTAT_CB_1 \<equiv> 8"
abbreviation (input) GETINFO_CB_1 :: nat where "GETINFO_CB_1 \<equiv> 9"
abbreviation (input) GETINFO_CB_2 :: nat where "GETINFO_CB_2 \<equiv> 10"
abbreviation (input) GETINFO_CB_3 :: nat where "GETINFO_CB_3 \<equiv> 11"
abbreviation (input) TRUNC_CB_1 :: nat where "TRUNC_CB_1 \<equiv> 12"
abbreviation (input) TRUNC_CB_2 :: nat where "TRUNC_CB_2 \<equiv> 13"
abbreviation (input) TRUNC_CB_3 :: nat where "TRUNC_CB_3 \<equiv> 14"
abbreviation (input) RENAME_CB_1 :: nat where "RENAME_CB_1 \<equiv> 15"
abbreviation (input) RENAME_CB_2 :: nat where "RENAME_CB_2 \<equiv> 16"
abbreviation (input) RENAME_CB_3 :: nat where "RENAME_CB_3 \<equiv> 17"
abbreviation (input) FTRUNC_CB_1 :: nat where "FTRUNC_CB_1 \<equiv> 18"
abbreviation (input) READLINK_CB_1 :: nat where "READLINK_CB_1 \<equiv> 19"
abbreviation (input) READLINK_CB_2 :: nat where "READLINK_CB_2 \<equiv> 20"
abbreviation (input) READLINK_CB_3 :: nat where "READLINK_CB_3 \<equiv> 21"

subsection \<open>Opening\<close>

abbreviation (input) O_ACCMODE :: u32 where "O_ACCMODE \<equiv> 3"
abbreviation (input) O_RDONLY :: u32 where "O_RDONLY \<equiv> 0"
abbreviation (input) O_WRONLY :: u32 where "O_WRONLY \<equiv> 1"
abbreviation (input) O_RDWR :: u32 where "O_RDWR \<equiv> 2"
abbreviation (input) O_CREAT :: u32 where "O_CREAT \<equiv> 0x40"
abbreviation (input) O_EXCL :: u32 where "O_EXCL \<equiv> 0x80"
abbreviation (input) O_TRUNC :: u32 where "O_TRUNC \<equiv> 0x200"
abbreviation (input) O_DIRECTORY :: u32 where "O_DIRECTORY \<equiv> 0x10000"
abbreviation (input) O_SYNC :: u32 where "O_SYNC \<equiv> 0x101000"

abbreviation (input) SMB2_FILE_OPEN :: u32 where "SMB2_FILE_OPEN \<equiv> 1"
abbreviation (input) SMB2_FILE_CREATE :: u32 where "SMB2_FILE_CREATE \<equiv> 2"
abbreviation (input) SMB2_FILE_OPEN_IF :: u32 where "SMB2_FILE_OPEN_IF \<equiv> 3"
abbreviation (input) SMB2_FILE_OVERWRITE :: u32 where "SMB2_FILE_OVERWRITE \<equiv> 4"
abbreviation (input) SMB2_FILE_OVERWRITE_IF :: u32 where "SMB2_FILE_OVERWRITE_IF \<equiv> 5"

abbreviation (input) SMB2_FILE_READ_DATA :: u32 where "SMB2_FILE_READ_DATA \<equiv> 1"
abbreviation (input) SMB2_FILE_WRITE_DATA :: u32 where "SMB2_FILE_WRITE_DATA \<equiv> 2"
abbreviation (input) SMB2_FILE_READ_EA :: u32 where "SMB2_FILE_READ_EA \<equiv> 8"
abbreviation (input) SMB2_FILE_WRITE_EA :: u32 where "SMB2_FILE_WRITE_EA \<equiv> 0x10"
abbreviation (input) SMB2_FILE_READ_ATTRIBUTES :: u32 where "SMB2_FILE_READ_ATTRIBUTES \<equiv> 0x80"
abbreviation (input) SMB2_FILE_WRITE_ATTRIBUTES :: u32 where "SMB2_FILE_WRITE_ATTRIBUTES \<equiv> 0x100"
abbreviation (input) SMB2_DELETE :: u32 where "SMB2_DELETE \<equiv> 0x10000"
abbreviation (input) SMB2_SYNCHRONIZE :: u32 where "SMB2_SYNCHRONIZE \<equiv> 0x100000"
abbreviation (input) SMB2_GENERIC_WRITE :: u32 where "SMB2_GENERIC_WRITE \<equiv> 0x40000000"
abbreviation (input) SMB2_GENERIC_READ :: u32 where "SMB2_GENERIC_READ \<equiv> 0x80000000"

abbreviation (input) SMB2_FILE_DIRECTORY_FILE :: u32 where "SMB2_FILE_DIRECTORY_FILE \<equiv> 1"
abbreviation (input) SMB2_FILE_NO_INTERMEDIATE_BUFFERING :: u32 where "SMB2_FILE_NO_INTERMEDIATE_BUFFERING \<equiv> 8"
abbreviation (input) SMB2_FILE_NON_DIRECTORY_FILE :: u32 where "SMB2_FILE_NON_DIRECTORY_FILE \<equiv> 0x40"
abbreviation (input) SMB2_FILE_DELETE_ON_CLOSE :: u32 where "SMB2_FILE_DELETE_ON_CLOSE \<equiv> 0x1000"
abbreviation (input) SMB2_FILE_OPEN_REPARSE_POINT :: u32 where "SMB2_FILE_OPEN_REPARSE_POINT \<equiv> 0x200000"
abbreviation (input) SMB2_FILE_ATTRIBUTE_DIRECTORY :: u32 where "SMB2_FILE_ATTRIBUTE_DIRECTORY \<equiv> 0x10"
abbreviation (input) SMB2_FILE_ATTRIBUTE_NORMAL :: u32 where "SMB2_FILE_ATTRIBUTE_NORMAL \<equiv> 0x80"
abbreviation (input) SMB2_FILE_ATTRIBUTE_REPARSE_POINT :: u32 where "SMB2_FILE_ATTRIBUTE_REPARSE_POINT \<equiv> 0x400"

abbreviation (input) SHARE_READ_WRITE :: u32 where "SHARE_READ_WRITE \<equiv> 3"
abbreviation (input) SHARE_ALL :: u32 where "SHARE_ALL \<equiv> 7"

definition create_disposition :: "u32 \<Rightarrow> u32" where
  "create_disposition flags =
     (if flags AND O_CREAT \<noteq> 0
      then (if flags AND O_EXCL \<noteq> 0 then SMB2_FILE_CREATE
            else if flags AND O_TRUNC \<noteq> 0 then SMB2_FILE_OVERWRITE_IF else SMB2_FILE_OPEN_IF)
      else (if flags AND O_TRUNC \<noteq> 0 then SMB2_FILE_OVERWRITE else SMB2_FILE_OPEN))"

definition write_access :: u32 where
  "write_access = SMB2_FILE_WRITE_DATA OR SMB2_FILE_WRITE_EA OR SMB2_FILE_WRITE_ATTRIBUTES"

definition read_access :: u32 where
  "read_access = SMB2_FILE_READ_DATA OR SMB2_FILE_READ_EA OR SMB2_FILE_READ_ATTRIBUTES"

definition desired_access :: "u32 \<Rightarrow> u32" where
  "desired_access flags =
     (let mode = flags AND O_ACCMODE;
          access = (if mode = O_RDWR then write_access OR read_access
                    else if mode = O_WRONLY then write_access
                    else if mode = O_RDONLY then read_access else 0)
      in if flags AND O_SYNC \<noteq> 0 then access OR SMB2_SYNCHRONIZE else access)"

definition create_options :: "u32 \<Rightarrow> u32" where
  "create_options flags =
     (if flags AND O_DIRECTORY \<noteq> 0 then SMB2_FILE_DIRECTORY_FILE else SMB2_FILE_NON_DIRECTORY_FILE) OR
     (if flags AND O_SYNC \<noteq> 0 then SMB2_FILE_NO_INTERMEDIATE_BUFFERING else 0)"

text \<open>A create request as every operation here fills it.\<close>

definition create_request :: "bytes \<Rightarrow> u32 \<Rightarrow> u32 \<Rightarrow> u32 \<Rightarrow> u32 \<Rightarrow> u32 \<Rightarrow> smb2_create_request" where
  "create_request path access attributes share disposition options =
     \<lparr>crq_security_flags = 0, crq_requested_oplock_level = 0, crq_impersonation_level = 2, crq_smb_create_flags = 0,
      crq_desired_access = access, crq_file_attributes = attributes, crq_share_access = share,
      crq_create_disposition = disposition, crq_create_options = options, crq_name_offset = 0, crq_name_length = 0,
      crq_name = Some path, crq_create_context_offset = 0, crq_create_context_length = 0, crq_create_context = None\<rparr>"

text \<open>The create context that asks for a lease, \<open>RqLs\<close>, on a little-endian machine.\<close>

definition lease_context :: "u32 \<Rightarrow> bytes \<Rightarrow> bytes" where
  "lease_context lease_state lease_key =
     (set32 40 lease_state \<circ> put_at 24 lease_key \<circ> put_at 16 [0x52, 0x71, 0x4c, 0x73] \<circ> set16 12 32 \<circ> set16 10 24 \<circ>
      set16 8 0 \<circ> set16 6 4 \<circ> set16 4 16 \<circ> set32 0 0) (replicate 56 0)"

definition open_request :: "bytes \<Rightarrow> u32 \<Rightarrow> u8 \<Rightarrow> u32 \<Rightarrow> bytes option \<Rightarrow> smb2_create_request" where
  "open_request path flags oplock_level lease_state lease_key =
     (let req = (create_request path (desired_access flags) 0 SHARE_READ_WRITE (create_disposition flags) (create_options flags))
                  \<lparr>crq_requested_oplock_level := oplock_level\<rparr>
      in case lease_key of
           Some key \<Rightarrow>
             if lease_state = 0 then req
             else req\<lparr>crq_create_context_length := 56, crq_create_context := Some (lease_context lease_state key)\<rparr>
         | None \<Rightarrow> req)"

text \<open>Queueing a PDU, or a chain of them.\<close>

definition queue_chain :: "smb2_pdu list \<Rightarrow> api \<Rightarrow> api" where
  "queue_chain ps = on_context (\<lambda>c. smb2_queue_pdu c ps)"

text \<open>The address of the PDU, and \<open>NULL\<close> for a failure. A lease context that cannot be allocated is written through \<open>NULL\<close>.\<close>

definition open_with_oplock_or_lease ::
  "bytes \<Rightarrow> u32 \<Rightarrow> u8 \<Rightarrow> u32 \<Rightarrow> bytes option \<Rightarrow> nat \<Rightarrow> nat \<Rightarrow> bool \<Rightarrow> api \<Rightarrow> (nat option \<times> api) option" where
  "open_with_oplock_or_lease path flags oplock_level lease_state lease_key cb cb_data caller_frees a =
     (case new_private SIZEOF_SMB2FH
             (Pr_fh \<lparr>fh_cb = cb, fh_cb_data = cb_data, fh_file_id = replicate 16 0, fh_offset = 0, fh_end_of_file = 0\<rparr>) a of
        (a, None) \<Rightarrow> Some (None, api_error ''Failed to allocate smbfh'' a)
      | (a, Some fh) \<Rightarrow>
        (let req = open_request path flags oplock_level lease_state lease_key in
         if crq_create_context req \<noteq> None \<and> \<not> c_mem_ok (a_ctx a) 56 then None
         else case smb2_cmd_create_async (a_ctx a) req OPEN_CB fh of
             (c, None) \<Rightarrow> Some (None, free_private fh (api_error ''Failed to create create command'' (a\<lparr>a_ctx := c\<rparr>)))
           | (c, Some pdu) \<Rightarrow>
             Some (Some (p_ptr pdu), queue_chain [pdu\<lparr>p_caller_frees_pdu := caller_frees\<rparr>] (a\<lparr>a_ctx := c\<rparr>))))"

definition smb2_open_async_with_oplock_or_lease ::
  "bytes \<Rightarrow> u32 \<Rightarrow> u8 \<Rightarrow> u32 \<Rightarrow> bytes option \<Rightarrow> nat \<Rightarrow> nat \<Rightarrow> api \<Rightarrow> (int \<times> api) option" where
  "smb2_open_async_with_oplock_or_lease path flags oplock_level lease_state lease_key cb cb_data a =
     map_option (map_prod (\<lambda>pdu. if pdu = None then -1 else 0) id)
       (open_with_oplock_or_lease path flags oplock_level lease_state lease_key cb cb_data False a)"

definition smb2_open_async_pdu :: "bytes \<Rightarrow> u32 \<Rightarrow> nat \<Rightarrow> nat \<Rightarrow> api \<Rightarrow> (nat option \<times> api) option" where
  "smb2_open_async_pdu path flags cb cb_data a = open_with_oplock_or_lease path flags 0 0 None cb cb_data True a"

definition smb2_open_async :: "bytes \<Rightarrow> u32 \<Rightarrow> nat \<Rightarrow> nat \<Rightarrow> api \<Rightarrow> (int \<times> api) option" where
  "smb2_open_async path flags cb cb_data a =
     map_option (map_prod (\<lambda>pdu. if pdu = None then -1 else 0) id) (open_with_oplock_or_lease path flags 0 0 None cb cb_data False a)"

definition open_cb :: "u32 \<Rightarrow> payload option \<Rightarrow> nat \<Rightarrow> api \<Rightarrow> api option" where
  "open_cb status command_data p a =
     (case a_heap a p of
        Some (Pr_fh fh) \<Rightarrow>
          if status \<noteq> SMB2_STATUS_SUCCESS
          then Some (free_private p (call_user (fh_cb fh) (- nterror_to_errno status) Cd_null (fh_cb_data fh)
                 (api_nterror status ''Open failed with (0x%08x) %s.'' a)))
          else (case command_data of
              Some (P_create_reply rep) \<Rightarrow>
                Some (call_user (fh_cb fh) 0 (Cd_fh p) (fh_cb_data fh)
                  (put_private p (Pr_fh (fh\<lparr>fh_file_id := crr_file_id rep, fh_end_of_file := sint (crr_end_of_file rep)\<rparr>)) a))
            | _ \<Rightarrow> None)
      | _ \<Rightarrow> None)"

subsection \<open>Closing, flushing\<close>

definition smb2_close_async :: "nat \<Rightarrow> nat \<Rightarrow> nat \<Rightarrow> api \<Rightarrow> (int \<times> api) option" where
  "smb2_close_async p cb cb_data a =
     (if p = 0 then Some (- EINVAL, api_error ''File handle was NULL'' a)
      else case a_heap a p of
          Some (Pr_fh fh) \<Rightarrow>
          (let a = put_private p (Pr_fh (fh\<lparr>fh_cb := cb, fh_cb_data := cb_data\<rparr>)) a in
           case smb2_cmd_close_async (a_ctx a) \<lparr>clq_flags = 1, clq_file_id = fh_file_id fh\<rparr> CLOSE_CB p of
             (c, None) \<Rightarrow> Some (- ENOMEM, api_error ''Failed to create close command'' (a\<lparr>a_ctx := c\<rparr>))
           | (c, Some pdu) \<Rightarrow> Some (0, queue_chain [pdu] (a\<lparr>a_ctx := c\<rparr>)))
        | _ \<Rightarrow> None)"

definition close_cb :: "u32 \<Rightarrow> payload option \<Rightarrow> nat \<Rightarrow> api \<Rightarrow> api option" where
  "close_cb status command_data p a =
     (case a_heap a p of
        Some (Pr_fh fh) \<Rightarrow>
          Some (free_private p
            (if status \<noteq> SMB2_STATUS_SUCCESS
             then call_user (fh_cb fh) (- nterror_to_errno status) Cd_null (fh_cb_data fh)
                    (api_nterror status ''Close failed with (0x%08x) %s'' a)
             else call_user (fh_cb fh) 0 Cd_null (fh_cb_data fh) a))
      | _ \<Rightarrow> None)"

definition smb2_fsync_async :: "nat \<Rightarrow> nat \<Rightarrow> nat \<Rightarrow> api \<Rightarrow> (int \<times> api) option" where
  "smb2_fsync_async p cb cb_data a =
     (if p = 0 then Some (- EINVAL, api_error ''File handle was NULL'' a)
      else case a_heap a p of
          Some (Pr_fh fh) \<Rightarrow>
          (let a = put_private p (Pr_fh (fh\<lparr>fh_cb := cb, fh_cb_data := cb_data\<rparr>)) a in
           case smb2_cmd_flush_async (a_ctx a) \<lparr>flq_file_id = fh_file_id fh\<rparr> FSYNC_CB p of
             (c, None) \<Rightarrow> Some (- ENOMEM, api_error ''Failed to create flush command'' (a\<lparr>a_ctx := c\<rparr>))
           | (c, Some pdu) \<Rightarrow> Some (0, queue_chain [pdu] (a\<lparr>a_ctx := c\<rparr>)))
        | _ \<Rightarrow> None)"

definition fsync_cb :: "u32 \<Rightarrow> payload option \<Rightarrow> nat \<Rightarrow> api \<Rightarrow> api option" where
  "fsync_cb status command_data p a =
     (case a_heap a p of
        Some (Pr_fh fh) \<Rightarrow>
          Some (if status \<noteq> SMB2_STATUS_SUCCESS
             then call_user (fh_cb fh) (- nterror_to_errno status) Cd_null (fh_cb_data fh)
                    (api_nterror status ''Flush failed with (0x%08x) %s'' a)
             else call_user (fh_cb fh) 0 Cd_null (fh_cb_data fh) a)
      | _ \<Rightarrow> None)"


subsection \<open>Reading and writing\<close>

abbreviation (input) MAX_CREDITS :: int where "MAX_CREDITS \<equiv> 1024"

text \<open>Credits for a payload; \<open>count - 1\<close> wraps around for an empty one.\<close>

definition needed_credits :: "u32 \<Rightarrow> int" where
  "needed_credits count = uint ((count - 1) div 65536 + 1)"

text \<open>How much of \<open>count\<close> one request asks for.\<close>

definition io_clamp :: "smb2_context \<Rightarrow> u32 \<Rightarrow> u32 \<Rightarrow> u32" where
  "io_clamp c limit count =
     (let count = (if count > limit then limit else count) in
      if c_dialect c > SMB2_VERSION_0202
      then (let count = (if needed_credits count > MAX_CREDITS - 16 then of_int (MAX_CREDITS - 16) * 65536 else count)
            in if needed_credits count > c_credits c then of_int (c_credits c) * 65536 else count)
      else if count > 65536 then 65536 else count)"

definition smb2_pread_async ::
  "nat \<Rightarrow> bytes option \<Rightarrow> u32 \<Rightarrow> u64 \<Rightarrow> nat \<Rightarrow> nat \<Rightarrow> api \<Rightarrow> (int \<times> api) option" where
  "smb2_pread_async p buf count offset cb cb_data a =
     (if p = 0 then Some (- EINVAL, api_error ''File handle was NULL'' a)
      else case new_private SIZEOF_READ_DATA (Pr_read \<lparr>io_cb = cb, io_cb_data = cb_data, io_fh = p, io_buf = buf,
                                                       io_count = count, io_offset = offset\<rparr>) a of
          (a, None) \<Rightarrow> Some (- ENOMEM, api_error ''Failed to allocate read_data'' a)
        | (a, Some rd) \<Rightarrow>
          (case a_heap a p of
             Some (Pr_fh fh) \<Rightarrow>
               (let count = io_clamp (a_ctx a) (c_max_read_size (a_ctx a)) count;
                    req = \<lparr>rdq_flags = 0, rdq_length = count, rdq_offset = offset, rdq_buf = buf, rdq_file_id = fh_file_id fh,
                           rdq_minimum_count = 0, rdq_channel = 0, rdq_remaining_bytes = 0, rdq_read_channel_info_offset = 0,
                           rdq_read_channel_info_length = 0, rdq_read_channel_info = None\<rparr>
                in case smb2_cmd_read_async (a_ctx a) req READ_CB rd of
                     (c, None) \<Rightarrow> Some (- EINVAL, api_error ''Failed to create read command'' (a\<lparr>a_ctx := c\<rparr>))
                   | (c, Some pdu) \<Rightarrow> Some (0, queue_chain [pdu] (a\<lparr>a_ctx := c\<rparr>)))
           | _ \<Rightarrow> None))"

definition smb2_read_async ::
  "nat \<Rightarrow> bytes option \<Rightarrow> u32 \<Rightarrow> nat \<Rightarrow> nat \<Rightarrow> api \<Rightarrow> (int \<times> api) option" where
  "smb2_read_async p buf count cb cb_data a =
     (if p = 0 then Some (- EINVAL, api_error ''File handle was NULL'' a)
      else case a_heap a p of
          Some (Pr_fh fh) \<Rightarrow> smb2_pread_async p buf count (of_int (fh_offset fh)) cb cb_data a
        | _ \<Rightarrow> None)"

definition smb2_pwrite_async ::
  "nat \<Rightarrow> bytes option \<Rightarrow> u32 \<Rightarrow> u64 \<Rightarrow> nat \<Rightarrow> nat \<Rightarrow> api \<Rightarrow> (int \<times> api) option" where
  "smb2_pwrite_async p buf count offset cb cb_data a =
     (if p = 0 then Some (- EINVAL, api_error ''File handle was NULL'' a)
      else case new_private SIZEOF_READ_DATA (Pr_write \<lparr>io_cb = cb, io_cb_data = cb_data, io_fh = p, io_buf = buf,
                                                        io_count = count, io_offset = offset\<rparr>) a of
          (a, None) \<Rightarrow> Some (- ENOMEM, api_error ''Failed to allocate write_data'' a)
        | (a, Some wr) \<Rightarrow>
          (case a_heap a p of
             Some (Pr_fh fh) \<Rightarrow>
               (let count = io_clamp (a_ctx a) (c_max_write_size (a_ctx a)) count;
                    req = \<lparr>wrq_data_offset = 0, wrq_length = count, wrq_offset = offset, wrq_buf = buf,
                           wrq_file_id = fh_file_id fh, wrq_channel = 0, wrq_remaining_bytes = 0,
                           wrq_write_channel_info_offset = 0, wrq_write_channel_info_length = 0,
                           wrq_write_channel_info = None, wrq_flags = 0\<rparr>
                in case smb2_cmd_write_async (a_ctx a) req False WRITE_CB wr of
                     (c, None) \<Rightarrow> Some (- EINVAL, api_error ''Failed to create write command'' (a\<lparr>a_ctx := c\<rparr>))
                   | (c, Some pdu) \<Rightarrow> Some (0, queue_chain [pdu] (a\<lparr>a_ctx := c\<rparr>)))
           | _ \<Rightarrow> None))"

definition smb2_write_async ::
  "nat \<Rightarrow> bytes option \<Rightarrow> u32 \<Rightarrow> nat \<Rightarrow> nat \<Rightarrow> api \<Rightarrow> (int \<times> api) option" where
  "smb2_write_async p buf count cb cb_data a =
     (if p = 0 then Some (- EINVAL, api_error ''File handle was NULL'' a)
      else case a_heap a p of
          Some (Pr_fh fh) \<Rightarrow> smb2_pwrite_async p buf count (of_int (fh_offset fh)) cb cb_data a
        | _ \<Rightarrow> None)"

text \<open>At the end of the file the reply is an error reply, read as a read or a write reply: their second members are at
  the same place.\<close>

definition io_reply_length :: "payload option \<Rightarrow> u32 option" where
  "io_reply_length command_data =
     (case command_data of
        Some (P_read_reply rep) \<Rightarrow> Some (rdr_data_length rep)
      | Some (P_write_reply rep) \<Rightarrow> Some (wrr_count rep)
      | Some (P_error rep) \<Rightarrow> Some (err_byte_count rep)
      | _ \<Rightarrow> None)"

text \<open>\<open>read_cb\<close> and \<open>write_cb\<close>, which differ in the names of what they are given. The handle may be gone by then.\<close>

definition io_done :: "io_cb_data \<Rightarrow> u32 \<Rightarrow> payload option \<Rightarrow> nat \<Rightarrow> api \<Rightarrow> api option" where
  "io_done rd status command_data p a =
     (if status \<noteq> 0 \<and> status \<noteq> SMB2_STATUS_END_OF_FILE
      then Some (free_private p (call_user (io_cb rd) (- nterror_to_errno status) (Cd_io rd) (io_cb_data rd)
             (api_nterror status ''Read/Write failed with (0x%08x) %s'' a)))
      else case io_reply_length command_data of
          None \<Rightarrow> None
        | Some n \<Rightarrow>
          map_option (\<lambda>a. free_private p (call_user (io_cb rd) (sint n) (Cd_io rd) (io_cb_data rd) a))
            (if status \<noteq> SMB2_STATUS_SUCCESS then Some a
             else case a_heap a (io_fh rd) of
                 Some (Pr_fh fh) \<Rightarrow>
                   Some (put_private (io_fh rd) (Pr_fh (fh\<lparr>fh_offset := sint (io_offset rd + ucast n)\<rparr>)) a)
               | _ \<Rightarrow> None))"

definition read_cb :: "u32 \<Rightarrow> payload option \<Rightarrow> nat \<Rightarrow> api \<Rightarrow> api option" where
  "read_cb status command_data p a =
     (case a_heap a p of Some (Pr_read rd) \<Rightarrow> io_done rd status command_data p a | _ \<Rightarrow> None)"

definition write_cb :: "u32 \<Rightarrow> payload option \<Rightarrow> nat \<Rightarrow> api \<Rightarrow> api option" where
  "write_cb status command_data p a =
     (case a_heap a p of Some (Pr_write wd) \<Rightarrow> io_done wd status command_data p a | _ \<Rightarrow> None)"

subsection \<open>Seeking\<close>

abbreviation (input) SEEK_SET :: int where "SEEK_SET \<equiv> 0"
abbreviation (input) SEEK_CUR :: int where "SEEK_CUR \<equiv> 1"
abbreviation (input) SEEK_END :: int where "SEEK_END \<equiv> 2"

definition in_int64 :: "int \<Rightarrow> bool" where
  "in_int64 n \<longleftrightarrow> - (2 ^ 63) \<le> n \<and> n < 2 ^ 63"

text \<open>From \<open>base\<close>: the new offset and the result. A sum outside \<open>int64_t\<close> is undefined.\<close>

definition seek_from :: "int \<Rightarrow> int \<Rightarrow> smb2fh \<Rightarrow> nat \<Rightarrow> api \<Rightarrow> (int \<times> int option \<times> api) option" where
  "seek_from base offset fh p a =
     (let fh = fh\<lparr>fh_offset := base\<rparr>; a = put_private p (Pr_fh fh) a in
      if \<not> in_int64 (base + offset) then None
      else if base + offset < 0 then Some (- EINVAL, None, api_error ''Lseek() offset would becomenegative'' a)
      else Some (base + offset, Some (base + offset), put_private p (Pr_fh (fh\<lparr>fh_offset := base + offset\<rparr>)) a))"

text \<open>The result, what is stored in \<open>current_offset\<close>, and the state.\<close>

definition smb2_lseek :: "nat \<Rightarrow> int \<Rightarrow> int \<Rightarrow> api \<Rightarrow> (int \<times> int option \<times> api) option" where
  "smb2_lseek p offset whence a =
     (if p = 0 then Some (- EINVAL, None, api_error ''File handle was NULL'' a)
      else case a_heap a p of
          Some (Pr_fh fh) \<Rightarrow>
            if whence = SEEK_SET
            then (if offset < 0 then Some (- EINVAL, None, api_error ''Lseek() offset would becomenegative'' a)
                  else Some (offset, Some offset, put_private p (Pr_fh (fh\<lparr>fh_offset := offset\<rparr>)) a))
            else if whence = SEEK_CUR then seek_from (fh_offset fh) offset fh p a
            else if whence = SEEK_END then seek_from (fh_end_of_file fh) offset fh p a
            else Some (- EINVAL, None, api_error ''Invalid whence(%d) for lseek'' a)
        | _ \<Rightarrow> None)"

subsection \<open>Chains of commands\<close>

text \<open>The handle of the file that the chain has opened.\<close>

definition compound_file_id :: bytes where
  "compound_file_id = replicate 16 0xff"

definition issue :: "(smb2_context \<Rightarrow> smb2_context \<times> smb2_pdu option) \<Rightarrow> api \<Rightarrow> smb2_pdu option \<times> api" where
  "issue f a = (case f (a_ctx a) of (c, pdu) \<Rightarrow> (pdu, a\<lparr>a_ctx := c\<rparr>))"

definition free_chain :: "smb2_pdu list \<Rightarrow> api \<Rightarrow> api" where
  "free_chain ps = on_context (\<lambda>c. smb2_free_pdu c ps)"

text \<open>The next command of a chain: \<open>failed\<close> says what happens when it cannot be created.\<close>

definition chain_command ::
  "(smb2_context \<Rightarrow> smb2_context \<times> smb2_pdu option) \<Rightarrow> (smb2_pdu list \<Rightarrow> api \<Rightarrow> int \<times> api) \<Rightarrow>
   (smb2_pdu list \<Rightarrow> api \<Rightarrow> int \<times> api) \<Rightarrow> smb2_pdu list \<Rightarrow> api \<Rightarrow> int \<times> api" where
  "chain_command f failed continue ps a =
     (case issue f a of
        (None, a) \<Rightarrow> failed ps a
      | (Some pdu, a) \<Rightarrow> continue (smb2_add_compound_pdu ps [pdu]) a)"

definition queue_whole :: "smb2_pdu list \<Rightarrow> api \<Rightarrow> int \<times> api" where
  "queue_whole ps a = (0, queue_chain ps a)"

definition compound_close :: smb2_close_request where
  "compound_close = \<lparr>clq_flags = 1, clq_file_id = compound_file_id\<rparr>"

subsection \<open>Unlink, rmdir and mkdir\<close>

definition unlink_request :: "bytes \<Rightarrow> bool \<Rightarrow> smb2_create_request" where
  "unlink_request path is_dir =
     create_request path SMB2_DELETE (if is_dir then SMB2_FILE_ATTRIBUTE_DIRECTORY else SMB2_FILE_ATTRIBUTE_NORMAL)
       SHARE_ALL SMB2_FILE_OPEN SMB2_FILE_DELETE_ON_CLOSE"

definition mkdir_request :: "bytes \<Rightarrow> smb2_create_request" where
  "mkdir_request path =
     create_request path SMB2_FILE_READ_ATTRIBUTES SMB2_FILE_ATTRIBUTE_DIRECTORY SHARE_READ_WRITE SMB2_FILE_CREATE
       SMB2_FILE_DIRECTORY_FILE"

text \<open>What \<open>smb2_unlink_internal\<close> and \<open>smb2_mkdir_async\<close> do with their requests.\<close>

definition create_and_close :: "smb2_create_request \<Rightarrow> nat \<Rightarrow> nat \<Rightarrow> api \<Rightarrow> int \<times> api" where
  "create_and_close req cb cb_data a =
     (case new_private SIZEOF_CREATE_CB_DATA (Pr_create \<lparr>cd_cb = cb, cd_cb_data = cb_data\<rparr>) a of
        (a, None) \<Rightarrow> (- ENOMEM, api_error ''Failed to allocate create_data'' a)
      | (a, Some p) \<Rightarrow>
        chain_command (\<lambda>c. smb2_cmd_create_async c req CREATE_CB_1 p)
          (\<lambda>ps a. (- ENOMEM, api_error ''Failed to create create command'' a))
          (chain_command (\<lambda>c. smb2_cmd_close_async c compound_close CREATE_CB_2 p)
             (\<lambda>ps a. (- ENOMEM, free_private p (free_chain ps (api_error ''Failed to create close command'' a))))
             queue_whole)
          [] a)"

definition smb2_unlink_internal :: "bytes \<Rightarrow> bool \<Rightarrow> nat \<Rightarrow> nat \<Rightarrow> api \<Rightarrow> int \<times> api" where
  "smb2_unlink_internal path is_dir = create_and_close (unlink_request path is_dir)"

definition smb2_unlink_async :: "bytes \<Rightarrow> nat \<Rightarrow> nat \<Rightarrow> api \<Rightarrow> int \<times> api" where
  "smb2_unlink_async path = smb2_unlink_internal path False"

definition smb2_rmdir_async :: "bytes \<Rightarrow> nat \<Rightarrow> nat \<Rightarrow> api \<Rightarrow> int \<times> api" where
  "smb2_rmdir_async path = smb2_unlink_internal path True"

definition smb2_mkdir_async :: "bytes \<Rightarrow> nat \<Rightarrow> nat \<Rightarrow> api \<Rightarrow> int \<times> api" where
  "smb2_mkdir_async path = create_and_close (mkdir_request path)"

definition create_cb_1 :: "u32 \<Rightarrow> payload option \<Rightarrow> nat \<Rightarrow> api \<Rightarrow> api option" where
  "create_cb_1 status command_data p a =
     Some (if status \<noteq> SMB2_STATUS_SUCCESS then api_error ''Create failed with status %s.'' a else a)"

definition create_cb_2 :: "u32 \<Rightarrow> payload option \<Rightarrow> nat \<Rightarrow> api \<Rightarrow> api option" where
  "create_cb_2 status command_data p a =
     (case a_heap a p of
        Some (Pr_create d) \<Rightarrow>
          Some (free_private p (call_user (cd_cb d)
            (if status \<noteq> SMB2_STATUS_SUCCESS then - nterror_to_errno status else sint status) Cd_null (cd_cb_data d) a))
      | _ \<Rightarrow> None)"

subsection \<open>Attributes of files and file systems\<close>

abbreviation (input) SMB2_0_INFO_FILE :: u8 where "SMB2_0_INFO_FILE \<equiv> 1"
abbreviation (input) SMB2_0_INFO_FILESYSTEM :: u8 where "SMB2_0_INFO_FILESYSTEM \<equiv> 2"
abbreviation (input) SMB2_FILE_ALL_INFORMATION :: u8 where "SMB2_FILE_ALL_INFORMATION \<equiv> 0x12"
abbreviation (input) SMB2_FILE_FS_FULL_SIZE_INFORMATION :: u8 where "SMB2_FILE_FS_FULL_SIZE_INFORMATION \<equiv> 7"
abbreviation (input) SMB2_TYPE_FILE :: u32 where "SMB2_TYPE_FILE \<equiv> 0"
abbreviation (input) SMB2_TYPE_DIRECTORY :: u32 where "SMB2_TYPE_DIRECTORY \<equiv> 1"
abbreviation (input) SMB2_TYPE_LINK :: u32 where "SMB2_TYPE_LINK \<equiv> 2"

definition file_type :: "u32 \<Rightarrow> u32" where
  "file_type attributes =
     (if attributes AND SMB2_FILE_ATTRIBUTE_REPARSE_POINT \<noteq> 0 then SMB2_TYPE_LINK
      else if attributes AND SMB2_FILE_ATTRIBUTE_DIRECTORY \<noteq> 0 then SMB2_TYPE_DIRECTORY
      else SMB2_TYPE_FILE)"

definition stat_of :: "smb2_file_all_info \<Rightarrow> smb2_stat_64" where
  "stat_of fs =
     (let b = fai_basic fs; s = fai_standard fs in
      \<lparr>smb2_type = file_type (fbi_file_attributes b), smb2_nlink = fsi_number_of_links s, smb2_ino = fai_index_number fs,
       smb2_size = fsi_end_of_file s,
       smb2_atime = of_int (tv_sec (fbi_last_access_time b)), smb2_atime_nsec = of_int (tv_usec (fbi_last_access_time b) * 1000),
       smb2_mtime = of_int (tv_sec (fbi_last_write_time b)), smb2_mtime_nsec = of_int (tv_usec (fbi_last_write_time b) * 1000),
       smb2_ctime = of_int (tv_sec (fbi_change_time b)), smb2_ctime_nsec = of_int (tv_usec (fbi_change_time b) * 1000),
       smb2_btime = of_int (tv_sec (fbi_creation_time b)), smb2_btime_nsec = of_int (tv_usec (fbi_creation_time b) * 1000)\<rparr>)"

definition statvfs_of :: "smb2_file_fs_full_size_info \<Rightarrow> smb2_statvfs" where
  "statvfs_of vfs =
     (let size = ffs_bytes_per_sector vfs * ffs_sectors_per_allocation_unit vfs in
      \<lparr>f_bsize = size, f_frsize = size, f_blocks = ffs_total_allocation_units vfs,
       f_bfree = ffs_caller_available_allocation_units vfs, f_bavail = ffs_caller_available_allocation_units vfs,
       f_files = 0, f_ffree = 0, f_favail = 0, f_fsid = 0, f_flag = 0, f_namemax = 0\<rparr>)"

definition put_stat :: "nat \<Rightarrow> stat_buffer \<Rightarrow> api \<Rightarrow> api" where
  "put_stat st b a = a\<lparr>a_stat := (a_stat a)(st \<mapsto> b)\<rparr>"

text \<open>Every buffer is one of the two that the calls below ask for.\<close>

definition store_file_stat :: "nat \<Rightarrow> smb2_file_all_info \<Rightarrow> api \<Rightarrow> api option" where
  "store_file_stat st fs a =
     (case a_stat a st of Some (St_file _) \<Rightarrow> Some (put_stat st (St_file (stat_of fs)) a) | _ \<Rightarrow> None)"

definition store_filesystem_stat :: "nat \<Rightarrow> smb2_file_fs_full_size_info \<Rightarrow> api \<Rightarrow> api option" where
  "store_filesystem_stat st vfs a =
     (case a_stat a st of Some (St_filesystem _) \<Rightarrow> Some (put_stat st (St_filesystem (statvfs_of vfs)) a) | _ \<Rightarrow> None)"

definition new_stat_data :: "nat \<Rightarrow> nat \<Rightarrow> u8 \<Rightarrow> u8 \<Rightarrow> nat \<Rightarrow> stat_cb_data" where
  "new_stat_data cb cb_data info_type file_info_class st =
     \<lparr>sc_cb = cb, sc_cb_data = cb_data, sc_status = 0, sc_info_type = info_type, sc_file_info_class = file_info_class, sc_st = st\<rparr>"

definition info_request :: "u8 \<Rightarrow> u8 \<Rightarrow> bytes \<Rightarrow> smb2_query_info_request" where
  "info_request info_type file_info_class file_id =
     \<lparr>qiq_info_type = info_type, qiq_file_info_class = file_info_class, qiq_output_buffer_length = 0xffff,
      qiq_input_buffer_offset = 0, qiq_input_buffer_length = 0, qiq_additional_information = 0, qiq_flags = 0,
      qiq_file_id = file_id, qiq_input = None\<rparr>"

definition smb2_fstat_async :: "nat \<Rightarrow> nat \<Rightarrow> nat \<Rightarrow> nat \<Rightarrow> api \<Rightarrow> (int \<times> api) option" where
  "smb2_fstat_async fh st cb cb_data a =
     (if fh = 0 then Some (- EINVAL, api_error ''File handle was NULL'' a)
      else case new_private SIZEOF_STAT_CB_DATA (Pr_stat (new_stat_data cb cb_data 0 0 st)) a of
          (a, None) \<Rightarrow> Some (- ENOMEM, api_error ''Failed to allocate stat_data'' a)
        | (a, Some p) \<Rightarrow>
          (case a_heap a fh of
             Some (Pr_fh h) \<Rightarrow>
               Some (case issue (\<lambda>c. smb2_cmd_query_info_async c
                              (info_request SMB2_0_INFO_FILE SMB2_FILE_ALL_INFORMATION (fh_file_id h)) FSTAT_CB_1 p) a of
                       (None, a) \<Rightarrow> (- ENOMEM, free_private p (api_error ''Failed to create query command'' a))
                     | (Some pdu, a) \<Rightarrow> queue_whole [pdu] a)
           | _ \<Rightarrow> None))"

text \<open>The reply is looked at before the status: without one this is a fault, whatever the status.\<close>

definition fstat_cb_1 :: "u32 \<Rightarrow> payload option \<Rightarrow> nat \<Rightarrow> api \<Rightarrow> api option" where
  "fstat_cb_1 status command_data p a =
     (case (command_data, a_heap a p) of
        (Some data, Some (Pr_stat d)) \<Rightarrow>
          if status \<noteq> SMB2_STATUS_SUCCESS
          then Some (free_private p (call_user (sc_cb d) (- nterror_to_errno status) Cd_null (sc_cb_data d) a))
          else (case data of
              P_query_info_reply rep \<Rightarrow>
                (case qir_output_buffer rep of
                   Inf_all fs \<Rightarrow>
                     map_option (\<lambda>a. free_private p (call_user (sc_cb d) 0 (Cd_stat (sc_st d)) (sc_cb_data d) a))
                       (store_file_stat (sc_st d) fs a)
                 | _ \<Rightarrow> None)
            | _ \<Rightarrow> None)
      | _ \<Rightarrow> None)"

text \<open>The first failure of a chain is the one that is reported.\<close>

definition first_failure :: "u32 \<Rightarrow> u32 \<Rightarrow> u32" where
  "first_failure before status = (if before = SMB2_STATUS_SUCCESS then status else before)"

definition note_stat :: "u32 \<Rightarrow> stat_cb_data \<Rightarrow> stat_cb_data" where
  "note_stat status d = d\<lparr>sc_status := first_failure (sc_status d) status\<rparr>"

definition getinfo_cb_1 :: "u32 \<Rightarrow> payload option \<Rightarrow> nat \<Rightarrow> api \<Rightarrow> api option" where
  "getinfo_cb_1 status command_data p a =
     (case a_heap a p of Some (Pr_stat d) \<Rightarrow> Some (put_private p (Pr_stat (note_stat status d)) a) | _ \<Rightarrow> None)"

definition store_info :: "stat_cb_data \<Rightarrow> info_data \<Rightarrow> api \<Rightarrow> api option" where
  "store_info d data a =
     (if sc_info_type d = SMB2_0_INFO_FILE \<and> sc_file_info_class d = SMB2_FILE_ALL_INFORMATION
      then (case data of Inf_all fs \<Rightarrow> store_file_stat (sc_st d) fs a | _ \<Rightarrow> None)
      else if sc_info_type d = SMB2_0_INFO_FILESYSTEM \<and> sc_file_info_class d = SMB2_FILE_FS_FULL_SIZE_INFORMATION
      then (case data of Inf_fs_full_size vfs \<Rightarrow> store_filesystem_stat (sc_st d) vfs a | _ \<Rightarrow> None)
      else Some a)"

definition getinfo_cb_2 :: "u32 \<Rightarrow> payload option \<Rightarrow> nat \<Rightarrow> api \<Rightarrow> api option" where
  "getinfo_cb_2 status command_data p a =
     (case a_heap a p of
        Some (Pr_stat d) \<Rightarrow>
          (let d = note_stat status d; a = put_private p (Pr_stat d) a in
           if sc_status d \<noteq> SMB2_STATUS_SUCCESS then Some a
           else (case command_data of
               Some (P_query_info_reply rep) \<Rightarrow> store_info d (qir_output_buffer rep) a
             | _ \<Rightarrow> None))
      | _ \<Rightarrow> None)"

definition getinfo_cb_3 :: "u32 \<Rightarrow> payload option \<Rightarrow> nat \<Rightarrow> api \<Rightarrow> api option" where
  "getinfo_cb_3 status command_data p a =
     (case a_heap a p of
        Some (Pr_stat d) \<Rightarrow>
          Some (free_private p (call_user (sc_cb d) (- nterror_to_errno (sc_status (note_stat status d))) (Cd_stat (sc_st d))
            (sc_cb_data d) a))
      | _ \<Rightarrow> None)"

definition getinfo_request :: "bytes \<Rightarrow> smb2_create_request" where
  "getinfo_request path = create_request path (SMB2_FILE_READ_ATTRIBUTES OR SMB2_FILE_READ_EA) 0 SHARE_READ_WRITE SMB2_FILE_OPEN 0"

definition smb2_getinfo_async :: "bytes \<Rightarrow> u8 \<Rightarrow> u8 \<Rightarrow> nat \<Rightarrow> nat \<Rightarrow> nat \<Rightarrow> api \<Rightarrow> int \<times> api" where
  "smb2_getinfo_async path info_type file_info_class st cb cb_data a =
     (case new_private SIZEOF_STAT_CB_DATA (Pr_stat (new_stat_data cb cb_data info_type file_info_class st)) a of
        (a, None) \<Rightarrow> (-1, api_error ''Failed to allocate create_data'' a)
      | (a, Some p) \<Rightarrow>
        chain_command (\<lambda>c. smb2_cmd_create_async c (getinfo_request path) GETINFO_CB_1 p)
          (\<lambda>ps a. (-1, free_private p (api_error ''Failed to create create command'' a)))
          (chain_command
             (\<lambda>c. smb2_cmd_query_info_async c (info_request info_type file_info_class compound_file_id) GETINFO_CB_2 p)
             (\<lambda>ps a. (-1, free_chain ps (free_private p (api_error ''Failed to create query command'' a))))
             (chain_command (\<lambda>c. smb2_cmd_close_async c compound_close GETINFO_CB_3 p)
                (\<lambda>ps a. (-1, free_chain ps (free_private p (call_user cb (- ENOMEM) Cd_null cb_data a))))
                queue_whole))
          [] a)"

definition smb2_stat_async :: "bytes \<Rightarrow> nat \<Rightarrow> nat \<Rightarrow> nat \<Rightarrow> api \<Rightarrow> int \<times> api" where
  "smb2_stat_async path = smb2_getinfo_async path SMB2_0_INFO_FILE SMB2_FILE_ALL_INFORMATION"

definition smb2_statvfs_async :: "bytes \<Rightarrow> nat \<Rightarrow> nat \<Rightarrow> nat \<Rightarrow> api \<Rightarrow> int \<times> api" where
  "smb2_statvfs_async path = smb2_getinfo_async path SMB2_0_INFO_FILESYSTEM SMB2_FILE_FS_FULL_SIZE_INFORMATION"

subsection \<open>Truncating\<close>

definition note_trunc :: "u32 \<Rightarrow> trunc_cb_data \<Rightarrow> trunc_cb_data" where
  "note_trunc status d = d\<lparr>tc_status := first_failure (tc_status d) status\<rparr>"

definition trunc_cb_1 :: "u32 \<Rightarrow> payload option \<Rightarrow> nat \<Rightarrow> api \<Rightarrow> api option" where
  "trunc_cb_1 status command_data p a =
     (case a_heap a p of Some (Pr_trunc d) \<Rightarrow> Some (put_private p (Pr_trunc (note_trunc status d)) a) | _ \<Rightarrow> None)"

definition trunc_cb_2 :: "u32 \<Rightarrow> payload option \<Rightarrow> nat \<Rightarrow> api \<Rightarrow> api option" where
  "trunc_cb_2 status command_data p a =
     (case a_heap a p of Some (Pr_trunc d) \<Rightarrow> Some (put_private p (Pr_trunc (note_trunc status d)) a) | _ \<Rightarrow> None)"

definition trunc_cb_3 :: "u32 \<Rightarrow> payload option \<Rightarrow> nat \<Rightarrow> api \<Rightarrow> api option" where
  "trunc_cb_3 status command_data p a =
     (case a_heap a p of
        Some (Pr_trunc d) \<Rightarrow>
          Some (free_private p (call_user (tc_cb d) (- nterror_to_errno (tc_status (note_trunc status d))) Cd_null
            (tc_cb_data d) a))
      | _ \<Rightarrow> None)"

definition trunc_request :: "bytes \<Rightarrow> smb2_create_request" where
  "trunc_request path = create_request path SMB2_GENERIC_WRITE 0 SHARE_READ_WRITE SMB2_FILE_OPEN 0"

definition set_request :: "u8 \<Rightarrow> bytes \<Rightarrow> set_info_data \<Rightarrow> smb2_set_info_request" where
  "set_request file_info_class file_id data =
     \<lparr>siq_info_type = SMB2_0_INFO_FILE, siq_file_info_class = file_info_class, siq_buffer_length = 0, siq_buffer_offset = 0,
      siq_additional_information = 0, siq_file_id = file_id, siq_input_data = data\<rparr>"

abbreviation (input) SMB2_FILE_RENAME_INFORMATION :: u8 where "SMB2_FILE_RENAME_INFORMATION \<equiv> 0x0a"
abbreviation (input) SMB2_FILE_END_OF_FILE_INFORMATION :: u8 where "SMB2_FILE_END_OF_FILE_INFORMATION \<equiv> 0x14"

definition smb2_truncate_async :: "bytes \<Rightarrow> u64 \<Rightarrow> nat \<Rightarrow> nat \<Rightarrow> api \<Rightarrow> int \<times> api" where
  "smb2_truncate_async path len cb cb_data a =
     (case new_private SIZEOF_TRUNC_CB_DATA (Pr_trunc \<lparr>tc_cb = cb, tc_cb_data = cb_data, tc_status = 0, tc_length = len\<rparr>) a of
        (a, None) \<Rightarrow> (- ENOMEM, api_error ''Failed to allocate trunc_data'' a)
      | (a, Some p) \<Rightarrow>
        chain_command (\<lambda>c. smb2_cmd_create_async c (trunc_request path) TRUNC_CB_1 p)
          (\<lambda>ps a. (- EINVAL, free_private p (api_error ''Failed to create create command'' a)))
          (chain_command
             (\<lambda>c. smb2_cmd_set_info_async c
                    (set_request SMB2_FILE_END_OF_FILE_INFORMATION compound_file_id (Si_end_of_file len)) TRUNC_CB_2 p)
             (\<lambda>ps a. (- EINVAL, free_chain ps (free_private p (api_error ''Failed to create set command. %s'' a))))
             (chain_command (\<lambda>c. smb2_cmd_close_async c compound_close TRUNC_CB_3 p)
                (\<lambda>ps a. (- EINVAL, free_chain ps (free_private p (call_user cb (- ENOMEM) Cd_null cb_data a))))
                queue_whole))
          [] a)"

definition ftrunc_cb_1 :: "u32 \<Rightarrow> payload option \<Rightarrow> nat \<Rightarrow> api \<Rightarrow> api option" where
  "ftrunc_cb_1 status command_data p a =
     (case a_heap a p of
        Some (Pr_create d) \<Rightarrow>
          Some (free_private p (call_user (cd_cb d) (- nterror_to_errno status) Cd_null (cd_cb_data d) a))
      | _ \<Rightarrow> None)"

definition smb2_ftruncate_async :: "nat \<Rightarrow> u64 \<Rightarrow> nat \<Rightarrow> nat \<Rightarrow> api \<Rightarrow> (int \<times> api) option" where
  "smb2_ftruncate_async fh len cb cb_data a =
     (if fh = 0 then Some (- EINVAL, api_error ''File handle was NULL'' a)
      else case new_private SIZEOF_CREATE_CB_DATA (Pr_create \<lparr>cd_cb = cb, cd_cb_data = cb_data\<rparr>) a of
          (a, None) \<Rightarrow> Some (- ENOMEM, api_error ''Failed to allocate create_data'' a)
        | (a, Some p) \<Rightarrow>
          (case a_heap a fh of
             Some (Pr_fh h) \<Rightarrow>
               Some (case issue (\<lambda>c. smb2_cmd_set_info_async c
                              (set_request SMB2_FILE_END_OF_FILE_INFORMATION (fh_file_id h) (Si_end_of_file len)) FTRUNC_CB_1 p) a of
                       (None, a) \<Rightarrow> (- ENOMEM, api_error ''Failed to create set info command'' a)
                     | (Some pdu, a) \<Rightarrow> queue_whole [pdu] a)
           | _ \<Rightarrow> None))"

subsection \<open>Renaming\<close>

definition note_rename :: "u32 \<Rightarrow> rename_cb_data \<Rightarrow> rename_cb_data" where
  "note_rename status d = d\<lparr>rn_status := first_failure (rn_status d) status\<rparr>"

definition rename_cb_1 :: "u32 \<Rightarrow> payload option \<Rightarrow> nat \<Rightarrow> api \<Rightarrow> api option" where
  "rename_cb_1 status command_data p a =
     (case a_heap a p of Some (Pr_rename d) \<Rightarrow> Some (put_private p (Pr_rename (note_rename status d)) a) | _ \<Rightarrow> None)"

definition rename_cb_2 :: "u32 \<Rightarrow> payload option \<Rightarrow> nat \<Rightarrow> api \<Rightarrow> api option" where
  "rename_cb_2 status command_data p a =
     (case a_heap a p of Some (Pr_rename d) \<Rightarrow> Some (put_private p (Pr_rename (note_rename status d)) a) | _ \<Rightarrow> None)"

definition rename_cb_3 :: "u32 \<Rightarrow> payload option \<Rightarrow> nat \<Rightarrow> api \<Rightarrow> api option" where
  "rename_cb_3 status command_data p a =
     (case a_heap a p of
        Some (Pr_rename d) \<Rightarrow>
          Some (free_private p (call_user (rn_cb d) (- nterror_to_errno (rn_status (note_rename status d))) Cd_null
            (rn_cb_data d) a))
      | _ \<Rightarrow> None)"

definition rename_request :: "bytes \<Rightarrow> smb2_create_request" where
  "rename_request path =
     create_request path (SMB2_GENERIC_READ OR SMB2_FILE_READ_ATTRIBUTES OR SMB2_DELETE) 0 SHARE_ALL SMB2_FILE_OPEN 0"

definition rename_path :: "bytes \<Rightarrow> bytes" where
  "rename_path path = map (\<lambda>b. if b = 0x2f then 0x5c else b) (c_string path)"

text \<open>\<open>free_rename_data\<close> also frees the path, which is a part of the block here.\<close>

definition smb2_rename_async :: "bytes \<Rightarrow> bytes \<Rightarrow> nat \<Rightarrow> nat \<Rightarrow> api \<Rightarrow> int \<times> api" where
  "smb2_rename_async oldpath newpath cb cb_data a =
     (case new_private SIZEOF_RENAME_CB_DATA
             (Pr_rename \<lparr>rn_newpath = rename_path newpath, rn_cb = cb, rn_cb_data = cb_data, rn_status = 0\<rparr>) a of
        (a, None) \<Rightarrow> (- ENOMEM, api_error ''Failed to allocate rename_data'' a)
      | (a, Some p) \<Rightarrow>
        if \<not> c_mem_ok (a_ctx a) (length (c_string newpath) + 1)
        then (- ENOMEM, api_error ''Failed to allocate rename_data->newpath'' (free_private p a))
        else
        chain_command (\<lambda>c. smb2_cmd_create_async c (rename_request oldpath) RENAME_CB_1 p)
          (\<lambda>ps a. (- EINVAL, free_private p (api_error ''Failed to create create command'' a)))
          (chain_command
             (\<lambda>c. smb2_cmd_set_info_async c
                    (set_request SMB2_FILE_RENAME_INFORMATION compound_file_id (Si_rename 0 (rename_path newpath))) RENAME_CB_2 p)
             (\<lambda>ps a. (- EINVAL, free_chain ps (free_private p (api_error ''Failed to create set command. %s'' a))))
             (chain_command (\<lambda>c. smb2_cmd_close_async c compound_close RENAME_CB_3 p)
                (\<lambda>ps a. (- EINVAL, free_chain ps (free_private p (call_user cb (- ENOMEM) Cd_null cb_data a))))
                queue_whole))
          [] a)"

subsection \<open>Reading a link\<close>

abbreviation (input) SMB2_REPARSE_TAG_SYMLINK :: u32 where "SMB2_REPARSE_TAG_SYMLINK \<equiv> 0xa000000c"

definition readlink_cb_1 :: "u32 \<Rightarrow> payload option \<Rightarrow> nat \<Rightarrow> api \<Rightarrow> api option" where
  "readlink_cb_1 status command_data p a =
     (case a_heap a p of
        Some (Pr_readlink d) \<Rightarrow>
          Some (put_private p (Pr_readlink (d\<lparr>rl_status := status\<rparr>))
            (if status \<noteq> SMB2_STATUS_SUCCESS then api_nterror status ''%s'' a else a))
      | _ \<Rightarrow> None)"

definition readlink_cb_2 :: "u32 \<Rightarrow> payload option \<Rightarrow> nat \<Rightarrow> api \<Rightarrow> api option" where
  "readlink_cb_2 status command_data p a =
     (case a_heap a p of
        Some (Pr_readlink d) \<Rightarrow>
          (let d = d\<lparr>rl_status := first_failure (rl_status d) status\<rparr>;
               a = (if status = SMB2_STATUS_NOT_A_REPARSE_POINT then api_error ''Not a reparse point'' a else a)
           in if status \<noteq> SMB2_STATUS_SUCCESS then Some (put_private p (Pr_readlink d) a)
              else (case command_data of
                  Some (P_ioctl_reply rep) \<Rightarrow> Some (put_private p (Pr_readlink (d\<lparr>rl_reparse := ior_output rep\<rparr>)) a)
                | _ \<Rightarrow> None))
      | _ \<Rightarrow> None)"

text \<open>The output is taken for a reparse buffer, which it is when the server has answered with the control code that was
  asked for.\<close>

definition readlink_cb_3 :: "u32 \<Rightarrow> payload option \<Rightarrow> nat \<Rightarrow> api \<Rightarrow> api option" where
  "readlink_cb_3 status command_data p a =
     (case a_heap a p of
        Some (Pr_readlink d) \<Rightarrow>
          map_option (\<lambda>target. free_private p (call_user (rl_cb d) (- nterror_to_errno (rl_status d)) target (rl_cb_data d) a))
            (case rl_reparse d of
               Io_null \<Rightarrow> Some (Cd_text ''<unknown reparse point type>'')
             | Io_reparse rp \<Rightarrow>
               Some (if rpb_reparse_tag rp = SMB2_REPARSE_TAG_SYMLINK then Cd_name (rpb_subname rp)
                     else Cd_text ''<unknown reparse point type>'')
             | _ \<Rightarrow> None)
      | _ \<Rightarrow> None)"

definition readlink_request :: "bytes \<Rightarrow> smb2_create_request" where
  "readlink_request path =
     create_request path SMB2_FILE_READ_ATTRIBUTES 0 SHARE_ALL SMB2_FILE_OPEN SMB2_FILE_OPEN_REPARSE_POINT"

definition reparse_request :: smb2_ioctl_request where
  "reparse_request =
     \<lparr>ioq_ctl_code = SMB2_FSCTL_GET_REPARSE_POINT, ioq_file_id = compound_file_id, ioq_input_offset = 0, ioq_input_count = 0,
      ioq_max_input_response = 0, ioq_output_offset = 0, ioq_output_count = 0, ioq_max_output_response = 0, ioq_flags = 1,
      ioq_input = Io_null\<rparr>"

definition smb2_readlink_async :: "bytes \<Rightarrow> nat \<Rightarrow> nat \<Rightarrow> api \<Rightarrow> int \<times> api" where
  "smb2_readlink_async path cb cb_data a =
     (case new_private SIZEOF_READLINK_CB_DATA
             (Pr_readlink \<lparr>rl_cb = cb, rl_cb_data = cb_data, rl_status = 0, rl_reparse = Io_null\<rparr>) a of
        (a, None) \<Rightarrow> (- ENOMEM, api_error ''Failed to allocate readlink_data'' a)
      | (a, Some p) \<Rightarrow>
        chain_command (\<lambda>c. smb2_cmd_create_async c (readlink_request path) READLINK_CB_1 p)
          (\<lambda>ps a. (- EINVAL, free_private p (api_error ''Failed to create create command'' a)))
          (chain_command (\<lambda>c. smb2_cmd_ioctl_async c reparse_request READLINK_CB_2 p)
             (\<lambda>ps a. (- EINVAL, free_chain ps (free_private p a)))
             (chain_command (\<lambda>c. smb2_cmd_close_async c compound_close READLINK_CB_3 p)
                (\<lambda>ps a. (- EINVAL, free_chain ps (free_private p a)))
                queue_whole))
          [] a)"

subsection \<open>Echo and disconnecting\<close>

text \<open>The structures of these are a callback and its data, as those of \<open>unlink\<close>.\<close>

abbreviation (input) ECHO_CB :: nat where "ECHO_CB \<equiv> 22"
abbreviation (input) DISCONNECT_CB_1 :: nat where "DISCONNECT_CB_1 \<equiv> 23"
abbreviation (input) DISCONNECT_CB_2 :: nat where "DISCONNECT_CB_2 \<equiv> 24"

definition echo_cb :: "u32 \<Rightarrow> payload option \<Rightarrow> nat \<Rightarrow> api \<Rightarrow> api option" where
  "echo_cb = ftrunc_cb_1"

definition smb2_echo_async :: "nat \<Rightarrow> nat \<Rightarrow> api \<Rightarrow> int \<times> api" where
  "smb2_echo_async cb cb_data a =
     (case new_private SIZEOF_CREATE_CB_DATA (Pr_create \<lparr>cd_cb = cb, cd_cb_data = cb_data\<rparr>) a of
        (a, None) \<Rightarrow> (- ENOMEM, api_error ''Failed to allocate echo_data'' a)
      | (a, Some p) \<Rightarrow>
        (case issue (\<lambda>c. smb2_cmd_echo_async c ECHO_CB p) a of
           (None, a) \<Rightarrow> (- ENOMEM, free_private p a)
         | (Some pdu, a) \<Rightarrow> queue_whole [pdu] a))"

text \<open>\<open>close\<close> of the transport, a socket or the application's own.\<close>

definition transport_close :: "smb2_context \<Rightarrow> smb2_context" where
  "transport_close c =
     (if \<not> c_transport_ops c then c
      else if c_transport_type c = SMB2_TRANSPORT_TCP then c\<lparr>c_fd_valid := False\<rparr> else c\<lparr>c_ext_connected := False\<rparr>)"

definition smb2_close_context :: "smb2_context \<Rightarrow> smb2_context" where
  "smb2_close_context c =
     (let c = transport_close c in
      c\<lparr>c_message_id := 0, c_session_id := 0, c_tree_id_top := 0, c_tree_id_cur := 0,
        c_tree_id := (c_tree_id c)[0 := 0xdeadbeef], c_signing_key := replicate 16 0, c_session_key := None,
        c_session_key_size := 0\<rparr>)"

definition disconnect_cb_2 :: "u32 \<Rightarrow> payload option \<Rightarrow> nat \<Rightarrow> api \<Rightarrow> api option" where
  "disconnect_cb_2 status command_data p a =
     (case a_heap a p of
        Some (Pr_create d) \<Rightarrow> Some (on_context transport_close (free_private p (call_user (cd_cb d) 0 Cd_null (cd_cb_data d) a)))
      | _ \<Rightarrow> None)"

definition disconnect_cb_1 :: "u32 \<Rightarrow> payload option \<Rightarrow> nat \<Rightarrow> api \<Rightarrow> api option" where
  "disconnect_cb_1 status command_data p a =
     (case a_heap a p of
        Some (Pr_create d) \<Rightarrow>
          (let failed = \<lambda>a. free_private p (call_user (cd_cb d) (- ENOMEM) Cd_null (cd_cb_data d) a) in
           Some (if status \<noteq> SMB2_STATUS_SUCCESS then failed (api_nterror status ''%s'' a)
                 else case issue (\<lambda>c. smb2_cmd_logoff_async c DISCONNECT_CB_2 p) a of
                        (None, a) \<Rightarrow> failed a
                      | (Some pdu, a) \<Rightarrow> queue_chain [pdu] a))
      | _ \<Rightarrow> None)"

definition smb2_disconnect_share_async :: "nat \<Rightarrow> nat \<Rightarrow> api \<Rightarrow> int \<times> api" where
  "smb2_disconnect_share_async cb cb_data a =
     (if \<not> smb2_transport_is_connected (a_ctx a)
      then (- EINVAL, api_error ''connection is alreeady disconnected or was never connected'' a)
      else case new_private SIZEOF_CREATE_CB_DATA (Pr_create \<lparr>cd_cb = cb, cd_cb_data = cb_data\<rparr>) a of
        (a, None) \<Rightarrow> (- ENOMEM, api_error ''Failed to allocate disconnect_data'' a)
      | (a, Some p) \<Rightarrow>
        (case issue (\<lambda>c. smb2_cmd_tree_disconnect_async c DISCONNECT_CB_1 p) a of
           (None, a) \<Rightarrow> (- ENOMEM, free_private p a)
         | (Some pdu, a) \<Rightarrow> queue_whole [pdu] a))"

text \<open>The library's callback with a number above, and what a chain's replies do, one after the other.\<close>

definition file_callbacks :: "(u32 \<Rightarrow> payload option \<Rightarrow> nat \<Rightarrow> api \<Rightarrow> api option) list" where
  "file_callbacks =
     [open_cb, close_cb, fsync_cb, read_cb, write_cb, create_cb_1, create_cb_2, fstat_cb_1, getinfo_cb_1, getinfo_cb_2,
      getinfo_cb_3, trunc_cb_1, trunc_cb_2, trunc_cb_3, rename_cb_1, rename_cb_2, rename_cb_3, ftrunc_cb_1, readlink_cb_1,
      readlink_cb_2, readlink_cb_3, echo_cb, disconnect_cb_1, disconnect_cb_2]"

definition file_callback :: "nat \<Rightarrow> u32 \<Rightarrow> payload option \<Rightarrow> nat \<Rightarrow> api \<Rightarrow> api option" where
  "file_callback cb =
     (if 1 \<le> cb \<and> cb \<le> length file_callbacks then file_callbacks ! (cb - 1) else (\<lambda>status command_data p a. None))"

fun deliver :: "nat \<Rightarrow> (nat \<times> u32 \<times> payload option) list \<Rightarrow> api \<Rightarrow> api option" where
  "deliver p [] a = Some a"
| "deliver p ((cb, status, command_data) # replies) a =
     (case file_callback cb status command_data p a of None \<Rightarrow> None | Some a \<Rightarrow> deliver p replies a)"


subsection \<open>How much one request asks for\<close>

lemma blocks_le: "((u :: int) + 65535) div 65536 \<le> n \<longleftrightarrow> u \<le> n * 65536"
proof -
  obtain q r where q: "(u + 65535) div 65536 = q" and r: "q * 65536 + r = u + 65535" "0 \<le> r" "r < 65536"
    by (rule that [of "(u + 65535) div 65536" "(u + 65535) mod 65536"]) simp_all
  show ?thesis unfolding q using r by (intro iffI) linarith+
qed

lemma needed_credits_ceiling:
  assumes "count \<noteq> 0"
  shows "needed_credits count = (uint count + 65535) div 65536"
proof -
  have "uint count \<noteq> 0" using assms by (simp add: uint_0_iff)
  then have pos: "0 < uint count" using uint_ge_0 [of count] by linarith
  have len: "uint count < 2 ^ 32" using uint_lt2p [of count] by simp
  have "uint (count - 1) = uint count - 1" using pos len by (simp add: uint_word_ariths take_bit_int_eq_self)
  moreover have e: "uint count + 65535 = (uint count - 1) + 65536" by simp
  have "(uint count - 1) div 65536 + 1 = (uint count + 65535) div 65536" unfolding e by simp
  moreover have "(uint count + 65535) div 65536 \<le> 65536" using len by (subst blocks_le) simp
  moreover have "0 \<le> (uint count + 65535) div 65536" using pos by simp
  ultimately show ?thesis by (simp add: needed_credits_def uint_word_ariths uint_div take_bit_int_eq_self)
qed

lemma needed_credits_le: "count \<noteq> 0 \<Longrightarrow> needed_credits count \<le> n \<longleftrightarrow> uint count \<le> n * 65536"
  using needed_credits_ceiling [of count] blocks_le [of "uint count" n] by simp

lemma blocks_of_word:
  assumes "0 \<le> n" "n \<le> 1008"
  shows "uint (of_int n * 65536 :: u32) = n * 65536"
proof -
  have "(of_int n * 65536 :: u32) = of_int (n * 65536)" by (simp only: of_int_mult of_int_numeral)
  moreover have "uint (of_int (n * 65536) :: u32) = n * 65536"
    using assms by (subst uint_word_of_int_eq) (simp add: take_bit_int_eq_self)
  ultimately show ?thesis by simp
qed

text \<open>C40. As long as there is a credit and something to transfer, one request of a 2.1 or later connection asks for at
  least one byte, for no more than was asked and than the server allows, and for no more than the credits pay for; the sum
  of an older dialect is 64 kB.\<close>

theorem io_clamp_pays:
  assumes "count \<noteq> 0" "limit \<noteq> 0" "1 \<le> c_credits c"
  shows "0 < unat (io_clamp c limit count) \<and> io_clamp c limit count \<le> count \<and> io_clamp c limit count \<le> limit \<and>
    (if c_dialect c > SMB2_VERSION_0202
     then needed_credits (io_clamp c limit count) \<le> min (c_credits c) 1008
     else io_clamp c limit count \<le> 65536)"
proof -
  define n where "n = (if count > limit then limit else count)"
  define m where "m = (if needed_credits n > 1008 then 1008 * 65536 else n :: u32)"
  have n: "n \<noteq> 0" "n \<le> count" "n \<le> limit" using assms by (auto simp: n_def not_less)
  have m: "m \<noteq> 0" "m \<le> n" "needed_credits m \<le> 1008"
  proof -
    have "needed_credits (1008 * 65536) = 1008" by (subst needed_credits_ceiling) simp_all
    moreover have "needed_credits n > 1008 \<Longrightarrow> (1008 * 65536 :: u32) \<le> n"
      using needed_credits_le [OF n(1), of 1008] by (simp add: word_le_def)
    ultimately show "m \<noteq> 0" "m \<le> n" "needed_credits m \<le> 1008" using n(1) by (auto simp: m_def)
  qed
  have clamp: "io_clamp c limit count =
      (if c_dialect c > SMB2_VERSION_0202 then if needed_credits m > c_credits c then of_int (c_credits c) * 65536 else m
       else if n > 65536 then 65536 else n)"
    by (simp add: io_clamp_def Let_def m_def n_def)
  show ?thesis
  proof (cases "c_dialect c > SMB2_VERSION_0202")
    case new: True
    show ?thesis
    proof (cases "needed_credits m > c_credits c")
      case True
      then have c: "1 \<le> c_credits c" "c_credits c \<le> 1008" "uint m > c_credits c * 65536"
        using assms(3) m needed_credits_le [OF m(1), of "c_credits c"] by auto
      define k :: u32 where "k = of_int (c_credits c) * 65536"
      have k: "uint k = c_credits c * 65536" using blocks_of_word [of "c_credits c"] c by (simp add: k_def)
      then have "uint k < uint m" "0 < uint k" using c by linarith+
      then have "k \<noteq> 0" by auto
      then have "k \<noteq> 0" "k \<le> m" "needed_credits k \<le> c_credits c"
        using \<open>uint k < uint m\<close> needed_credits_le [of k "c_credits c"] k by (auto simp: word_le_def)
      moreover have "io_clamp c limit count = k"
        using new True by (simp add: clamp k_def)
      ultimately show ?thesis using new n m c by (auto simp: unat_gt_0)
    next
      case False
      then have "io_clamp c limit count = m" using new by (simp add: clamp)
      then show ?thesis using new n m False by (auto simp: unat_gt_0)
    qed
  next
    case False
    then have "io_clamp c limit count = (if n > 65536 then 65536 else n)" by (simp add: clamp)
    then show ?thesis using False n by (auto simp: unat_gt_0)
  qed
qed

theorem io_clamp_pays_witness:
  "let c = zero_context\<lparr>c_dialect := 0x0311, c_credits := 3\<rparr> in
   needed_credits (io_clamp c 0x800000 1000000) \<le> 3 \<and> io_clamp c 0x800000 1000000 = 3 * 65536"
proof -
  let ?c = "zero_context\<lparr>c_dialect := 0x0311, c_credits := 3\<rparr>"
  have "needed_credits (io_clamp ?c 0x800000 1000000) \<le> 3" using io_clamp_pays [where count = 1000000 and limit = "0x800000" and c = ?c] by simp
  moreover have "io_clamp ?c 0x800000 1000000 = 3 * 65536" by (simp add: io_clamp_def needed_credits_def)
  ultimately show ?thesis by simp
qed

text \<open>An empty transfer wraps around and asks for all that the credits pay for.\<close>

lemma io_clamp_empty:
  assumes "c_dialect c > SMB2_VERSION_0202" "c_credits c < 1008"
  shows "io_clamp c limit 0 = of_int (c_credits c) * 65536"
proof -
  have "\<not> limit < 0" by (simp add: not_less)
  then show ?thesis using assms by (simp add: io_clamp_def needed_credits_def)
qed


subsection \<open>What opening means\<close>

text \<open>What happens to a file, which may exist: the flags as POSIX has them (\<open>O_EXCL\<close> counts with \<open>O_CREAT\<close> only), and the
  dispositions as a server does them.\<close>

datatype open_outcome = Already_there | Not_there | Opened | Emptied | Created

definition posix_open :: "u32 \<Rightarrow> bool \<Rightarrow> open_outcome" where
  "posix_open flags exists =
     (if \<not> exists then if flags AND O_CREAT = 0 then Not_there else Created
      else if flags AND O_CREAT \<noteq> 0 \<and> flags AND O_EXCL \<noteq> 0 then Already_there
      else if flags AND O_TRUNC \<noteq> 0 then Emptied else Opened)"

fun server_open :: "u32 \<Rightarrow> bool \<Rightarrow> open_outcome option" where
  "server_open disposition True =
     (if disposition = SMB2_FILE_OPEN \<or> disposition = SMB2_FILE_OPEN_IF then Some Opened
      else if disposition = SMB2_FILE_CREATE then Some Already_there
      else if disposition = SMB2_FILE_OVERWRITE \<or> disposition = SMB2_FILE_OVERWRITE_IF then Some Emptied
      else None)"
| "server_open disposition False =
     (if disposition = SMB2_FILE_OPEN \<or> disposition = SMB2_FILE_OVERWRITE then Some Not_there
      else if disposition = SMB2_FILE_CREATE \<or> disposition = SMB2_FILE_OPEN_IF \<or> disposition = SMB2_FILE_OVERWRITE_IF
      then Some Created else None)"

lemma server_open_disposition: "server_open (create_disposition flags) exists = Some (posix_open flags exists)"
  by (cases exists) (simp_all add: create_disposition_def posix_open_def)

lemma access_bits [simp]:
  "write_access AND SMB2_FILE_READ_DATA = 0" "write_access AND SMB2_FILE_WRITE_DATA \<noteq> 0"
  "read_access AND SMB2_FILE_READ_DATA \<noteq> 0" "read_access AND SMB2_FILE_WRITE_DATA = 0"
  by (simp_all add: write_access_def read_access_def)

lemma desired_access_write:
  "desired_access flags AND SMB2_FILE_WRITE_DATA \<noteq> 0 \<longleftrightarrow> flags AND O_ACCMODE = O_WRONLY \<or> flags AND O_ACCMODE = O_RDWR"
  by (simp add: desired_access_def Let_def write_access_def read_access_def)

lemma desired_access_read:
  "desired_access flags AND SMB2_FILE_READ_DATA \<noteq> 0 \<longleftrightarrow> flags AND O_ACCMODE = O_RDONLY \<or> flags AND O_ACCMODE = O_RDWR"
  by (simp add: desired_access_def Let_def write_access_def read_access_def)

text \<open>C39. The request that an open sends has the effect of the POSIX flags on a file that exists and on one that does not,
  and asks for the right to read or write the data exactly when the access mode does; whether the file must be a directory
  follows \<open>O_DIRECTORY\<close>.\<close>

theorem open_request_refines_posix:
  "let req = open_request path flags oplock_level lease_state lease_key in
   server_open (crq_create_disposition req) exists = Some (posix_open flags exists) \<and>
   (crq_desired_access req AND SMB2_FILE_READ_DATA \<noteq> 0 \<longleftrightarrow> flags AND O_ACCMODE \<in> {O_RDONLY, O_RDWR}) \<and>
   (crq_desired_access req AND SMB2_FILE_WRITE_DATA \<noteq> 0 \<longleftrightarrow> flags AND O_ACCMODE \<in> {O_WRONLY, O_RDWR}) \<and>
   (crq_create_options req AND SMB2_FILE_DIRECTORY_FILE \<noteq> 0 \<longleftrightarrow> flags AND O_DIRECTORY \<noteq> 0) \<and>
   (crq_create_options req AND SMB2_FILE_NON_DIRECTORY_FILE \<noteq> 0 \<longleftrightarrow> flags AND O_DIRECTORY = 0) \<and>
   crq_name req = Some path"
proof -
  let ?req = "open_request path flags oplock_level lease_state lease_key"
  have "crq_create_disposition ?req = create_disposition flags" "crq_desired_access ?req = desired_access flags"
    "crq_create_options ?req = create_options flags" "crq_name ?req = Some path"
    by (simp_all add: open_request_def create_request_def Let_def split: option.split)
  moreover have "create_options flags AND SMB2_FILE_DIRECTORY_FILE \<noteq> 0 \<longleftrightarrow> flags AND O_DIRECTORY \<noteq> 0"
    "create_options flags AND SMB2_FILE_NON_DIRECTORY_FILE \<noteq> 0 \<longleftrightarrow> flags AND O_DIRECTORY = 0"
    by (simp_all add: create_options_def)
  ultimately show ?thesis by (simp add: server_open_disposition desired_access_read desired_access_write)
qed


subsection \<open>What a chain reports\<close>

lemma api_simps [simp]:
  "a_heap (call_user cb r w x a) = a_heap a" "a_ctx (call_user cb r w x a) = a_ctx a"
  "a_heap (put_private p b a) = (a_heap a)(p \<mapsto> b)" "a_ctx (put_private p b a) = a_ctx a"
  "a_calls (put_private p b a) = a_calls a" "a_stat (put_private p b a) = a_stat a"
  "a_heap (free_private p a) = (a_heap a)(p := None)" "a_ctx (free_private p a) = a_ctx a"
  "a_calls (free_private p a) = a_calls a" "a_calls (call_user cb r w x a) = a_calls a @ [Call cb r w x]"
  "a_heap (on_context f a) = a_heap a" "a_calls (on_context f a) = a_calls a" "a_ctx (on_context f a) = f (a_ctx a)"
  "a_heap (api_error e a) = a_heap a" "a_calls (api_error e a) = a_calls a"
  by (simp_all add: call_user_def put_private_def free_private_def on_context_def api_error_def)

lemma put_put_private [simp]: "put_private p b (put_private p b' a) = put_private p b a"
  by (simp add: put_private_def)

lemma free_put_private [simp]: "free_private p (put_private p b a) = free_private p a"
  by (simp add: free_private_def put_private_def)

lemma call_put_private [simp]: "call_user cb r w x (put_private p b a) = put_private p b (call_user cb r w x a)"
  by (simp add: call_user_def put_private_def)

lemma put_stat_private [simp]: "put_stat st b (put_private p d a) = put_private p d (put_stat st b a)"
  by (simp add: put_stat_def put_private_def)

definition chain_status :: "u32 list \<Rightarrow> u32" where
  "chain_status ss = (case dropWhile (\<lambda>s. s = SMB2_STATUS_SUCCESS) ss of [] \<Rightarrow> SMB2_STATUS_SUCCESS | s # ss \<Rightarrow> s)"

lemma first_failure_chain: "first_failure (first_failure s\<^sub>1 s\<^sub>2) s\<^sub>3 = chain_status [s\<^sub>1, s\<^sub>2, s\<^sub>3]"
  by (simp add: first_failure_def chain_status_def)

text \<open>The three callbacks of a chain share a block, in which they keep the first failure; the last one reports it.\<close>

locale recorder =
  fixes block :: "'d \<Rightarrow> private_data" and status_of :: "'d \<Rightarrow> u32" and store :: "u32 \<Rightarrow> 'd \<Rightarrow> 'd"
    and user :: "'d \<Rightarrow> nat" and user_data :: "'d \<Rightarrow> nat" and what :: "'d \<Rightarrow> call_data"
    and cb_1 cb_2 cb_3 :: "u32 \<Rightarrow> payload option \<Rightarrow> nat \<Rightarrow> api \<Rightarrow> api option"
  assumes note_simps: "status_of (store s d) = first_failure (status_of d) s" "user (store s d) = user d"
      "user_data (store s d) = user_data d" "what (store s d) = what d"
    and cb_1: "a_heap a p = Some (block d) \<Longrightarrow> cb_1 s r p a = Some (put_private p (block (store s d)) a)"
    and cb_3: "a_heap a p = Some (block d) \<Longrightarrow>
      cb_3 s r p a = Some (free_private p (call_user (user d) (- nterror_to_errno (status_of (store s d))) (what d) (user_data d) a))"
begin

text \<open>Once the second callback has done its part, which may change what is not the block, the outcome follows.\<close>

lemma reports:
  assumes "status_of d = SMB2_STATUS_SUCCESS"
    and "cb_2 s\<^sub>2 r\<^sub>2 p (put_private p (block (store s\<^sub>1 d)) a) = Some (put_private p (block (store s\<^sub>2 (store s\<^sub>1 d))) b)"
  shows "Option.bind (cb_1 s\<^sub>1 r\<^sub>1 p (put_private p (block d) a)) (\<lambda>a. Option.bind (cb_2 s\<^sub>2 r\<^sub>2 p a) (cb_3 s\<^sub>3 r\<^sub>3 p)) =
    Some (free_private p (call_user (user d) (- nterror_to_errno (chain_status [s\<^sub>1, s\<^sub>2, s\<^sub>3])) (what d) (user_data d) b))"
proof -
  have "first_failure SMB2_STATUS_SUCCESS s\<^sub>1 = s\<^sub>1" by (simp add: first_failure_def)
  then show ?thesis
    using assms by (simp add: cb_1 [where d = d] cb_3 [where d = "store s\<^sub>2 (store s\<^sub>1 d)"] note_simps first_failure_chain)
qed

end

text \<open>The second callback of some chains reads the reply when there has been no failure, that of others never does.\<close>

locale checked_chain = recorder +
  assumes cb_2_failed: "a_heap a p = Some (block d) \<Longrightarrow> first_failure (status_of d) s \<noteq> SMB2_STATUS_SUCCESS \<Longrightarrow>
      cb_2 s r p a = Some (put_private p (block (store s d)) a)"
begin

lemma reports_failure:
  assumes "status_of d = SMB2_STATUS_SUCCESS" "s\<^sub>1 \<noteq> SMB2_STATUS_SUCCESS \<or> s\<^sub>2 \<noteq> SMB2_STATUS_SUCCESS"
  shows "Option.bind (cb_1 s\<^sub>1 r\<^sub>1 p (put_private p (block d) a)) (\<lambda>a. Option.bind (cb_2 s\<^sub>2 r\<^sub>2 p a) (cb_3 s\<^sub>3 r\<^sub>3 p)) =
    Some (free_private p (call_user (user d) (- nterror_to_errno (chain_status [s\<^sub>1, s\<^sub>2, s\<^sub>3])) (what d) (user_data d) a))"
  using assms by (intro reports) (auto simp: cb_2_failed [where d = "store s\<^sub>1 d"] note_simps first_failure_def)

end

locale silent_chain = recorder +
  assumes cb_2: "a_heap a p = Some (block d) \<Longrightarrow> cb_2 s r p a = Some (put_private p (block (store s d)) a)"
begin

lemma reports_always:
  assumes "status_of d = SMB2_STATUS_SUCCESS"
  shows "Option.bind (cb_1 s\<^sub>1 r\<^sub>1 p (put_private p (block d) a)) (\<lambda>a. Option.bind (cb_2 s\<^sub>2 r\<^sub>2 p a) (cb_3 s\<^sub>3 r\<^sub>3 p)) =
    Some (free_private p (call_user (user d) (- nterror_to_errno (chain_status [s\<^sub>1, s\<^sub>2, s\<^sub>3])) (what d) (user_data d) a))"
  using assms by (intro reports) (simp_all add: cb_2 [where d = "store s\<^sub>1 d"])

end

sublocale silent_chain \<subseteq> checked_chain
  by unfold_locales (simp add: cb_2)

interpretation trunc: silent_chain Pr_trunc tc_status note_trunc tc_cb tc_cb_data "\<lambda>d. Cd_null" trunc_cb_1 trunc_cb_2 trunc_cb_3
  by unfold_locales (simp_all add: note_trunc_def trunc_cb_1_def trunc_cb_2_def trunc_cb_3_def)

interpretation rename: silent_chain Pr_rename rn_status note_rename rn_cb rn_cb_data "\<lambda>d. Cd_null" rename_cb_1 rename_cb_2 rename_cb_3
  by unfold_locales (simp_all add: note_rename_def rename_cb_1_def rename_cb_2_def rename_cb_3_def)

interpretation getinfo: checked_chain Pr_stat sc_status note_stat sc_cb sc_cb_data "\<lambda>d. Cd_stat (sc_st d)"
    getinfo_cb_1 getinfo_cb_2 getinfo_cb_3
  by unfold_locales (simp_all add: note_stat_def getinfo_cb_1_def getinfo_cb_2_def getinfo_cb_3_def Let_def)

lemma file_callback_numbers [simp]:
  "file_callback GETINFO_CB_1 = getinfo_cb_1" "file_callback GETINFO_CB_2 = getinfo_cb_2" "file_callback GETINFO_CB_3 = getinfo_cb_3"
  "file_callback TRUNC_CB_1 = trunc_cb_1" "file_callback TRUNC_CB_2 = trunc_cb_2" "file_callback TRUNC_CB_3 = trunc_cb_3"
  "file_callback RENAME_CB_1 = rename_cb_1" "file_callback RENAME_CB_2 = rename_cb_2" "file_callback RENAME_CB_3 = rename_cb_3"
  "file_callback CREATE_CB_1 = create_cb_1" "file_callback CREATE_CB_2 = create_cb_2"
  "file_callback READLINK_CB_1 = readlink_cb_1" "file_callback READLINK_CB_2 = readlink_cb_2"
  "file_callback READLINK_CB_3 = readlink_cb_3"
  by (simp_all add: file_callback_def file_callbacks_def)

lemma deliver_three:
  "deliver p [(c\<^sub>1, s\<^sub>1, r\<^sub>1), (c\<^sub>2, s\<^sub>2, r\<^sub>2), (c\<^sub>3, s\<^sub>3, r\<^sub>3)] a =
     Option.bind (file_callback c\<^sub>1 s\<^sub>1 r\<^sub>1 p a) (\<lambda>a. Option.bind (file_callback c\<^sub>2 s\<^sub>2 r\<^sub>2 p a) (file_callback c\<^sub>3 s\<^sub>3 r\<^sub>3 p))"
  by (simp split: option.split)

text \<open>C36. Whatever the three replies to a truncate or a rename are, and whatever they carry, the application is called exactly
  once, with the error number of the first that failed (0 when none has), and then the block of the operation is freed.\<close>

theorem chains_report_first_failure:
  "deliver p [(TRUNC_CB_1, s\<^sub>1, r\<^sub>1), (TRUNC_CB_2, s\<^sub>2, r\<^sub>2), (TRUNC_CB_3, s\<^sub>3, r\<^sub>3)]
     (put_private p (Pr_trunc \<lparr>tc_cb = cb, tc_cb_data = x, tc_status = SMB2_STATUS_SUCCESS, tc_length = len\<rparr>) a) =
     Some (free_private p (call_user cb (- nterror_to_errno (chain_status [s\<^sub>1, s\<^sub>2, s\<^sub>3])) Cd_null x a)) \<and>
   deliver p [(RENAME_CB_1, s\<^sub>1, r\<^sub>1), (RENAME_CB_2, s\<^sub>2, r\<^sub>2), (RENAME_CB_3, s\<^sub>3, r\<^sub>3)]
     (put_private p (Pr_rename \<lparr>rn_newpath = path, rn_cb = cb, rn_cb_data = x, rn_status = SMB2_STATUS_SUCCESS\<rparr>) a) =
     Some (free_private p (call_user cb (- nterror_to_errno (chain_status [s\<^sub>1, s\<^sub>2, s\<^sub>3])) Cd_null x a))"
  by (simp only: deliver_three file_callback_numbers)
    (simp add: trunc.reports_always rename.reports_always)

lemma getinfo_reports_failure:
  assumes "s\<^sub>1 \<noteq> SMB2_STATUS_SUCCESS \<or> s\<^sub>2 \<noteq> SMB2_STATUS_SUCCESS"
  shows "deliver p [(GETINFO_CB_1, s\<^sub>1, r\<^sub>1), (GETINFO_CB_2, s\<^sub>2, r\<^sub>2), (GETINFO_CB_3, s\<^sub>3, r\<^sub>3)]
     (put_private p (Pr_stat (new_stat_data cb x info_type file_info_class st)) a) =
     Some (free_private p (call_user cb (- nterror_to_errno (chain_status [s\<^sub>1, s\<^sub>2, s\<^sub>3])) (Cd_stat st) x a))"
  using getinfo.reports_failure [of "new_stat_data cb x info_type file_info_class st"] assms
  by (simp only: deliver_three file_callback_numbers) (simp add: new_stat_data_def)



definition sample_info :: smb2_file_all_info where
  "sample_info = (let t = \<lparr>tv_sec = 1700000000, tv_usec = 5\<rparr> in
     \<lparr>fai_basic = \<lparr>fbi_creation_time = t, fbi_last_access_time = t, fbi_last_write_time = t, fbi_change_time = t,
                    fbi_file_attributes = SMB2_FILE_ATTRIBUTE_DIRECTORY\<rparr>,
      fai_standard = \<lparr>fsi_allocation_size = 4096, fsi_end_of_file = 17, fsi_number_of_links = 1, fsi_delete_pending = 0,
                       fsi_directory = 1\<rparr>,
      fai_index_number = 9, fai_ea_size = 0, fai_access_flags = 0, fai_current_byte_offset = 0, fai_mode = 0,
      fai_alignment_requirement = 0, fai_name = None\<rparr>)"

definition empty_api :: api where
  "empty_api = \<lparr>a_ctx = zero_context, a_heap = Map.empty, a_stat = Map.empty, a_calls = []\<rparr>"


text \<open>Without a reply \<open>fstat_cb_1\<close> faults, where the timers and the end of the context call it without one.\<close>

lemma fstat_without_reply: "fstat_cb_1 status None p a = None"
  by (simp add: fstat_cb_1_def)

text \<open>A reply with another control code than \<open>FSCTL_GET_REPARSE_POINT\<close> leaves raw bytes, which are then used as the
  decoded structure.\<close>

lemma readlink_of_raw_output:
  assumes "rl_status d = SMB2_STATUS_SUCCESS" "ior_output rep = Io_raw b"
  shows "deliver p [(READLINK_CB_1, 0, r\<^sub>1), (READLINK_CB_2, 0, Some (P_ioctl_reply rep)), (READLINK_CB_3, s\<^sub>3, r\<^sub>3)]
    (put_private p (Pr_readlink d) a) = None"
  using assms
  by (simp only: deliver_three file_callback_numbers)
    (simp add: readlink_cb_1_def readlink_cb_2_def readlink_cb_3_def Let_def)

text \<open>A seek from the end that fails has already moved the offset.\<close>

lemma failed_seek_moves:
  assumes "p \<noteq> 0" "a_heap a p = Some (Pr_fh fh)" "in_int64 (fh_end_of_file fh + offset)" "fh_end_of_file fh + offset < 0"
  shows "\<exists>b. smb2_lseek p offset SEEK_END a = Some (- EINVAL, None, b) \<and>
    a_heap b p = Some (Pr_fh (fh\<lparr>fh_offset := fh_end_of_file fh\<rparr>))"
  using assms by (simp add: smb2_lseek_def seek_from_def Let_def)


subsection \<open>What an operation leaves behind\<close>

text \<open>The encoders leave the callback of a PDU alone.\<close>

definition cb_kept :: "smb2_pdu \<Rightarrow> int \<times> smb2_context \<times> smb2_pdu \<Rightarrow> bool" where
  "cb_kept p r \<longleftrightarrow> p_cb (snd (snd r)) = p_cb p \<and> p_cb_data (snd (snd r)) = p_cb_data p"

named_theorems cb_kept

lemma cb_kept_result [cb_kept]: "cb_kept p (rc, c, p)" "cb_kept p (rc, c, p\<lparr>p_info_type := i, p_file_info_class := j\<rparr>)"
  by (simp_all add: cb_kept_def)

lemma cb_kept_vectors [cb_kept]:
  "cb_kept p (encode_fixed no_mem no_vec n fill c p)" "cb_kept p (encode_buffer no_mem no_vec n buf c p)"
  "cb_kept p (encode_static no_vec buf f c p)"
  by (auto simp: cb_kept_def encode_fixed_def encode_buffer_def encode_static_def split: prod.split option.split)

lemma cb_kept_and_then [cb_kept]:
  assumes "cb_kept p r" "\<And>c q. cb_kept q (f c q)"
  shows "cb_kept p (and_then r f)"
proof -
  obtain rc c q where r: "r = (rc, c, q)" by (cases r)
  show ?thesis using assms(1) assms(2) [of q c] by (simp add: r and_then_def cb_kept_def)
qed

lemma cb_kept_create [cb_kept]: "cb_kept p (smb2_encode_create_request c p req)"
  unfolding smb2_encode_create_request_def Let_def encode_create_context_def
  by (auto intro!: cb_kept split: option.split)

lemma cb_kept_set_info [cb_kept]: "cb_kept p (smb2_encode_set_info_request c p req)"
  unfolding smb2_encode_set_info_request_def Let_def
  by (auto intro!: cb_kept split: sum.split)

lemma cb_kept_simple [cb_kept]:
  "cb_kept p (smb2_encode_close_request c p clr)" "cb_kept p (smb2_encode_query_info_request c p qir)"
  "cb_kept p (smb2_encode_ioctl_request c p ior)" "cb_kept p (smb2_encode_echo_request c p)"
  "cb_kept p (smb2_encode_tree_disconnect_request c p)"
  by (auto simp: smb2_encode_close_request_def smb2_encode_query_info_request_def smb2_encode_ioctl_request_def
      smb2_encode_echo_request_def smb2_encode_tree_disconnect_request_def intro!: cb_kept)

definition gives :: "nat \<Rightarrow> nat \<Rightarrow> (smb2_context \<Rightarrow> smb2_context \<times> smb2_pdu option) \<Rightarrow> bool" where
  "gives cb x f \<longleftrightarrow> (\<forall>c c' p. f c = (c', Some p) \<longrightarrow> p_cb p = cb \<and> p_cb_data p = x)"

lemma gives_cmd_pdu:
  assumes "\<And>c q. cb_kept q (encode c q)"
  shows "gives cb x (\<lambda>c. cmd_pdu command encode c cb x)"
proof -
  have kept: "p_cb q' = p_cb q \<and> p_cb_data q' = p_cb_data q" if "encode c q = (rc, c', q')" for c q rc c' q'
    using assms [of q c] that by (simp add: cb_kept_def)
  have "p_cb p = cb \<and> p_cb_data p = x" if "smb2_allocate_pdu c command cb x = (c', Some p)" for c c' p
    using that by (auto simp: smb2_allocate_pdu_def Let_def split: if_splits prod.splits option.splits)
  then show ?thesis
    unfolding gives_def cmd_pdu_def using kept by (fastforce split: prod.splits option.splits if_splits)
qed

lemma gives_commands:
  "gives cb x (\<lambda>c. smb2_cmd_create_async c crq cb x)" "gives cb x (\<lambda>c. smb2_cmd_close_async c clq cb x)"
  "gives cb x (\<lambda>c. smb2_cmd_query_info_async c qiq cb x)" "gives cb x (\<lambda>c. smb2_cmd_set_info_async c siq cb x)"
  "gives cb x (\<lambda>c. smb2_cmd_ioctl_async c ioq cb x)" "gives cb x (\<lambda>c. smb2_cmd_echo_async c cb x)"
  unfolding smb2_cmd_create_async_def smb2_cmd_close_async_def smb2_cmd_query_info_async_def smb2_cmd_set_info_async_def
    smb2_cmd_ioctl_async_def smb2_cmd_echo_async_def
  by (intro gives_cmd_pdu cb_kept)+

lemma issue_result: "issue f a = (r, b) \<Longrightarrow> a_heap b = a_heap a \<and> a_calls b = a_calls a"
  by (auto simp: issue_def split: prod.splits)

lemma chain_command_rule:
  assumes "gives k x f"
    and "\<And>b. a_heap b = a_heap a \<Longrightarrow> a_calls b = a_calls a \<Longrightarrow> P (failed ps b)"
    and "\<And>b pdu. a_heap b = a_heap a \<Longrightarrow> a_calls b = a_calls a \<Longrightarrow> p_cb pdu = k \<Longrightarrow> p_cb_data pdu = x \<Longrightarrow>
      P (continue (smb2_add_compound_pdu ps [pdu]) b)"
  shows "P (chain_command f failed continue ps a)"
proof -
  obtain r b where i: "issue f a = (r, b)" by (cases "issue f a")
  note same = issue_result [OF i]
  show ?thesis
  proof (cases r)
    case None
    then show ?thesis using assms(2) same by (simp add: chain_command_def i)
  next
    case (Some pdu)
    then have "p_cb pdu = k \<and> p_cb_data pdu = x" using i assms(1) by (auto simp: issue_def gives_def split: prod.splits)
    then show ?thesis using assms(3) same Some by (simp add: chain_command_def i)
  qed
qed

lemma add_compound_callbacks [simp]:
  "map p_cb (smb2_add_compound_pdu ps [n]) = map p_cb ps @ [p_cb n]"
  "map p_cb_data (smb2_add_compound_pdu ps [n]) = map p_cb_data ps @ [p_cb_data n]"
  by (induction ps "[n]" rule: smb2_add_compound_pdu.induct) (simp_all add: Let_def)

definition queues_or_frees :: "private_data \<Rightarrow> nat list \<Rightarrow> api \<Rightarrow> int \<times> api \<Rightarrow> bool" where
  "queues_or_frees block cbs a r \<longleftrightarrow>
     (case r of (rc, b) \<Rightarrow>
        if rc = 0
        then (\<exists>c ps. a_ctx b = smb2_queue_pdu c ps \<and> map p_cb ps = cbs \<and>
               map p_cb_data ps = replicate (length cbs) (c_next_ptr (a_ctx a)) \<and>
               a_heap b = (a_heap a)(c_next_ptr (a_ctx a) \<mapsto> block) \<and> a_calls b = a_calls a)
        else rc < 0 \<and> a_heap b = a_heap a)"

lemma queues_whole:
  assumes "map p_cb ps = cbs" "map p_cb_data ps = replicate (length cbs) (c_next_ptr (a_ctx a))"
    "a_heap b = (a_heap a)(c_next_ptr (a_ctx a) \<mapsto> block)" "a_calls b = a_calls a"
  shows "queues_or_frees block cbs a (queue_whole ps b)"
  using assms unfolding queues_or_frees_def queue_whole_def queue_chain_def by auto

lemma frees:
  assumes "a_heap b = a_heap a" "rc < 0"
  shows "queues_or_frees block cbs a (rc, b)"
  using assms by (simp add: queues_or_frees_def)

lemma new_private_result:
  "new_private n b a = (if c_mem_ok (a_ctx a) n
     then (put_private (c_next_ptr (a_ctx a)) b (on_context (\<lambda>c. c\<lparr>c_next_ptr := c_next_ptr (a_ctx a) + 1\<rparr>) a),
           Some (c_next_ptr (a_ctx a)))
     else (a, None))"
  by (simp add: new_private_def Let_def)

lemma heap_free_chain [simp]: "a_heap (free_chain ps a) = a_heap a" "a_calls (free_chain ps a) = a_calls a"
  by (simp_all add: free_chain_def)


lemma three_commands:
  assumes "gives k\<^sub>1 p f\<^sub>1" "gives k\<^sub>2 p f\<^sub>2" "gives k\<^sub>3 p f\<^sub>3"
    and p: "p = c_next_ptr (a_ctx a)" "a_heap b = (a_heap a)(p \<mapsto> block)" "a_calls b = a_calls a"
    and failed: "\<And>ps b. a_heap b = (a_heap a)(p \<mapsto> block) \<Longrightarrow>
      queues_or_frees block [k\<^sub>1, k\<^sub>2, k\<^sub>3] a (failed\<^sub>1 ps b) \<and> queues_or_frees block [k\<^sub>1, k\<^sub>2, k\<^sub>3] a (failed\<^sub>2 ps b) \<and>
      queues_or_frees block [k\<^sub>1, k\<^sub>2, k\<^sub>3] a (failed\<^sub>3 ps b)"
  shows "queues_or_frees block [k\<^sub>1, k\<^sub>2, k\<^sub>3] a
    (chain_command f\<^sub>1 failed\<^sub>1 (chain_command f\<^sub>2 failed\<^sub>2 (chain_command f\<^sub>3 failed\<^sub>3 queue_whole)) [] b)"
proof (rule chain_command_rule [OF assms(1)])
  fix b\<^sub>1 :: api and p\<^sub>1 :: smb2_pdu assume 1: "a_heap b\<^sub>1 = a_heap b" "a_calls b\<^sub>1 = a_calls b" "p_cb p\<^sub>1 = k\<^sub>1" "p_cb_data p\<^sub>1 = p"
  show "queues_or_frees block [k\<^sub>1, k\<^sub>2, k\<^sub>3] a
    (chain_command f\<^sub>2 failed\<^sub>2 (chain_command f\<^sub>3 failed\<^sub>3 queue_whole) (smb2_add_compound_pdu [] [p\<^sub>1]) b\<^sub>1)"
  proof (rule chain_command_rule [OF assms(2)])
    fix b\<^sub>2 :: api and p\<^sub>2 :: smb2_pdu assume 2: "a_heap b\<^sub>2 = a_heap b\<^sub>1" "a_calls b\<^sub>2 = a_calls b\<^sub>1" "p_cb p\<^sub>2 = k\<^sub>2" "p_cb_data p\<^sub>2 = p"
    show "queues_or_frees block [k\<^sub>1, k\<^sub>2, k\<^sub>3] a (chain_command f\<^sub>3 failed\<^sub>3 queue_whole
      (smb2_add_compound_pdu (smb2_add_compound_pdu [] [p\<^sub>1]) [p\<^sub>2]) b\<^sub>2)"
    proof (rule chain_command_rule [OF assms(3)])
      fix b\<^sub>3 :: api and p\<^sub>3 :: smb2_pdu assume 3: "a_heap b\<^sub>3 = a_heap b\<^sub>2" "a_calls b\<^sub>3 = a_calls b\<^sub>2" "p_cb p\<^sub>3 = k\<^sub>3" "p_cb_data p\<^sub>3 = p"
      show "queues_or_frees block [k\<^sub>1, k\<^sub>2, k\<^sub>3] a (queue_whole
        (smb2_add_compound_pdu (smb2_add_compound_pdu (smb2_add_compound_pdu [] [p\<^sub>1]) [p\<^sub>2]) [p\<^sub>3]) b\<^sub>3)"
        by (rule queues_whole) (use p 1 2 3 in \<open>simp_all del: smb2_add_compound_pdu.simps add: smb2_add_compound_pdu.simps(1)\<close>)
    qed (use p 1 2 failed in simp)
  qed (use p 1 failed in simp)
qed (use p failed in simp)



text \<open>\<open>unlink\<close>, \<open>rmdir\<close> and \<open>mkdir\<close> leave their block behind when the first command cannot be created.\<close>

lemma unlink_leaks:
  assumes "c_mem_ok (a_ctx a) SIZEOF_CREATE_CB_DATA" "\<not> c_mem_ok (a_ctx a) SIZEOF_SMB2_PDU"
  shows "\<exists>b. smb2_unlink_async path cb x a = (- ENOMEM, b) \<and>
    a_heap b (c_next_ptr (a_ctx a)) = Some (Pr_create \<lparr>cd_cb = cb, cd_cb_data = x\<rparr>) \<and> a_calls b = a_calls a"
  using assms
  by (simp add: smb2_unlink_async_def smb2_unlink_internal_def create_and_close_def new_private_result chain_command_def
      issue_def smb2_cmd_create_async_def cmd_pdu_def smb2_allocate_pdu_def)

end
