(* ===== verification/Spec2Isabelle.thy ===== *)
theory Spec2Isabelle
  imports Smb2_Unicode Smb2_Queue Smb2_Cmd_Basic Smb2_Cmd_IO Smb2_Cmd_Session Smb2_Security Smb2_Cmd_Negotiate Smb2_Stream Smb2_Files
begin

text \<open>
  A model of \<^verbatim>\<open>libsmb2\<close>, a userspace SMB2/3 client and server library in C.
\<close>

end
